(* ===== verification/Go_Prelude.thy ===== *)
theory Go_Prelude
  imports Main "HOL-Library.Word" "HOL-Library.Multiset" "HOL-Library.Product_Lexorder"
begin

text \<open>
  The prelude of the development: the Go notions every component shares.
  \<^item> Machine integers: \<open>uint64\<close> is a 64-bit word, Go's \<open>int\<close> is an \<open>int\<close> (the
    conversions \<open>int(x)\<close> and \<open>uint64(x)\<close> are written out), \<open>*big.Int\<close> is \<open>int\<close>.
  \<^item> \<open>[]byte\<close> is a list of bytes, a Go \<open>string\<close> a char list, \<open>time.Time\<close> the number of
    nanoseconds since Go's zero time, so that \<open>t.IsZero()\<close> is \<open>t = 0\<close>.
  \<^item> A run-time panic (or \<open>log.Panic\<close>) is a value of the left summand of \<open>'a go\<close>; so is
    \<open>Blocked\<close>, for a function that has not returned because it still waits.
  \<^item> A Go map is a partial function. The order in which \<open>range\<close> visits it is not specified
    by the language, so a loop over a map takes the order as a list argument \<open>ord\<close>, and
    \<open>ranges_over ord m\<close> says that it lists the keys of \<open>m\<close> without repetition.
  \<^item> A \<open>range\<close> loop over a slice is \<open>go_fold\<close> (body may panic) or \<open>go_foldi\<close> (the body
    also uses the index).
\<close>

named_theorems go_simps \<open>the panic monad and the loops, unfolded\<close>

section \<open>Types\<close>

type_synonym u64 = "64 word"
type_synonym bytes = "8 word list"
type_synonym address = string
type_synonym gotime = int

datatype go_panic =
    NilMapWrite
  | IndexOutOfRange
  | NilDeref
  | DivByZero
  | UnlockOfUnlocked
  | Blocked
  | LogPanic string

type_synonym 'a go = "go_panic + 'a"

section \<open>Sequencing and loops\<close>

definition and_then :: "'a go \<Rightarrow> ('a \<Rightarrow> 'b go) \<Rightarrow> 'b go" where
  "and_then m f = (case m of Inl e \<Rightarrow> Inl e | Inr x \<Rightarrow> f x)"

definition is_panic :: "'a go \<Rightarrow> bool" where
  "is_panic m = (case m of Inl e \<Rightarrow> True | Inr x \<Rightarrow> False)"

fun go_fold :: "('a \<Rightarrow> 's \<Rightarrow> 's go) \<Rightarrow> 'a list \<Rightarrow> 's \<Rightarrow> 's go" where
  "go_fold f [] s = Inr s"
| "go_fold f (x # xs) s = and_then (f x s) (go_fold f xs)"

fun go_foldi :: "(nat \<Rightarrow> 'a \<Rightarrow> 's \<Rightarrow> 's go) \<Rightarrow> nat \<Rightarrow> 'a list \<Rightarrow> 's \<Rightarrow> 's go" where
  "go_foldi f i [] s = Inr s"
| "go_foldi f i (x # xs) s = and_then (f i x s) (go_foldi f (Suc i) xs)"

section \<open>Integers, slices, maps\<close>

definition go_mod :: "int \<Rightarrow> int \<Rightarrow> int go" where
  \<comment> \<open>Go's \<open>%\<close> truncates towards zero: the result has the sign of the dividend.\<close>
  "go_mod a b = (if b = 0 then Inl DivByZero else Inr (sgn a * (\<bar>a\<bar> mod \<bar>b\<bar>)))"

definition go_quot :: "int \<Rightarrow> int \<Rightarrow> int" where
  \<comment> \<open>Go's \<open>/\<close> by a positive constant: division towards zero\<close>
  "go_quot a b = sgn a * (\<bar>a\<bar> div b)"

definition go_nth :: "'a list \<Rightarrow> int \<Rightarrow> 'a go" where
  "go_nth xs i = (if 0 \<le> i \<and> i < int (length xs) then Inr (xs ! nat i) else Inl IndexOutOfRange)"

definition u64_of_nat :: "nat \<Rightarrow> u64" where
  "u64_of_nat n = of_nat n"

definition to_int32 :: "int \<Rightarrow> int" where
  \<comment> \<open>the conversion \<open>int32(x)\<close>\<close>
  "to_int32 x = signed_take_bit 31 x"

definition ranges_over :: "'k list \<Rightarrow> ('k \<rightharpoonup> 'v) \<Rightarrow> bool" where
  "ranges_over ord m \<longleftrightarrow> distinct ord \<and> set ord = dom m"

definition map_default :: "'v \<Rightarrow> ('k \<rightharpoonup> 'v) \<Rightarrow> 'k \<Rightarrow> 'v" where
  \<comment> \<open>Reading a missing key of a Go map gives the zero value of the value type.\<close>
  "map_default d m k = (case m k of None \<Rightarrow> d | Some v \<Rightarrow> v)"

section \<open>Lemmas shared by the components\<close>

lemma and_then_simps [simp, go_simps]:
  "and_then (Inl e) f = Inl e"
  "and_then (Inr x) f = f x"
  by (simp_all add: and_then_def)

lemma and_then_Inr: "and_then m f = Inr y \<longleftrightarrow> (\<exists>x. m = Inr x \<and> f x = Inr y)"
  by (cases m) auto

lemma and_then_Inl: "and_then m f = Inl e \<longleftrightarrow> m = Inl e \<or> (\<exists>x. m = Inr x \<and> f x = Inl e)"
  by (cases m) auto

lemma and_then_cong [fundef_cong]:
  "m = m' \<Longrightarrow> (\<And>x. m' = Inr x \<Longrightarrow> f x = g x) \<Longrightarrow> and_then m f = and_then m' g"
  by (cases m') auto

lemma is_panic_simps [simp]: "is_panic (Inl e)" "\<not> is_panic (Inr x)"
  by (simp_all add: is_panic_def)

lemma not_panic_iff: "\<not> is_panic m \<longleftrightarrow> (\<exists>x. m = Inr x)"
  by (cases m) auto

lemma go_fold_append: "go_fold f (xs @ ys) s = and_then (go_fold f xs s) (go_fold f ys)"
proof (induction xs arbitrary: s)
  case (Cons x xs)
  then show ?case by (cases "f x s") auto
qed simp

text \<open>The loop rule for partial correctness: an invariant of the body is one of the loop.\<close>

lemma go_fold_inv:
  assumes "go_fold f xs s = Inr s'" and "P s"
    and "\<And>x t t'. x \<in> set xs \<Longrightarrow> P t \<Longrightarrow> f x t = Inr t' \<Longrightarrow> P t'"
  shows "P s'"
  using assms
proof (induction xs arbitrary: s)
  case (Cons x xs)
  then obtain t where "f x s = Inr t" and "go_fold f xs t = Inr s'"
    by (auto simp: and_then_Inr)
  with Cons show ?case by (meson list.set_intros)
qed simp

lemma go_foldi_inv:
  assumes "go_foldi f i xs s = Inr s'" and "P s"
    and "\<And>j x t t'. x \<in> set xs \<Longrightarrow> P t \<Longrightarrow> f j x t = Inr t' \<Longrightarrow> P t'"
  shows "P s'"
  using assms
proof (induction xs arbitrary: s i)
  case (Cons x xs)
  then obtain t where "f i x s = Inr t" and "go_foldi f (Suc i) xs t = Inr s'"
    by (auto simp: and_then_Inr)
  with Cons show ?case by (meson list.set_intros)
qed simp

text \<open>The loop rule for total correctness: a body that never panics under the invariant.\<close>

lemma go_fold_total:
  assumes "P s"
    and "\<And>x t. x \<in> set xs \<Longrightarrow> P t \<Longrightarrow> \<exists>t'. f x t = Inr t' \<and> P t'"
  shows "\<exists>s'. go_fold f xs s = Inr s' \<and> P s'"
  using assms
proof (induction xs arbitrary: s)
  case (Cons x xs)
  then obtain t where "f x s = Inr t" "P t" by (meson list.set_intros(1))
  with Cons.IH [of t] Cons.prems show ?case by auto
qed simp

lemma go_foldi_total:
  assumes "P s"
    and "\<And>j x t. x \<in> set xs \<Longrightarrow> P t \<Longrightarrow> \<exists>t'. f j x t = Inr t' \<and> P t'"
  shows "\<exists>s'. go_foldi f i xs s = Inr s' \<and> P s'"
  using assms
proof (induction xs arbitrary: s i)
  case (Cons x xs)
  then obtain t where "f i x s = Inr t" "P t" by (meson list.set_intros(1))
  with Cons.IH [of t "Suc i"] Cons.prems show ?case by auto
qed simp

lemma go_fold_pure: "go_fold (\<lambda>x s. Inr (g x s)) xs s = Inr (fold g xs s)"
  by (induction xs arbitrary: s) auto

lemma go_nth_Inr: "go_nth xs i = Inr x \<longleftrightarrow> 0 \<le> i \<and> i < int (length xs) \<and> x = xs ! nat i"
  by (auto simp: go_nth_def)

lemma go_nth_in_set: "go_nth xs i = Inr x \<Longrightarrow> x \<in> set xs"
  by (auto simp: go_nth_Inr nth_mem)

lemma go_mod_nonneg:
  "0 \<le> a \<Longrightarrow> 0 < b \<Longrightarrow> go_mod a b = Inr (a mod b)"
  by (cases "a = 0") (auto simp: go_mod_def)

lemma ranges_over_perm:
  "ranges_over ord m \<Longrightarrow> ranges_over ord' m \<Longrightarrow> mset ord = mset ord'"
  by (metis ranges_over_def set_eq_iff_mset_eq_distinct)

lemma ranges_over_finite: "ranges_over ord m \<Longrightarrow> finite (dom m)"
  by (metis List.finite_set ranges_over_def)

lemma ranges_over_sum:
  "ranges_over ord m \<Longrightarrow> sum_list (map f ord) = sum f (dom m)"
  by (metis ranges_over_def sum_list_distinct_conv_sum_set)

lemma map_default_upd [simp]:
  "map_default d (m(k \<mapsto> v)) k' = (if k' = k then v else map_default d m k')"
  by (simp add: map_default_def)

lemma map_default_empty [simp]: "map_default d Map.empty k = d"
  by (simp add: map_default_def)

lemma map_default_Some: "m k = Some v \<Longrightarrow> map_default d m k = v"
  by (simp add: map_default_def)

text \<open>In a sorted list without repetition, the elements below the one at \<open>k\<close> are the first \<open>k\<close>.\<close>

lemma sorted_take_less:
  fixes xs :: "'a :: linorder list"
  assumes "sorted xs" and "distinct xs" and "k < length xs"
  shows "{x \<in> set xs. x < xs ! k} = set (take k xs)"
proof -
  have st: "sorted_wrt (<) xs" using assms(1,2) by (simp add: strict_sorted_iff)
  then have less: "xs ! i < xs ! j" if "i < j" "j < length xs" for i j
    using that by (simp add: sorted_wrt_iff_nth_less)
  have iff: "xs ! i < xs ! k \<longleftrightarrow> i < k" if "i < length xs" for i
    using less [of i k] less [of k i] that assms(3)
    by (metis linorder_neqE_nat order_less_asym order_less_irrefl)
  have "set (take k xs) = {xs ! i | i. i < k}"
    using assms(3) by (auto simp flip: nth_image [of k xs])
  also have "\<dots> = {x \<in> set xs. x < xs ! k}"
  proof (intro set_eqI iffI)
    fix x assume "x \<in> {xs ! i | i. i < k}"
    then show "x \<in> {x \<in> set xs. x < xs ! k}" using assms(3) iff by auto
  next
    fix x assume "x \<in> {x \<in> set xs. x < xs ! k}"
    then obtain i where "i < length xs" "x = xs ! i" "xs ! i < xs ! k"
      by (auto simp: in_set_conv_nth)
    then show "x \<in> {xs ! i | i. i < k}" using iff by blast
  qed
  finally show ?thesis by simp
qed

end
