(* ===== verification/Core_Types.thy ===== *)
theory Core_Types
  imports Go_Prelude
begin

text \<open>
  The data model of the emulator: \<open>core/account.go\<close>, \<open>core/transaction.go\<close>,
  \<open>core/block.go\<close>, \<open>params/\<close> and the address helpers of \<open>utils/\<close>.
  The record \<open>go_env\<close> collects what the code takes from outside \<open>src/\<close> or from the run
  (hash functions over encoded values, the Merkle roots of go-ethereum's trie) as functions the
  definitions receive, together with the global variables of \<open>params\<close> they read.
\<close>

section \<open>Accounts, transactions, blocks\<close>

record account_state =
  as_AcAddress :: address
  as_Nonce :: u64
  as_Balance :: int
  as_StorageRoot :: bytes
  as_CodeHash :: bytes

definition new_account :: "u64 \<Rightarrow> int \<Rightarrow> account_state" where
  \<comment> \<open>the composite literal \<open>&core.AccountState{Nonce: n, Balance: b}\<close>\<close>
  "new_account n b = \<lparr>as_AcAddress = '''', as_Nonce = n, as_Balance = b,
     as_StorageRoot = [], as_CodeHash = []\<rparr>"

definition Deduct :: "account_state \<Rightarrow> int \<Rightarrow> account_state \<times> bool" where
  "Deduct as val =
     (if as_Balance as < val then (as, False)
      else (as\<lparr>as_Balance := as_Balance as - val\<rparr>, True))"

definition Deposit :: "account_state \<Rightarrow> int \<Rightarrow> account_state" where
  "Deposit s value = s\<lparr>as_Balance := as_Balance s + value\<rparr>"

record transaction =
  tx_Sender :: address
  tx_Recipient :: address
  tx_Nonce :: u64
  tx_Signature :: bytes
  tx_Value :: int
  tx_TxHash :: bytes
  tx_Time :: gotime
  tx_Relayed :: bool
  tx_HasBroker :: bool
  tx_SenderIsBroker :: bool
  tx_OriginalSender :: address
  tx_FinalRecipient :: address
  tx_RawTxHash :: "bytes option"
  tx_G2EEnabled :: bool
  tx_G2EMeta :: bytes
  tx_Height :: u64
  tx_PairI :: u64
  tx_PairJ :: u64

record block_header =
  bh_ParentBlockHash :: bytes
  bh_StateRoot :: bytes
  bh_TxRoot :: bytes
  bh_Bloom :: "nat set"
  bh_Number :: u64
  bh_Time :: gotime
  bh_Miner :: "32 word"

record block =
  b_Header :: block_header
  b_Body :: "transaction list"
  b_Hash :: bytes

definition NewBlock :: "block_header \<Rightarrow> transaction list \<Rightarrow> block" where
  "NewBlock bh bb = \<lparr>b_Header = bh, b_Body = bb, b_Hash = []\<rparr>"

section \<open>Configuration and environment\<close>

record chain_config =
  cc_ChainID :: u64
  cc_NodeID :: u64
  cc_ShardID :: u64
  cc_Nodes_perShard :: u64
  cc_ShardNums :: u64
  cc_BlockSize :: u64
  cc_BlockInterval :: u64
  cc_InjectSpeed :: u64
  cc_MaxRelayBlockSize :: u64

type_synonym state_trie = "address \<rightharpoonup> account_state"

record go_env =
  hash_header :: "block_header \<Rightarrow> bytes"
  hash_tx :: "transaction \<Rightarrow> bytes"
  state_root :: "state_trie \<Rightarrow> bytes"
  keys_root :: "bytes set \<Rightarrow> bytes"
  ShardNum :: int
  UseBlocksizeInBytes :: int
  BlocksizeInBytes :: int
  RelayWithMerkleProof :: int
  InjectSpeed :: int
  G2E_Beta :: u64

definition Init_Balance :: int where
  "Init_Balance = 100000000000000000000000000000000000000000000"

section \<open>Construction of transactions\<close>

definition raw_transaction ::
  "address \<Rightarrow> address \<Rightarrow> int \<Rightarrow> u64 \<Rightarrow> gotime \<Rightarrow> u64 \<Rightarrow> u64 \<Rightarrow> u64 \<Rightarrow> transaction" where
  \<comment> \<open>the composite literal of \<open>NewTransaction\<close>: every other field has its zero value\<close>
  "raw_transaction sender recipient value nonce proposeTime height pair_i pair_j =
     \<lparr>tx_Sender = sender, tx_Recipient = recipient, tx_Nonce = nonce, tx_Signature = [],
      tx_Value = value, tx_TxHash = [], tx_Time = proposeTime, tx_Relayed = False,
      tx_HasBroker = False, tx_SenderIsBroker = False, tx_OriginalSender = '''',
      tx_FinalRecipient = '''', tx_RawTxHash = None, tx_G2EEnabled = False, tx_G2EMeta = [],
      tx_Height = height, tx_PairI = pair_i, tx_PairJ = pair_j\<rparr>"

definition NewTransaction ::
  "go_env \<Rightarrow> address \<Rightarrow> address \<Rightarrow> int \<Rightarrow> u64 \<Rightarrow> gotime \<Rightarrow> u64 \<Rightarrow> u64 \<Rightarrow> u64 \<Rightarrow> transaction" where
  "NewTransaction E sender recipient value nonce proposeTime height pair_i pair_j =
     (let tx = raw_transaction sender recipient value nonce proposeTime height pair_i pair_j;
          hash = hash_tx E tx
      in tx\<lparr>tx_TxHash := hash, tx_Relayed := False, tx_FinalRecipient := '''',
            tx_OriginalSender := '''', tx_RawTxHash := None, tx_HasBroker := False,
            tx_SenderIsBroker := False, tx_G2EEnabled := True\<rparr>)"

section \<open>Address helpers\<close>

definition hex_digit :: "char \<Rightarrow> nat option" where
  "hex_digit c =
     (let n = of_char c :: nat in
      if 48 \<le> n \<and> n \<le> 57 then Some (n - 48)
      else if 97 \<le> n \<and> n \<le> 102 then Some (n - 87)
      else if 65 \<le> n \<and> n \<le> 70 then Some (n - 55)
      else None)"

fun hex_value :: "nat \<Rightarrow> string \<Rightarrow> nat option" where
  "hex_value acc [] = Some acc"
| "hex_value acc (c # cs) =
     (case hex_digit c of None \<Rightarrow> None | Some d \<Rightarrow> hex_value (16 * acc + d) cs)"

definition ParseUint16 :: "string \<Rightarrow> nat option" where
  \<comment> \<open>\<open>strconv.ParseUint(s, 16, 64)\<close>: an empty string, a character that is not a hexadecimal
    digit and a value of more than 64 bits are errors\<close>
  "ParseUint16 s =
     (if s = [] then None
      else case hex_value 0 s of None \<Rightarrow> None
           | Some v \<Rightarrow> if v < 2 ^ 64 then Some v else None)"

definition last8 :: "address \<Rightarrow> string" where
  "last8 addr = (if 8 < length addr then drop (length addr - 8) addr else addr)"

definition Addr2Shard :: "go_env \<Rightarrow> address \<Rightarrow> int go" where
  "Addr2Shard E addr =
     (case ParseUint16 (last8 addr) of
        None \<Rightarrow> Inl (LogPanic ''strconv.ParseUint'')
      | Some num \<Rightarrow> go_mod (sint (of_nat num :: u64)) (ShardNum E))"

fun bytes_value :: "nat \<Rightarrow> bytes \<Rightarrow> nat" where
  "bytes_value acc [] = acc"
| "bytes_value acc (b # bs) = bytes_value (256 * acc + unat b) bs"

definition ModBytes :: "bytes \<Rightarrow> nat \<Rightarrow> nat go" where
  "ModBytes data m = (if m = 0 then Inl DivByZero else Inr (bytes_value 0 data mod m))"

section \<open>A concrete environment for the witnesses\<close>

text \<open>
  Two-shard environment with small computable stand-ins for the hash functions and roots: a
  header hashes to its number, time and state root, a transaction to its nonce, a state to the
  balances of three accounts, a set of keys to which of three keys it holds. On the values the
  witnesses use, all of them are collision free.
\<close>

definition demo_env :: go_env where
  "demo_env =
     \<lparr>hash_header = (\<lambda>h. ucast (bh_Number h) # word_of_int (bh_Time h) # bh_StateRoot h),
      hash_tx = (\<lambda>tx. [ucast (tx_Nonce tx)]),
      state_root = (\<lambda>st. map (\<lambda>a. case st a of None \<Rightarrow> 255
                                  | Some s \<Rightarrow> word_of_int (as_Balance s)) [''a0'', ''b0'', ''c1'']),
      keys_root = (\<lambda>K. map (\<lambda>k. if [k] \<in> K then 1 else 0) [1, 2, 3]),
      ShardNum = 2, UseBlocksizeInBytes = 0, BlocksizeInBytes = 20000,
      RelayWithMerkleProof = 0, InjectSpeed = 2, G2E_Beta = 2\<rparr>"

lemmas demo_env_simps = demo_env_def

section \<open>Lemmas\<close>

lemma new_account_simps [simp]:
  "as_Balance (new_account n b) = b" "as_Nonce (new_account n b) = n"
  by (simp_all add: new_account_def)

lemma Deposit_simps [simp]:
  "as_Balance (Deposit s v) = as_Balance s + v" "as_Nonce (Deposit s v) = as_Nonce s"
  by (simp_all add: Deposit_def)

lemma Deduct_ok:
  "v \<le> as_Balance s \<Longrightarrow> Deduct s v = (s\<lparr>as_Balance := as_Balance s - v\<rparr>, True)"
  by (simp add: Deduct_def)

lemma NewTransaction_fields [simp]:
  "tx_Sender (NewTransaction E s r v n t h i j) = s"
  "tx_Recipient (NewTransaction E s r v n t h i j) = r"
  "tx_Value (NewTransaction E s r v n t h i j) = v"
  "tx_Relayed (NewTransaction E s r v n t h i j) = False"
  "tx_HasBroker (NewTransaction E s r v n t h i j) = False"
  "tx_G2EEnabled (NewTransaction E s r v n t h i j) = True"
  "tx_Height (NewTransaction E s r v n t h i j) = h"
  by (simp_all add: NewTransaction_def raw_transaction_def Let_def)

lemma hex_digit_lt: "hex_digit c = Some d \<Longrightarrow> d < 16"
  by (auto simp: hex_digit_def Let_def split: if_splits)

lemma hex_value_lt:
  "hex_value acc s = Some v \<Longrightarrow> acc < 16 ^ k \<Longrightarrow> v < 16 ^ (k + length s)"
proof (induction s arbitrary: acc k)
  case (Cons c cs)
  then obtain d where d: "hex_digit c = Some d" and v: "hex_value (16 * acc + d) cs = Some v"
    by (auto split: option.splits)
  from hex_digit_lt [OF d] Cons.prems(2) have "16 * acc + d < 16 ^ Suc k"
    by simp
  from Cons.IH [OF v this] show ?case by simp
qed simp

lemma length_last8: "length (last8 addr) \<le> 8"
  by (simp add: last8_def)

lemma ParseUint16_last8_lt:
  assumes "ParseUint16 (last8 addr) = Some v"
  shows "v < 2 ^ 32"
proof -
  from assms have "hex_value 0 (last8 addr) = Some v"
    by (auto simp: ParseUint16_def split: if_splits option.splits)
  from hex_value_lt [OF this, of 0] have "v < 16 ^ length (last8 addr)"
    by simp
  also have "(16::nat) ^ length (last8 addr) \<le> 16 ^ 8"
    by (rule power_increasing [OF length_last8]) simp
  finally show ?thesis by simp
qed

lemma sint_of_small_nat: "v < 2 ^ 32 \<Longrightarrow> sint (of_nat v :: u64) = int v"
proof -
  assume v: "v < 2 ^ 32"
  have "signed_take_bit 63 (int v) = int v"
    by (rule signed_take_bit_int_eq_self) (use v in auto)
  then show ?thesis by (simp add: signed_of_nat)
qed

lemma hex_value_total:
  "\<forall>c \<in> set s. hex_digit c \<noteq> None \<Longrightarrow> \<exists>v. hex_value acc s = Some v"
  by (induction s arbitrary: acc) auto

lemma Addr2Shard_range:
  assumes "0 < ShardNum E" and "Addr2Shard E addr = Inr sid"
  shows "0 \<le> sid \<and> sid < ShardNum E"
proof -
  from assms(2) obtain v where v: "ParseUint16 (last8 addr) = Some v"
    and sid: "go_mod (sint (of_nat v :: u64)) (ShardNum E) = Inr sid"
    by (auto simp: Addr2Shard_def split: option.splits)
  from sid assms(1) have "sid = int v mod ShardNum E"
    by (simp add: sint_of_small_nat [OF ParseUint16_last8_lt [OF v]] go_mod_nonneg)
  with assms(1) show ?thesis by simp
qed

text \<open>
  C29. On an address whose last eight characters are hexadecimal digits, and with at least one
  shard, \<open>Addr2Shard\<close> does not panic and returns a shard number below \<open>ShardNum\<close>; two
  addresses that agree on their last eight characters are placed in the same shard.
\<close>

theorem Addr2Shard_total:
  assumes "0 < ShardNum E" and "addr \<noteq> []" and "\<forall>c \<in> set (last8 addr). hex_digit c \<noteq> None"
  shows "\<exists>sid. Addr2Shard E addr = Inr sid \<and> 0 \<le> sid \<and> sid < ShardNum E \<and>
           (\<forall>addr'. last8 addr' = last8 addr \<longrightarrow> Addr2Shard E addr' = Inr sid)"
proof -
  from assms(2) have ne: "last8 addr \<noteq> []" by (cases addr) (auto simp: last8_def)
  obtain v where v: "hex_value 0 (last8 addr) = Some v"
    using hex_value_total [OF assms(3)] by blast
  have "(16::nat) ^ length (last8 addr) \<le> 16 ^ 8"
    by (rule power_increasing [OF length_last8]) simp
  with hex_value_lt [OF v, of 0] have "v < 2 ^ 64" by simp
  with v ne have "ParseUint16 (last8 addr) = Some v" by (simp add: ParseUint16_def)
  with assms(1) obtain sid where "Addr2Shard E addr = Inr sid"
    by (auto simp: Addr2Shard_def go_mod_def)
  with Addr2Shard_range [OF assms(1) this] show ?thesis
    by (auto simp: Addr2Shard_def)
qed

theorem Addr2Shard_total_witness:
  "0 < ShardNum demo_env \<and> list_all (\<lambda>c. hex_digit c \<noteq> None) (last8 ''a1'') \<and>
   (\<exists>sid. Addr2Shard demo_env ''a1'' = Inr sid \<and> 0 \<le> sid \<and> sid < ShardNum demo_env)"
proof -
  have h: "0 < ShardNum demo_env" "''a1'' \<noteq> []" "\<forall>c \<in> set (last8 ''a1''). hex_digit c \<noteq> None"
    by (simp_all add: demo_env_simps last8_def hex_digit_def)
  show ?thesis using h Addr2Shard_total [OF h] unfolding list_all_iff by blast
qed

end
