(* ===== verification/Tx_Pool.thy ===== *)
theory Tx_Pool
  imports Core_Types
begin

text \<open>
  The transaction pool, \<open>core/txpool.go\<close>: the queue of pending transactions and, per shard, the
  relay pool of cross-shard transactions. The mutex makes every method atomic, so a method is one
  function from pool to pool. \<open>RelayPool\<close> is an option because the code sets the Go map to
  \<open>nil\<close> (\<open>ClearRelayPool\<close>), after which a write panics while a read finds no key.
  \<open>now\<close> gives the successive results of \<open>time.Now()\<close>.

  The interface \<open>fifo_pool\<close> states what block production relies on: packing takes a prefix of the
  queue and leaves the rest, whatever the unit the limit is counted in. It is interpreted for both
  packing methods.
\<close>

section \<open>State and operations\<close>

record tx_pool =
  TxQueue :: "transaction list"
  RelayPool :: "(u64 \<rightharpoonup> transaction list) option"

definition NewTxPool :: tx_pool where
  "NewTxPool = \<lparr>TxQueue = [], RelayPool = Some Map.empty\<rparr>"

definition stamp :: "gotime \<Rightarrow> transaction \<Rightarrow> transaction" where
  "stamp now tx = (if tx_Time tx = 0 then tx\<lparr>tx_Time := now\<rparr> else tx)"

definition AddTx2Pool :: "gotime \<Rightarrow> transaction \<Rightarrow> tx_pool \<Rightarrow> tx_pool" where
  "AddTx2Pool now tx txpool = txpool\<lparr>TxQueue := TxQueue txpool @ [stamp now tx]\<rparr>"

definition stamp_all :: "(nat \<Rightarrow> gotime) \<Rightarrow> transaction list \<Rightarrow> transaction list" where
  "stamp_all now txs = map (\<lambda>(i, tx). stamp (now i) tx) (enumerate 0 txs)"

definition AddTxs2Pool :: "(nat \<Rightarrow> gotime) \<Rightarrow> transaction list \<Rightarrow> tx_pool \<Rightarrow> tx_pool" where
  "AddTxs2Pool now txs txpool = txpool\<lparr>TxQueue := TxQueue txpool @ stamp_all now txs\<rparr>"

definition AddTxs2Pool_Head :: "transaction list \<Rightarrow> tx_pool \<Rightarrow> tx_pool" where
  "AddTxs2Pool_Head tx txpool = txpool\<lparr>TxQueue := tx @ TxQueue txpool\<rparr>"

definition PackTxs :: "u64 \<Rightarrow> tx_pool \<Rightarrow> transaction list \<times> tx_pool" where
  "PackTxs max_txs txpool =
     (let len = u64_of_nat (length (TxQueue txpool));
          txNum = (if len < max_txs then len else max_txs)
      in (take (unat txNum) (TxQueue txpool),
          txpool\<lparr>TxQueue := drop (unat txNum) (TxQueue txpool)\<rparr>))"

definition sizeof_tx :: int where
  \<comment> \<open>\<open>unsafe.Sizeof(*tx)\<close>: the size of the struct on a 64-bit platform, a constant (the bytes
    its strings, slices and big integers point to are not counted)\<close>
  "sizeof_tx = 240"

fun pack_bytes_loop :: "int \<Rightarrow> nat \<Rightarrow> int \<Rightarrow> transaction list \<Rightarrow> nat option" where
  "pack_bytes_loop max_bytes tx_idx currentSize [] = None"
| "pack_bytes_loop max_bytes tx_idx currentSize (tx # txs) =
     (let currentSize' = currentSize + sizeof_tx in
      if max_bytes < currentSize' then Some tx_idx
      else pack_bytes_loop max_bytes (Suc tx_idx) currentSize' txs)"

definition PackTxsWithBytes :: "int \<Rightarrow> tx_pool \<Rightarrow> transaction list \<times> tx_pool" where
  "PackTxsWithBytes max_bytes txpool =
     (let txNum = (case pack_bytes_loop max_bytes 0 0 (TxQueue txpool) of
                     None \<Rightarrow> length (TxQueue txpool) | Some i \<Rightarrow> i)
      in (take txNum (TxQueue txpool), txpool\<lparr>TxQueue := drop txNum (TxQueue txpool)\<rparr>))"

definition AddRelayTx :: "transaction \<Rightarrow> u64 \<Rightarrow> tx_pool \<Rightarrow> tx_pool go" where
  "AddRelayTx tx shardID txpool =
     (case RelayPool txpool of
        None \<Rightarrow> Inl NilMapWrite
      | Some m \<Rightarrow> Inr (txpool\<lparr>RelayPool := Some (m(shardID \<mapsto> map_default [] m shardID @ [tx]))\<rparr>))"

definition GetTxQueueLen :: "tx_pool \<Rightarrow> nat" where
  "GetTxQueueLen txpool = length (TxQueue txpool)"

definition ClearRelayPool :: "tx_pool \<Rightarrow> tx_pool" where
  "ClearRelayPool txpool = txpool\<lparr>RelayPool := None\<rparr>"

definition relay_of :: "tx_pool \<Rightarrow> u64 \<Rightarrow> transaction list" where
  \<comment> \<open>the expression \<open>txpool.RelayPool[shardID]\<close>, also on the nil map\<close>
  "relay_of txpool shardID = (case RelayPool txpool of None \<Rightarrow> [] | Some m \<Rightarrow> map_default [] m shardID)"

definition PackRelayTxs ::
  "u64 \<Rightarrow> u64 \<Rightarrow> u64 \<Rightarrow> tx_pool \<Rightarrow> (transaction list \<times> bool) \<times> tx_pool" where
  "PackRelayTxs shardID minRelaySize maxRelaySize txpool =
     (case RelayPool txpool of
        None \<Rightarrow> (([], False), txpool)
      | Some m \<Rightarrow>
          (case m shardID of
             None \<Rightarrow> (([], False), txpool)
           | Some pool \<Rightarrow>
               if int (length pool) < sint minRelaySize then (([], False), txpool)
               else let len = u64_of_nat (length pool);
                        txNum = (if len < maxRelaySize then len else maxRelaySize)
                    in ((take (unat txNum) pool, True),
                        txpool\<lparr>RelayPool := Some (m(shardID \<mapsto> drop (unat txNum) pool))\<rparr>)))"

fun transfer_relay ::
  "address \<Rightarrow> u64 \<Rightarrow> transaction list \<Rightarrow> transaction list \<times> (u64 \<rightharpoonup> transaction list) \<Rightarrow>
   transaction list \<times> (u64 \<rightharpoonup> transaction list)" where
  "transfer_relay addr shardID [] (moved, m) = (moved, m)"
| "transfer_relay addr shardID (tx # txs) (moved, m) =
     transfer_relay addr shardID txs
       (if tx_Sender tx = addr then (moved @ [tx], m)
        else (moved, m(shardID \<mapsto> map_default [] m shardID @ [tx])))"

definition TransferTxs :: "address \<Rightarrow> u64 list \<Rightarrow> tx_pool \<Rightarrow> transaction list \<times> tx_pool" where
  "TransferTxs addr ord txpool =
     (let moved = filter (\<lambda>tx. tx_Sender tx = addr) (TxQueue txpool);
          newTxQueue = filter (\<lambda>tx. tx_Sender tx \<noteq> addr) (TxQueue txpool);
          (moved', newRelayPool) =
            fold (\<lambda>sid. transfer_relay addr sid (relay_of txpool sid)) ord (moved, Map.empty)
      in (moved', txpool\<lparr>TxQueue := newTxQueue, RelayPool := Some newRelayPool\<rparr>))"

fun drain :: "('n \<Rightarrow> 'q \<Rightarrow> 'tx list \<times> 'q) \<Rightarrow> 'n list \<Rightarrow> 'q \<Rightarrow> 'tx list list \<times> 'q" where
  \<comment> \<open>successive packings, one per proposed block\<close>
  "drain pack [] q = ([], q)"
| "drain pack (n # ns) q =
     (let (b, q') = pack n q; (bs, q'') = drain pack ns q' in (b # bs, q''))"

section \<open>The queue interface\<close>

locale fifo_pool =
  fixes contents :: "'q \<Rightarrow> 'tx list"
    and invar :: "'q \<Rightarrow> bool"
    and pack :: "'n \<Rightarrow> 'q \<Rightarrow> 'tx list \<times> 'q"
    and limit :: "'n \<Rightarrow> nat"
  assumes pack_taken: "invar q \<Longrightarrow> fst (pack n q) = take (limit n) (contents q)"
    and pack_left: "invar q \<Longrightarrow> contents (snd (pack n q)) = drop (limit n) (contents q)"
    and pack_invar: "invar q \<Longrightarrow> invar (snd (pack n q))"
begin

lemma drain_conserves:
  "invar q \<Longrightarrow> concat (fst (drain pack ns q)) @ contents (snd (drain pack ns q)) = contents q"
proof (induction ns arbitrary: q)
  case (Cons n ns)
  then have "fst (pack n q) @ contents (snd (pack n q)) = contents q"
    by (simp add: pack_taken pack_left)
  with Cons.IH [OF pack_invar [OF Cons.prems]] show ?case
    by (simp add: Let_def split_def)
qed simp

lemma drain_within_limits:
  "invar q \<Longrightarrow> list_all2 (\<lambda>n b. length b \<le> limit n) ns (fst (drain pack ns q))"
proof (induction ns arbitrary: q)
  case (Cons n ns)
  then have "length (fst (pack n q)) \<le> limit n" by (simp add: pack_taken)
  with Cons.IH [OF pack_invar [OF Cons.prems]] show ?case by (simp add: Let_def split_def)
qed simp

lemma drain_empties:
  assumes "invar q" and "\<forall>n \<in> set ns. 0 < limit n" and "length (contents q) \<le> length ns"
  shows "contents (snd (drain pack ns q)) = []"
  using assms
proof (induction ns arbitrary: q)
  case (Cons n ns)
  then have "length (contents (snd (pack n q))) \<le> length ns"
    by (auto simp: pack_left)
  with Cons.IH [OF pack_invar] Cons.prems show ?case by (simp add: Let_def split_def)
qed simp

end

section \<open>Both packing methods implement it\<close>

definition pool_fits :: "tx_pool \<Rightarrow> bool" where
  \<comment> \<open>the length of a Go slice is an \<open>int\<close>\<close>
  "pool_fits txpool \<longleftrightarrow> length (TxQueue txpool) < 2 ^ 63"

definition bytes_limit :: "int \<Rightarrow> nat" where
  "bytes_limit max_bytes = nat (max_bytes div sizeof_tx)"

lemma unat_min_u64:
  "n < 2 ^ 63 \<Longrightarrow> unat (if u64_of_nat n < m then u64_of_nat n else m) = min n (unat m)"
  by (auto simp: u64_of_nat_def word_less_nat_alt unat_of_nat take_bit_nat_eq_self min_def)

lemma PackTxs_eq:
  "pool_fits p \<Longrightarrow>
   PackTxs n p = (take (unat n) (TxQueue p), p\<lparr>TxQueue := drop (unat n) (TxQueue p)\<rparr>)"
  by (simp add: PackTxs_def Let_def pool_fits_def unat_min_u64 min_def)

lemma pack_bytes_loop_eq:
  assumes "cur \<le> m"
  shows "pack_bytes_loop m i cur txs =
    (if m - cur < sizeof_tx * int (length txs) then Some (i + nat ((m - cur) div sizeof_tx)) else None)"
  using assms
proof (induction txs arbitrary: i cur)
  case (Cons tx txs)
  have step: "(m - cur) div sizeof_tx = (m - (cur + sizeof_tx)) div sizeof_tx + 1"
    by (simp add: sizeof_tx_def)
  show ?case
  proof (cases "m < cur + sizeof_tx")
    case True
    with Cons.prems show ?thesis by (simp add: Let_def sizeof_tx_def)
  next
    case False
    then have "0 \<le> (m - (cur + sizeof_tx)) div sizeof_tx" by (simp add: sizeof_tx_def)
    with False Cons.IH [of "cur + sizeof_tx" "Suc i"] show ?thesis
      unfolding step by (auto simp: Let_def nat_add_distrib algebra_simps)
  qed
qed (simp add: sizeof_tx_def)

lemma PackTxsWithBytes_eq:
  "PackTxsWithBytes m p =
     (take (bytes_limit m) (TxQueue p), p\<lparr>TxQueue := drop (bytes_limit m) (TxQueue p)\<rparr>)"
proof (cases "0 \<le> m")
  case True
  have "length (TxQueue p) \<le> bytes_limit m" if "\<not> m < sizeof_tx * int (length (TxQueue p))"
    using that by (simp add: bytes_limit_def sizeof_tx_def)
  with True pack_bytes_loop_eq [of 0 m 0 "TxQueue p"] show ?thesis
    by (auto simp: PackTxsWithBytes_def Let_def bytes_limit_def)
next
  case False
  then have "m div sizeof_tx < 0" by (simp add: sizeof_tx_def)
  with False show ?thesis
    by (cases "TxQueue p") (auto simp: PackTxsWithBytes_def Let_def bytes_limit_def sizeof_tx_def)
qed

interpretation by_count: fifo_pool TxQueue pool_fits PackTxs unat
  by unfold_locales (auto simp: PackTxs_eq pool_fits_def)

interpretation by_bytes: fifo_pool TxQueue pool_fits PackTxsWithBytes bytes_limit
  by unfold_locales (auto simp: PackTxsWithBytes_eq pool_fits_def)

section \<open>The relay pool and transfers\<close>

lemma relay_of_add:
  assumes "AddRelayTx tx sid p = Inr p'"
  shows "relay_of p' s = (if s = sid then relay_of p s @ [tx] else relay_of p s)"
    and "TxQueue p' = TxQueue p" and "RelayPool p' \<noteq> None"
  using assms by (auto simp: AddRelayTx_def relay_of_def split: option.splits)

lemma AddRelayTx_ok: "RelayPool p \<noteq> None \<Longrightarrow> \<exists>p'. AddRelayTx tx sid p = Inr p' \<and> RelayPool p' \<noteq> None"
  by (auto simp: AddRelayTx_def)

lemma relay_of_fresh [simp]: "relay_of (p\<lparr>RelayPool := Some Map.empty\<rparr>) s = []"
  by (simp add: relay_of_def)

lemma transfer_relay_eq:
  "fst (transfer_relay addr sid txs (moved, m)) = moved @ filter (\<lambda>tx. tx_Sender tx = addr) txs"
  "map_default [] (snd (transfer_relay addr sid txs (moved, m))) s =
     (if s = sid then map_default [] m s @ filter (\<lambda>tx. tx_Sender tx \<noteq> addr) txs
      else map_default [] m s)"
  by (induction txs arbitrary: moved m) auto

lemma fold_transfer_relay_eq:
  assumes "distinct ord"
    and "fold (\<lambda>sid. transfer_relay addr sid (f sid)) ord (moved, m) = (moved', m')"
  shows "moved' = moved @ concat (map (\<lambda>sid. filter (\<lambda>tx. tx_Sender tx = addr) (f sid)) ord) \<and>
    (\<forall>s. map_default [] m' s =
      (if s \<in> set ord then map_default [] m s @ filter (\<lambda>tx. tx_Sender tx \<noteq> addr) (f s)
       else map_default [] m s))"
  using assms
proof (induction ord arbitrary: moved m)
  case (Cons sid ord)
  obtain mv1 m1 where st: "transfer_relay addr sid (f sid) (moved, m) = (mv1, m1)" by fastforce
  have "mv1 = moved @ filter (\<lambda>tx. tx_Sender tx = addr) (f sid)"
    using transfer_relay_eq(1) [of addr sid "f sid" moved m] st by simp
  moreover have "map_default [] m1 s = (if s = sid then map_default [] m s
      @ filter (\<lambda>tx. tx_Sender tx \<noteq> addr) (f sid) else map_default [] m s)" for s
    using transfer_relay_eq(2) [of addr sid "f sid" moved m s] st by simp
  moreover have "fold (\<lambda>sid. transfer_relay addr sid (f sid)) ord (mv1, m1) = (moved', m')"
    using Cons.prems(2) st by simp
  ultimately show ?case using Cons.IH [of mv1 m1] Cons.prems(1) by auto
qed simp

definition pooled :: "u64 list \<Rightarrow> tx_pool \<Rightarrow> transaction list" where
  "pooled ord p = TxQueue p @ concat (map (relay_of p) ord)"

text \<open>
  C27. Over any sequence of \<open>PackTxs\<close> calls, the packed batches followed by what is left in the
  queue are exactly the queue at the start, in order (no transaction is lost, duplicated or
  overtaken), no batch exceeds its limit, and with positive limits a queue is emptied after as
  many packings as it held transactions.
\<close>

theorem PackTxs_drain:
  assumes "pool_fits p"
  shows "concat (fst (drain PackTxs ns p)) @ TxQueue (snd (drain PackTxs ns p)) = TxQueue p \<and>
    list_all2 (\<lambda>n b. length b \<le> unat n) ns (fst (drain PackTxs ns p)) \<and>
    ((\<forall>n \<in> set ns. 0 < unat n) \<and> length (TxQueue p) \<le> length ns \<longrightarrow>
       TxQueue (snd (drain PackTxs ns p)) = [])"
  using by_count.drain_conserves [OF assms] by_count.drain_within_limits [OF assms]
    by_count.drain_empties [OF assms] by blast

text \<open>
  Packing by bytes is packing by count: \<open>PackTxsWithBytes\<close> charges every transaction the
  constant size of the struct, so it returns what \<open>PackTxs\<close> returns for the limit
  \<open>max_bytes div 240\<close>, whatever the transactions hold.
\<close>

theorem PackTxsWithBytes_is_PackTxs:
  assumes "pool_fits p" and "0 \<le> max_bytes" and "max_bytes < 2 ^ 63"
  shows "PackTxsWithBytes max_bytes p = PackTxs (word_of_int (max_bytes div sizeof_tx)) p"
proof -
  have "max_bytes div sizeof_tx < 2 ^ 63" using assms(2,3) by (simp add: sizeof_tx_def)
  then have "unat (word_of_int (max_bytes div sizeof_tx) :: u64) = bytes_limit max_bytes"
    using assms(2) by (simp add: bytes_limit_def unsigned_of_int take_bit_int_eq_self sizeof_tx_def)
  then show ?thesis using assms(1) by (simp add: PackTxsWithBytes_eq PackTxs_eq)
qed

text \<open>
  \<open>TransferTxs\<close> splits the pool by sender: it returns exactly the transactions of the given
  account, from the queue and from every relay pool, and leaves every other transaction where it
  was, in its order, whatever order the relay pools are visited in.
\<close>

theorem TransferTxs_partition:
  assumes "RelayPool p = Some m" and "ranges_over ord m" and "TransferTxs addr ord p = (moved, p')"
  shows "moved = filter (\<lambda>tx. tx_Sender tx = addr) (pooled ord p) \<and>
    TxQueue p' = filter (\<lambda>tx. tx_Sender tx \<noteq> addr) (TxQueue p) \<and>
    (\<forall>sid. relay_of p' sid = filter (\<lambda>tx. tx_Sender tx \<noteq> addr) (relay_of p sid))"
proof -
  let ?mv = "filter (\<lambda>tx. tx_Sender tx = addr) (TxQueue p)"
  obtain mv' m' where f: "fold (\<lambda>sid. transfer_relay addr sid (relay_of p sid)) ord (?mv, Map.empty) = (mv', m')"
    by fastforce
  from assms(3) f have mv: "moved = mv'"
    and p': "p' = p\<lparr>TxQueue := filter (\<lambda>tx. tx_Sender tx \<noteq> addr) (TxQueue p), RelayPool := Some m'\<rparr>"
    by (auto simp: TransferTxs_def Let_def)
  have d: "distinct ord" using assms(2) by (simp add: ranges_over_def)
  note eq = fold_transfer_relay_eq [OF d f]
  have "relay_of p' sid = filter (\<lambda>tx. tx_Sender tx \<noteq> addr) (relay_of p sid)" for sid
  proof (cases "sid \<in> set ord")
    case False
    then have "m sid = None" using assms(2) by (auto simp: ranges_over_def)
    then show ?thesis using eq False by (simp add: p' assms(1) relay_of_def map_default_def)
  qed (use eq in \<open>simp add: p' relay_of_def\<close>)
  moreover have "moved = filter (\<lambda>tx. tx_Sender tx = addr) (pooled ord p)"
    using eq by (simp add: mv pooled_def filter_concat o_def)
  ultimately show ?thesis by (simp add: p')
qed

text \<open>
  Once the relay pool has been cleared, it is the nil map: adding a relay transaction panics
  until the map is created again, while reading it finds no transaction.
\<close>

theorem AddRelayTx_after_clear:
  "AddRelayTx tx sid (ClearRelayPool p) = Inl NilMapWrite \<and> relay_of (ClearRelayPool p) sid = [] \<and>
   fst (PackRelayTxs sid mn mx (ClearRelayPool p)) = ([], False)"
  by (simp add: AddRelayTx_def ClearRelayPool_def relay_of_def PackRelayTxs_def)

section \<open>Witnesses\<close>

definition demo_tx :: "nat \<Rightarrow> address \<Rightarrow> address \<Rightarrow> int \<Rightarrow> transaction" where
  "demo_tx n s r v = (raw_transaction s r v (of_nat n) 1 0 0 0)\<lparr>tx_TxHash := [of_nat n]\<rparr>"

definition demo_pool :: tx_pool where
  "demo_pool =
     \<lparr>TxQueue = [demo_tx 1 ''a0'' ''b0'' 5, demo_tx 2 ''b0'' ''a0'' 6, demo_tx 3 ''a0'' ''c1'' 7],
      RelayPool = Some [1 \<mapsto> [demo_tx 4 ''a0'' ''c1'' 8, demo_tx 5 ''b0'' ''c1'' 9]]\<rparr>"

lemmas demo_tx_simps = demo_tx_def raw_transaction_def

theorem PackTxs_drain_witness:
  "pool_fits demo_pool \<and> list_all (\<lambda>n. 0 < unat n) [2, 1, 1 :: u64] \<and>
   length (TxQueue demo_pool) \<le> length [2, 1, 1 :: u64] \<and>
   TxQueue (snd (drain PackTxs [2, 1, 1] demo_pool)) = []"
proof -
  have h: "pool_fits demo_pool" by (simp add: pool_fits_def demo_pool_def)
  have h2: "\<forall>n \<in> set [2, 1, 1 :: u64]. 0 < unat n" by simp
  have h3: "length (TxQueue demo_pool) \<le> length [2, 1, 1 :: u64]" by (simp add: demo_pool_def)
  show ?thesis using h h2 h3 PackTxs_drain [OF h, of "[2, 1, 1]"] unfolding list_all_iff by blast
qed

theorem PackTxsWithBytes_is_PackTxs_witness:
  "pool_fits demo_pool \<and> PackTxsWithBytes 500 demo_pool = PackTxs 2 demo_pool"
proof -
  have h: "pool_fits demo_pool" by (simp add: pool_fits_def demo_pool_def)
  show ?thesis using h PackTxsWithBytes_is_PackTxs [OF h, of 500] by (simp add: sizeof_tx_def)
qed

theorem TransferTxs_partition_witness:
  "fst (TransferTxs ''a0'' [1] demo_pool) =
     filter (\<lambda>tx. tx_Sender tx = ''a0'') (pooled [1] demo_pool) \<and>
   length (fst (TransferTxs ''a0'' [1] demo_pool)) = 3"
proof -
  obtain moved p' where t: "TransferTxs ''a0'' [1] demo_pool = (moved, p')" by fastforce
  have h: "RelayPool demo_pool = Some [1 \<mapsto> [demo_tx 4 ''a0'' ''c1'' 8, demo_tx 5 ''b0'' ''c1'' 9]]"
    "ranges_over [1] [1 :: u64 \<mapsto> [demo_tx 4 ''a0'' ''c1'' 8, demo_tx 5 ''b0'' ''c1'' 9]]"
    by (simp_all add: demo_pool_def ranges_over_def)
  have "moved = filter (\<lambda>tx. tx_Sender tx = ''a0'') (pooled [1] demo_pool)"
    using TransferTxs_partition [OF h t] by blast
  then show ?thesis unfolding t fst_conv
    by (simp add: pooled_def relay_of_def demo_pool_def demo_tx_simps)
qed

end
