(* ===== verification/G2E_Book.thy ===== *)
theory G2E_Book
  imports Core_Types
begin

text \<open>
  The Game2Earn betting book: \<open>chain/g2e_book.go\<close> and the choice of the winning pair at the end
  of \<open>chain/blockchain.go\<close>. A book maps a target height to the bets placed for it; for each
  height the bets are kept per pair of numbers, next to a cached sum of their amounts.
  \<open>settle_sums\<close> is the accumulation loop of the settlement; the pay-out itself changes the state
  trie and is in \<open>Block_Chain\<close>. The interface \<open>bet_ledger\<close> says what the settlement relies on:
  a bet is recorded once, cleaning a height forgets exactly its bets, and the cached sums are the
  sums of the recorded bets.
\<close>

section \<open>State and operations\<close>

type_synonym bet_pair = "u64 \<times> u64"

record bet_entry =
  be_Player :: address
  be_Pair :: bet_pair
  be_Amount :: int

record g2e_epoch =
  ByPair :: "bet_pair \<rightharpoonup> bet_entry list"
  SumByPair :: "bet_pair \<rightharpoonup> int"

type_synonym g2e_book = "u64 \<rightharpoonup> g2e_epoch"

definition NewG2EBook :: g2e_book where
  "NewG2EBook = Map.empty"

definition empty_epoch :: g2e_epoch where
  "empty_epoch = \<lparr>ByPair = Map.empty, SumByPair = Map.empty\<rparr>"

definition appendBet :: "u64 \<Rightarrow> bet_pair \<Rightarrow> address \<Rightarrow> int \<Rightarrow> g2e_book \<Rightarrow> g2e_book" where
  "appendBet targetH pair player amt bk =
     (let eb = map_default empty_epoch bk targetH;
          e = \<lparr>be_Player = player, be_Pair = pair, be_Amount = amt\<rparr>;
          bets = (ByPair eb)(pair \<mapsto> map_default [] (ByPair eb) pair @ [e]);
          sums = (SumByPair eb)(pair \<mapsto> map_default 0 (SumByPair eb) pair + amt)
      in bk(targetH \<mapsto> \<lparr>ByPair = bets, SumByPair = sums\<rparr>))"

definition getEpoch :: "u64 \<Rightarrow> g2e_book \<Rightarrow> g2e_epoch option" where
  "getEpoch targetH bk = bk targetH"

definition cleanup :: "u64 \<Rightarrow> g2e_book \<Rightarrow> g2e_book" where
  "cleanup targetH bk = bk(targetH := None)"

definition chooseWinningPair :: "u64 \<Rightarrow> bet_pair list \<Rightarrow> bet_pair go" where
  \<comment> \<open>the keys of \<open>eb.SumByPair\<close> come in the order \<open>ord\<close> of the range loop; \<open>sort.Slice\<close> with
    the lexicographic comparison sorts them\<close>
  "chooseWinningPair h ord =
     (let keys = sort ord in
      if keys = [] then Inr (0, 0)
      else and_then (go_mod (sint h) (int (length keys))) (go_nth keys))"

definition settle_sums :: "bet_pair \<Rightarrow> g2e_epoch \<Rightarrow> bet_pair list \<Rightarrow> int \<times> int" where
  "settle_sums pairStar eb ord =
     fold (\<lambda>pair (W, L). let s = map_default 0 (SumByPair eb) pair in
             if pair = pairStar then (W + s, L) else (W, L + s)) ord (0, 0)"

definition settle_quotient :: "int \<times> int \<Rightarrow> int" where
  "settle_quotient WL = (case WL of (W, L) \<Rightarrow> if 0 < W then L div W else 0)"

section \<open>Well-formed books\<close>

definition epoch_wf :: "g2e_epoch \<Rightarrow> bool" where
  "epoch_wf eb \<longleftrightarrow> finite (dom (ByPair eb)) \<and> dom (SumByPair eb) = dom (ByPair eb) \<and>
     (\<forall>p es. ByPair eb p = Some es \<longrightarrow>
        (\<forall>e \<in> set es. be_Pair e = p) \<and> SumByPair eb p = Some (\<Sum>e \<leftarrow> es. be_Amount e))"

definition book_wf :: "g2e_book \<Rightarrow> bool" where
  "book_wf bk \<longleftrightarrow> finite (dom bk) \<and> (\<forall>h eb. bk h = Some eb \<longrightarrow> epoch_wf eb)"

definition epoch_bets :: "g2e_epoch \<Rightarrow> bet_entry multiset" where
  "epoch_bets eb = (\<Sum>p \<in> dom (ByPair eb). mset (map_default [] (ByPair eb) p))"

definition bets_at :: "g2e_book \<Rightarrow> u64 \<Rightarrow> bet_entry multiset" where
  "bets_at bk h = epoch_bets (map_default empty_epoch bk h)"

definition epoch_stakes :: "g2e_epoch \<Rightarrow> int" where
  "epoch_stakes eb = (\<Sum>p \<in> dom (SumByPair eb). map_default 0 (SumByPair eb) p)"

definition stakes_at :: "g2e_book \<Rightarrow> u64 \<Rightarrow> int" where
  "stakes_at bk h = epoch_stakes (map_default empty_epoch bk h)"

definition book_stakes :: "g2e_book \<Rightarrow> int" where
  \<comment> \<open>everything the book holds, over all heights\<close>
  "book_stakes bk = (\<Sum>h \<in> dom bk. stakes_at bk h)"

lemma epoch_wf_empty [simp]: "epoch_wf empty_epoch"
  by (simp add: epoch_wf_def empty_epoch_def)

lemma epoch_wf_at: "book_wf bk \<Longrightarrow> epoch_wf (map_default empty_epoch bk h)"
  by (cases "bk h") (auto simp: book_wf_def map_default_def)

lemma book_wf_New [simp]: "book_wf NewG2EBook"
  by (simp add: book_wf_def NewG2EBook_def)

lemma epoch_wf_sum:
  "epoch_wf eb \<Longrightarrow> ByPair eb p = Some es \<Longrightarrow> SumByPair eb p = Some (\<Sum>e \<leftarrow> es. be_Amount e)"
  unfolding epoch_wf_def by blast

lemma book_wf_append:
  assumes "book_wf bk"
  shows "book_wf (appendBet h p pl a bk)"
proof -
  have wf: "epoch_wf (map_default empty_epoch bk h)" by (rule epoch_wf_at [OF assms])
  let ?eb = "map_default empty_epoch bk h"
  have "epoch_wf (the (appendBet h p pl a bk h))"
  proof (cases "ByPair ?eb p")
    case None
    with wf have "SumByPair ?eb p = None" by (auto simp: epoch_wf_def)
    with None wf show ?thesis
      by (auto simp: appendBet_def Let_def epoch_wf_def map_default_def [of "[]"] map_default_def [of 0])
  next
    case (Some es)
    note epoch_wf_sum [OF wf Some]
    with Some wf show ?thesis
      by (auto simp: appendBet_def Let_def epoch_wf_def map_default_def [of "[]"] map_default_def [of 0])
  qed
  then show ?thesis using assms by (auto simp: book_wf_def appendBet_def Let_def)
qed

lemma book_wf_cleanup: "book_wf bk \<Longrightarrow> book_wf (cleanup h bk)"
  by (auto simp: book_wf_def cleanup_def dom_def intro: finite_subset)

lemma sum_upd_other:
  assumes "finite A" and "\<And>x. x \<noteq> k \<Longrightarrow> f x = g x" and "k \<notin> A \<Longrightarrow> g k = 0"
  shows "(\<Sum>x \<in> insert k A. f x) = (\<Sum>x \<in> A. g x) + f k - (g k :: 'b :: ab_group_add)"
proof -
  have "(\<Sum>x \<in> insert k A. f x) = f k + (\<Sum>x \<in> A - {k}. g x)"
    using assms(1,2) by (subst sum.insert_remove) (auto intro!: sum.cong)
  moreover have "(\<Sum>x \<in> A. g x) = g k + (\<Sum>x \<in> A - {k}. g x)"
    using assms(1,3) by (cases "k \<in> A") (auto simp: sum.remove)
  ultimately show ?thesis by simp
qed

lemma epoch_stakes_append:
  assumes "epoch_wf eb"
  shows "epoch_stakes \<lparr>ByPair = bets, SumByPair = (SumByPair eb)(p \<mapsto> map_default 0 (SumByPair eb) p + a)\<rparr>
     = epoch_stakes eb + a"
proof -
  let ?f = "map_default 0 ((SumByPair eb)(p \<mapsto> map_default 0 (SumByPair eb) p + a))"
  have "(\<Sum>x \<in> insert p (dom (SumByPair eb)). ?f x)
      = (\<Sum>x \<in> dom (SumByPair eb). map_default 0 (SumByPair eb) x) + ?f p - map_default 0 (SumByPair eb) p"
    by (rule sum_upd_other) (use assms in \<open>auto simp: epoch_wf_def map_default_def dom_def\<close>)
  then show ?thesis by (simp add: epoch_stakes_def)
qed

lemma epoch_bets_append:
  assumes "epoch_wf eb"
  shows "epoch_bets \<lparr>ByPair = (ByPair eb)(p \<mapsto> map_default [] (ByPair eb) p @ [e]), SumByPair = sums\<rparr>
     = epoch_bets eb + {#e#}"
proof -
  let ?A = "dom (ByPair eb)" and ?g = "\<lambda>x. mset (map_default [] (ByPair eb) x)"
  let ?f = "\<lambda>x. mset (map_default [] ((ByPair eb)(p \<mapsto> map_default [] (ByPair eb) p @ [e])) x)"
  have fin: "finite ?A" using assms by (simp add: epoch_wf_def)
  have dom: "dom ((ByPair eb)(p \<mapsto> map_default [] (ByPair eb) p @ [e])) = insert p ?A" by simp
  have "(\<Sum>x \<in> insert p ?A. ?f x) = ?f p + (\<Sum>x \<in> ?A - {p}. ?g x)"
    using fin by (subst sum.insert_remove) (auto intro!: sum.cong)
  also have "\<dots> = (?g p + (\<Sum>x \<in> ?A - {p}. ?g x)) + {#e#}" by simp
  also have "?g p + (\<Sum>x \<in> ?A - {p}. ?g x) = (\<Sum>x \<in> ?A. ?g x)"
    using fin by (cases "p \<in> ?A") (auto simp: sum.remove map_default_def dom_def)
  finally show ?thesis by (simp only: epoch_bets_def g2e_epoch.select_convs dom)
qed

lemma bets_at_append:
  "book_wf bk \<Longrightarrow> bets_at (appendBet h p pl a bk) h' =
     (if h' = h then bets_at bk h + {#\<lparr>be_Player = pl, be_Pair = p, be_Amount = a\<rparr>#} else bets_at bk h')"
  by (simp add: bets_at_def appendBet_def Let_def epoch_bets_append epoch_wf_at)

lemma bets_at_cleanup: "bets_at (cleanup h bk) h' = (if h' = h then {#} else bets_at bk h')"
  by (simp add: bets_at_def cleanup_def epoch_bets_def empty_epoch_def map_default_def)

lemma stakes_at_append:
  "book_wf bk \<Longrightarrow> stakes_at (appendBet h p pl a bk) h' = stakes_at bk h' + (if h' = h then a else 0)"
  by (simp add: stakes_at_def appendBet_def Let_def epoch_stakes_append epoch_wf_at)

lemma sum_mset_sum:
  "(\<Sum>e \<in># (\<Sum>p \<in> A. g p). f e) = (\<Sum>p \<in> A. \<Sum>e \<in># g p. (f e :: int))"
  by (induction A rule: infinite_finite_induct) simp_all

lemma epoch_stakes_bets: "epoch_wf eb \<Longrightarrow> epoch_stakes eb = (\<Sum>e \<in># epoch_bets eb. be_Amount e)"
proof -
  assume wf: "epoch_wf eb"
  have "epoch_stakes eb = (\<Sum>p \<in> dom (ByPair eb). \<Sum>e \<leftarrow> map_default [] (ByPair eb) p. be_Amount e)"
    unfolding epoch_stakes_def using wf
    by (intro sum.cong) (auto simp: epoch_wf_def map_default_def)
  also have "\<dots> = (\<Sum>p \<in> dom (ByPair eb). \<Sum>e \<in># mset (map_default [] (ByPair eb) p). be_Amount e)"
    by (simp add: sum_mset_sum_list flip: mset_map)
  also have "\<dots> = (\<Sum>e \<in># epoch_bets eb. be_Amount e)"
    by (simp only: epoch_bets_def sum_mset_sum)
  finally show ?thesis .
qed

section \<open>The ledger interface\<close>

type_synonym bet = "u64 \<times> bet_pair \<times> address \<times> int"

fun bet_of :: "bet \<Rightarrow> bet_entry" where
  "bet_of (h, p, pl, a) = \<lparr>be_Player = pl, be_Pair = p, be_Amount = a\<rparr>"

definition replay :: "(u64 \<Rightarrow> bet_pair \<Rightarrow> address \<Rightarrow> int \<Rightarrow> 'b \<Rightarrow> 'b) \<Rightarrow> bet list \<Rightarrow> 'b \<Rightarrow> 'b" where
  "replay app xs b = fold (\<lambda>(h, p, pl, a). app h p pl a) xs b"

locale bet_ledger =
  fixes bets :: "'b \<Rightarrow> u64 \<Rightarrow> bet_entry multiset"
    and stake :: "'b \<Rightarrow> u64 \<Rightarrow> int"
    and invar :: "'b \<Rightarrow> bool"
    and app :: "u64 \<Rightarrow> bet_pair \<Rightarrow> address \<Rightarrow> int \<Rightarrow> 'b \<Rightarrow> 'b"
    and clean :: "u64 \<Rightarrow> 'b \<Rightarrow> 'b"
  assumes invar_app: "invar b \<Longrightarrow> invar (app h p pl a b)"
    and invar_clean: "invar b \<Longrightarrow> invar (clean h b)"
    and bets_app: "invar b \<Longrightarrow> bets (app h p pl a b) h' =
          (if h' = h then bets b h' + {#bet_of (h, p, pl, a)#} else bets b h')"
    and bets_clean: "invar b \<Longrightarrow> bets (clean h b) h' = (if h' = h then {#} else bets b h')"
    and stake_bets: "invar b \<Longrightarrow> stake b h = (\<Sum>e \<in># bets b h. be_Amount e)"
begin

lemma replay_invar: "invar b \<Longrightarrow> invar (replay app xs b)"
  by (induction xs arbitrary: b) (auto simp: replay_def invar_app)

lemma replay_bets:
  "invar b \<Longrightarrow> bets (replay app xs b) h = bets b h + mset (map bet_of (filter (\<lambda>x. fst x = h) xs))"
proof (induction xs arbitrary: b)
  case (Cons x xs)
  obtain h' p pl a where x: "x = (h', p, pl, a)" by (cases x)
  have "replay app (x # xs) b = replay app xs (app h' p pl a b)" by (simp add: replay_def x)
  with Cons.IH [OF invar_app [OF Cons.prems]] show ?case
    by (simp add: x bets_app Cons.prems)
qed (simp add: replay_def)

lemma replay_stake:
  "invar b \<Longrightarrow> stake (replay app xs b) h = stake b h + (\<Sum>x \<leftarrow> filter (\<lambda>x. fst x = h) xs. be_Amount (bet_of x))"
  by (simp add: stake_bets replay_invar replay_bets sum_mset_sum_list o_def flip: mset_map)

lemma clean_stake: "invar b \<Longrightarrow> stake (clean h b) h' = (if h' = h then 0 else stake b h')"
  by (simp add: stake_bets invar_clean bets_clean)

end

interpretation book: bet_ledger bets_at stakes_at book_wf appendBet cleanup
proof unfold_locales
  show "book_wf b \<Longrightarrow> book_wf (appendBet h p pl a b)" for b h p pl a by (rule book_wf_append)
  show "book_wf b \<Longrightarrow> book_wf (cleanup h b)" for b h by (rule book_wf_cleanup)
  show "book_wf b \<Longrightarrow> bets_at (appendBet h p pl a b) h' =
    (if h' = h then bets_at b h' + {#bet_of (h, p, pl, a)#} else bets_at b h')" for b h p pl a h'
    by (simp add: bets_at_append)
  show "bets_at (cleanup h b) h' = (if h' = h then {#} else bets_at b h')" for b h h'
    by (rule bets_at_cleanup)
  show "book_wf b \<Longrightarrow> stakes_at b h = (\<Sum>e \<in># bets_at b h. be_Amount e)" for b h
    by (simp add: stakes_at_def bets_at_def epoch_stakes_bets epoch_wf_at)
qed

lemma dom_appendBet [simp]: "dom (appendBet h p pl a bk) = insert h (dom bk)"
  by (simp add: appendBet_def Let_def)

lemma stakes_at_undef: "h \<notin> dom bk \<Longrightarrow> stakes_at bk h = 0"
  by (simp add: stakes_at_def map_default_def domIff epoch_stakes_def empty_epoch_def)

lemma book_stakes_append:
  assumes "book_wf bk"
  shows "book_stakes (appendBet h p pl a bk) = book_stakes bk + a"
proof -
  have "(\<Sum>x \<in> insert h (dom bk). stakes_at (appendBet h p pl a bk) x)
      = (\<Sum>x \<in> dom bk. stakes_at bk x) + stakes_at (appendBet h p pl a bk) h - stakes_at bk h"
    by (rule sum_upd_other)
      (use assms in \<open>auto simp: book_wf_def stakes_at_append stakes_at_undef\<close>)
  then show ?thesis by (simp add: book_stakes_def stakes_at_append assms)
qed

lemma book_stakes_cleanup:
  assumes "book_wf bk"
  shows "book_stakes (cleanup h bk) = book_stakes bk - stakes_at bk h"
proof -
  have fin: "finite (dom bk)" using assms by (simp add: book_wf_def)
  have "book_stakes (cleanup h bk) = (\<Sum>x \<in> dom bk - {h}. stakes_at bk x)"
    unfolding book_stakes_def using assms
    by (intro sum.cong) (auto simp: cleanup_def book.clean_stake [unfolded cleanup_def])
  also have "\<dots> = book_stakes bk - stakes_at bk h"
    using fin by (cases "h \<in> dom bk") (auto simp: book_stakes_def sum_diff1 stakes_at_undef)
  finally show ?thesis .
qed

section \<open>Settlement sums and the winning pair\<close>

lemma settle_sums_fold:
  "fold (\<lambda>pair (W, L). let s = f pair in if pair = q then (W + s, L) else (W, L + s)) ord (W0, L0 :: int)
   = (W0 + (\<Sum>p \<leftarrow> filter (\<lambda>p. p = q) ord. f p), L0 + (\<Sum>p \<leftarrow> filter (\<lambda>p. p \<noteq> q) ord. f p))"
  by (induction ord arbitrary: W0 L0) (auto simp: Let_def)

lemma settle_sums_eq:
  assumes "ranges_over ord (SumByPair eb)"
  shows "settle_sums q eb ord = (map_default 0 (SumByPair eb) q,
           epoch_stakes eb - map_default 0 (SumByPair eb) q)"
proof -
  let ?f = "map_default 0 (SumByPair eb)"
  have d: "distinct ord" and s: "set ord = dom (SumByPair eb)"
    using assms by (auto simp: ranges_over_def)
  have "(\<Sum>p \<leftarrow> filter (\<lambda>p. p = q) ord. ?f p) = sum ?f {p \<in> dom (SumByPair eb). p = q}"
    using d s by (subst sum_list_distinct_conv_sum_set) auto
  also have "{p \<in> dom (SumByPair eb). p = q} = (if q \<in> dom (SumByPair eb) then {q} else {})" by auto
  finally have W: "(\<Sum>p \<leftarrow> filter (\<lambda>p. p = q) ord. ?f p) = ?f q"
    by (auto simp: map_default_def split: if_splits option.splits)
  have "(\<Sum>p \<leftarrow> filter (\<lambda>p. p = q) ord. ?f p) + (\<Sum>p \<leftarrow> filter (\<lambda>p. p \<noteq> q) ord. ?f p) = sum_list (map ?f ord)"
    by (induction ord) auto
  also have "\<dots> = epoch_stakes eb" using assms by (simp add: ranges_over_sum epoch_stakes_def)
  finally show ?thesis using W by (simp add: settle_sums_def settle_sums_fold)
qed

lemma sort_cong_mset: "mset xs = mset ys \<Longrightarrow> sort xs = sort ys"
  by (metis mset_sort properties_for_sort sorted_sort)

lemma u64_small: "unat (h :: u64) < 2 ^ 63 \<Longrightarrow> sint h = int (unat h)"
proof -
  assume h: "unat h < 2 ^ 63"
  have "sint h = signed_take_bit 63 (uint h)" by (simp add: sint_uint)
  also have "\<dots> = uint h"
  proof (rule signed_take_bit_int_eq_self)
    show "- (2 ^ 63) \<le> uint h" by (rule order_trans [OF _ uint_ge_0]) simp
    show "uint h < 2 ^ 63" unfolding uint_nat using h
      by (metis of_nat_less_iff of_nat_numeral of_nat_power)
  qed
  finally show ?thesis by simp
qed

lemma chooseWinningPair_eq:
  assumes "ord \<noteq> []" and "unat h < 2 ^ 63"
  shows "chooseWinningPair h ord = Inr (sort ord ! (unat h mod length ord))"
proof -
  have "sort ord \<noteq> []" using assms(1) by (metis length_0_conv length_sort)
  moreover have "go_mod (sint h) (int (length ord)) = Inr (int (unat h mod length ord))"
    using assms by (simp add: u64_small go_mod_nonneg zmod_int)
  moreover have "unat h mod length ord < length ord" using assms(1) by simp
  ultimately show ?thesis by (simp add: chooseWinningPair_def Let_def go_nth_def)
qed

text \<open>
  C25. The winning pair is agreed: it does not depend on the order in which a node's map iterates
  over the pairs (the requirement the code states for all nodes), and below height \<open>2^63\<close> it is
  a pair somebody bet on, namely the one whose rank in lexicographic order is the height modulo
  the number of pairs, so that successive heights go through all of them in turn.
\<close>

theorem chooseWinningPair_agreed:
  assumes "ranges_over ord (SumByPair eb)"
  shows "(\<forall>ord'. ranges_over ord' (SumByPair eb) \<longrightarrow> chooseWinningPair h ord' = chooseWinningPair h ord) \<and>
    (unat h < 2 ^ 63 \<and> SumByPair eb \<noteq> Map.empty \<longrightarrow>
      (\<exists>p. chooseWinningPair h ord = Inr p \<and> p \<in> dom (SumByPair eb) \<and>
           card {p' \<in> dom (SumByPair eb). p' < p} = unat h mod card (dom (SumByPair eb))))"
proof (intro conjI allI impI)
  fix ord' assume "ranges_over ord' (SumByPair eb)"
  then have "sort ord' = sort ord" using assms by (metis ranges_over_perm sort_cong_mset)
  then show "chooseWinningPair h ord' = chooseWinningPair h ord" by (simp add: chooseWinningPair_def)
next
  assume h: "unat h < 2 ^ 63 \<and> SumByPair eb \<noteq> Map.empty"
  have d: "distinct ord" and s: "set ord = dom (SumByPair eb)"
    using assms by (auto simp: ranges_over_def)
  with h have ne: "ord \<noteq> []" by (metis dom_eq_empty_conv list.set(1))
  let ?k = "unat h mod length ord" and ?xs = "sort ord"
  have k: "?k < length ?xs" using ne by simp
  have len: "length ord = card (dom (SumByPair eb))" using d s by (metis distinct_card)
  have "{p' \<in> set ?xs. p' < ?xs ! ?k} = set (take ?k ?xs)"
    using k d by (intro sorted_take_less) (simp_all add: distinct_sort)
  moreover have "card (set (take ?k ?xs)) = ?k"
    using k d by (simp add: distinct_card)
  ultimately have "card {p' \<in> dom (SumByPair eb). p' < ?xs ! ?k} = unat h mod card (dom (SumByPair eb))"
    using s len by simp
  moreover have "?xs ! ?k \<in> dom (SumByPair eb)" using nth_mem [OF k] s by simp
  ultimately show "\<exists>p. chooseWinningPair h ord = Inr p \<and> p \<in> dom (SumByPair eb) \<and>
           card {p' \<in> dom (SumByPair eb). p' < p} = unat h mod card (dom (SumByPair eb))"
    using chooseWinningPair_eq [OF ne] h by blast
qed


section \<open>Witnesses\<close>

definition demo_epoch :: g2e_epoch where
  "demo_epoch = the (appendBet 5 (2, 1) ''b0'' 7 (appendBet 5 (1, 9) ''a0'' 3 NewG2EBook) 5)"

lemma demo_epoch_sums: "SumByPair demo_epoch = [(1, 9) \<mapsto> 3, (2, 1) \<mapsto> 7]"
  by (simp add: demo_epoch_def appendBet_def NewG2EBook_def empty_epoch_def Let_def)

theorem chooseWinningPair_agreed_witness:
  "ranges_over [(2, 1), (1, 9)] (SumByPair demo_epoch) \<and>
   chooseWinningPair 5 [(1, 9), (2, 1)] = chooseWinningPair 5 [(2, 1), (1, 9)] \<and>
   chooseWinningPair 5 [(2, 1), (1, 9)] = Inr (2, 1)"
proof -
  have r: "ranges_over [(2, 1), (1, 9)] (SumByPair demo_epoch)"
    "ranges_over [(1, 9), (2, 1)] (SumByPair demo_epoch)"
    by (auto simp: ranges_over_def demo_epoch_sums)
  have "chooseWinningPair 5 [(1, 9), (2, 1)] = chooseWinningPair 5 [(2, 1), (1, 9)]"
    using chooseWinningPair_agreed [OF r(1)] r(2) by blast
  then show ?thesis using r
    by (simp add: chooseWinningPair_def Let_def go_mod_def go_nth_def)
qed

end
