(* ===== verification/Block_Store.thy ===== *)
theory Block_Store
  imports Core_Types
begin

text \<open>
  The block database, \<open>storage/storage.go\<close>, and the block queries of \<open>query/query_block.go\<close>.
  A bolt bucket is a map from keys to values; values are kept decoded (blocks and headers are
  stored through gob and read back through gob). \<open>bolt_put\<close> is \<open>Bucket.Put\<close> with the key checks
  it documents; the code turns its error into a panic. The interface \<open>block_db\<close> is what the chain
  relies on: a stored block is read back under its hash, nothing else changes, and the newest hash
  is that of the last block stored.
\<close>

section \<open>State and operations\<close>

record storage =
  blockBucket :: "bytes \<rightharpoonup> block"
  blockHeaderBucket :: "bytes \<rightharpoonup> block_header"
  newestBlockHash :: "bytes option"

definition NewStorage :: storage where
  \<comment> \<open>on a database file that does not exist yet: the three buckets are created empty\<close>
  "NewStorage = \<lparr>blockBucket = Map.empty, blockHeaderBucket = Map.empty, newestBlockHash = None\<rparr>"

definition bolt_put :: "bytes \<Rightarrow> 'v \<Rightarrow> (bytes \<rightharpoonup> 'v) \<Rightarrow> (bytes \<rightharpoonup> 'v) go" where
  "bolt_put k v m =
     (if k = [] \<or> 32768 < length k then Inl (LogPanic ''bolt'') else Inr (m(k \<mapsto> v)))"

definition UpdateNewestBlock :: "bytes \<Rightarrow> storage \<Rightarrow> storage" where
  "UpdateNewestBlock newestbhash s = s\<lparr>newestBlockHash := Some newestbhash\<rparr>"

definition AddBlockHeader :: "bytes \<Rightarrow> block_header \<Rightarrow> storage \<Rightarrow> storage go" where
  "AddBlockHeader blockhash bh s =
     and_then (bolt_put blockhash bh (blockHeaderBucket s)) (\<lambda>m. Inr (s\<lparr>blockHeaderBucket := m\<rparr>))"

definition Storage_AddBlock :: "block \<Rightarrow> storage \<Rightarrow> storage go" where
  "Storage_AddBlock b s =
     and_then (bolt_put (b_Hash b) b (blockBucket s)) (\<lambda>m.
     and_then (AddBlockHeader (b_Hash b) (b_Header b) (s\<lparr>blockBucket := m\<rparr>)) (\<lambda>s'.
     Inr (UpdateNewestBlock (b_Hash b) s')))"

definition GetBlockHeader :: "bytes \<Rightarrow> storage \<Rightarrow> string + block_header" where
  "GetBlockHeader bhash s =
     (case blockHeaderBucket s bhash of None \<Rightarrow> Inl ''the block is not existed'' | Some h \<Rightarrow> Inr h)"

definition GetBlock :: "bytes \<Rightarrow> storage \<Rightarrow> string + block" where
  "GetBlock bhash s =
     (case blockBucket s bhash of None \<Rightarrow> Inl ''the block is not existed'' | Some b \<Rightarrow> Inr b)"

definition GetNewestBlockHash :: "storage \<Rightarrow> string + bytes" where
  "GetNewestBlockHash s =
     (case newestBlockHash s of None \<Rightarrow> Inl ''cannot find the newest block hash'' | Some h \<Rightarrow> Inr h)"

section \<open>Queries\<close>

text \<open>\<open>ord\<close> is the key order in which \<open>Bucket.ForEach\<close> visits the bucket.\<close>

definition QueryBlocks :: "bytes list \<Rightarrow> storage \<Rightarrow> block list" where
  "QueryBlocks ord s = List.map_filter (blockBucket s) ord"

definition QueryBlock :: "bytes list \<Rightarrow> u64 \<Rightarrow> storage \<Rightarrow> block option" where
  \<comment> \<open>None is the empty block \<open>new(core.Block)\<close>\<close>
  "QueryBlock ord Number s =
     fold (\<lambda>b res. if bh_Number (b_Header b) = Number then Some b else res) (QueryBlocks ord s) None"

definition QueryNewestBlock :: "storage \<Rightarrow> block option" where
  \<comment> \<open>None is the nil pointer; an error of \<open>GetNewestBlockHash\<close> leaves the nil hash\<close>
  "QueryNewestBlock s =
     (let hash = (case GetNewestBlockHash s of Inl _ \<Rightarrow> [] | Inr h \<Rightarrow> h)
      in case GetBlock hash s of Inl _ \<Rightarrow> None | Inr b \<Rightarrow> Some b)"

definition QueryBlockTxs :: "bytes list \<Rightarrow> u64 \<Rightarrow> storage \<Rightarrow> transaction list" where
  "QueryBlockTxs ord Number s =
     (case QueryBlock ord Number s of None \<Rightarrow> [] | Some b \<Rightarrow> b_Body b)"

section \<open>The interface\<close>

locale block_db =
  fixes put :: "block \<Rightarrow> 's \<Rightarrow> 's go"
    and get :: "bytes \<Rightarrow> 's \<Rightarrow> string + block"
    and hdr :: "bytes \<Rightarrow> 's \<Rightarrow> string + block_header"
    and newest :: "'s \<Rightarrow> string + bytes"
  assumes get_put: "put b s = Inr s' \<Longrightarrow> get h s' = (if h = b_Hash b then Inr b else get h s)"
    and hdr_put: "put b s = Inr s' \<Longrightarrow> hdr h s' = (if h = b_Hash b then Inr (b_Header b) else hdr h s)"
    and newest_put: "put b s = Inr s' \<Longrightarrow> newest s' = Inr (b_Hash b)"
begin

lemma read_after_puts:
  assumes "go_fold put bs s = Inr s'" and "distinct (map b_Hash bs)" and "b \<in> set bs"
  shows "get (b_Hash b) s' = Inr b \<and> hdr (b_Hash b) s' = Inr (b_Header b)"
  using assms
proof (induction bs arbitrary: s)
  case (Cons b' bs)
  then obtain t where t: "put b' s = Inr t" and rest: "go_fold put bs t = Inr s'"
    by (auto simp: and_then_Inr)
  show ?case
  proof (cases "b \<in> set bs")
    case False
    then have "b = b'" using Cons.prems(3) by simp
    let ?P = "\<lambda>s. get (b_Hash b') s = Inr b' \<and> hdr (b_Hash b') s = Inr (b_Header b')"
    have "?P t" using get_put [OF t] hdr_put [OF t] by simp
    moreover have "?P u'" if "x \<in> set bs" "?P u" "put x u = Inr u'" for x u u'
      using that Cons.prems(2) get_put [OF that(3)] hdr_put [OF that(3)] by (auto simp: image_iff)
    ultimately have "?P s'" by (rule go_fold_inv [OF rest])
    with \<open>b = b'\<close> show ?thesis by simp
  qed (use Cons rest in auto)
qed simp

lemma newest_after_puts:
  assumes "go_fold put bs s = Inr s'" and "bs \<noteq> []"
  shows "newest s' = Inr (b_Hash (last bs))"
proof -
  from assms have "go_fold put (butlast bs @ [last bs]) s = Inr s'" by simp
  then show ?thesis by (auto simp: go_fold_append and_then_Inr dest: newest_put)
qed

end

lemma Storage_AddBlock_Inr:
  "Storage_AddBlock b s = Inr s' \<longleftrightarrow> b_Hash b \<noteq> [] \<and> length (b_Hash b) \<le> 32768 \<and>
     s' = \<lparr>blockBucket = (blockBucket s)(b_Hash b \<mapsto> b),
           blockHeaderBucket = (blockHeaderBucket s)(b_Hash b \<mapsto> b_Header b),
           newestBlockHash = Some (b_Hash b)\<rparr>"
  by (auto simp: Storage_AddBlock_def AddBlockHeader_def UpdateNewestBlock_def bolt_put_def)

interpretation db: block_db Storage_AddBlock GetBlock GetBlockHeader GetNewestBlockHash
  by unfold_locales
    (auto simp: Storage_AddBlock_Inr GetBlock_def GetBlockHeader_def GetNewestBlockHash_def)

text \<open>
  C28. The block database reads back what was written: after storing any list of blocks with
  distinct hashes on any database, every one of them is found under its hash together with its
  header, and the newest hash, and the newest block a query returns, is that of the last one.
\<close>

theorem Storage_reads_back:
  assumes "go_fold Storage_AddBlock bs s = Inr s'" and "distinct (map b_Hash bs)" and "bs \<noteq> []"
  shows "(\<forall>b \<in> set bs. GetBlock (b_Hash b) s' = Inr b \<and> GetBlockHeader (b_Hash b) s' = Inr (b_Header b)) \<and>
    GetNewestBlockHash s' = Inr (b_Hash (last bs)) \<and> QueryNewestBlock s' = Some (last bs)"
proof -
  have g: "GetBlock (b_Hash b) s' = Inr b \<and> GetBlockHeader (b_Hash b) s' = Inr (b_Header b)"
    if "b \<in> set bs" for b
    using db.read_after_puts [OF assms(1,2) that] .
  have n: "GetNewestBlockHash s' = Inr (b_Hash (last bs))"
    using db.newest_after_puts [OF assms(1,3)] .
  have "QueryNewestBlock s' = Some (last bs)"
    using g [OF last_in_set [OF assms(3)]] by (simp add: QueryNewestBlock_def n)
  with g n show ?thesis by blast
qed

section \<open>Witness\<close>

definition demo_header :: "nat \<Rightarrow> block_header" where
  "demo_header n = \<lparr>bh_ParentBlockHash = [of_nat n - 1], bh_StateRoot = [], bh_TxRoot = [],
     bh_Bloom = {}, bh_Number = of_nat n, bh_Time = 0, bh_Miner = 0\<rparr>"

definition demo_block :: "nat \<Rightarrow> block" where
  "demo_block n = \<lparr>b_Header = demo_header n, b_Body = [], b_Hash = [of_nat n]\<rparr>"

theorem Storage_reads_back_witness:
  "\<exists>s'. go_fold Storage_AddBlock [demo_block 1, demo_block 2] NewStorage = Inr s' \<and>
     distinct (map b_Hash [demo_block 1, demo_block 2]) \<and> QueryNewestBlock s' = Some (demo_block 2)"
proof -
  have d: "distinct (map b_Hash [demo_block 1, demo_block 2])" by (simp add: demo_block_def)
  obtain s' where s: "go_fold Storage_AddBlock [demo_block 1, demo_block 2] NewStorage = Inr s'"
    by (simp add: Storage_AddBlock_def AddBlockHeader_def bolt_put_def demo_block_def)
  show ?thesis using s d Storage_reads_back [OF s d] by simp
qed

end
