(* ===== verification/Block_Chain.thy ===== *)
theory Block_Chain
  imports Tx_Pool G2E_Book Block_Store
begin

text \<open>
  The per-node blockchain, \<open>chain/blockchain.go\<close>: execution of a block's transactions on the
  state trie together with the Game2Earn book (\<open>GetUpdateStatusTrie\<close>), block production, block
  acceptance, account migration and the partition map.

  The state trie of go-ethereum is represented by the map from addresses to accounts it stores
  (accounts are kept decoded); the trie database maps a root to the trie committed under it, and
  \<open>trie.New\<close> fails exactly when the root is not in it. The root of the empty trie can always be
  opened, so it is in every database from genesis on. The root function is a parameter
  (\<open>state_root\<close> of the environment), as are the hash functions.
  \<open>ords\<close> gives the order of each range loop over the pairs of an epoch.
\<close>

section \<open>State\<close>

record blockchain =
  bc_triedb :: "bytes \<rightharpoonup> state_trie"
  bc_ChainConfig :: chain_config
  bc_CurrentBlock :: block
  bc_Storage :: storage
  bc_Txpool :: tx_pool
  bc_PartitionMap :: "address \<rightharpoonup> u64"
  bc_G2EBook :: g2e_book

abbreviation cur_header :: "blockchain \<Rightarrow> block_header" where
  "cur_header bc \<equiv> b_Header (bc_CurrentBlock bc)"

abbreviation my_shard :: "blockchain \<Rightarrow> u64" where
  "my_shard bc \<equiv> cc_ShardID (bc_ChainConfig bc)"

type_synonym epoch_orders = "nat \<Rightarrow> g2e_epoch \<Rightarrow> bet_pair list"

definition map_orders :: "epoch_orders \<Rightarrow> bool" where
  "map_orders ords \<longleftrightarrow> (\<forall>n eb. finite (dom (SumByPair eb)) \<longrightarrow> ranges_over (ords n eb) (SumByPair eb))"

section \<open>Transaction root, bloom filter, partition map\<close>

definition GetTxTreeRoot :: "go_env \<Rightarrow> transaction list \<Rightarrow> bytes" where
  "GetTxTreeRoot E txs = keys_root E (set (map tx_TxHash txs))"

definition GetBloomFilter :: "transaction list \<Rightarrow> nat set go" where
  "GetBloomFilter txs =
     go_fold (\<lambda>tx bs. and_then (ModBytes (tx_TxHash tx) 2048) (\<lambda>i. Inr (insert i bs))) txs {}"

definition Update_PartitionMap :: "address \<Rightarrow> u64 \<Rightarrow> blockchain \<Rightarrow> blockchain" where
  "Update_PartitionMap key val bc = bc\<lparr>bc_PartitionMap := (bc_PartitionMap bc)(key \<mapsto> val)\<rparr>"

definition Get_PartitionMap :: "go_env \<Rightarrow> blockchain \<Rightarrow> address \<Rightarrow> u64 go" where
  "Get_PartitionMap E bc key =
     (case bc_PartitionMap bc key of
        None \<Rightarrow> and_then (Addr2Shard E key) (\<lambda>s. Inr (word_of_int s))
      | Some v \<Rightarrow> Inr v)"

definition SendTx2Pool :: "(nat \<Rightarrow> gotime) \<Rightarrow> transaction list \<Rightarrow> blockchain \<Rightarrow> blockchain" where
  "SendTx2Pool now txs bc = bc\<lparr>bc_Txpool := AddTxs2Pool now txs (bc_Txpool bc)\<rparr>"

section \<open>Execution of transactions\<close>

record exec_state =
  ex_st :: state_trie
  ex_book :: g2e_book
  ex_cnt :: int

definition account_or_new :: "nat \<Rightarrow> state_trie \<Rightarrow> address \<Rightarrow> account_state" where
  "account_or_new i st a =
     (case st a of None \<Rightarrow> new_account (u64_of_nat i) Init_Balance | Some s \<Rightarrow> s)"

definition sender_here :: "go_env \<Rightarrow> blockchain \<Rightarrow> transaction \<Rightarrow> bool go" where
  "sender_here E bc tx =
     (if tx_Relayed tx then Inr False
      else and_then (Get_PartitionMap E bc (tx_Sender tx)) (\<lambda>s. Inr (s = my_shard bc \<or> tx_HasBroker tx)))"

definition recipient_here :: "go_env \<Rightarrow> blockchain \<Rightarrow> transaction \<Rightarrow> bool go" where
  "recipient_here E bc tx =
     and_then (Get_PartitionMap E bc (tx_Recipient tx)) (\<lambda>s. Inr (s = my_shard bc \<or> tx_HasBroker tx))"

definition credit_recipient ::
  "go_env \<Rightarrow> blockchain \<Rightarrow> nat \<Rightarrow> transaction \<Rightarrow> exec_state \<Rightarrow> exec_state go" where
  "credit_recipient E bc i tx x =
     and_then (recipient_here E bc tx) (\<lambda>rh.
       if rh then
         let r_state = Deposit (account_or_new i (ex_st x) (tx_Recipient tx)) (tx_Value tx)
         in Inr (x\<lparr>ex_st := (ex_st x)(tx_Recipient tx \<mapsto> r_state), ex_cnt := ex_cnt x + 1\<rparr>)
       else Inr x)"

definition apply_tx ::
  "go_env \<Rightarrow> blockchain \<Rightarrow> nat \<Rightarrow> transaction \<Rightarrow> exec_state \<Rightarrow> exec_state go" where
  "apply_tx E bc i tx x =
     and_then (sender_here E bc tx) (\<lambda>sh.
       if sh then
         let s_state = account_or_new i (ex_st x) (tx_Sender tx) in
         if as_Balance s_state < tx_Value tx then Inr x
         else
           let s_state = fst (Deduct s_state (tx_Value tx));
               x = x\<lparr>ex_st := (ex_st x)(tx_Sender tx \<mapsto> s_state), ex_cnt := ex_cnt x + 1\<rparr>
           in if tx_G2EEnabled tx then
                if tx_Height tx < bh_Number (cur_header bc) + G2E_Beta E then
                  let s_state = Deposit s_state (tx_Value tx)
                  in Inr (x\<lparr>ex_st := (ex_st x)(tx_Sender tx \<mapsto> s_state), ex_cnt := ex_cnt x - 1\<rparr>)
                else Inr (x\<lparr>ex_book := appendBet (tx_Height tx) (tx_PairI tx, tx_PairJ tx)
                                         (tx_Sender tx) (tx_Value tx) (ex_book x)\<rparr>)
              else credit_recipient E bc i tx x
       else credit_recipient E bc i tx x)"

definition pay_winner :: "int \<Rightarrow> bet_entry \<Rightarrow> exec_state \<Rightarrow> exec_state" where
  "pay_winner q e x =
     (let gain = be_Amount e * q;
          r_state = Deposit (account_or_new 0 (ex_st x) (be_Player e)) gain
      in x\<lparr>ex_st := (ex_st x)(be_Player e \<mapsto> r_state), ex_cnt := ex_cnt x + 1\<rparr>)"

definition settle_epoch :: "epoch_orders \<Rightarrow> u64 \<Rightarrow> exec_state \<Rightarrow> exec_state go" where
  "settle_epoch ords nextBlockH x =
     (case getEpoch nextBlockH (ex_book x) of
        None \<Rightarrow> Inr x
      | Some eb \<Rightarrow>
          and_then (chooseWinningPair nextBlockH (ords 0 eb)) (\<lambda>pairStar.
            let WL = settle_sums pairStar eb (ords 1 eb);
                q = settle_quotient WL;
                x = (if 0 < fst WL
                     then fold (pay_winner q) (map_default [] (ByPair eb) pairStar) x else x)
            in Inr (x\<lparr>ex_book := cleanup nextBlockH (ex_book x)\<rparr>)))"

definition GetUpdateStatusTrie ::
  "epoch_orders \<Rightarrow> go_env \<Rightarrow> transaction list \<Rightarrow> blockchain \<Rightarrow> (blockchain \<times> bytes) go" where
  "GetUpdateStatusTrie ords E txs bc =
     (let root = bh_StateRoot (cur_header bc) in
      if txs = [] then Inr (bc, root)
      else case bc_triedb bc root of
        None \<Rightarrow> Inl (LogPanic ''missing trie node'')
      | Some st \<Rightarrow>
          and_then (go_foldi (apply_tx E bc) 0 txs \<lparr>ex_st = st, ex_book = bc_G2EBook bc, ex_cnt = 0\<rparr>) (\<lambda>x.
            if ex_cnt x = 0 then Inr (bc\<lparr>bc_G2EBook := ex_book x\<rparr>, root)
            else and_then (settle_epoch ords (bh_Number (cur_header bc) + 1) x) (\<lambda>y.
              let rt = state_root E (ex_st y)
              in Inr (bc\<lparr>bc_triedb := (bc_triedb bc)(rt \<mapsto> ex_st y), bc_G2EBook := ex_book y\<rparr>, rt))))"

section \<open>Blocks\<close>

definition GenerateBlock ::
  "epoch_orders \<Rightarrow> go_env \<Rightarrow> gotime \<Rightarrow> 32 word \<Rightarrow> blockchain \<Rightarrow> (block \<times> blockchain) go" where
  "GenerateBlock ords E now miner bc =
     (let (txs, pool) = (if UseBlocksizeInBytes E = 1
                         then PackTxsWithBytes (BlocksizeInBytes E) (bc_Txpool bc)
                         else PackTxs (cc_BlockSize (bc_ChainConfig bc)) (bc_Txpool bc))
      in and_then (GetUpdateStatusTrie ords E txs (bc\<lparr>bc_Txpool := pool\<rparr>)) (\<lambda>(bc', rt).
         and_then (GetBloomFilter txs) (\<lambda>bloom.
           let bh = \<lparr>bh_ParentBlockHash = b_Hash (bc_CurrentBlock bc), bh_StateRoot = rt,
                     bh_TxRoot = GetTxTreeRoot E txs, bh_Bloom = bloom,
                     bh_Number = bh_Number (cur_header bc) + 1, bh_Time = now, bh_Miner = miner\<rparr>
           in Inr ((NewBlock bh txs)\<lparr>b_Hash := hash_header E bh\<rparr>, bc'))))"

definition NewGenisisBlock :: "go_env \<Rightarrow> block" where
  "NewGenisisBlock E =
     (let bh = \<lparr>bh_ParentBlockHash = [], bh_StateRoot = state_root E Map.empty,
                bh_TxRoot = GetTxTreeRoot E [], bh_Bloom = {}, bh_Number = 0, bh_Time = 0, bh_Miner = 0\<rparr>
      in (NewBlock bh [])\<lparr>b_Hash := hash_header E bh\<rparr>)"

definition AddGenisisBlock :: "block \<Rightarrow> blockchain \<Rightarrow> blockchain go" where
  "AddGenisisBlock gb bc =
     and_then (Storage_AddBlock gb (bc_Storage bc)) (\<lambda>s.
       case GetNewestBlockHash s of
         Inl _ \<Rightarrow> Inl (LogPanic '''')
       | Inr newestHash \<Rightarrow>
           (case GetBlock newestHash s of
              Inl _ \<Rightarrow> Inl (LogPanic '''')
            | Inr curb \<Rightarrow> Inr (bc\<lparr>bc_Storage := s, bc_CurrentBlock := curb\<rparr>)))"

definition AddBlock :: "epoch_orders \<Rightarrow> go_env \<Rightarrow> block \<Rightarrow> blockchain \<Rightarrow> blockchain go" where
  "AddBlock ords E b bc =
     (if bh_Number (b_Header b) \<noteq> bh_Number (cur_header bc) + 1 then Inr bc
      else if bh_ParentBlockHash (b_Header b) \<noteq> b_Hash (bc_CurrentBlock bc) then Inr bc
      else and_then
        (case bc_triedb bc (bh_StateRoot (b_Header b)) of
           Some _ \<Rightarrow> Inr bc
         | None \<Rightarrow> and_then (GetUpdateStatusTrie ords E (b_Body b) bc) (\<lambda>(bc', rt). Inr bc'))
        (\<lambda>bc'. and_then (Storage_AddBlock b (bc_Storage bc'))
           (\<lambda>s. Inr (bc'\<lparr>bc_CurrentBlock := b, bc_Storage := s\<rparr>))))"

definition NewBlockChain ::
  "go_env \<Rightarrow> chain_config \<Rightarrow> storage \<Rightarrow> (bytes \<rightharpoonup> state_trie) \<Rightarrow> blockchain go" where
  \<comment> \<open>\<open>s\<close> and \<open>db\<close>: the block database and the trie database found on disk\<close>
  "NewBlockChain E cc s db =
     (let db = db(state_root E Map.empty \<mapsto> Map.empty);
          bc = \<lparr>bc_triedb = db, bc_ChainConfig = cc, bc_CurrentBlock = NewGenisisBlock E,
                bc_Storage = s, bc_Txpool = NewTxPool, bc_PartitionMap = Map.empty,
                bc_G2EBook = NewG2EBook\<rparr>
      in case GetNewestBlockHash s of
           Inl _ \<Rightarrow> AddGenisisBlock (NewGenisisBlock E) bc
         | Inr curHash \<Rightarrow>
             (case GetBlock curHash s of
                Inl _ \<Rightarrow> Inl (LogPanic '''')
              | Inr curb \<Rightarrow>
                  (case db (bh_StateRoot (b_Header curb)) of
                     None \<Rightarrow> Inl (LogPanic '''')
                   | Some _ \<Rightarrow> Inr (bc\<lparr>bc_CurrentBlock := curb\<rparr>))))"

definition IsValidBlock :: "go_env \<Rightarrow> blockchain \<Rightarrow> block \<Rightarrow> string option" where
  \<comment> \<open>None is the nil error\<close>
  "IsValidBlock E bc b =
     (if bh_ParentBlockHash (b_Header b) \<noteq> b_Hash (bc_CurrentBlock bc)
      then Some ''the parentblock hash is not equal to the current block hash''
      else if GetTxTreeRoot E (b_Body b) \<noteq> bh_TxRoot (b_Header b)
      then Some ''the transaction root is wrong''
      else None)"

section \<open>Account migration\<close>

definition add_account ::
  "go_env \<Rightarrow> blockchain \<Rightarrow> account_state list \<Rightarrow> nat \<Rightarrow> address \<Rightarrow> state_trie \<Rightarrow> state_trie go" where
  "add_account E bc as i addr st =
     and_then (Get_PartitionMap E bc addr) (\<lambda>s.
       if s = my_shard bc then
         and_then (go_nth as (int i)) (\<lambda>a. Inr (st(addr \<mapsto> new_account (as_Nonce a) (as_Balance a))))
       else Inr st)"

text \<open>
  When the loop changes nothing, \<open>Commit\<close> returns no node set and the old root is kept; it is the
  root of the same state, so the case needs no branch of its own.
\<close>

definition AddAccounts ::
  "go_env \<Rightarrow> address list \<Rightarrow> account_state list \<Rightarrow> blockchain \<Rightarrow> blockchain go" where
  "AddAccounts E ac as bc =
     and_then
       (if ac = [] then Inr (bc_triedb bc, bh_StateRoot (cur_header bc))
        else case bc_triedb bc (bh_StateRoot (cur_header bc)) of
          None \<Rightarrow> Inl (LogPanic ''missing trie node'')
        | Some st \<Rightarrow>
            and_then (go_foldi (add_account E bc as) 0 ac st)
              (\<lambda>st'. Inr ((bc_triedb bc)(state_root E st' \<mapsto> st'), state_root E st')))
       (\<lambda>(db, rt).
         let bh = \<lparr>bh_ParentBlockHash = b_Hash (bc_CurrentBlock bc), bh_StateRoot = rt,
                   bh_TxRoot = GetTxTreeRoot E [], bh_Bloom = {},
                   bh_Number = bh_Number (cur_header bc) + 1, bh_Time = 0, bh_Miner = 0\<rparr>;
             b = (NewBlock bh [])\<lparr>b_Hash := hash_header E bh\<rparr>
         in and_then (Storage_AddBlock b (bc_Storage bc))
              (\<lambda>s. Inr (bc\<lparr>bc_triedb := db, bc_CurrentBlock := b, bc_Storage := s\<rparr>)))"

definition FetchAccounts :: "address list \<Rightarrow> blockchain \<Rightarrow> account_state list go" where
  "FetchAccounts addrs bc =
     (case bc_triedb bc (bh_StateRoot (cur_header bc)) of
        None \<Rightarrow> Inl (LogPanic ''missing trie node'')
      | Some st \<Rightarrow> Inr (map (account_or_new 0 st) addrs))"

definition open_newest :: "storage \<Rightarrow> (bytes \<rightharpoonup> state_trie) \<Rightarrow> state_trie go" where
  \<comment> \<open>the trie at the root of the newest block; the errors of the two reads are ignored\<close>
  "open_newest s db =
     (let curHash = (case GetNewestBlockHash s of Inl _ \<Rightarrow> [] | Inr h \<Rightarrow> h)
      in case GetBlock curHash s of
           Inl _ \<Rightarrow> Inl NilDeref
         | Inr curb \<Rightarrow> (case db (bh_StateRoot (b_Header curb)) of None \<Rightarrow> Inl (LogPanic '''') | Some st \<Rightarrow> Inr st))"

definition QueryAccountState :: "storage \<Rightarrow> (bytes \<rightharpoonup> state_trie) \<Rightarrow> address \<Rightarrow> account_state option go" where
  \<comment> \<open>on the two databases; None is the nil pointer\<close>
  "QueryAccountState s db addr = and_then (open_newest s db) (\<lambda>st. Inr (st addr))"

definition QueryAccountStateList :: "storage \<Rightarrow> (bytes \<rightharpoonup> state_trie) \<Rightarrow> address list \<Rightarrow> account_state option list go" where
  "QueryAccountStateList s db addrs =
     and_then (open_newest s db) (\<lambda>st.
       go_foldi (\<lambda>i addr ret. if i < length ret then Inr (ret[i := st addr]) else Inl IndexOutOfRange) 0 addrs
         (replicate (length addrs) None))"

section \<open>Wealth: balances plus stakes\<close>

text \<open>
  An address that has no account yet counts with the initial balance, because every code path that
  touches it creates it with that balance. The wealth of a finite set of addresses is the sum of
  their balances; the book's stakes are counted separately.
\<close>

definition balance_of :: "state_trie \<Rightarrow> address \<Rightarrow> int" where
  "balance_of st a = as_Balance (account_or_new 0 st a)"

definition wealth :: "address set \<Rightarrow> state_trie \<Rightarrow> int" where
  "wealth A st = (\<Sum>a \<in> A. balance_of st a)"

definition funds :: "address set \<Rightarrow> exec_state \<Rightarrow> int" where
  "funds A x = wealth A (ex_st x) + book_stakes (ex_book x)"

definition inbound :: "go_env \<Rightarrow> blockchain \<Rightarrow> transaction \<Rightarrow> int" where
  \<comment> \<open>value credited here by a transaction whose sender is not debited here\<close>
  "inbound E bc tx =
     (if sender_here E bc tx = Inr False \<and> recipient_here E bc tx = Inr True then tx_Value tx else 0)"

definition local_tx :: "go_env \<Rightarrow> blockchain \<Rightarrow> transaction \<Rightarrow> bool" where
  "local_tx E bc tx \<longleftrightarrow> sender_here E bc tx = Inr True \<and> recipient_here E bc tx = Inr True"

definition settle_loss :: "int \<times> int \<Rightarrow> int" where
  \<comment> \<open>what a settlement removes from circulation\<close>
  "settle_loss WL = (case WL of (W, L) \<Rightarrow> if 0 < W then W + L mod W else W + L)"

lemma balance_of_account [simp]: "as_Balance (account_or_new i st a) = balance_of st a"
  by (simp add: balance_of_def account_or_new_def split: option.splits)

lemma balance_of_upd [simp]:
  "balance_of (st(a \<mapsto> s)) b = (if b = a then as_Balance s else balance_of st b)"
  by (simp add: balance_of_def account_or_new_def)

lemma wealth_upd:
  assumes "finite A" and "a \<in> A"
  shows "wealth A (st(a \<mapsto> s)) = wealth A st + as_Balance s - balance_of st a"
proof -
  have "(\<Sum>b \<in> insert a A. balance_of (st(a \<mapsto> s)) b)
      = (\<Sum>b \<in> A. balance_of st b) + balance_of (st(a \<mapsto> s)) a - balance_of st a"
    by (rule sum_upd_other) (use assms in auto)
  with assms(2) show ?thesis by (simp add: wealth_def insert_absorb)
qed

lemma account_balance_id [simp]:
  "(account_or_new i st a)\<lparr>as_Balance := balance_of st a\<rparr> = account_or_new i st a"
  by (subst balance_of_account [of i, symmetric]) simp

text \<open>What one transaction does to the state, by cases.\<close>

lemma credit_recipient_cases:
  assumes "credit_recipient E bc i tx x = Inr y"
  obtains "recipient_here E bc tx = Inr False" and "y = x"
  | "recipient_here E bc tx = Inr True"
    and "y = x\<lparr>ex_st := (ex_st x)(tx_Recipient tx \<mapsto>
               Deposit (account_or_new i (ex_st x) (tx_Recipient tx)) (tx_Value tx)),
             ex_cnt := ex_cnt x + 1\<rparr>"
  using assms by (auto simp: credit_recipient_def and_then_Inr Let_def split: if_splits)

definition debited :: "nat \<Rightarrow> transaction \<Rightarrow> exec_state \<Rightarrow> exec_state" where
  "debited i tx x = x\<lparr>ex_st := (ex_st x)(tx_Sender tx \<mapsto>
       (account_or_new i (ex_st x) (tx_Sender tx))\<lparr>as_Balance := balance_of (ex_st x) (tx_Sender tx) - tx_Value tx\<rparr>),
     ex_cnt := ex_cnt x + 1\<rparr>"

lemma apply_tx_cases:
  assumes "apply_tx E bc i tx x = Inr y"
  obtains (foreign) "sender_here E bc tx = Inr False" and "credit_recipient E bc i tx x = Inr y"
  | (poor) "sender_here E bc tx = Inr True" and "balance_of (ex_st x) (tx_Sender tx) < tx_Value tx" and "y = x"
  | (late) "sender_here E bc tx = Inr True" and "tx_Value tx \<le> balance_of (ex_st x) (tx_Sender tx)"
      and "tx_G2EEnabled tx" and "tx_Height tx < bh_Number (cur_header bc) + G2E_Beta E"
      and "y = x\<lparr>ex_st := (ex_st x)(tx_Sender tx \<mapsto> account_or_new i (ex_st x) (tx_Sender tx))\<rparr>"
  | (bet) "sender_here E bc tx = Inr True" and "tx_Value tx \<le> balance_of (ex_st x) (tx_Sender tx)"
      and "tx_G2EEnabled tx" and "bh_Number (cur_header bc) + G2E_Beta E \<le> tx_Height tx"
      and "y = (debited i tx x)\<lparr>ex_book := appendBet (tx_Height tx) (tx_PairI tx, tx_PairJ tx)
                                  (tx_Sender tx) (tx_Value tx) (ex_book x)\<rparr>"
  | (transfer) "sender_here E bc tx = Inr True" and "tx_Value tx \<le> balance_of (ex_st x) (tx_Sender tx)"
      and "\<not> tx_G2EEnabled tx" and "credit_recipient E bc i tx (debited i tx x) = Inr y"
proof -
  from assms obtain sh where sh: "sender_here E bc tx = Inr sh"
    by (auto simp: apply_tx_def and_then_Inr)
  show thesis
  proof (cases sh)
    case False
    with sh assms foreign show thesis by (simp add: apply_tx_def)
  next
    case True
    with sh have sh: "sender_here E bc tx = Inr True" by simp
    consider "balance_of (ex_st x) (tx_Sender tx) < tx_Value tx"
      | "tx_Value tx \<le> balance_of (ex_st x) (tx_Sender tx)" by linarith
    then show thesis
    proof cases
      case 1
      with sh assms have "y = x" by (simp add: apply_tx_def Let_def)
      with sh 1 show thesis by (rule poor)
    next
      case 2
      then show thesis using sh assms late bet transfer
        by (cases "tx_G2EEnabled tx";
            cases "tx_Height tx < bh_Number (cur_header bc) + G2E_Beta E")
          (auto simp: apply_tx_def Let_def Deduct_def Deposit_def debited_def not_less)
    qed
  qed
qed

lemma debited_simps [simp]:
  "ex_book (debited i tx x) = ex_book x" "ex_cnt (debited i tx x) = ex_cnt x + 1"
  "balance_of (ex_st (debited i tx x)) a =
     (if a = tx_Sender tx then balance_of (ex_st x) a - tx_Value tx else balance_of (ex_st x) a)"
  by (simp_all add: debited_def)

lemma debited_total:
  "finite A \<Longrightarrow> tx_Sender tx \<in> A \<Longrightarrow> funds A (debited i tx x) = funds A x - tx_Value tx"
  by (simp add: funds_def debited_def wealth_upd)

lemma credit_total:
  assumes "credit_recipient E bc i tx x = Inr y" and "finite A" and "tx_Recipient tx \<in> A"
  shows "funds A y = funds A x + (if recipient_here E bc tx = Inr True then tx_Value tx else 0) \<and>
         ex_book y = ex_book x"
  using assms(1)
  by (rule credit_recipient_cases) (simp_all add: funds_def wealth_upd assms(2,3))

text \<open>The effect of a transaction on the total, exactly.\<close>

lemma apply_tx_total:
  assumes "apply_tx E bc i tx x = Inr y" and "finite A" and "tx_Sender tx \<in> A" and "tx_Recipient tx \<in> A"
    and "book_wf (ex_book x)" and "0 \<le> tx_Value tx"
  shows "funds A y \<le> funds A x + inbound E bc tx \<and> book_wf (ex_book y) \<and>
         (local_tx E bc tx \<longrightarrow> funds A y = funds A x)"
  using assms(1)
proof (cases rule: apply_tx_cases)
  case foreign
  from credit_total [OF foreign(2) assms(2,4)] foreign(1) assms(5) show ?thesis
    by (auto simp: inbound_def local_tx_def)
next
  case transfer
  from credit_total [OF transfer(4) assms(2,4)] transfer(1) assms(5,6) show ?thesis
    by (auto simp: inbound_def local_tx_def debited_total assms(2,3))
next
  case bet
  have "funds A y = funds A (debited i tx x) + tx_Value tx"
    by (simp add: bet(5) funds_def book_stakes_append assms(5))
  with bet assms show ?thesis by (simp add: debited_total inbound_def book_wf_append)
qed (use assms in \<open>auto simp: funds_def wealth_upd inbound_def\<close>)

lemma apply_txs_total:
  assumes "go_foldi (apply_tx E bc) i txs x = Inr y" and "finite A"
    and "\<forall>tx \<in> set txs. tx_Sender tx \<in> A \<and> tx_Recipient tx \<in> A \<and> 0 \<le> tx_Value tx"
    and "book_wf (ex_book x)"
  shows "funds A y \<le> funds A x + (\<Sum>tx \<leftarrow> txs. inbound E bc tx) \<and> book_wf (ex_book y) \<and>
         ((\<forall>tx \<in> set txs. local_tx E bc tx) \<longrightarrow> funds A y = funds A x)"
  using assms(1,3,4)
proof (induction txs arbitrary: i x)
  case (Cons tx txs)
  then obtain z where z: "apply_tx E bc i tx x = Inr z" and rest: "go_foldi (apply_tx E bc) (Suc i) txs z = Inr y"
    by (auto simp: and_then_Inr)
  have step: "funds A z \<le> funds A x + inbound E bc tx \<and> book_wf (ex_book z) \<and>
      (local_tx E bc tx \<longrightarrow> funds A z = funds A x)"
    by (rule apply_tx_total [OF z assms(2)]) (use Cons.prems in auto)
  from Cons.IH [OF rest] step Cons.prems(2) show ?case by fastforce
qed simp

section \<open>Settlement\<close>

definition book_ok :: "g2e_book \<Rightarrow> bool" where
  \<comment> \<open>the book invariant: well formed, and no negative stake\<close>
  "book_ok bk \<longleftrightarrow> book_wf bk \<and> (\<forall>h. \<forall>e \<in># bets_at bk h. 0 \<le> be_Amount e)"

definition winners :: "bet_pair \<Rightarrow> g2e_epoch \<Rightarrow> bet_entry list" where
  "winners p eb = map_default [] (ByPair eb) p"

lemma book_ok_New [simp]: "book_ok NewG2EBook"
  by (simp add: book_ok_def bets_at_def epoch_bets_def empty_epoch_def) (simp add: NewG2EBook_def)

lemma book_ok_wf [dest]: "book_ok bk \<Longrightarrow> book_wf bk"
  by (simp add: book_ok_def)

lemma book_ok_append: "book_ok bk \<Longrightarrow> 0 \<le> a \<Longrightarrow> book_ok (appendBet h p pl a bk)"
  by (auto simp: book_ok_def book_wf_append bets_at_append split: if_splits)

lemma book_ok_cleanup: "book_ok bk \<Longrightarrow> book_ok (cleanup h bk)"
  by (auto simp: book_ok_def book_wf_cleanup bets_at_cleanup split: if_splits)

lemma winners_bets:
  assumes "epoch_wf eb" and "e \<in> set (winners p eb)"
  shows "e \<in># epoch_bets eb"
proof -
  have p: "p \<in> dom (ByPair eb)" using assms(2) by (cases "ByPair eb p") (auto simp: winners_def map_default_def)
  have fin: "finite (dom (ByPair eb))" using assms(1) by (simp add: epoch_wf_def)
  have "epoch_bets eb = mset (winners p eb) + (\<Sum>x \<in> dom (ByPair eb) - {p}. mset (map_default [] (ByPair eb) x))"
    unfolding epoch_bets_def winners_def by (rule sum.remove [OF fin p])
  then show ?thesis using assms(2) by simp
qed

lemma winners_sum:
  assumes "epoch_wf eb"
  shows "(\<Sum>e \<leftarrow> winners p eb. be_Amount e) = map_default 0 (SumByPair eb) p"
proof (cases "ByPair eb p")
  case None
  with assms have "SumByPair eb p = None" by (auto simp: epoch_wf_def)
  with None show ?thesis by (simp add: winners_def map_default_def)
next
  case (Some es)
  with epoch_wf_sum [OF assms Some] show ?thesis by (simp add: winners_def map_default_def)
qed

lemma sums_nonneg:
  assumes "epoch_wf eb" and "\<forall>e \<in># epoch_bets eb. 0 \<le> be_Amount e"
  shows "0 \<le> map_default 0 (SumByPair eb) p" and "0 \<le> epoch_stakes eb - map_default 0 (SumByPair eb) p"
proof -
  have nn: "0 \<le> map_default 0 (SumByPair eb) p" for p
    unfolding winners_sum [OF assms(1), symmetric]
    using assms(2) winners_bets [OF assms(1), of _ p] by (fastforce intro!: sum_list_nonneg)
  then show "0 \<le> map_default 0 (SumByPair eb) p" .
  have fin: "finite (dom (SumByPair eb))" using assms(1) by (simp add: epoch_wf_def)
  show "0 \<le> epoch_stakes eb - map_default 0 (SumByPair eb) p"
  proof (cases "p \<in> dom (SumByPair eb)")
    case True
    then have "epoch_stakes eb - map_default 0 (SumByPair eb) p
        = (\<Sum>x \<in> dom (SumByPair eb) - {p}. map_default 0 (SumByPair eb) x)"
      by (simp add: epoch_stakes_def sum_diff1 fin)
    then show ?thesis using nn by (simp add: sum_nonneg)
  next
    case False
    then have "map_default 0 (SumByPair eb) p = 0" by (simp add: map_default_def domIff)
    then show ?thesis using nn by (simp add: epoch_stakes_def sum_nonneg)
  qed
qed

lemma pay_winner_simps [simp]:
  "ex_book (pay_winner q e x) = ex_book x" "ex_cnt (pay_winner q e x) = ex_cnt x + 1"
  "balance_of (ex_st (pay_winner q e x)) a =
     balance_of (ex_st x) a + (if a = be_Player e then be_Amount e * q else 0)"
  by (simp_all add: pay_winner_def Let_def)

lemma pay_winners_book [simp]: "ex_book (fold (pay_winner q) es x) = ex_book x"
  by (induction es arbitrary: x) simp_all

lemma pay_winners_balance:
  "balance_of (ex_st (fold (pay_winner q) es x)) a =
     balance_of (ex_st x) a + (\<Sum>e \<leftarrow> filter (\<lambda>e. be_Player e = a) es. be_Amount e) * q"
  by (induction es arbitrary: x) (auto simp: algebra_simps)

lemma pay_winners_wealth:
  assumes "finite A" and "be_Player ` set es \<subseteq> A"
  shows "wealth A (ex_st (fold (pay_winner q) es x)) = wealth A (ex_st x) + (\<Sum>e \<leftarrow> es. be_Amount e) * q"
  using assms(2)
proof (induction es arbitrary: x)
  case (Cons e es)
  have "wealth A (ex_st (pay_winner q e x)) = wealth A (ex_st x) + be_Amount e * q"
    using Cons.prems assms(1) by (simp add: pay_winner_def Let_def wealth_upd)
  with Cons show ?case by (simp add: algebra_simps)
qed simp

text \<open>What the settlement of a height does, in terms of the sums of the book.\<close>

lemma settle_epoch_Some:
  assumes "settle_epoch ords h x = Inr y" and "getEpoch h (ex_book x) = Some eb"
  obtains p WL where "chooseWinningPair h (ords 0 eb) = Inr p" and "WL = settle_sums p eb (ords 1 eb)"
    and "ex_book y = cleanup h (ex_book x)"
    and "ex_st y = ex_st (if 0 < fst WL then fold (pay_winner (settle_quotient WL)) (winners p eb) x else x)"
    and "ex_cnt x \<le> ex_cnt y"
proof -
  from assms obtain p where p: "chooseWinningPair h (ords 0 eb) = Inr p"
    and y: "(let WL = settle_sums p eb (ords 1 eb); q = settle_quotient WL;
                x = (if 0 < fst WL then fold (pay_winner q) (map_default [] (ByPair eb) p) x else x)
            in x\<lparr>ex_book := cleanup h (ex_book x)\<rparr>) = y"
    by (auto simp: settle_epoch_def and_then_Inr Let_def)
  have cnt: "ex_cnt x \<le> ex_cnt (fold (pay_winner q) es x)" for q es
  proof (induction es arbitrary: x)
    case (Cons e es)
    from Cons.IH [of "pay_winner q e x"] show ?case by simp
  qed simp
  show thesis
    by (rule that [OF p refl]) (use y cnt in \<open>auto simp: Let_def winners_def\<close>)
qed

lemma settle_epoch_None:
  "settle_epoch ords h x = Inr y \<Longrightarrow> getEpoch h (ex_book x) = None \<Longrightarrow> y = x"
  by (simp add: settle_epoch_def)

lemma epoch_of_book:
  assumes "book_ok bk" and "getEpoch h bk = Some eb"
  shows "epoch_wf eb" "\<forall>e \<in># epoch_bets eb. 0 \<le> be_Amount e" "stakes_at bk h = epoch_stakes eb"
    "bets_at bk h = epoch_bets eb"
proof -
  have eb: "map_default empty_epoch bk h = eb" using assms(2) by (simp add: getEpoch_def map_default_def)
  show "epoch_wf eb" using assms epoch_wf_at eb by (metis book_ok_wf)
  show "stakes_at bk h = epoch_stakes eb" by (simp add: stakes_at_def eb)
  show b: "bets_at bk h = epoch_bets eb" by (simp add: bets_at_def eb)
  show "\<forall>e \<in># epoch_bets eb. 0 \<le> be_Amount e" using assms(1) b by (metis book_ok_def)
qed

lemma orders_range: "map_orders ords \<Longrightarrow> epoch_wf eb \<Longrightarrow> ranges_over (ords n eb) (SumByPair eb)"
  by (simp add: map_orders_def epoch_wf_def)

lemma settle_loss_nonneg: "0 \<le> fst WL \<Longrightarrow> 0 \<le> snd WL \<Longrightarrow> 0 \<le> settle_loss WL"
  by (auto simp: settle_loss_def split: prod.splits)

lemma paid_plus_loss:
  "(if 0 < W then W * settle_quotient (W, L) else 0) + settle_loss (W, L) = W + L"
  by (simp add: settle_quotient_def settle_loss_def)

lemma settle_epoch_exact:
  assumes "settle_epoch ords h x = Inr y" and "getEpoch h (ex_book x) = Some eb"
    and "book_ok (ex_book x)" and "map_orders ords"
  obtains p W L where "chooseWinningPair h (ords 0 eb) = Inr p" and "W = map_default 0 (SumByPair eb) p"
    and "L = stakes_at (ex_book x) h - W" and "0 \<le> W" and "0 \<le> L"
    and "ex_book y = cleanup h (ex_book x)" and "ex_cnt x \<le> ex_cnt y"
    and "\<And>a. balance_of (ex_st y) a = balance_of (ex_st x) a +
           (\<Sum>e \<leftarrow> filter (\<lambda>e. be_Player e = a) (winners p eb). be_Amount e) * settle_quotient (W, L)"
    and "\<And>A. finite A \<Longrightarrow> be_Player ` set_mset (bets_at (ex_book x) h) \<subseteq> A \<Longrightarrow>
           funds A y = funds A x - settle_loss (W, L)"
proof -
  note eb = epoch_of_book [OF assms(3,2)]
  obtain p WL where p: "chooseWinningPair h (ords 0 eb) = Inr p" and WL: "WL = settle_sums p eb (ords 1 eb)"
    and bk: "ex_book y = cleanup h (ex_book x)" and cnt: "ex_cnt x \<le> ex_cnt y"
    and st: "ex_st y = ex_st (if 0 < fst WL then fold (pay_winner (settle_quotient WL)) (winners p eb) x else x)"
    by (rule settle_epoch_Some [OF assms(1,2)])
  define W where "W = map_default 0 (SumByPair eb) p"
  define L where "L = stakes_at (ex_book x) h - W"
  have wl: "WL = (W, L)"
    unfolding WL L_def W_def eb(3) by (rule settle_sums_eq [OF orders_range [OF assms(4) eb(1)]])
  have nn: "0 \<le> W" "0 \<le> L" using sums_nonneg [OF eb(1,2)] by (simp_all add: W_def L_def eb(3))
  have bal: "balance_of (ex_st y) a = balance_of (ex_st x) a +
           (\<Sum>e \<leftarrow> filter (\<lambda>e. be_Player e = a) (winners p eb). be_Amount e) * settle_quotient (W, L)" for a
    by (simp add: st wl pay_winners_balance) (simp add: settle_quotient_def)
  have tot: "funds A y = funds A x - settle_loss (W, L)"
    if "finite A" and "be_Player ` set_mset (bets_at (ex_book x) h) \<subseteq> A" for A
  proof -
    have "be_Player ` set (winners p eb) \<subseteq> A"
      using winners_bets [OF eb(1), of _ p] that(2) eb(4) by fastforce
    then have "wealth A (ex_st y) = wealth A (ex_st x) + (if 0 < W then W * settle_quotient (W, L) else 0)"
      by (simp add: st wl pay_winners_wealth [OF that(1)] winners_sum [OF eb(1)] W_def)
    moreover have "book_stakes (ex_book y) = book_stakes (ex_book x) - (W + L)"
      using assms(3) by (simp add: bk book_stakes_cleanup book_ok_wf L_def)
    ultimately show ?thesis using paid_plus_loss [of W L] unfolding funds_def by linarith
  qed
  show thesis by (rule that [OF p W_def L_def nn bk cnt bal tot])
qed

lemma settle_epoch_total:
  assumes "settle_epoch ords h x = Inr y" and "book_ok (ex_book x)" and "map_orders ords"
    and "finite A" and "be_Player ` set_mset (bets_at (ex_book x) h) \<subseteq> A"
  shows "funds A y \<le> funds A x \<and> book_ok (ex_book y)"
proof (cases "getEpoch h (ex_book x)")
  case None
  with settle_epoch_None assms show ?thesis by blast
next
  case (Some eb)
  then show ?thesis
    by (rule settle_epoch_exact [OF assms(1) _ assms(2,3)])
      (use assms book_ok_cleanup in \<open>simp add: settle_loss_nonneg\<close>)
qed

section \<open>Invariants of execution\<close>

definition solvent :: "state_trie \<Rightarrow> bool" where
  "solvent st \<longleftrightarrow> (\<forall>a. 0 \<le> balance_of st a)"

lemma credit_recipient_frame:
  assumes "credit_recipient E bc i tx x = Inr y"
  shows "ex_book y = ex_book x \<and> ex_cnt x \<le> ex_cnt y \<and> (ex_cnt y = ex_cnt x \<longrightarrow> y = x) \<and>
         (0 \<le> tx_Value tx \<and> solvent (ex_st x) \<longrightarrow> solvent (ex_st y))"
  using assms by (rule credit_recipient_cases) (auto simp: solvent_def)

lemma debited_solvent:
  "tx_Value tx \<le> balance_of (ex_st x) (tx_Sender tx) \<Longrightarrow> solvent (ex_st x) \<Longrightarrow> solvent (ex_st (debited i tx x))"
  by (auto simp: solvent_def)

lemma apply_tx_book:
  assumes "apply_tx E bc i tx x = Inr y"
  shows "ex_book y = ex_book x \<or> ex_book y = appendBet (tx_Height tx) (tx_PairI tx, tx_PairJ tx)
           (tx_Sender tx) (tx_Value tx) (ex_book x)"
  using assms by (cases rule: apply_tx_cases) (auto dest: credit_recipient_frame)

lemma apply_tx_solvent:
  assumes "apply_tx E bc i tx x = Inr y" and "0 \<le> tx_Value tx" and "solvent (ex_st x)"
  shows "solvent (ex_st y)"
  using assms(1)
proof (cases rule: apply_tx_cases)
  case foreign
  with assms credit_recipient_frame show ?thesis by blast
next
  case transfer
  with assms credit_recipient_frame debited_solvent show ?thesis by blast
next
  case bet
  with assms debited_solvent [of tx x i] show ?thesis by simp
qed (use assms in \<open>auto simp: solvent_def\<close>)

lemma apply_tx_cnt:
  assumes "apply_tx E bc i tx x = Inr y"
  shows "ex_cnt x \<le> ex_cnt y \<and> (ex_cnt y = ex_cnt x \<longrightarrow>
           ex_book y = ex_book x \<and> balance_of (ex_st y) = balance_of (ex_st x))"
  using assms
proof (cases rule: apply_tx_cases)
  case foreign
  with credit_recipient_frame show ?thesis by blast
next
  case transfer
  then show ?thesis using credit_recipient_frame [OF transfer(4)] by simp
qed auto

lemma apply_txs_inv:
  assumes "go_foldi (apply_tx E bc) i txs x = Inr y" and "book_ok (ex_book x)"
    and "\<forall>tx \<in> set txs. 0 \<le> tx_Value tx"
  shows "book_ok (ex_book y) \<and> (solvent (ex_st x) \<longrightarrow> solvent (ex_st y))"
proof (rule go_foldi_inv [OF assms(1), where P = "\<lambda>z. book_ok (ex_book z) \<and> (solvent (ex_st x) \<longrightarrow> solvent (ex_st z))"])
  fix j tx t t'
  assume a: "tx \<in> set txs" "book_ok (ex_book t) \<and> (solvent (ex_st x) \<longrightarrow> solvent (ex_st t))"
    "apply_tx E bc j tx t = Inr t'"
  with assms(3) show "book_ok (ex_book t') \<and> (solvent (ex_st x) \<longrightarrow> solvent (ex_st t'))"
    using apply_tx_book [OF a(3)] apply_tx_solvent [OF a(3)] book_ok_append by fastforce
qed (use assms(2) in simp)

text \<open>The players in the book are the old ones and senders of the block; its heights likewise.\<close>

lemma apply_txs_players:
  assumes "go_foldi (apply_tx E bc) i txs x = Inr y" and "book_wf (ex_book x)"
  shows "be_Player ` set_mset (bets_at (ex_book y) h) \<subseteq>
           be_Player ` set_mset (bets_at (ex_book x) h) \<union> tx_Sender ` set txs \<and>
         dom (ex_book y) \<subseteq> dom (ex_book x) \<union> tx_Height ` set txs"
proof -
  let ?P = "\<lambda>z. book_wf (ex_book z) \<and> be_Player ` set_mset (bets_at (ex_book z) h) \<subseteq>
           be_Player ` set_mset (bets_at (ex_book x) h) \<union> tx_Sender ` set txs \<and>
         dom (ex_book z) \<subseteq> dom (ex_book x) \<union> tx_Height ` set txs"
  have "?P y"
  proof (rule go_foldi_inv [OF assms(1), where P = ?P])
    fix j tx t t'
    assume a: "tx \<in> set txs" "?P t" "apply_tx E bc j tx t = Inr t'"
    from apply_tx_book [OF a(3)] show "?P t'"
    proof
      assume "ex_book t' = ex_book t"
      with a(2) show ?thesis by simp
    next
      assume t': "ex_book t' = appendBet (tx_Height tx) (tx_PairI tx, tx_PairJ tx) (tx_Sender tx) (tx_Value tx) (ex_book t)"
      have "set_mset (bets_at (ex_book t') h) \<subseteq> insert \<lparr>be_Player = tx_Sender tx, be_Pair = (tx_PairI tx, tx_PairJ tx),
               be_Amount = tx_Value tx\<rparr> (set_mset (bets_at (ex_book t) h))"
        using a(2) by (auto simp: t' bets_at_append)
      then have "be_Player ` set_mset (bets_at (ex_book t') h) \<subseteq>
          insert (tx_Sender tx) (be_Player ` set_mset (bets_at (ex_book t) h))" by fastforce
      then have "be_Player ` set_mset (bets_at (ex_book t') h) \<subseteq>
           be_Player ` set_mset (bets_at (ex_book x) h) \<union> tx_Sender ` set txs"
        by (rule order_trans) (use a(1,2) in simp)
      moreover have "book_wf (ex_book t')" using a(2) by (simp add: t' book_wf_append)
      moreover have "dom (ex_book t') \<subseteq> dom (ex_book x) \<union> tx_Height ` set txs" using a(1,2) by (auto simp: t')
      ultimately show ?thesis by blast
    qed
  qed (use assms(2) in auto)
  then show ?thesis by blast
qed

lemma apply_txs_cnt:
  assumes "go_foldi (apply_tx E bc) i txs x = Inr y"
  shows "ex_cnt x \<le> ex_cnt y \<and> (ex_cnt y = ex_cnt x \<longrightarrow>
           ex_book y = ex_book x \<and> balance_of (ex_st y) = balance_of (ex_st x))"
proof (rule go_foldi_inv [OF assms, where P = "\<lambda>z. ex_cnt x \<le> ex_cnt z \<and> (ex_cnt z = ex_cnt x \<longrightarrow>
           ex_book z = ex_book x \<and> balance_of (ex_st z) = balance_of (ex_st x))"])
  fix j tx t t'
  assume "ex_cnt x \<le> ex_cnt t \<and> (ex_cnt t = ex_cnt x \<longrightarrow>
           ex_book t = ex_book x \<and> balance_of (ex_st t) = balance_of (ex_st x))"
    and t: "apply_tx E bc j tx t = Inr t'"
  with apply_tx_cnt [OF t] show "ex_cnt x \<le> ex_cnt t' \<and> (ex_cnt t' = ex_cnt x \<longrightarrow>
           ex_book t' = ex_book x \<and> balance_of (ex_st t') = balance_of (ex_st x))" by auto
qed simp

text \<open>
  Execution of a block, by cases: nothing to do, nothing changed, or the loop followed by the
  settlement of the next height.
\<close>

abbreviation start_state :: "blockchain \<Rightarrow> state_trie \<Rightarrow> exec_state" where
  "start_state bc st \<equiv> \<lparr>ex_st = st, ex_book = bc_G2EBook bc, ex_cnt = 0\<rparr>"

lemma GetUpdateStatusTrie_cases:
  assumes "GetUpdateStatusTrie ords E txs bc = Inr (bc', rt)"
    and "bc_triedb bc (bh_StateRoot (cur_header bc)) = Some st"
  obtains (idle) "bc' = bc" and "rt = bh_StateRoot (cur_header bc)"
      and "txs = [] \<or> (\<exists>x. go_foldi (apply_tx E bc) 0 txs (start_state bc st) = Inr x \<and> ex_cnt x = 0)"
  | (run) x y where "txs \<noteq> []" and "go_foldi (apply_tx E bc) 0 txs (start_state bc st) = Inr x" and "ex_cnt x \<noteq> 0"
      and "settle_epoch ords (bh_Number (cur_header bc) + 1) x = Inr y"
      and "bc' = bc\<lparr>bc_triedb := (bc_triedb bc)(rt \<mapsto> ex_st y), bc_G2EBook := ex_book y\<rparr>"
      and "rt = state_root E (ex_st y)"
proof (cases "txs = []")
  case True
  with assms have "bc' = bc" "rt = bh_StateRoot (cur_header bc)" by (auto simp: GetUpdateStatusTrie_def)
  with True idle show thesis by blast
next
  case False
  with assms obtain x where x: "go_foldi (apply_tx E bc) 0 txs (start_state bc st) = Inr x"
    by (auto simp: GetUpdateStatusTrie_def and_then_Inr)
  show thesis
  proof (cases "ex_cnt x = 0")
    case True
    with apply_txs_cnt [OF x] have "ex_book x = bc_G2EBook bc" by simp
    with True False assms x have "bc' = bc" "rt = bh_StateRoot (cur_header bc)"
      by (auto simp: GetUpdateStatusTrie_def)
    with idle x True show thesis by blast
  next
    case cnt: False
    with False assms x run [OF False x cnt] show thesis
      by (auto simp: GetUpdateStatusTrie_def and_then_Inr Let_def)
  qed
qed

section \<open>Properties of execution\<close>


text \<open>
  C3. No account is ever overdrawn: executing a block of transactions with non-negative values
  on a state whose balances are all non-negative gives such a state, and keeps the book's invariant
  (its cached sums are the sums of its entries, and no stake is negative).
\<close>

theorem execution_keeps_solvency:
  assumes "GetUpdateStatusTrie ords E txs bc = Inr (bc', rt)"
    and "bc_triedb bc (bh_StateRoot (cur_header bc)) = Some st"
    and "map_orders ords" and "book_ok (bc_G2EBook bc)" and "solvent st"
    and "\<forall>tx \<in> set txs. 0 \<le> tx_Value tx"
  shows "(\<exists>st'. bc_triedb bc' rt = Some st' \<and> solvent st') \<and> book_ok (bc_G2EBook bc')"
  using assms(1,2)
proof (cases rule: GetUpdateStatusTrie_cases)
  case (run x y)
  let ?h = "bh_Number (cur_header bc) + 1"
  have ok: "book_ok (ex_book x)" and sol: "solvent (ex_st x)"
    using apply_txs_inv [OF run(2)] assms(4-6) by simp_all
  have "book_ok (ex_book y)"
    using settle_epoch_total [OF run(4) ok assms(3), of "be_Player ` set_mset (bets_at (ex_book x) ?h)"] by simp
  moreover have "solvent (ex_st y)"
  proof (cases "getEpoch ?h (ex_book x)")
    case None
    with settle_epoch_None [OF run(4)] sol show ?thesis by simp
  next
    case (Some eb)
    note eb = epoch_of_book [OF ok Some]
    obtain p W L where nn: "0 \<le> W" "0 \<le> L" and bal: "\<And>a. balance_of (ex_st y) a = balance_of (ex_st x) a +
           (\<Sum>e \<leftarrow> filter (\<lambda>e. be_Player e = a) (winners p eb). be_Amount e) * settle_quotient (W, L)"
      by (rule settle_epoch_exact [OF run(4) Some ok assms(3)]) blast
    have "0 \<le> settle_quotient (W, L)" using nn by (simp add: settle_quotient_def div_int_pos_iff)
    moreover have "0 \<le> (\<Sum>e \<leftarrow> filter (\<lambda>e. be_Player e = a) (winners p eb). be_Amount e)" for a
      using winners_bets [OF eb(1), of _ p] eb(2) by (intro sum_list_nonneg) auto
    ultimately show ?thesis using sol by (simp add: solvent_def bal)
  qed
  ultimately show ?thesis using run(5) by simp
qed (use assms in auto)

text \<open>
  C2. Settlement, exactly. When the book holds bets for the height \<open>h\<close> (below \<open>2^63\<close>), settling \<open>h\<close>
  does not panic; it chooses a pair somebody bet on; with \<open>W\<close> the stakes on that pair and \<open>L\<close> those on
  the others, every address gains the sum of its winning stakes times the integer quotient of
  \<open>L\<close> and \<open>W\<close> (and nothing when \<open>W\<close> is zero) while nobody else's balance changes; the bets of \<open>h\<close>
  are forgotten and all others kept. Balances plus stakes shrink by \<open>settle_loss\<close>: the winners'
  own stakes are not returned and the remainder of the division is lost.
\<close>

theorem settlement_exact:
  assumes "getEpoch h (ex_book x) = Some eb" and "SumByPair eb \<noteq> Map.empty" and "unat h < 2 ^ 63"
    and "book_ok (ex_book x)" and "map_orders ords"
  shows "\<exists>y p W L. settle_epoch ords h x = Inr y \<and> p \<in> dom (SumByPair eb) \<and>
    W = map_default 0 (SumByPair eb) p \<and> L = stakes_at (ex_book x) h - W \<and>
    (\<forall>a. balance_of (ex_st y) a = balance_of (ex_st x) a +
       (\<Sum>e \<leftarrow> filter (\<lambda>e. be_Player e = a) (map_default [] (ByPair eb) p). be_Amount e) *
         (if 0 < W then L div W else 0)) \<and>
    (\<forall>h'. bets_at (ex_book y) h' = (if h' = h then {#} else bets_at (ex_book x) h')) \<and>
    (\<forall>A. finite A \<and> be_Player ` set_mset (bets_at (ex_book x) h) \<subseteq> A \<longrightarrow>
       wealth A (ex_st y) + book_stakes (ex_book y) =
       wealth A (ex_st x) + book_stakes (ex_book x) - (if 0 < W then W + L mod W else W + L))"
proof -
  note eb = epoch_of_book [OF assms(4,1)]
  have r: "ranges_over (ords 0 eb) (SumByPair eb)" by (rule orders_range [OF assms(5) eb(1)])
  then have ne: "ords 0 eb \<noteq> []" using assms(2) by (metis dom_eq_empty_conv list.set(1) ranges_over_def)
  then have ch: "chooseWinningPair h (ords 0 eb) = Inr (sort (ords 0 eb) ! (unat h mod length (ords 0 eb)))"
    using assms(3) by (rule chooseWinningPair_eq)
  have "sort (ords 0 eb) ! (unat h mod length (ords 0 eb)) \<in> set (sort (ords 0 eb))"
    by (rule nth_mem) (use ne in simp)
  then have dom: "p \<in> dom (SumByPair eb)" if "chooseWinningPair h (ords 0 eb) = Inr p" for p
    using that r ch by (simp add: ranges_over_def)
  obtain y where y: "settle_epoch ords h x = Inr y"
    using assms(1) ch by (simp add: settle_epoch_def Let_def)
  obtain p W L where p: "chooseWinningPair h (ords 0 eb) = Inr p" and W: "W = map_default 0 (SumByPair eb) p"
    and L: "L = stakes_at (ex_book x) h - W" and bk: "ex_book y = cleanup h (ex_book x)"
    and bal: "\<And>a. balance_of (ex_st y) a = balance_of (ex_st x) a +
           (\<Sum>e \<leftarrow> filter (\<lambda>e. be_Player e = a) (winners p eb). be_Amount e) * settle_quotient (W, L)"
    and tot: "\<And>A. finite A \<Longrightarrow> be_Player ` set_mset (bets_at (ex_book x) h) \<subseteq> A \<Longrightarrow>
           funds A y = funds A x - settle_loss (W, L)"
    by (rule settle_epoch_exact [OF y assms(1,4,5)]) blast
  have "balance_of (ex_st y) a = balance_of (ex_st x) a +
       (\<Sum>e \<leftarrow> filter (\<lambda>e. be_Player e = a) (map_default [] (ByPair eb) p). be_Amount e) * (if 0 < W then L div W else 0)" for a
    using bal [of a] by (simp add: winners_def settle_quotient_def)
  moreover have "wealth A (ex_st y) + book_stakes (ex_book y) =
       wealth A (ex_st x) + book_stakes (ex_book x) - (if 0 < W then W + L mod W else W + L)"
    if "finite A \<and> be_Player ` set_mset (bets_at (ex_book x) h) \<subseteq> A" for A
    using tot [of A] that by (simp add: funds_def settle_loss_def)
  ultimately show ?thesis using y dom [OF p] W L
    by (intro exI [of _ y] exI [of _ p] exI [of _ W] exI [of _ L]) (simp add: bk bets_at_cleanup)
qed

lemma execution_order_irrelevant:
  assumes "map_orders ords" and "map_orders ords'" and "book_ok (bc_G2EBook bc)"
    and "\<forall>tx \<in> set txs. 0 \<le> tx_Value tx"
  shows "GetUpdateStatusTrie ords E txs bc = GetUpdateStatusTrie ords' E txs bc"
proof -
  have settle: "settle_epoch ords h x = settle_epoch ords' h x" if ok: "book_ok (ex_book x)" for h x
  proof (cases "getEpoch h (ex_book x)")
    case (Some eb)
    have wf: "epoch_wf eb" by (rule epoch_of_book [OF ok Some])
    note r = orders_range [OF assms(1) wf] and r' = orders_range [OF assms(2) wf]
    have "sort (ords' 0 eb) = sort (ords 0 eb)" by (rule sort_cong_mset [OF ranges_over_perm [OF r' r]])
    then have "chooseWinningPair h (ords' 0 eb) = chooseWinningPair h (ords 0 eb)"
      by (simp add: chooseWinningPair_def)
    then show ?thesis using Some
      by (simp add: settle_epoch_def settle_sums_eq [OF r] settle_sums_eq [OF r'])
  qed (simp add: settle_epoch_def)
  have ok: "book_ok (ex_book x)"
    if "go_foldi (apply_tx E bc) 0 txs (start_state bc st) = Inr x" for st x
    using apply_txs_inv [OF that] assms(3,4) by simp
  have "and_then (go_foldi (apply_tx E bc) 0 txs (start_state bc st)) (\<lambda>x. if ex_cnt x = 0 then f x
        else and_then (settle_epoch ords h x) g) =
      and_then (go_foldi (apply_tx E bc) 0 txs (start_state bc st)) (\<lambda>x. if ex_cnt x = 0 then f x
        else and_then (settle_epoch ords' h x) g)" for st h and f :: "exec_state \<Rightarrow> (blockchain \<times> bytes) go" and g
    by (rule and_then_cong [OF refl]) (simp only: settle [OF ok])
  then show ?thesis by (simp add: GetUpdateStatusTrie_def Let_def split: option.split)
qed

text \<open>
  C4. Replicas that execute the same block on the same state agree: the resulting root, state,
  book (and also whether execution panics) do not depend on the order in which a node's maps
  happen to iterate.
\<close>

theorem execution_deterministic:
  assumes "map_orders ords" and "map_orders ords'" and "book_ok (bc_G2EBook bc)"
    and "\<forall>tx \<in> set txs. 0 \<le> tx_Value tx"
  shows "GetUpdateStatusTrie ords E txs bc = GetUpdateStatusTrie ords' E txs bc"
  using assms by (rule execution_order_irrelevant)

section \<open>A concrete chain, and the witnesses\<close>

definition demo_ords :: epoch_orders where
  "demo_ords n eb = sorted_list_of_set (dom (SumByPair eb))"

lemma map_orders_demo [simp]: "map_orders demo_ords"
  by (simp add: map_orders_def demo_ords_def ranges_over_def)

definition demo_cc :: chain_config where
  "demo_cc = \<lparr>cc_ChainID = 0, cc_NodeID = 0, cc_ShardID = 0, cc_Nodes_perShard = 4, cc_ShardNums = 2,
     cc_BlockSize = 2, cc_BlockInterval = 5000, cc_InjectSpeed = 2, cc_MaxRelayBlockSize = 10\<rparr>"

definition demo_state :: state_trie where
  "demo_state = [''a0'' \<mapsto> new_account 0 50, ''b0'' \<mapsto> new_account 0 10]"

definition demo_chain :: "g2e_book \<Rightarrow> transaction list \<Rightarrow> blockchain" where
  \<comment> \<open>shard 0 at height 4, with the given book and queue\<close>
  "demo_chain bk txs = \<lparr>bc_triedb = [[7] \<mapsto> demo_state], bc_ChainConfig = demo_cc,
     bc_CurrentBlock = \<lparr>b_Header = (demo_header 4)\<lparr>bh_StateRoot := [7]\<rparr>, b_Body = [], b_Hash = [4]\<rparr>,
     bc_Storage = NewStorage, bc_Txpool = NewTxPool\<lparr>TxQueue := txs\<rparr>,
     bc_PartitionMap = Map.empty, bc_G2EBook = bk\<rparr>"

definition demo_transfer :: "address \<Rightarrow> address \<Rightarrow> int \<Rightarrow> u64 \<Rightarrow> transaction" where
  "demo_transfer s r v n = (NewTransaction demo_env s r v n 1 0 0 0)\<lparr>tx_G2EEnabled := False\<rparr>"

definition demo_bet :: "address \<Rightarrow> int \<Rightarrow> u64 \<Rightarrow> u64 \<Rightarrow> u64 \<Rightarrow> transaction" where
  "demo_bet s v h i n = NewTransaction demo_env s ''b0'' v n 1 h i 0"

definition demo_book :: g2e_book where
  \<comment> \<open>bets for height 5: three on the pair \<open>(1, 0)\<close>, seven on the pair \<open>(2, 0)\<close>\<close>
  "demo_book = appendBet 5 (2, 0) ''a0'' 7 (appendBet 5 (1, 0) ''b0'' 3 NewG2EBook)"

lemma demo_cc_simps [simp]: "cc_ShardID demo_cc = 0" "cc_BlockSize demo_cc = 2"
  by (simp_all add: demo_cc_def)

lemma demo_chain_simps [simp]:
  "bh_StateRoot (cur_header (demo_chain bk txs)) = [7]" "bh_Number (cur_header (demo_chain bk txs)) = 4"
  "bc_triedb (demo_chain bk txs) = [[7] \<mapsto> demo_state]" "bc_G2EBook (demo_chain bk txs) = bk"
  "my_shard (demo_chain bk txs) = 0" "bc_PartitionMap (demo_chain bk txs) = Map.empty"
  "bc_Txpool (demo_chain bk txs) = NewTxPool\<lparr>TxQueue := txs\<rparr>" "b_Hash (bc_CurrentBlock (demo_chain bk txs)) = [4]"
  "bc_ChainConfig (demo_chain bk txs) = demo_cc" "bc_Storage (demo_chain bk txs) = NewStorage"
  by (simp_all add: demo_chain_def demo_header_def demo_cc_def)

lemma demo_shards [simp]:
  "Addr2Shard demo_env ''a0'' = Inr 0" "Addr2Shard demo_env ''b0'' = Inr 0" "Addr2Shard demo_env ''c1'' = Inr 1"
  by (simp_all add: Addr2Shard_def ParseUint16_def last8_def hex_digit_def demo_env_def go_mod_def)

lemma demo_transfer_simps [simp]:
  "tx_Sender (demo_transfer s r v n) = s" "tx_Recipient (demo_transfer s r v n) = r"
  "tx_Value (demo_transfer s r v n) = v" "\<not> tx_Relayed (demo_transfer s r v n)"
  "\<not> tx_HasBroker (demo_transfer s r v n)" "\<not> tx_G2EEnabled (demo_transfer s r v n)"
  "tx_Height (demo_transfer s r v n) = 0"
  by (simp_all add: demo_transfer_def)

lemma demo_bet_simps [simp]:
  "tx_Sender (demo_bet s v h i n) = s" "tx_Recipient (demo_bet s v h i n) = ''b0''"
  "tx_Value (demo_bet s v h i n) = v" "\<not> tx_Relayed (demo_bet s v h i n)"
  "\<not> tx_HasBroker (demo_bet s v h i n)" "tx_G2EEnabled (demo_bet s v h i n)"
  "tx_Height (demo_bet s v h i n) = h" "tx_PairI (demo_bet s v h i n) = i" "tx_PairJ (demo_bet s v h i n) = 0"
  by (simp_all add: demo_bet_def NewTransaction_def raw_transaction_def Let_def)

lemmas demo_exec = apply_tx_def credit_recipient_def sender_here_def recipient_here_def
  Get_PartitionMap_def account_or_new_def demo_state_def Let_def Deduct_def Deposit_def

abbreviation demo_txs :: "transaction list" where
  "demo_txs \<equiv> [demo_transfer ''a0'' ''b0'' 5 1, demo_bet ''a0'' 3 8 1 2]"

lemma demo_executes:
  "bk 5 = None \<Longrightarrow> \<exists>bc' rt. GetUpdateStatusTrie ords demo_env demo_txs (demo_chain bk txs) = Inr (bc', rt)"
  by (simp add: GetUpdateStatusTrie_def demo_exec settle_epoch_def getEpoch_def appendBet_def)


theorem execution_keeps_solvency_witness:
  "\<exists>bc' rt st'. GetUpdateStatusTrie demo_ords demo_env demo_txs (demo_chain NewG2EBook []) = Inr (bc', rt) \<and>
     solvent demo_state \<and> bc_triedb bc' rt = Some st' \<and> solvent st' \<and> book_ok (bc_G2EBook bc')"
proof -
  let ?bc = "demo_chain NewG2EBook []"
  obtain bc' rt where ex: "GetUpdateStatusTrie demo_ords demo_env demo_txs ?bc = Inr (bc', rt)"
    using demo_executes [of NewG2EBook demo_ords "[]"] by (auto simp: NewG2EBook_def)
  have st: "bc_triedb ?bc (bh_StateRoot (cur_header ?bc)) = Some demo_state" by simp
  have s: "solvent demo_state"
    by (simp add: solvent_def balance_of_def account_or_new_def demo_state_def Init_Balance_def)
  show ?thesis using ex s execution_keeps_solvency [OF ex st map_orders_demo _ s] by auto
qed

lemma demo_book_ok: "book_ok demo_book"
  by (simp add: demo_book_def book_ok_append)

lemma demo_book_epoch:
  "getEpoch 5 demo_book = Some \<lparr>ByPair =
     [(1, 0) \<mapsto> [\<lparr>be_Player = ''b0'', be_Pair = (1, 0), be_Amount = 3\<rparr>],
      (2, 0) \<mapsto> [\<lparr>be_Player = ''a0'', be_Pair = (2, 0), be_Amount = 7\<rparr>]],
     SumByPair = [(1, 0) \<mapsto> 3, (2, 0) \<mapsto> 7]\<rparr>"
  by (simp add: demo_book_def getEpoch_def appendBet_def NewG2EBook_def empty_epoch_def Let_def)

theorem settlement_exact_witness:
  "\<exists>y. settle_epoch demo_ords 5 \<lparr>ex_st = demo_state, ex_book = demo_book, ex_cnt = 1\<rparr> = Inr y \<and>
     bets_at (ex_book y) 5 = {#}"
  using settlement_exact [of 5 "\<lparr>ex_st = demo_state, ex_book = demo_book, ex_cnt = 1\<rparr>",
      OF _ _ _ _ map_orders_demo] demo_book_epoch demo_book_ok
  by auto

theorem execution_deterministic_witness:
  "map_orders demo_ords \<and> map_orders (\<lambda>n eb. rev (demo_ords n eb)) \<and> book_ok demo_book \<and>
   GetUpdateStatusTrie demo_ords demo_env demo_txs (demo_chain demo_book []) =
   GetUpdateStatusTrie (\<lambda>n eb. rev (demo_ords n eb)) demo_env demo_txs (demo_chain demo_book [])"
proof -
  have r: "map_orders (\<lambda>n eb. rev (demo_ords n eb))"
    by (simp add: map_orders_def demo_ords_def ranges_over_def)
  show ?thesis
    using r demo_book_ok execution_deterministic [OF map_orders_demo r, of "demo_chain demo_book []" demo_txs demo_env]
    by simp
qed

end
