(* ===== verification/Chain_Blocks.thy ===== *)
theory Chain_Blocks
  imports Block_Chain
begin

text \<open>
  Properties of whole blocks, over the definitions of \<open>Block_Chain\<close>: production by a leader and
  acceptance by a follower give the same chain, state and book; every chain a node can reach is a
  linked list of stored blocks back to the genesis block; migrated accounts are read back; and the
  two places where acceptance does not check what execution computed.
\<close>

section \<open>Execution does not look at the pool\<close>

definition with_pool :: "tx_pool \<Rightarrow> blockchain \<Rightarrow> blockchain" where
  "with_pool p bc = bc\<lparr>bc_Txpool := p\<rparr>"

lemma with_pool_simps [simp]:
  "bc_triedb (with_pool p bc) = bc_triedb bc" "bc_CurrentBlock (with_pool p bc) = bc_CurrentBlock bc"
  "bc_G2EBook (with_pool p bc) = bc_G2EBook bc" "bc_Storage (with_pool p bc) = bc_Storage bc"
  "bc_ChainConfig (with_pool p bc) = bc_ChainConfig bc" "bc_Txpool (with_pool p bc) = p"
  by (simp_all add: with_pool_def)

lemma with_pool_upd:
  "with_pool p (bc\<lparr>bc_triedb := d\<rparr>) = (with_pool p bc)\<lparr>bc_triedb := d\<rparr>"
  "with_pool p (bc\<lparr>bc_G2EBook := k\<rparr>) = (with_pool p bc)\<lparr>bc_G2EBook := k\<rparr>"
  "with_pool p (bc\<lparr>bc_CurrentBlock := c\<rparr>) = (with_pool p bc)\<lparr>bc_CurrentBlock := c\<rparr>"
  "with_pool p (bc\<lparr>bc_Storage := s\<rparr>) = (with_pool p bc)\<lparr>bc_Storage := s\<rparr>"
  "with_pool p (with_pool p' bc) = with_pool p bc" "with_pool (bc_Txpool bc) bc = bc"
  by (simp_all add: with_pool_def)

lemma here_pool:
  "sender_here E (with_pool p bc) tx = sender_here E bc tx"
  "recipient_here E (with_pool p bc) tx = recipient_here E bc tx"
  "credit_recipient E (with_pool p bc) i tx x = credit_recipient E bc i tx x"
  by (simp_all add: sender_here_def credit_recipient_def recipient_here_def Get_PartitionMap_def with_pool_def)

lemma apply_tx_pool [simp]: "apply_tx E (with_pool p bc) = apply_tx E bc"
  by (intro ext) (simp only: apply_tx_def here_pool with_pool_simps)

lemma GetUpdateStatusTrie_pool:
  "GetUpdateStatusTrie ords E txs (with_pool p bc) =
     and_then (GetUpdateStatusTrie ords E txs bc) (\<lambda>(bc', rt). Inr (with_pool p bc', rt))"
proof (cases "txs = [] \<or> bc_triedb bc (bh_StateRoot (cur_header bc)) = None")
  case True
  then show ?thesis
    by (cases "txs = []") (simp_all add: GetUpdateStatusTrie_def Let_def)
next
  case False
  then obtain st where st: "bc_triedb bc (bh_StateRoot (cur_header bc)) = Some st" and ne: "txs \<noteq> []"
    by blast
  show ?thesis
  proof (cases "go_foldi (apply_tx E bc) 0 txs (start_state bc st)")
    case (Inr x)
    then show ?thesis using st ne
      by (cases "settle_epoch ords (bh_Number (cur_header bc) + 1) x")
        (simp_all add: GetUpdateStatusTrie_def Let_def with_pool_upd)
  qed (use st ne in \<open>simp add: GetUpdateStatusTrie_def\<close>)
qed

lemma GetUpdateStatusTrie_frame:
  assumes "GetUpdateStatusTrie ords E txs bc = Inr (bc', rt)"
  shows "bc_CurrentBlock bc' = bc_CurrentBlock bc \<and> bc_Storage bc' = bc_Storage bc \<and>
    bc_PartitionMap bc' = bc_PartitionMap bc \<and> bc_ChainConfig bc' = bc_ChainConfig bc \<and>
    bc_Txpool bc' = bc_Txpool bc \<and>
    (bc_triedb bc (bh_StateRoot (cur_header bc)) \<noteq> None \<longrightarrow> bc_triedb bc' rt \<noteq> None)"
  using assms
  by (auto simp: GetUpdateStatusTrie_def Let_def and_then_Inr split: option.splits if_splits)

section \<open>A produced block, accepted\<close>

lemma GenerateBlock_Inr:
  assumes "GenerateBlock ords E now miner bc = Inr (b, bcL)"
  obtains p rt bc1 where "GetUpdateStatusTrie ords E (b_Body b) bc = Inr (bc1, rt)" and "bcL = with_pool p bc1"
    and "bh_ParentBlockHash (b_Header b) = b_Hash (bc_CurrentBlock bc)" and "bh_StateRoot (b_Header b) = rt"
    and "bh_TxRoot (b_Header b) = GetTxTreeRoot E (b_Body b)"
    and "bh_Number (b_Header b) = bh_Number (cur_header bc) + 1" and "b_Hash b = hash_header E (b_Header b)"
    and "b_Body b @ TxQueue p = TxQueue (bc_Txpool bc)"
proof -
  obtain txs p where pk: "(if UseBlocksizeInBytes E = 1 then PackTxsWithBytes (BlocksizeInBytes E) (bc_Txpool bc)
                         else PackTxs (cc_BlockSize (bc_ChainConfig bc)) (bc_Txpool bc)) = (txs, p)"
    by (rule prod.exhaust)
  from assms pk obtain bc2 rt bloom where g: "GetUpdateStatusTrie ords E txs (with_pool p bc) = Inr (bc2, rt)"
    and b: "b = (NewBlock \<lparr>bh_ParentBlockHash = b_Hash (bc_CurrentBlock bc), bh_StateRoot = rt,
                     bh_TxRoot = GetTxTreeRoot E txs, bh_Bloom = bloom,
                     bh_Number = bh_Number (cur_header bc) + 1, bh_Time = now, bh_Miner = miner\<rparr> txs)
              \<lparr>b_Hash := hash_header E \<lparr>bh_ParentBlockHash = b_Hash (bc_CurrentBlock bc), bh_StateRoot = rt,
                     bh_TxRoot = GetTxTreeRoot E txs, bh_Bloom = bloom,
                     bh_Number = bh_Number (cur_header bc) + 1, bh_Time = now, bh_Miner = miner\<rparr>\<rparr>"
    and L: "bcL = bc2"
    by (auto simp: GenerateBlock_def and_then_Inr Let_def with_pool_def split: prod.splits)
  from g obtain bc1 where g1: "GetUpdateStatusTrie ords E txs bc = Inr (bc1, rt)" "bc2 = with_pool p bc1"
    by (auto simp: GetUpdateStatusTrie_pool and_then_Inr)
  have q: "txs @ TxQueue p = TxQueue (bc_Txpool bc)"
    using pk by (auto simp: PackTxs_def PackTxsWithBytes_def Let_def split: if_splits)
  show thesis by (rule that [of bc1 rt p]) (use g1 L q in \<open>simp_all add: b NewBlock_def\<close>)
qed


definition demo_root_chain :: "transaction list \<Rightarrow> blockchain" where
  \<comment> \<open>as \<open>demo_chain\<close>, with the state filed under its root\<close>
  "demo_root_chain txs =
     (let rt = state_root demo_env demo_state; bc = demo_chain NewG2EBook txs
      in bc\<lparr>bc_triedb := [rt \<mapsto> demo_state],
            bc_CurrentBlock := (bc_CurrentBlock bc)\<lparr>b_Header := (demo_header 4)\<lparr>bh_StateRoot := rt\<rparr>\<rparr>\<rparr>)"

abbreviation netting_txs :: "transaction list" where
  "netting_txs \<equiv> [(demo_transfer ''c1'' ''a0'' 3 1)\<lparr>tx_Relayed := True\<rparr>, demo_bet ''a0'' 3 8 1 2]"

lemma demo_root: "state_root demo_env demo_state = [50, 10, 255]"
  by (simp add: demo_env_def demo_state_def)

lemma demo_root_chain_simps [simp]:
  "bh_StateRoot (cur_header (demo_root_chain txs)) = [50, 10, 255]" "bh_Number (cur_header (demo_root_chain txs)) = 4"
  "bc_triedb (demo_root_chain txs) = [[50, 10, 255] \<mapsto> demo_state]" "bc_G2EBook (demo_root_chain txs) = NewG2EBook"
  "bc_ChainConfig (demo_root_chain txs) = demo_cc" "bc_PartitionMap (demo_root_chain txs) = Map.empty"
  "bc_Txpool (demo_root_chain txs) = NewTxPool\<lparr>TxQueue := txs\<rparr>" "b_Hash (bc_CurrentBlock (demo_root_chain txs)) = [4]"
  "bc_Storage (demo_root_chain txs) = NewStorage"
  by (simp_all add: demo_root_chain_def Let_def demo_root demo_chain_def demo_header_def)

lemma netting_loop:
  "go_foldi (apply_tx demo_env (demo_root_chain txs)) 0 netting_txs \<lparr>ex_st = demo_state, ex_book = NewG2EBook, ex_cnt = 0\<rparr>
   = Inr \<lparr>ex_st = demo_state, ex_book = appendBet 8 (1, 0) ''a0'' 3 NewG2EBook, ex_cnt = 2\<rparr>"
proof -
  have beta: "G2E_Beta demo_env = 2" by (simp add: demo_env_def)
  have "demo_state(''a0'' \<mapsto> new_account 0 50) = demo_state" by (simp add: demo_state_def fun_eq_iff)
  then show ?thesis
    by (simp add: apply_tx_def credit_recipient_def sender_here_def recipient_here_def beta
        Get_PartitionMap_def account_or_new_def Let_def Deduct_def Deposit_def)
      (simp add: demo_state_def new_account_def fun_eq_iff)
qed

lemma netting_exec:
  "GetUpdateStatusTrie demo_ords demo_env netting_txs (demo_root_chain txs) =
     Inr ((demo_root_chain txs)\<lparr>bc_triedb := [[50, 10, 255] \<mapsto> demo_state],
            bc_G2EBook := appendBet 8 (1, 0) ''a0'' 3 NewG2EBook\<rparr>, [50, 10, 255])"
proof -
  have "getEpoch 5 (appendBet 8 (1, 0) ''a0'' 3 NewG2EBook) = None"
    by (simp add: getEpoch_def appendBet_def NewG2EBook_def Let_def)
  then show ?thesis
    by (simp only: GetUpdateStatusTrie_def) (simp add: netting_loop settle_epoch_def Let_def demo_root del: go_foldi.simps)
qed

text \<open>
  When the block's root is already in the trie database, a follower adds the block without
  executing it, so its book stays as it was: a block that credits a relayed transaction and takes
  the same amount back as a bet leaves the state as it was, and leader and follower end with different
  books (the leader has the bet, the follower does not).
\<close>

theorem known_root_skips_book:
  "\<exists>b bcL bcL' follower'.
     GenerateBlock demo_ords demo_env 1 0 (demo_root_chain netting_txs) = Inr (b, bcL) \<and>
     AddBlock demo_ords demo_env b bcL = Inr bcL' \<and>
     AddBlock demo_ords demo_env b (demo_root_chain []) = Inr follower' \<and>
     bc_CurrentBlock bcL' = bc_CurrentBlock follower' \<and>
     stakes_at (bc_G2EBook bcL') 8 = 3 \<and> stakes_at (bc_G2EBook follower') 8 = 0"
proof -
  let ?bc = "demo_root_chain netting_txs" and ?bk = "appendBet 8 (1, 0) ''a0'' 3 NewG2EBook"
  have m: "UseBlocksizeInBytes demo_env = 0" by (simp add: demo_env_def)
  have pk: "PackTxs 2 (NewTxPool\<lparr>TxQueue := netting_txs\<rparr>) = (netting_txs, NewTxPool)"
    by (simp add: PackTxs_def NewTxPool_def Let_def u64_of_nat_def)
  have bl: "\<not> is_panic (GetBloomFilter netting_txs)" by (simp add: GetBloomFilter_def ModBytes_def)
  have "\<not> is_panic (GenerateBlock demo_ords demo_env 1 0 ?bc)"
    using bl by (auto simp: GenerateBlock_def m pk netting_exec GetUpdateStatusTrie_pool not_panic_iff Let_def
        simp flip: with_pool_def simp del: GetBloomFilter_def)
  then obtain b bcL where gen: "GenerateBlock demo_ords demo_env 1 0 ?bc = Inr (b, bcL)"
    by (auto simp: not_panic_iff)
  have b: "bcL = with_pool NewTxPool (?bc\<lparr>bc_triedb := [[50, 10, 255] \<mapsto> demo_state], bc_G2EBook := ?bk\<rparr>)"
      "bh_ParentBlockHash (b_Header b) = [4]" "bh_StateRoot (b_Header b) = [50, 10, 255]"
      "bh_Number (b_Header b) = 5" "b_Hash b \<noteq> []" "length (b_Hash b) \<le> 32768"
    using gen by (auto simp: GenerateBlock_def m pk netting_exec GetUpdateStatusTrie_pool and_then_Inr Let_def NewBlock_def
        demo_env_def [THEN arg_cong [of _ _ hash_header]] simp flip: with_pool_def)
  obtain s where s: "Storage_AddBlock b NewStorage = Inr s" using b by (simp add: Storage_AddBlock_Inr)
  have L: "AddBlock demo_ords demo_env b bcL = Inr (bcL\<lparr>bc_CurrentBlock := b, bc_Storage := s\<rparr>)"
    using s b by (simp add: AddBlock_def)
  have F: "AddBlock demo_ords demo_env b (demo_root_chain []) =
      Inr ((demo_root_chain [])\<lparr>bc_CurrentBlock := b, bc_Storage := s\<rparr>)"
    using s b by (simp add: AddBlock_def)
  have st: "stakes_at NewG2EBook 8 = 0"
    by (rule stakes_at_undef) (simp add: NewG2EBook_def)
  have "stakes_at ?bk 8 = 3" by (simp add: stakes_at_append st)
  with gen L F st show ?thesis by (auto simp: b(1))
qed

section \<open>The chain of stored blocks\<close>

text \<open>
  What a node can do to its chain from its creation on an empty database. The premises
  \<open>blockBucket \<dots> = None\<close> say that the hash of a new block is not the hash of an earlier one
  (the hash function has no collision on the blocks of this chain); blocks that \<open>AddBlock\<close>
  refuses are unrestricted.
\<close>

inductive chain_reach :: "go_env \<Rightarrow> blockchain \<Rightarrow> bool" for E where
  start: "NewBlockChain E cc NewStorage db = Inr bc \<Longrightarrow> chain_reach E bc"
| receive: "chain_reach E bc \<Longrightarrow> chain_reach E (SendTx2Pool now txs bc)"
| relay: "chain_reach E bc \<Longrightarrow> AddRelayTx tx sid (bc_Txpool bc) = Inr p \<Longrightarrow> chain_reach E (bc\<lparr>bc_Txpool := p\<rparr>)"
| repartition: "chain_reach E bc \<Longrightarrow> chain_reach E (Update_PartitionMap a sid bc)"
| produce: "chain_reach E bc \<Longrightarrow> GenerateBlock ords E now miner bc = Inr (b, bc') \<Longrightarrow> chain_reach E bc'"
| accept: "chain_reach E bc \<Longrightarrow> AddBlock ords E b bc = Inr bc' \<Longrightarrow>
    blockBucket (bc_Storage bc) (b_Hash b) = None \<or> bc' = bc \<Longrightarrow> chain_reach E bc'"
| migrate: "chain_reach E bc \<Longrightarrow> AddAccounts E ac as bc = Inr bc' \<Longrightarrow>
    blockBucket (bc_Storage bc) (b_Hash (bc_CurrentBlock bc')) = None \<Longrightarrow> chain_reach E bc'"

definition stored :: "storage \<Rightarrow> block \<Rightarrow> bool" where
  "stored s b \<longleftrightarrow> GetBlock (b_Hash b) s = Inr b \<and> GetBlockHeader (b_Hash b) s = Inr (b_Header b)"

fun linked :: "block list \<Rightarrow> bool" where
  "linked (b # b' # bs) \<longleftrightarrow> bh_ParentBlockHash (b_Header b) = b_Hash b' \<and>
     bh_Number (b_Header b) = bh_Number (b_Header b') + 1 \<and> linked (b' # bs)"
| "linked bs \<longleftrightarrow> True"

definition chain_ok :: "go_env \<Rightarrow> blockchain \<Rightarrow> block list \<Rightarrow> bool" where
  "chain_ok E bc bs \<longleftrightarrow> bs \<noteq> [] \<and> hd bs = bc_CurrentBlock bc \<and> last bs = NewGenisisBlock E \<and> linked bs \<and>
     (\<forall>b \<in> set bs. stored (bc_Storage bc) b) \<and> GetNewestBlockHash (bc_Storage bc) = Inr (b_Hash (bc_CurrentBlock bc))"

lemma chain_ok_add:
  assumes "chain_ok E bc bs" and "bh_Number (b_Header b) = bh_Number (cur_header bc) + 1"
    and "bh_ParentBlockHash (b_Header b) = b_Hash (bc_CurrentBlock bc)"
    and "Storage_AddBlock b (bc_Storage bc) = Inr s" and "blockBucket (bc_Storage bc) (b_Hash b) = None"
    and "bc_CurrentBlock bc' = b" and "bc_Storage bc' = s"
  shows "chain_ok E bc' (b # bs)"
proof -
  have "linked (b # bs)" using assms(1-3) by (cases bs) (auto simp: chain_ok_def)
  moreover have "stored s c" if "c \<in> set bs" for c
  proof -
    from assms(1) that have old: "stored (bc_Storage bc) c" by (simp add: chain_ok_def)
    then have "b_Hash c \<noteq> b_Hash b" using assms(5) by (auto simp: stored_def GetBlock_def split: option.splits)
    then show ?thesis using old db.get_put [OF assms(4), of "b_Hash c"] db.hdr_put [OF assms(4), of "b_Hash c"]
      by (simp add: stored_def)
  qed
  moreover have "stored s b"
    using db.get_put [OF assms(4), of "b_Hash b"] db.hdr_put [OF assms(4), of "b_Hash b"] by (simp add: stored_def)
  ultimately show ?thesis using assms(1,6,7) db.newest_put [OF assms(4)] by (auto simp: chain_ok_def)
qed

lemma chain_ok_frame:
  "chain_ok E bc bs \<Longrightarrow> bc_CurrentBlock bc' = bc_CurrentBlock bc \<Longrightarrow> bc_Storage bc' = bc_Storage bc \<Longrightarrow> chain_ok E bc' bs"
  by (simp add: chain_ok_def)

lemma chain_ok_other [simp]:
  "chain_ok E (bc\<lparr>bc_Txpool := p\<rparr>) bs = chain_ok E bc bs"
  "chain_ok E (bc\<lparr>bc_PartitionMap := m\<rparr>) bs = chain_ok E bc bs"
  by (simp_all add: chain_ok_def)

lemma NewBlockChain_genesis:
  assumes "NewBlockChain E cc NewStorage db = Inr bc"
  shows "bc_CurrentBlock bc = NewGenisisBlock E \<and> Storage_AddBlock (NewGenisisBlock E) NewStorage = Inr (bc_Storage bc)"
proof -
  have n: "GetNewestBlockHash NewStorage = Inl ''cannot find the newest block hash''"
    by (simp add: GetNewestBlockHash_def NewStorage_def)
  with assms obtain s where s: "Storage_AddBlock (NewGenisisBlock E) NewStorage = Inr s"
    by (auto simp: NewBlockChain_def Let_def AddGenisisBlock_def and_then_Inr)
  show ?thesis
    using assms s db.newest_put [OF s] db.get_put [OF s, of "b_Hash (NewGenisisBlock E)"]
    by (auto simp: NewBlockChain_def Let_def AddGenisisBlock_def n)
qed

lemma AddBlock_cases:
  assumes "AddBlock ords E b bc = Inr bc'"
  obtains (refused) "bc' = bc" and "bh_Number (b_Header b) \<noteq> bh_Number (cur_header bc) + 1 \<or>
        bh_ParentBlockHash (b_Header b) \<noteq> b_Hash (bc_CurrentBlock bc)"
  | (added) "bh_Number (b_Header b) = bh_Number (cur_header bc) + 1"
      and "bh_ParentBlockHash (b_Header b) = b_Hash (bc_CurrentBlock bc)"
      and "Storage_AddBlock b (bc_Storage bc) = Inr (bc_Storage bc')" and "bc_CurrentBlock bc' = b"
      and "bc_triedb bc (bh_StateRoot (b_Header b)) \<noteq> None \<Longrightarrow> bc_triedb bc' = bc_triedb bc \<and> bc_G2EBook bc' = bc_G2EBook bc"
      and "bc_triedb bc (bh_StateRoot (b_Header b)) = None \<Longrightarrow>
        \<exists>bc1 rt. GetUpdateStatusTrie ords E (b_Body b) bc = Inr (bc1, rt) \<and>
          bc_triedb bc' = bc_triedb bc1 \<and> bc_G2EBook bc' = bc_G2EBook bc1"
proof (cases "bh_Number (b_Header b) = bh_Number (cur_header bc) + 1 \<and>
    bh_ParentBlockHash (b_Header b) = b_Hash (bc_CurrentBlock bc)")
  case False
  with assms refused show thesis by (auto simp: AddBlock_def split: if_splits)
next
  case True
  with assms obtain bc1 s where bc1: "(case bc_triedb bc (bh_StateRoot (b_Header b)) of Some _ \<Rightarrow> Inr bc
         | None \<Rightarrow> and_then (GetUpdateStatusTrie ords E (b_Body b) bc) (\<lambda>(bc', rt). Inr bc')) = Inr bc1"
    and s: "Storage_AddBlock b (bc_Storage bc1) = Inr s" and bc': "bc' = bc1\<lparr>bc_CurrentBlock := b, bc_Storage := s\<rparr>"
    by (auto simp: AddBlock_def and_then_Inr split: if_splits)
  show thesis
  proof (cases "bc_triedb bc (bh_StateRoot (b_Header b))")
    case None
    with bc1 obtain rt where g: "GetUpdateStatusTrie ords E (b_Body b) bc = Inr (bc1, rt)"
      by (auto simp: and_then_Inr)
    with GetUpdateStatusTrie_frame [OF g] None True s bc' added show thesis by simp
  next
    case (Some st)
    with bc1 True s bc' added show thesis by simp
  qed
qed

lemma AddAccounts_block:
  assumes "AddAccounts E ac as bc = Inr bc'"
  shows "bh_Number (cur_header bc') = bh_Number (cur_header bc) + 1 \<and>
    bh_ParentBlockHash (cur_header bc') = b_Hash (bc_CurrentBlock bc) \<and>
    Storage_AddBlock (bc_CurrentBlock bc') (bc_Storage bc) = Inr (bc_Storage bc') \<and>
    bc_G2EBook bc' = bc_G2EBook bc"
  using assms by (auto simp: AddAccounts_def and_then_Inr Let_def NewBlock_def split: prod.splits)

lemma chain_reach_ok: "chain_reach E bc \<Longrightarrow> \<exists>bs. chain_ok E bc bs"
proof (induction rule: chain_reach.induct)
  case (start cc db bc)
  have cur: "bc_CurrentBlock bc = NewGenisisBlock E"
    and put: "Storage_AddBlock (NewGenisisBlock E) NewStorage = Inr (bc_Storage bc)"
    using NewBlockChain_genesis [OF start] by simp_all
  then have "chain_ok E bc [NewGenisisBlock E]"
    using db.newest_put [OF put] db.get_put [OF put] db.hdr_put [OF put] by (simp add: chain_ok_def stored_def)
  then show ?case by blast
next
  case (produce bc ords now miner b bc')
  then show ?case
    using GenerateBlock_Inr [OF produce(2)] GetUpdateStatusTrie_frame by (metis chain_ok_frame with_pool_simps(2,4))
next
  case (accept bc ords b bc')
  then obtain bs where bs: "chain_ok E bc bs" by blast
  from accept(2) show ?case
  proof (cases rule: AddBlock_cases)
    case added
    show ?thesis
    proof (cases "bc' = bc")
      case False
      with accept(3) have "blockBucket (bc_Storage bc) (b_Hash b) = None" by blast
      then show ?thesis using chain_ok_add [OF bs added(1-3) _ added(4) refl] by blast
    qed (use bs in blast)
  qed (use bs in blast)
next
  case (migrate bc ac as bc')
  then show ?case using AddAccounts_block [OF migrate(2)] chain_ok_add by metis
qed (auto simp: SendTx2Pool_def Update_PartitionMap_def)

text \<open>
  C6. Every chain a node can reach is a linked list of stored blocks from the current block back to
  the genesis block: each block names the hash of its predecessor and has the next number, every
  block of the list is found in the database under its hash together with its header, and the newest
  hash of the database is that of the current block.
\<close>

theorem chain_linked:
  assumes "chain_reach E bc"
  shows "\<exists>bs. bs \<noteq> [] \<and> hd bs = bc_CurrentBlock bc \<and> last bs = NewGenisisBlock E \<and> linked bs \<and>
     (\<forall>b \<in> set bs. GetBlock (b_Hash b) (bc_Storage bc) = Inr b \<and>
        GetBlockHeader (b_Hash b) (bc_Storage bc) = Inr (b_Header b)) \<and>
     GetNewestBlockHash (bc_Storage bc) = Inr (b_Hash (bc_CurrentBlock bc))"
  using chain_reach_ok [OF assms] by (auto simp: chain_ok_def stored_def)

section \<open>Queries of accounts\<close>

lemma write_slots:
  "length ret = n + length addrs \<Longrightarrow>
   go_foldi (\<lambda>i addr ret. if i < length ret then Inr (ret[i := st addr]) else Inl IndexOutOfRange) n addrs ret =
     Inr (take n ret @ map st addrs)"
proof (induction addrs arbitrary: n ret)
  case (Cons a addrs)
  then have "take (Suc n) (ret[n := st a]) = take n ret @ [st a]" by (simp add: take_Suc_conv_app_nth)
  with Cons show ?case by simp
qed simp

text \<open>
  What the query tool reads from the files of a node is the state the node itself works on: the accounts
  at the root of its current block, each nil exactly where the chain would take the initial balance.
\<close>

lemma queries_read_current_state:
  assumes "chain_reach E bc"
  shows "QueryAccountStateList (bc_Storage bc) (bc_triedb bc) addrs =
      (case bc_triedb bc (bh_StateRoot (cur_header bc)) of None \<Rightarrow> Inl (LogPanic '''') | Some st \<Rightarrow> Inr (map st addrs))"
    and "QueryAccountState (bc_Storage bc) (bc_triedb bc) addr =
      (case bc_triedb bc (bh_StateRoot (cur_header bc)) of None \<Rightarrow> Inl (LogPanic '''') | Some st \<Rightarrow> Inr (st addr))"
proof -
  obtain bs where "chain_ok E bc bs" using chain_reach_ok [OF assms] ..
  then have n: "GetNewestBlockHash (bc_Storage bc) = Inr (b_Hash (bc_CurrentBlock bc))"
    and "GetBlock (b_Hash (bc_CurrentBlock bc)) (bc_Storage bc) = Inr (bc_CurrentBlock bc)"
    by (auto simp: chain_ok_def stored_def dest: hd_in_set)
  then have o: "open_newest (bc_Storage bc) (bc_triedb bc) = (case bc_triedb bc (bh_StateRoot (cur_header bc)) of
      None \<Rightarrow> Inl (LogPanic '''') | Some st \<Rightarrow> Inr st)" by (simp add: open_newest_def)
  show "QueryAccountState (bc_Storage bc) (bc_triedb bc) addr =
      (case bc_triedb bc (bh_StateRoot (cur_header bc)) of None \<Rightarrow> Inl (LogPanic '''') | Some st \<Rightarrow> Inr (st addr))"
    by (simp add: QueryAccountState_def o split: option.splits)
  show "QueryAccountStateList (bc_Storage bc) (bc_triedb bc) addrs =
      (case bc_triedb bc (bh_StateRoot (cur_header bc)) of None \<Rightarrow> Inl (LogPanic '''') | Some st \<Rightarrow> Inr (map st addrs))"
    by (simp add: QueryAccountStateList_def o write_slots split: option.splits)
qed

section \<open>Account migration\<close>

lemma add_accounts_loop:
  assumes "go_foldi (add_account E bc as) i ac st = Inr st'" and "distinct ac"
  shows "(\<forall>x. x \<notin> {a \<in> set ac. Get_PartitionMap E bc a = Inr (my_shard bc)} \<longrightarrow> st' x = st x) \<and>
    (\<forall>k < length ac. Get_PartitionMap E bc (ac ! k) = Inr (my_shard bc) \<longrightarrow>
       i + k < length as \<and> st' (ac ! k) = Some (new_account (as_Nonce (as ! (i + k))) (as_Balance (as ! (i + k)))))"
  using assms
proof (induction ac arbitrary: i st)
  case (Cons a ac)
  then obtain t where t: "add_account E bc as i a st = Inr t" and rest: "go_foldi (add_account E bc as) (Suc i) ac t = Inr st'"
    by (auto simp: and_then_Inr)
  note IH = Cons.IH [OF rest]
  have keep: "st' a = t a" using IH Cons.prems(2) by simp
  have "t x = st x" if "x \<noteq> a \<or> Get_PartitionMap E bc a \<noteq> Inr (my_shard bc)" for x
    using t that by (auto simp: add_account_def and_then_Inr split: if_splits)
  moreover have "i < length as \<and> t a = Some (new_account (as_Nonce (as ! i)) (as_Balance (as ! i)))"
    if "Get_PartitionMap E bc a = Inr (my_shard bc)"
    using t that by (auto simp: add_account_def and_then_Inr go_nth_Inr)
  ultimately show ?case using IH Cons.prems(2) keep
    by (auto simp: nth_Cons split: nat.splits) (metis add_Suc_right)+
qed simp

text \<open>
  Migrated accounts arrive: when \<open>AddAccounts\<close> returns, fetching the migrated addresses (all
  mapped to this shard, no repetition) gives the nonces and balances that were sent, in order; fetching
  any list of other addresses gives what it gave before; the book is untouched and the current
  block is a new empty block on top of the old one.
\<close>

theorem AddAccounts_FetchAccounts:
  assumes "AddAccounts E ac as bc = Inr bc'" and "ac \<noteq> []" and "distinct ac"
    and "\<forall>a \<in> set ac. Get_PartitionMap E bc a = Inr (my_shard bc)"
  shows "length ac \<le> length as \<and>
    FetchAccounts ac bc' = Inr (map (\<lambda>s. new_account (as_Nonce s) (as_Balance s)) (take (length ac) as)) \<and>
    (\<forall>xs. set xs \<inter> set ac = {} \<longrightarrow> FetchAccounts xs bc' = FetchAccounts xs bc) \<and>
    bc_G2EBook bc' = bc_G2EBook bc \<and> b_Body (bc_CurrentBlock bc') = [] \<and>
    bh_ParentBlockHash (cur_header bc') = b_Hash (bc_CurrentBlock bc) \<and>
    bh_Number (cur_header bc') = bh_Number (cur_header bc) + 1"
proof -
  from assms(1,2) obtain st st' where st: "bc_triedb bc (bh_StateRoot (cur_header bc)) = Some st"
    and loop: "go_foldi (add_account E bc as) 0 ac st = Inr st'"
    and bc': "bc_triedb bc' (bh_StateRoot (cur_header bc')) = Some st'" "b_Body (bc_CurrentBlock bc') = []"
    by (auto simp: AddAccounts_def and_then_Inr Let_def NewBlock_def split: option.splits)
  note l = add_accounts_loop [OF loop assms(3)]
  have in_shard: "k < length as \<and> st' (ac ! k) = Some (new_account (as_Nonce (as ! k)) (as_Balance (as ! k)))"
    if "k < length ac" for k using l assms(4) that by simp
  have len: "length ac \<le> length as"
    using in_shard [of "length ac - 1"] assms(2) by (cases ac) auto
  have "map (account_or_new 0 st') ac = map (\<lambda>s. new_account (as_Nonce s) (as_Balance s)) (take (length ac) as)"
    by (rule nth_equalityI) (use len in_shard in \<open>simp_all add: account_or_new_def\<close>)
  then have "FetchAccounts ac bc' = Inr (map (\<lambda>s. new_account (as_Nonce s) (as_Balance s)) (take (length ac) as))"
    by (simp add: FetchAccounts_def bc')
  moreover have "FetchAccounts xs bc' = FetchAccounts xs bc" if "set xs \<inter> set ac = {}" for xs
    using l that by (auto simp: FetchAccounts_def bc' st account_or_new_def)
  ultimately show ?thesis using len bc' AddAccounts_block [OF assms(1)] by blast
qed

section \<open>What acceptance does not check\<close>

text \<open>
  The root in the header is not compared with the one execution computed. If a block with an
  unknown root in its header is added and execution yields another root, the block is stored as the
  current block all the same; when the header's root is still unknown afterwards, every later
  execution of a non-empty block panics.
\<close>

theorem wrong_root_accepted_then_panics:
  assumes "bh_Number (b_Header b) = bh_Number (cur_header bc) + 1"
    and "bh_ParentBlockHash (b_Header b) = b_Hash (bc_CurrentBlock bc)"
    and "bc_triedb bc (bh_StateRoot (b_Header b)) = None"
    and "GetUpdateStatusTrie ords E (b_Body b) bc = Inr (bc1, rt)" and "rt \<noteq> bh_StateRoot (b_Header b)"
    and "b_Hash b \<noteq> []" and "length (b_Hash b) \<le> 32768"
    and "bc_triedb bc (bh_StateRoot (cur_header bc)) \<noteq> None"
  shows "\<exists>bc'. AddBlock ords E b bc = Inr bc' \<and> bc_CurrentBlock bc' = b \<and> bc_triedb bc' rt \<noteq> None \<and>
    (\<forall>txs ords. txs \<noteq> [] \<longrightarrow> is_panic (GetUpdateStatusTrie ords E txs bc'))"
proof -
  note fr = GetUpdateStatusTrie_frame [OF assms(4)]
  obtain s where s: "Storage_AddBlock b (bc_Storage bc) = Inr s"
    using assms(6,7) by (simp add: Storage_AddBlock_Inr)
  have add: "AddBlock ords E b bc = Inr (bc1\<lparr>bc_CurrentBlock := b, bc_Storage := s\<rparr>)"
    using assms(1-4) fr s by (simp add: AddBlock_def)
  obtain st where st: "bc_triedb bc (bh_StateRoot (cur_header bc)) = Some st" using assms(8) by blast
  have "bc_triedb bc1 (bh_StateRoot (b_Header b)) = None"
    using assms(4) st by (rule GetUpdateStatusTrie_cases) (use assms(3,5) in auto)
  then have "is_panic (GetUpdateStatusTrie ords' E txs (bc1\<lparr>bc_CurrentBlock := b, bc_Storage := s\<rparr>))"
    if "txs \<noteq> []" for txs ords' using that by (simp add: GetUpdateStatusTrie_def)
  then show ?thesis using add fr assms(8) by auto
qed

text \<open>
  A height whose block is empty is never settled: producing and accepting an empty block leaves
  the book as it was, so bets on that height stay in it with their stakes, and once a chain is past a
  height, no execution settles it (execution only settles the height after the current block's).
\<close>

theorem empty_block_settles_nothing:
  assumes "AddBlock ords E b bc = Inr bc'" and "b_Body b = []"
  shows "bc_G2EBook bc' = bc_G2EBook bc \<and>
    (\<forall>h txs ords bc'' rt. GetUpdateStatusTrie ords E txs bc' = Inr (bc'', rt) \<and> h \<noteq> bh_Number (cur_header bc') + 1 \<and>
        book_ok (bc_G2EBook bc') \<longrightarrow> bets_at (bc_G2EBook bc') h \<subseteq># bets_at (bc_G2EBook bc'') h)"
proof -
  have "bc_G2EBook bc' = bc_G2EBook bc"
    using assms(1) by (rule AddBlock_cases)
      (use assms(2) in \<open>auto simp: GetUpdateStatusTrie_def\<close>)
  moreover have "bets_at (bc_G2EBook bc') h \<subseteq># bets_at (bc_G2EBook bc'') h"
    if g: "GetUpdateStatusTrie ords E txs bc' = Inr (bc'', rt)" and h: "h \<noteq> bh_Number (cur_header bc') + 1"
      and ok: "book_wf (bc_G2EBook bc')" for h txs ords bc'' rt
  proof (cases "bc_triedb bc' (bh_StateRoot (cur_header bc'))")
    case None
    with g have "bc'' = bc'" by (auto simp: GetUpdateStatusTrie_def Let_def split: if_splits)
    then show ?thesis by simp
  next
    case (Some st)
    from g Some show ?thesis
    proof (cases rule: GetUpdateStatusTrie_cases)
      case (run x y)
      have sub: "bets_at (bc_G2EBook bc') h \<subseteq># bets_at (ex_book x) h \<and> book_wf (ex_book x)"
        by (rule go_foldi_inv [OF run(2)])
          (auto simp: ok book_wf_append bets_at_append dest!: apply_tx_book intro: subset_mset.trans)
      have "ex_book y = ex_book x \<or> ex_book y = cleanup (bh_Number (cur_header bc') + 1) (ex_book x)"
        using settle_epoch_None [OF run(4)] settle_epoch_Some [OF run(4)] by (metis option.exhaust)
      then show ?thesis using sub h run(5) by (auto simp: bets_at_cleanup)
    qed simp
  qed
  ultimately show ?thesis by blast
qed

section \<open>Witnesses\<close>

lemma demo_exec_root:
  "\<exists>bc'. GetUpdateStatusTrie demo_ords demo_env demo_txs (demo_root_chain txs) = Inr (bc', [42, 15, 255])"
proof -
  have beta: "G2E_Beta demo_env = 2" by (simp add: demo_env_def)
  have "getEpoch 5 (appendBet 8 (1, 0) ''a0'' 3 NewG2EBook) = None"
    by (simp add: getEpoch_def appendBet_def NewG2EBook_def Let_def)
  then show ?thesis
    by (simp add: GetUpdateStatusTrie_def demo_exec beta settle_epoch_def) (simp add: demo_env_def)
qed

lemma demo_generates:
  obtains b bcL where "GenerateBlock demo_ords demo_env 1 0 (demo_root_chain demo_txs) = Inr (b, bcL)"
    and "b_Body b = demo_txs" and "bh_StateRoot (b_Header b) = [42, 15, 255]" and "b_Hash b = [5, 1, 42, 15, 255]"
proof -
  have m: "UseBlocksizeInBytes demo_env = 0" by (simp add: demo_env_def)
  have pk: "PackTxs 2 (NewTxPool\<lparr>TxQueue := demo_txs\<rparr>) = (demo_txs, NewTxPool)"
    by (simp add: PackTxs_def NewTxPool_def Let_def u64_of_nat_def)
  obtain bc' where ex: "GetUpdateStatusTrie demo_ords demo_env demo_txs (demo_root_chain demo_txs) = Inr (bc', [42, 15, 255])"
    using demo_exec_root by blast
  obtain bl where bl: "GetBloomFilter demo_txs = Inr bl" by (simp add: GetBloomFilter_def ModBytes_def)
  show thesis
    by (rule that) (simp add: GenerateBlock_def m pk ex bl GetUpdateStatusTrie_pool Let_def NewBlock_def
        demo_env_def [THEN arg_cong [of _ _ hash_header]] flip: with_pool_def, simp_all)
qed


theorem chain_linked_witness:
  "\<exists>bc bs. NewBlockChain demo_env demo_cc NewStorage Map.empty = Inr bc \<and> chain_reach demo_env bc \<and>
     bs \<noteq> [] \<and> last bs = NewGenisisBlock demo_env \<and> hd bs = bc_CurrentBlock bc"
proof -
  have "b_Hash (NewGenisisBlock demo_env) = [0, 0, 255, 255, 255]"
    by (simp add: NewGenisisBlock_def Let_def NewBlock_def demo_env_def)
  then obtain bc where bc: "NewBlockChain demo_env demo_cc NewStorage Map.empty = Inr bc"
    by (simp add: NewBlockChain_def Let_def GetNewestBlockHash_def GetBlock_def NewStorage_def AddGenisisBlock_def
        Storage_AddBlock_def AddBlockHeader_def bolt_put_def UpdateNewestBlock_def)
  then have r: "chain_reach demo_env bc" by (rule chain_reach.start)
  show ?thesis using bc r chain_linked [OF r] by blast
qed

theorem AddAccounts_FetchAccounts_witness:
  "\<exists>bc'. AddAccounts demo_env [''a0''] [new_account 3 77] (demo_root_chain []) = Inr bc' \<and>
     FetchAccounts [''a0''] bc' = Inr [new_account 3 77] \<and>
     FetchAccounts [''b0''] bc' = FetchAccounts [''b0''] (demo_root_chain [])"
proof -
  have r: "state_root demo_env (demo_state(''a0'' \<mapsto> new_account 3 77)) = [77, 10, 255]"
    by (simp add: demo_env_def demo_state_def)
  obtain bc' where a: "AddAccounts demo_env [''a0''] [new_account 3 77] (demo_root_chain []) = Inr bc'"
    by (auto simp: AddAccounts_def add_account_def Get_PartitionMap_def go_nth_def Let_def Storage_AddBlock_def
        bolt_put_def AddBlockHeader_def NewBlock_def r demo_env_def [THEN arg_cong [of _ _ hash_header]])
  have p: "\<forall>a \<in> set [''a0'']. Get_PartitionMap demo_env (demo_root_chain []) a = Inr (my_shard (demo_root_chain []))"
    by (simp add: Get_PartitionMap_def)
  show ?thesis using a AddAccounts_FetchAccounts [OF a _ _ p] by auto
qed

definition demo_next :: "bytes \<Rightarrow> transaction list \<Rightarrow> block" where
  \<comment> \<open>a block on top of \<open>demo_root_chain\<close> whose header carries the given root\<close>
  "demo_next rt txs = \<lparr>b_Header = (demo_header 5)\<lparr>bh_StateRoot := rt\<rparr>, b_Body = txs, b_Hash = [5]\<rparr>"

lemma demo_next_simps [simp]:
  "bh_Number (b_Header (demo_next rt txs)) = 5" "bh_ParentBlockHash (b_Header (demo_next rt txs)) = [4]"
  "bh_StateRoot (b_Header (demo_next rt txs)) = rt" "b_Body (demo_next rt txs) = txs" "b_Hash (demo_next rt txs) = [5]"
  by (simp_all add: demo_next_def demo_header_def)

theorem wrong_root_witness:
  "\<exists>bc'. AddBlock demo_ords demo_env (demo_next [1] demo_txs) (demo_root_chain []) = Inr bc' \<and>
     bc_CurrentBlock bc' = demo_next [1] demo_txs \<and> is_panic (GetUpdateStatusTrie demo_ords demo_env demo_txs bc')"
proof -
  obtain bc1 where ex: "GetUpdateStatusTrie demo_ords demo_env (b_Body (demo_next [1] demo_txs)) (demo_root_chain []) =
      Inr (bc1, [42, 15, 255])"
    using demo_exec_root by auto
  show ?thesis using wrong_root_accepted_then_panics [OF _ _ _ ex] by fastforce
qed

theorem empty_block_witness:
  "\<exists>bc'. AddBlock demo_ords demo_env (demo_next [50, 10, 255] []) (demo_root_chain []) = Inr bc' \<and>
     bc_G2EBook bc' = NewG2EBook"
proof -
  obtain bc' where "AddBlock demo_ords demo_env (demo_next [50, 10, 255] []) (demo_root_chain []) = Inr bc'"
    by (simp add: AddBlock_def Storage_AddBlock_def bolt_put_def AddBlockHeader_def)
  with empty_block_settles_nothing [OF this] show ?thesis by simp
qed

end
