(* ===== verification/Merkle_Proof.thy ===== *)
theory Merkle_Proof
  imports Chain_Blocks
begin

text \<open>
  Transaction proofs, \<open>chain/merkleproof.go\<close>. The Merkle Patricia trie is go-ethereum's: \<open>prove K k\<close>
  stands for \<open>Prove\<close> on the trie whose keys are \<open>K\<close> (None is an error, otherwise the nodes it wrote,
  in the order the iterator lists them), \<open>verify root k db\<close> for \<open>VerifyProof\<close> (None when it returns
  an error or a nil value). What the code relies on is stated pointwise, as \<open>complete_for\<close> (a proof of
  a key of the trie verifies against the trie's root) and \<open>sound_for\<close> (a key that verifies against the
  root of the trie is a key of it).
\<close>

section \<open>Definitions\<close>

record tx_proof =
  pf_Found :: bool
  pf_BlockHash :: bytes
  pf_TxHash :: bytes
  pf_TxRoot :: bytes
  pf_BlockHeight :: u64
  pf_KeyList :: "bytes list"
  pf_ValueList :: "bytes list"
  pf_Error :: string

type_synonym prover = "bytes set \<Rightarrow> bytes \<Rightarrow> (bytes \<times> bytes) list option"
type_synonym verifier = "bytes \<Rightarrow> bytes \<Rightarrow> (bytes \<rightharpoonup> bytes) \<Rightarrow> bytes option"

definition not_found :: "bytes \<Rightarrow> string \<Rightarrow> tx_proof" where
  "not_found txHash err = \<lparr>pf_Found = False, pf_BlockHash = [], pf_TxHash = txHash, pf_TxRoot = [],
     pf_BlockHeight = 0, pf_KeyList = [], pf_ValueList = [], pf_Error = err\<rparr>"

definition found_in :: "bytes \<Rightarrow> block \<Rightarrow> (bytes \<times> bytes) list \<Rightarrow> tx_proof" where
  "found_in txHash b kvs = \<lparr>pf_Found = True, pf_BlockHash = b_Hash b, pf_TxHash = txHash,
     pf_TxRoot = bh_TxRoot (b_Header b), pf_BlockHeight = bh_Number (b_Header b),
     pf_KeyList = map fst kvs, pf_ValueList = map snd kvs, pf_Error = ''''\<rparr>"

definition body_keys :: "block \<Rightarrow> bytes set" where
  "body_keys b = set (map tx_TxHash (b_Body b))"

definition bloom_test :: "bytes \<Rightarrow> block \<Rightarrow> bool" where
  "bloom_test txHash b = (case ModBytes txHash 2048 of Inl _ \<Rightarrow> False | Inr i \<Rightarrow> i \<in> bh_Bloom (b_Header b))"

definition TxProofGenerateOnTheBlock :: "prover \<Rightarrow> go_env \<Rightarrow> bytes \<Rightarrow> block \<Rightarrow> tx_proof" where
  "TxProofGenerateOnTheBlock prove E txHash b =
     (if \<not> bloom_test txHash b then not_found txHash ''cannot find this tx''
      else if \<not> list_ex (\<lambda>tx. txHash = tx_TxHash tx) (b_Body b)
      then not_found txHash ''this tx cannot be found in this block''
      else if keys_root E (body_keys b) \<noteq> bh_TxRoot (b_Header b) then not_found txHash ''tx root mismatch''
      else case prove (body_keys b) txHash of
             Some kvs \<Rightarrow> found_in txHash b kvs
           | None \<Rightarrow> not_found txHash ''cannot find this tx'')"

fun proof_search :: "prover \<Rightarrow> go_env \<Rightarrow> bytes \<Rightarrow> storage \<Rightarrow> nat \<Rightarrow> bytes \<Rightarrow> tx_proof" where
  \<comment> \<open>the loop of \<open>TxProofGenerate\<close>; the height counts the remaining rounds\<close>
  "proof_search prove E txHash s 0 nowblockHash = not_found txHash ''cannot find this tx''"
| "proof_search prove E txHash s (Suc nowheight) nowblockHash =
     (case GetBlock nowblockHash s of
        Inl err1 \<Rightarrow> not_found txHash err1
      | Inr b \<Rightarrow>
          let ret = TxProofGenerateOnTheBlock prove E txHash b
          in if pf_Found ret then ret
             else proof_search prove E txHash s nowheight (bh_ParentBlockHash (b_Header b)))"

definition TxProofGenerate :: "prover \<Rightarrow> go_env \<Rightarrow> bytes \<Rightarrow> blockchain \<Rightarrow> tx_proof" where
  "TxProofGenerate prove E txHash bc =
     proof_search prove E txHash (bc_Storage bc) (unat (bh_Number (cur_header bc))) (b_Hash (bc_CurrentBlock bc))"

definition TxProofBatchGenerateOnBlock :: "prover \<Rightarrow> go_env \<Rightarrow> bytes list \<Rightarrow> block \<Rightarrow> tx_proof list" where
  "TxProofBatchGenerateOnBlock prove E txHashes b =
     (if keys_root E (body_keys b) \<noteq> bh_TxRoot (b_Header b)
      then map (\<lambda>h. not_found h ''tx root mismatch'') txHashes
      else map (\<lambda>h. if \<not> bloom_test h b then not_found h ''cannot find this tx''
                    else case prove (body_keys b) h of
                           Some kvs \<Rightarrow> found_in h b kvs
                         | None \<Rightarrow> not_found h ''cannot find this tx'') txHashes)"

definition recover_proof :: "bytes list \<Rightarrow> bytes list \<Rightarrow> (bytes \<rightharpoonup> bytes) go" where
  "recover_proof keys vals =
     go_foldi (\<lambda>i k db. and_then (go_nth vals (int i)) (\<lambda>v. Inr (db(k \<mapsto> v)))) 0 keys Map.empty"

definition TxProofVerify :: "verifier \<Rightarrow> bytes \<Rightarrow> tx_proof \<Rightarrow> bool go" where
  "TxProofVerify verify txHash p =
     (if \<not> pf_Found p then Inr False
      else and_then (recover_proof (pf_KeyList p) (pf_ValueList p)) (\<lambda>db.
        Inr (verify (pf_TxRoot p) (pf_TxHash p) db \<noteq> None)))"

section \<open>What is assumed of the trie\<close>

definition complete_for :: "prover \<Rightarrow> verifier \<Rightarrow> go_env \<Rightarrow> bytes set \<Rightarrow> bytes \<Rightarrow> bool" where
  "complete_for prove verify E K k \<longleftrightarrow>
     (\<exists>kvs. prove K k = Some kvs \<and> distinct (map fst kvs) \<and> verify (keys_root E K) k (map_of kvs) \<noteq> None)"

definition sound_for :: "verifier \<Rightarrow> go_env \<Rightarrow> bytes set \<Rightarrow> bool" where
  "sound_for verify E K \<longleftrightarrow> (\<forall>k db. verify (keys_root E K) k db \<noteq> None \<longrightarrow> k \<in> K)"

section \<open>Lemmas\<close>

lemma found_simps [simp]:
  "\<not> pf_Found (not_found h e)" "pf_Found (found_in h b kvs)" "pf_TxHash (found_in h b kvs) = h"
  "pf_TxRoot (found_in h b kvs) = bh_TxRoot (b_Header b)" "pf_BlockHash (found_in h b kvs) = b_Hash b"
  "pf_KeyList (found_in h b kvs) = map fst kvs" "pf_ValueList (found_in h b kvs) = map snd kvs"
  by (simp_all add: not_found_def found_in_def)

lemma bloom_complete:
  assumes "GetBloomFilter txs = Inr bs" and "tx \<in> set txs"
  shows "\<exists>i. ModBytes (tx_TxHash tx) 2048 = Inr i \<and> i \<in> bs"
proof -
  have mono: "go_fold (\<lambda>tx bs. and_then (ModBytes (tx_TxHash tx) 2048) (\<lambda>i. Inr (insert i bs))) txs b0 = Inr bs \<Longrightarrow>
      b0 \<subseteq> bs \<and> (\<forall>tx \<in> set txs. \<exists>i. ModBytes (tx_TxHash tx) 2048 = Inr i \<and> i \<in> bs)" for b0
    by (induction txs arbitrary: b0) (fastforce simp: and_then_Inr)+
  show ?thesis using mono [of "{}"] assms by (auto simp: GetBloomFilter_def)
qed

lemma recover_proof_zip:
  "length vals = length keys \<Longrightarrow> distinct keys \<Longrightarrow> recover_proof keys vals = Inr (map_of (zip keys vals))"
proof -
  have step: "i + length keys \<le> length vals \<Longrightarrow> distinct keys \<Longrightarrow> set keys \<inter> dom db = {} \<Longrightarrow>
      go_foldi (\<lambda>i k db. and_then (go_nth vals (int i)) (\<lambda>v. Inr (db(k \<mapsto> v)))) i keys db =
      Inr (db ++ map_of (zip keys (drop i vals)))" for i db
  proof (induction keys arbitrary: i db)
    case (Cons k keys)
    then have i: "drop i vals = vals ! i # drop (Suc i) vals" by (simp add: Cons_nth_drop_Suc)
    have "(db(k \<mapsto> vals ! i)) ++ map_of (zip keys (drop (Suc i) vals)) = db ++ map_of (zip (k # keys) (drop i vals))"
      using Cons.prems by (intro ext) (auto simp: i map_add_def domIff split: option.splits dest: map_of_SomeD set_zip_leftD)
    moreover have "go_nth vals (int i) = Inr (vals ! i)" using Cons.prems by (simp add: go_nth_def)
    moreover have "set keys \<inter> dom (db(k \<mapsto> vals ! i)) = {}" using Cons.prems by auto
    moreover have "Suc i + length keys \<le> length vals" "distinct keys" using Cons.prems by simp_all
    ultimately show ?case using Cons.IH [of "Suc i" "db(k \<mapsto> vals ! i)"]
      by (simp only: go_foldi.simps and_then_simps)
  qed simp
  assume "length vals = length keys" "distinct keys"
  then show ?thesis using step [of 0 Map.empty] by (simp add: recover_proof_def)
qed

lemma recover_proof_map_of:
  "distinct (map fst kvs) \<Longrightarrow> recover_proof (map fst kvs) (map snd kvs) = Inr (map_of kvs)"
  by (simp add: recover_proof_zip zip_map_fst_snd)

definition block_wf :: "go_env \<Rightarrow> block \<Rightarrow> bool" where
  \<comment> \<open>the header agrees with the body, as in every block \<open>GenerateBlock\<close> makes\<close>
  "block_wf E b \<longleftrightarrow> bh_TxRoot (b_Header b) = GetTxTreeRoot E (b_Body b) \<and>
     GetBloomFilter (b_Body b) = Inr (bh_Bloom (b_Header b))"

lemma GenerateBlock_wf: "GenerateBlock ords E now miner bc = Inr (b, bc') \<Longrightarrow> block_wf E b"
  by (auto simp: GenerateBlock_def and_then_Inr Let_def NewBlock_def block_wf_def split: prod.splits)

lemma block_proof:
  assumes "block_wf E b" and "tx \<in> set (b_Body b)" and "complete_for prove verify E (body_keys b) (tx_TxHash tx)"
  obtains kvs where "TxProofGenerateOnTheBlock prove E (tx_TxHash tx) b = found_in (tx_TxHash tx) b kvs"
    and "prove (body_keys b) (tx_TxHash tx) = Some kvs"
    and "\<And>h. TxProofVerify verify h (found_in (tx_TxHash tx) b kvs) = Inr True"
proof -
  obtain kvs where kvs: "prove (body_keys b) (tx_TxHash tx) = Some kvs" "distinct (map fst kvs)"
    "verify (keys_root E (body_keys b)) (tx_TxHash tx) (map_of kvs) \<noteq> None"
    using assms(3) by (auto simp: complete_for_def)
  have root: "keys_root E (body_keys b) = bh_TxRoot (b_Header b)"
    using assms(1) by (simp add: block_wf_def GetTxTreeRoot_def body_keys_def)
  have bloom: "bloom_test (tx_TxHash tx) b"
    using bloom_complete [of "b_Body b" _ tx] assms(1,2) by (auto simp: block_wf_def bloom_test_def)
  have mem: "list_ex (\<lambda>t. tx_TxHash tx = tx_TxHash t) (b_Body b)" using assms(2) by (auto simp: list_ex_iff)
  have "TxProofVerify verify h (found_in (tx_TxHash tx) b kvs) = Inr True" for h
    using kvs(2,3) root by (simp add: TxProofVerify_def recover_proof_map_of)
  then show thesis
    by (intro that [of kvs]) (use kvs root bloom mem in \<open>simp_all add: TxProofGenerateOnTheBlock_def\<close>)
qed

lemma found_sound:
  assumes "pf_Found (TxProofGenerateOnTheBlock prove E h b)"
  shows "\<exists>kvs. TxProofGenerateOnTheBlock prove E h b = found_in h b kvs \<and> h \<in> body_keys b \<and>
     keys_root E (body_keys b) = bh_TxRoot (b_Header b)"
  using assms by (auto simp: TxProofGenerateOnTheBlock_def body_keys_def list_ex_iff split: if_splits option.splits)

text \<open>
  C32. Proofs of the transactions of a produced block are accepted: for a block whose header agrees
  with its body and a transaction in it, the single and the batch generator return the same proof,
  marked found and naming the block, and \<open>TxProofVerify\<close> accepts it. When the single generator
  reports a transaction as found, it is in the block.
\<close>

theorem proof_roundtrip:
  assumes "block_wf E b" and "tx \<in> set (b_Body b)" and "complete_for prove verify E (body_keys b) (tx_TxHash tx)"
  shows "let p = TxProofGenerateOnTheBlock prove E (tx_TxHash tx) b in
    pf_Found p \<and> pf_BlockHash p = b_Hash b \<and> TxProofVerify verify (tx_TxHash tx) p = Inr True \<and>
    TxProofBatchGenerateOnBlock prove E [tx_TxHash tx] b = [p] \<and>
    (\<forall>h. pf_Found (TxProofGenerateOnTheBlock prove E h b) \<longrightarrow> h \<in> body_keys b)"
proof -
  obtain kvs where p: "TxProofGenerateOnTheBlock prove E (tx_TxHash tx) b = found_in (tx_TxHash tx) b kvs"
    and kvs: "prove (body_keys b) (tx_TxHash tx) = Some kvs"
    and v: "\<And>h. TxProofVerify verify h (found_in (tx_TxHash tx) b kvs) = Inr True"
    by (rule block_proof [OF assms]) blast
  have "TxProofBatchGenerateOnBlock prove E [tx_TxHash tx] b = [found_in (tx_TxHash tx) b kvs]"
    using p kvs assms(1)
    by (auto simp: TxProofBatchGenerateOnBlock_def TxProofGenerateOnTheBlock_def block_wf_def GetTxTreeRoot_def
        body_keys_def not_found_def found_in_def split: if_splits)
  with p v found_sound show ?thesis by (auto simp: Let_def)
qed

lemma proof_search_finds:
  assumes "linked bs" and "bs \<noteq> []" and "\<forall>b \<in> set bs. stored s b" and "b \<in> set (butlast bs)"
    and "pf_Found (TxProofGenerateOnTheBlock prove E h b)"
  shows "\<exists>b' \<in> set (butlast bs). pf_Found (TxProofGenerateOnTheBlock prove E h b') \<and>
    proof_search prove E h s (length bs - 1) (b_Hash (hd bs)) = TxProofGenerateOnTheBlock prove E h b'"
  using assms
proof (induction bs)
  case (Cons c bs)
  then have ne: "bs \<noteq> []" by auto
  then obtain n where n: "length bs = Suc n" by (cases bs) auto
  have c: "GetBlock (b_Hash c) s = Inr c" using Cons.prems(3) by (simp add: stored_def)
  show ?case
  proof (cases "pf_Found (TxProofGenerateOnTheBlock prove E h c)")
    case True
    then show ?thesis using c ne n by (intro bexI [of _ c]) (simp_all add: Let_def)
  next
    case False
    have par: "bh_ParentBlockHash (b_Header c) = b_Hash (hd bs)" "linked bs"
      using Cons.prems(1) ne by (cases bs; simp)+
    have "b \<in> set (butlast bs)" using Cons.prems(4,5) False ne by auto
    then obtain b' where b': "b' \<in> set (butlast bs)" "pf_Found (TxProofGenerateOnTheBlock prove E h b')"
      "proof_search prove E h s (length bs - 1) (b_Hash (hd bs)) = TxProofGenerateOnTheBlock prove E h b'"
      using Cons.IH [OF par(2) ne] Cons.prems(3,5) by auto
    have "proof_search prove E h s (length (c # bs) - 1) (b_Hash (hd (c # bs))) =
        proof_search prove E h s (length bs - 1) (b_Hash (hd bs))"
      using c False par(1) by (simp add: n Let_def)
    then show ?thesis using b' ne by (intro bexI [of _ b']) simp_all
  qed
qed simp

lemma linked_number:
  "linked bs \<Longrightarrow> bs \<noteq> [] \<Longrightarrow> bh_Number (b_Header (hd bs)) = bh_Number (b_Header (last bs)) + of_nat (length bs - 1)"
proof (induction bs rule: linked.induct)
  case (1 b b' bs)
  then show ?case by (simp add: algebra_simps)
qed auto

text \<open>
  Searching the whole chain finds a transaction that is in it: on a chain whose stored blocks link
  back to the genesis block (as every reachable chain's do), with agreeing headers, \<open>TxProofGenerate\<close>
  for a transaction of any block above genesis returns a proof marked found, for a block of the chain
  that contains the transaction, and the proof verifies.
\<close>

theorem TxProofGenerate_finds:
  assumes "chain_ok E bc bs" and "length bs < 2 ^ 64" and "b \<in> set (butlast bs)" and "tx \<in> set (b_Body b)"
    and "\<forall>b \<in> set bs. block_wf E b"
    and "\<forall>b \<in> set bs. tx_TxHash tx \<in> body_keys b \<longrightarrow> complete_for prove verify E (body_keys b) (tx_TxHash tx)"
  shows "let p = TxProofGenerate prove E (tx_TxHash tx) bc in
    pf_Found p \<and> (\<exists>b' \<in> set bs. pf_BlockHash p = b_Hash b' \<and> tx_TxHash tx \<in> body_keys b') \<and>
    TxProofVerify verify (tx_TxHash tx) p = Inr True"
proof -
  let ?h = "tx_TxHash tx" and ?gen = "TxProofGenerateOnTheBlock prove E (tx_TxHash tx)"
  have ch: "bs \<noteq> []" "hd bs = bc_CurrentBlock bc" "last bs = NewGenisisBlock E" "linked bs"
    "\<forall>b \<in> set bs. stored (bc_Storage bc) b" using assms(1) by (simp_all add: chain_ok_def)
  have "bh_Number (cur_header bc) = of_nat (length bs - 1)"
    using linked_number [OF ch(4,1)] ch by (simp add: NewGenisisBlock_def Let_def NewBlock_def)
  then have n: "unat (bh_Number (cur_header bc)) = length bs - 1"
    using assms(2) by (simp add: unat_of_nat take_bit_nat_eq_self)
  have b: "b \<in> set bs" using assms(3) by (rule in_set_butlastD)
  have k: "?h \<in> body_keys b" using assms(4) by (simp add: body_keys_def)
  have f: "pf_Found (?gen b)"
    using block_proof [of E b tx prove verify] assms(4-6) b k by (metis found_simps(2))
  obtain b' where b': "b' \<in> set (butlast bs)" "pf_Found (?gen b')" "TxProofGenerate prove E ?h bc = ?gen b'"
    using proof_search_finds [OF ch(4,1,5) assms(3) f] n ch(2) by (auto simp: TxProofGenerate_def)
  obtain kvs where kvs: "?gen b' = found_in ?h b' kvs" "?h \<in> body_keys b'" using found_sound [OF b'(2)] by blast
  then obtain tx' where tx': "tx' \<in> set (b_Body b')" "tx_TxHash tx' = ?h" by (auto simp: body_keys_def)
  have in': "b' \<in> set bs" using b'(1) by (rule in_set_butlastD)
  have "TxProofVerify verify ?h (?gen b') = Inr True"
    using block_proof [of E b' tx' prove verify] assms(5,6) in' kvs(2) tx' by (metis (no_types, lifting))
  then show ?thesis using b' kvs in' by (auto simp: Let_def)
qed

text \<open>
  \<open>TxProofVerify\<close> does not look at the transaction hash it is given: a proof that is accepted
  for one transaction is accepted for every other (only the hash inside the proof is checked, against
  the root inside the proof).
\<close>

theorem TxProofVerify_ignores_hash: "TxProofVerify verify h p = TxProofVerify verify h' p"
  by (simp add: TxProofVerify_def)

text \<open>
  The batch generator does not check that the transaction is in the block: when the bloom filter
  has the bit of an absent hash and the trie can produce a proof of absence for it, the batch
  generator reports it as found, while the single generator does not; such a proof is rejected by
  \<open>TxProofVerify\<close> as long as verification is sound for the block's keys.
\<close>

theorem batch_reports_absent:
  assumes "block_wf E b" and "h \<notin> body_keys b" and "bloom_test h b" and "prove (body_keys b) h = Some kvs"
    and "distinct (map fst kvs)" and "sound_for verify E (body_keys b)"
  shows "\<exists>p. TxProofBatchGenerateOnBlock prove E [h] b = [p] \<and> pf_Found p \<and>
    \<not> pf_Found (TxProofGenerateOnTheBlock prove E h b) \<and> TxProofVerify verify h p = Inr False"
proof -
  have root: "keys_root E (body_keys b) = bh_TxRoot (b_Header b)"
    using assms(1) by (simp add: block_wf_def GetTxTreeRoot_def body_keys_def)
  have "TxProofBatchGenerateOnBlock prove E [h] b = [found_in h b kvs]"
    using root assms(3,4) by (simp add: TxProofBatchGenerateOnBlock_def)
  moreover have "\<not> pf_Found (TxProofGenerateOnTheBlock prove E h b)" using found_sound assms(2) by blast
  moreover have "verify (bh_TxRoot (b_Header b)) h (map_of kvs) = None"
    using assms(2,6) unfolding sound_for_def root by blast
  then have "TxProofVerify verify h (found_in h b kvs) = Inr False"
    using assms(5) by (simp add: TxProofVerify_def recover_proof_map_of)
  ultimately show ?thesis by auto
qed

section \<open>Witnesses\<close>

text \<open>
  A stand-in trie for the root function of \<open>demo_env\<close>: a proof is a single node, and a key verifies
  when the root has its bit.
\<close>

definition demo_prove :: prover where
  "demo_prove K k = Some [(k, [1])]"

definition demo_verify :: verifier where
  "demo_verify root k db =
     (if (k, root ! 0) = ([1], 1) \<or> (k, root ! 1) = ([2], 1) \<or> (k, root ! 2) = ([3], 1) then Some [0] else None)"

definition demo_proof_block :: block where
  "demo_proof_block = \<lparr>b_Header = \<lparr>bh_ParentBlockHash = [0, 0, 255, 255, 255], bh_StateRoot = [], bh_TxRoot = [0, 1, 0],
     bh_Bloom = {2}, bh_Number = 1, bh_Time = 0, bh_Miner = 0\<rparr>, b_Body = [demo_tx 2 ''a0'' ''b0'' 5], b_Hash = [1]\<rparr>"

lemma demo_keys_root: "keys_root demo_env K = map (\<lambda>k. if [k] \<in> K then 1 else 0) [1, 2, 3]"
  by (simp add: demo_env_def)

lemma demo_proof_block_facts:
  "body_keys demo_proof_block = {[2]}" "block_wf demo_env demo_proof_block"
  "demo_tx 2 ''a0'' ''b0'' 5 \<in> set (b_Body demo_proof_block)" "tx_TxHash (demo_tx 2 ''a0'' ''b0'' 5) = [2]"
  by (simp_all add: body_keys_def demo_proof_block_def demo_tx_def block_wf_def GetTxTreeRoot_def GetBloomFilter_def
      ModBytes_def demo_keys_root)

lemma demo_complete: "complete_for demo_prove demo_verify demo_env (body_keys demo_proof_block) [2]"
  by (simp add: complete_for_def demo_prove_def demo_verify_def demo_keys_root demo_proof_block_facts)

lemma demo_sound: "sound_for demo_verify demo_env K"
  by (auto simp: sound_for_def demo_verify_def demo_keys_root split: if_splits)

theorem proof_roundtrip_witness:
  "block_wf demo_env demo_proof_block \<and>
   pf_Found (TxProofGenerateOnTheBlock demo_prove demo_env [2] demo_proof_block) \<and>
   TxProofVerify demo_verify [2] (TxProofGenerateOnTheBlock demo_prove demo_env [2] demo_proof_block) = Inr True"
  using proof_roundtrip [OF demo_proof_block_facts(2,3), of demo_prove demo_verify] demo_complete
    demo_proof_block_facts by (simp add: Let_def)

definition demo_proof_chain :: blockchain where
  "demo_proof_chain = (let g = NewGenisisBlock demo_env in
     (demo_chain NewG2EBook [])\<lparr>bc_CurrentBlock := demo_proof_block,
        bc_Storage := \<lparr>blockBucket = [b_Hash g \<mapsto> g, [1] \<mapsto> demo_proof_block],
                       blockHeaderBucket = [b_Hash g \<mapsto> b_Header g, [1] \<mapsto> b_Header demo_proof_block],
                       newestBlockHash = Some [1]\<rparr>\<rparr>)"

lemma demo_genesis:
  "b_Hash (NewGenisisBlock demo_env) = [0, 0, 255, 255, 255]" "bh_Number (b_Header (NewGenisisBlock demo_env)) = 0"
  "block_wf demo_env (NewGenisisBlock demo_env)" "body_keys (NewGenisisBlock demo_env) = {}"
  by (simp_all add: NewGenisisBlock_def Let_def NewBlock_def demo_env_def block_wf_def GetBloomFilter_def body_keys_def)

lemma demo_proof_chain_ok: "chain_ok demo_env demo_proof_chain [demo_proof_block, NewGenisisBlock demo_env]"
proof -
  have "b_Hash demo_proof_block = [1]" "bh_ParentBlockHash (b_Header demo_proof_block) = [0, 0, 255, 255, 255]"
    "bh_Number (b_Header demo_proof_block) = 1" by (simp_all add: demo_proof_block_def)
  then show ?thesis
    by (simp add: chain_ok_def stored_def demo_proof_chain_def Let_def GetBlock_def GetBlockHeader_def
        GetNewestBlockHash_def demo_genesis)
qed

theorem TxProofGenerate_finds_witness:
  "chain_ok demo_env demo_proof_chain [demo_proof_block, NewGenisisBlock demo_env] \<and>
   pf_Found (TxProofGenerate demo_prove demo_env [2] demo_proof_chain) \<and>
   TxProofVerify demo_verify [2] (TxProofGenerate demo_prove demo_env [2] demo_proof_chain) = Inr True"
proof -
  have "\<forall>b \<in> set [demo_proof_block, NewGenisisBlock demo_env]. block_wf demo_env b"
    by (simp add: demo_proof_block_facts demo_genesis)
  moreover have "\<forall>b \<in> set [demo_proof_block, NewGenisisBlock demo_env].
      tx_TxHash (demo_tx 2 ''a0'' ''b0'' 5) \<in> body_keys b \<longrightarrow>
      complete_for demo_prove demo_verify demo_env (body_keys b) (tx_TxHash (demo_tx 2 ''a0'' ''b0'' 5))"
    using demo_complete by (simp add: demo_proof_block_facts(4) demo_genesis)
  ultimately show ?thesis
    using demo_proof_chain_ok TxProofGenerate_finds [OF demo_proof_chain_ok _ _ demo_proof_block_facts(3), of demo_prove demo_verify]
    by (simp add: Let_def demo_proof_block_facts(4))
qed

theorem batch_reports_absent_witness:
  "[8, 2] \<notin> body_keys demo_proof_block \<and> bloom_test [8, 2] demo_proof_block \<and>
   (\<exists>p. TxProofBatchGenerateOnBlock demo_prove demo_env [[8, 2]] demo_proof_block = [p] \<and> pf_Found p \<and>
      TxProofVerify demo_verify [8, 2] p = Inr False)"
proof -
  have a: "[8, 2] \<notin> body_keys demo_proof_block" by (simp add: demo_proof_block_facts)
  have b: "bloom_test [8, 2] demo_proof_block" by (simp add: bloom_test_def ModBytes_def demo_proof_block_def)
  have p: "demo_prove (body_keys demo_proof_block) [8, 2] = Some [([8, 2], [1])]" by (simp add: demo_prove_def)
  show ?thesis using a b p demo_sound demo_proof_block_facts(2)
      batch_reports_absent [of demo_env demo_proof_block "[8, 2]" demo_prove "[([8, 2], [1])]" demo_verify] by auto
qed

end
