(* ===== verification/Messages.thy ===== *)
theory Messages
  imports Merkle_Proof
begin

text \<open>
  The messages of the system, \<open>message/\<close> and \<open>shard/nodes.go\<close>. On the wire a message is a type name
  in a prefix of thirty bytes followed by the JSON of a struct (\<open>MergeMessage\<close>, \<open>SplitMessage\<close>); the
  handlers of the other theories receive the decoded struct. A pointer to a \<open>shard.Node\<close> inside a
  decoded message is a fresh object: \<open>node_ptr\<close> carries its identity next to its contents, because the
  consensus keys maps by such pointers.
\<close>

section \<open>Framing\<close>

definition prefixMSGtypeLen :: nat where
  "prefixMSGtypeLen = 30"

definition to_bytes :: "string \<Rightarrow> bytes" where
  "to_bytes s = map of_char s"

definition MergeMessage :: "bytes \<Rightarrow> bytes \<Rightarrow> bytes go" where
  "MergeMessage msgType content =
     and_then (go_foldi (\<lambda>i v b. if i < length b then Inr (b[i := v]) else Inl IndexOutOfRange) 0 msgType
                 (replicate prefixMSGtypeLen 0))
       (\<lambda>b. Inr (b @ content))"

definition SplitMessage :: "bytes \<Rightarrow> (bytes \<times> bytes) go" where
  "SplitMessage msg =
     (if length msg < prefixMSGtypeLen then Inl IndexOutOfRange
      else Inr (filter (\<lambda>v. v \<noteq> 0) (take prefixMSGtypeLen msg), drop prefixMSGtypeLen msg))"

definition message_types :: "string list" where
  "message_types =
     [''preprepare'', ''prepare'', ''commit'', ''requestOldrequest'', ''sendOldrequest'', ''stop'',
      ''relay'', ''CRelay&Proof'', ''inject'', ''BlockInfo'', ''SequenceID'',
      ''ViewChangePropose'', ''NewChange'',
      ''AccountState&txs'', ''PartitionModifiedMap'', ''ready for partition'',
      ''brokerRawTx'', ''brokerConfirm1'', ''brokerConfirm2'', ''brokerType1'', ''brokerType2'',
      ''InjectTx_Broker'', ''BrokerTxMap'', ''BrokerAS_transfer'', ''innerShardTx_be_crossShard'']"

section \<open>Structs\<close>

record shard_node =
  n_NodeID :: u64
  n_ShardID :: u64
  n_IPaddr :: string

datatype node_ptr = NodePtr (ptr_id: nat) (pointee: shard_node)

record account_transfer_msg =
  atm_ModifiedMap :: "address \<rightharpoonup> u64"
  atm_Addrs :: "address list"
  atm_AccountState :: "account_state list"
  atm_ATid :: u64

datatype request_type = BlockRequest | PartitionReq

datatype raw_content = BlockContent block | TransferContent account_transfer_msg

record request =
  r_RequestType :: request_type
  r_Content :: raw_content
  r_ReqTime :: gotime

record pre_prepare =
  pp_RequestMsg :: request
  pp_Digest :: bytes
  pp_SeqID :: u64

record prepare_commit =
  \<comment> \<open>\<open>Prepare\<close> and \<open>Commit\<close> have the same fields\<close>
  pc_Digest :: bytes
  pc_SeqID :: u64
  pc_SenderNode :: node_ptr

record request_old =
  ro_SeqStartHeight :: u64
  ro_SeqEndHeight :: u64
  ro_ServerNode :: shard_node
  ro_SenderNode :: shard_node

record send_old =
  so_SeqStartHeight :: u64
  so_SeqEndHeight :: u64
  so_OldRequest :: "request list"
  so_SenderNode :: shard_node

record view_change_msg =
  vc_CurView :: int
  vc_NextView :: int
  vc_SeqID :: int
  vc_FromNode :: u64

record relay_msg =
  rl_Txs :: "transaction list"
  rl_SenderShardID :: u64
  rl_SenderSeq :: u64

record relay_proof_msg =
  rp_Txs :: "transaction list"
  rp_TxProofs :: "tx_proof list"
  rp_SenderShardID :: u64
  rp_SenderSeq :: u64

record block_info =
  bi_BlockBodyLength :: nat
  bi_InnerShardTxs :: "transaction list"
  bi_Epoch :: int
  bi_ProposeTime :: gotime
  bi_CommitTime :: gotime
  bi_SenderShardID :: u64
  bi_Relay1Txs :: "transaction list"
  bi_Relay2Txs :: "transaction list"
  bi_Broker1Txs :: "transaction list"
  bi_Broker2Txs :: "transaction list"

record account_state_and_tx =
  ast_Addrs :: "address list"
  ast_AccountState :: "account_state list"
  ast_Txs :: "transaction list"
  ast_FromShard :: u64

datatype message =
    PrePrepareMsg pre_prepare
  | PrepareMsg bytes u64 shard_node
  | CommitMsg bytes u64 shard_node
  | RequestOldMsg request_old
  | SendOldMsg send_old
  | ViewChangeMsg view_change_msg
  | NewViewMsg view_change_msg
  | RelayMsg relay_msg
  | RelayProofMsg relay_proof_msg
  | InjectMsg "transaction list"
  | BlockInfoMsg block_info
  | SeqIDInfoMsg u64 u64
  | PartitionMsg "address \<rightharpoonup> u64"
  | PartitionReadyMsg u64 u64
  | AccountStateTxMsg account_state_and_tx
  | AccountTransferBrokerMsg account_state_and_tx
  | Inner2CrossMsg "transaction list"
  | StopMsg

section \<open>Round trip of the framing\<close>

lemma fill_prefix:
  "i + length t \<le> length b \<Longrightarrow>
   go_foldi (\<lambda>i v b. if i < length b then Inr (b[i := v]) else Inl IndexOutOfRange) i t b =
   Inr (take i b @ t @ drop (i + length t) b)"
proof (induction t arbitrary: i b)
  case (Cons v t)
  then have len: "i < length b" by simp
  have "take (Suc i) (b[i := v]) = take i b @ [v]"
    using len by (simp add: take_Suc_conv_app_nth)
  moreover have "drop (Suc i + length t) (b[i := v]) = drop (i + length (v # t)) b" using len by simp
  moreover have "Suc i + length t \<le> length (b[i := v])" using Cons.prems by simp
  ultimately show ?case using Cons.IH [of "Suc i" "b[i := v]"] len by simp
qed simp

lemma MergeMessage_ok:
  assumes "length t \<le> prefixMSGtypeLen"
  shows "MergeMessage t c = Inr (t @ replicate (prefixMSGtypeLen - length t) 0 @ c)"
proof -
  have "0 + length t \<le> length (replicate prefixMSGtypeLen (0 :: 8 word))" using assms by simp
  from fill_prefix [OF this] show ?thesis
    by (simp add: MergeMessage_def)
qed

lemma filter_nonzero: "0 \<notin> set t \<Longrightarrow> filter (\<lambda>v. v \<noteq> 0) (t @ replicate n (0 :: 8 word)) = t"
  by (induction t) auto

text \<open>What the framing writes, and what it reads back, for every message type of the system.\<close>

definition frame :: "string \<Rightarrow> bytes \<Rightarrow> bytes" where
  "frame t c = to_bytes t @ replicate (prefixMSGtypeLen - length (to_bytes t)) 0 @ c"

lemma message_type_bytes:
  assumes "t \<in> set message_types"
  shows "length (to_bytes t) \<le> prefixMSGtypeLen" and "0 \<notin> set (to_bytes t)" and "10 \<notin> set (to_bytes t)"
  using assms by (auto simp: message_types_def to_bytes_def prefixMSGtypeLen_def)

lemma frame_roundtrip:
  assumes "t \<in> set message_types"
  shows "MergeMessage (to_bytes t) c = Inr (frame t c)" and "SplitMessage (frame t c) = Inr (to_bytes t, c)"
proof -
  note len = message_type_bytes(1) [OF assms]
  have "take prefixMSGtypeLen (frame t c) = to_bytes t @ replicate (prefixMSGtypeLen - length (to_bytes t)) 0"
    "drop prefixMSGtypeLen (frame t c) = c" "\<not> length (frame t c) < prefixMSGtypeLen" using len by (simp_all add: frame_def)
  then show "SplitMessage (frame t c) = Inr (to_bytes t, c)"
    by (simp only: SplitMessage_def filter_nonzero [OF message_type_bytes(2) [OF assms]] if_False)
  show "MergeMessage (to_bytes t) c = Inr (frame t c)" by (simp only: MergeMessage_ok [OF len] frame_def)
qed

text \<open>
  C33. Framing round trip: for every message type the system declares, merging it with any content
  does not panic, and splitting the result gives back the type and the content; a type name of more than
  thirty bytes makes \<open>MergeMessage\<close> panic, and a message shorter than the prefix \<open>SplitMessage\<close>.
\<close>

theorem message_roundtrip:
  "(\<forall>t \<in> set message_types. \<exists>m. MergeMessage (to_bytes t) c = Inr m \<and> SplitMessage m = Inr (to_bytes t, c)) \<and>
   (\<forall>t. prefixMSGtypeLen < length t \<longrightarrow> is_panic (MergeMessage t c)) \<and>
   (\<forall>m. length m < prefixMSGtypeLen \<longrightarrow> is_panic (SplitMessage m))"
proof (intro conjI ballI allI impI)
  fix t assume "t \<in> set message_types"
  then show "\<exists>m. MergeMessage (to_bytes t) c = Inr m \<and> SplitMessage m = Inr (to_bytes t, c)"
    using frame_roundtrip by blast
next
  fix t :: bytes assume "prefixMSGtypeLen < length t"
  moreover have "i + length t > length b \<Longrightarrow> i \<le> length b \<Longrightarrow>
      is_panic (go_foldi (\<lambda>i v b. if i < length b then Inr (b[i := v]) else Inl IndexOutOfRange) i t b)" for i b
    by (induction t arbitrary: i b) auto
  from this [of "replicate prefixMSGtypeLen 0" 0] calculation
  have "is_panic (go_foldi (\<lambda>i v b. if i < length b then Inr (b[i := v]) else Inl IndexOutOfRange) 0 t (replicate prefixMSGtypeLen 0))"
    by simp
  then show "is_panic (MergeMessage t c)"
    by (auto simp: MergeMessage_def is_panic_def split: sum.splits)
qed (simp add: SplitMessage_def)

theorem message_roundtrip_witness:
  "\<exists>m. MergeMessage (to_bytes ''commit'') [1, 2] = Inr m \<and> SplitMessage m = Inr (to_bytes ''commit'', [1, 2])"
proof -
  have "''commit'' \<in> set message_types" by (simp add: message_types_def)
  with message_roundtrip [of "[1, 2]"] show ?thesis by blast
qed

end
