(* ===== verification/Network.thy ===== *)
theory Network
  imports Messages
begin

text \<open>
  The network layer: \<open>networks/p2pNetwork.go\<close>, \<open>upload_limit.go\<close>, \<open>download_limit.go\<close>, and the loops by which
  nodes and supervisor read messages from a connection (\<open>handleClientRequest\<close> in \<open>pbft.go\<close> and
  \<open>supervisor.go\<close>).

  A connection is a value of type \<open>'c\<close>; what has been written to it is recorded in \<open>wire\<close>. The goroutine of a
  \<open>TcpDial\<close> runs under \<open>connMaplock\<close> and is atomic. What the operating system answers is an argument of the
  call (\<open>world\<close>): the result of dialling, whether the connection is alive, how much is written, the
  random number. \<open>WaitN\<close> of the rate limiter is the parameter \<open>waitN\<close>; its documentation promises an error
  exactly for more tokens than the burst size (\<open>limiter_ok\<close>). A loop that never ends is \<open>Inl Blocked\<close>.
\<close>

section \<open>Configuration\<close>

record net_params =
  np_Delay :: int
  np_JitterRange :: int
  np_Bandwidth :: int

definition InitNetworkTools :: "net_params \<Rightarrow> net_params" where
  \<comment> \<open>the burst size of both limiters is the resulting bandwidth\<close>
  "InitNetworkTools np =
     \<lparr>np_Delay = (if np_Delay np < 0 then 0 else np_Delay np),
      np_JitterRange = (if np_JitterRange np < 0 then 0 else np_JitterRange np),
      np_Bandwidth = (if np_Bandwidth np < 0 then 0x7fffffff else np_Bandwidth np)\<rparr>"

definition thisDelay :: "net_params \<Rightarrow> (int \<Rightarrow> int) \<Rightarrow> int go" where
  \<comment> \<open>\<open>intn\<close> is \<open>randomDelayGenerator.Intn\<close>, which panics unless its argument is positive\<close>
  "thisDelay np intn =
     (if np_JitterRange np \<noteq> 0
      then if np_JitterRange np \<le> 0 then Inl (LogPanic ''Intn'')
           else Inr (intn (np_JitterRange np) - go_quot (np_JitterRange np) 2 + np_Delay np)
      else Inr (np_Delay np))"

section \<open>Rate limits\<close>

definition limiter_ok :: "(int \<Rightarrow> bool) \<Rightarrow> int \<Rightarrow> bool" where
  \<comment> \<open>\<open>waitN n\<close> is true if \<open>WaitN(n)\<close> returns no error\<close>
  "limiter_ok waitN burst \<longleftrightarrow> (\<forall>n. waitN n \<longleftrightarrow> n \<le> burst)"

partial_function (option) pay :: "(int \<Rightarrow> bool) \<Rightarrow> int \<Rightarrow> int \<Rightarrow> bool option" where
  \<comment> \<open>the loop of \<open>rateLimitedWriter.Write\<close>: false if \<open>WaitN\<close> fails\<close>
  "pay waitN burst n =
     (if n > 0
      then let writeByteNum = (if burst > n then n else burst)
           in if waitN writeByteNum then pay waitN burst (n - writeByteNum) else Some False
      else Some True)"

partial_function (option) pay_read :: "(int \<Rightarrow> bool) \<Rightarrow> int \<Rightarrow> int \<Rightarrow> bool option" where
  \<comment> \<open>the loop of \<open>rateLimitedReader.Read\<close>, which waits for all \<open>n\<close> tokens\<close>
  "pay_read waitN burst n =
     (if n > 0
      then let writeByteNum = (if burst > n then n else burst)
           in if waitN n then pay_read waitN burst (n - writeByteNum) else Some False
      else Some True)"

section \<open>Connections\<close>

record 'c net =
  connectionPool :: "string \<rightharpoonup> 'c"
  wire :: "'c \<Rightarrow> bytes"
  closed :: "'c set"

record 'c world =
  w_dial :: "'c option"
  w_alive :: bool
  w_write :: "nat option" \<comment> \<open>none, or the number of bytes written before an error\<close>

definition writeToConn :: "(int \<Rightarrow> bool) \<Rightarrow> int \<Rightarrow> 'c world \<Rightarrow> bytes \<Rightarrow> 'c option \<Rightarrow> 'c net \<Rightarrow> 'c net go" where
  "writeToConn waitN burst w connMsg conn net =
     (case pay waitN burst (int (length connMsg)) of
        None \<Rightarrow> Inl Blocked
      | Some False \<Rightarrow> Inr net
      | Some True \<Rightarrow>
          (case conn of
             None \<Rightarrow> Inl NilDeref
           | Some c \<Rightarrow> Inr (net\<lparr>wire := (wire net)(c := wire net c @
               (case w_write w of None \<Rightarrow> connMsg | Some k \<Rightarrow> take k connMsg))\<rparr>)))"

definition NetTcpDial :: "('c \<Rightarrow> bool) \<Rightarrow> (int \<Rightarrow> bool) \<Rightarrow> int \<Rightarrow> 'c world \<Rightarrow> bytes \<Rightarrow> string \<Rightarrow> 'c net \<Rightarrow> 'c net go" where
  \<comment> \<open>\<open>is_tcp\<close> is the type assertion; the goroutine after its sleep\<close>
  "NetTcpDial is_tcp waitN burst w context addr net =
     (let send = writeToConn waitN burst w (context @ [10]) in
      case connectionPool net addr of
        Some c \<Rightarrow>
          if is_tcp c
          then if \<not> w_alive w
               then let net = net\<lparr>connectionPool := (connectionPool net)(addr := None)\<rparr>
                    in case w_dial w of
                         None \<Rightarrow> Inr net
                       | Some c' \<Rightarrow> send (Some c') (net\<lparr>connectionPool := (connectionPool net)(addr \<mapsto> c')\<rparr>)
               else send (Some c) net
          else send None net
      | None \<Rightarrow>
          (case w_dial w of
             None \<Rightarrow> Inr net
           | Some c' \<Rightarrow> send (Some c') (net\<lparr>connectionPool := (connectionPool net)(addr \<mapsto> c')\<rparr>)))"

definition CloseAllConnInPool :: "'c net \<Rightarrow> 'c net" where
  "CloseAllConnInPool net = net\<lparr>closed := closed net \<union> ran (connectionPool net), connectionPool := Map.empty\<rparr>"

section \<open>Reading messages\<close>

fun ReadBytes :: "bytes \<Rightarrow> (bytes \<times> bytes) option" where
  \<comment> \<open>\<open>ReadBytes('\n')\<close> on what a connection delivers: the line with its delimiter and the rest; none at the end of
    the input\<close>
  "ReadBytes [] = None"
| "ReadBytes (b # bs) = (if b = 10 then Some ([b], bs) else map_option (\<lambda>(l, r). (b # l, r)) (ReadBytes bs))"

lemma ReadBytes_shorter: "ReadBytes bs = Some (l, r) \<Longrightarrow> length r < length bs"
  by (induction bs arbitrary: l) (auto split: if_splits dest: less_SucI)

function handleClientRequest :: "('s \<Rightarrow> bool) \<Rightarrow> (bytes \<Rightarrow> 's \<Rightarrow> 's go) \<Rightarrow> bytes \<Rightarrow> 's \<Rightarrow> 's go" where
  \<comment> \<open>the loop of a node until the sender closes the connection; \<open>h\<close> is \<open>handleMessage\<close>, \<open>stop\<close> the test of
    \<open>stopSignal\<close> after each line\<close>
  "handleClientRequest stop h bs s =
     (case ReadBytes bs of
        None \<Rightarrow> Inr s
      | Some (clientRequest, rest) \<Rightarrow>
          if stop s then Inr s else and_then (h clientRequest s) (handleClientRequest stop h rest))"
  by pat_completeness auto
termination by (relation "measure (\<lambda>(stop, h, bs, s). length bs)") (auto dest: ReadBytes_shorter)

function sup_handleClientRequest :: "(bytes \<Rightarrow> 's \<Rightarrow> 's go) \<Rightarrow> bytes \<Rightarrow> 's \<Rightarrow> 's go" where
  \<comment> \<open>the loop of the supervisor, which has no stop signal\<close>
  "sup_handleClientRequest h bs s =
     (case ReadBytes bs of
        None \<Rightarrow> Inr s
      | Some (clientRequest, rest) \<Rightarrow> and_then (h clientRequest s) (sup_handleClientRequest h rest))"
  by pat_completeness auto
termination by (relation "measure (\<lambda>(h, bs, s). length bs)") (auto dest: ReadBytes_shorter)

fun accepted :: "'c option list \<Rightarrow> 'c list" where
  \<comment> \<open>the connections for which the accept loop starts a goroutine; the argument are the answers of \<open>Accept\<close>, none for an
    error\<close>
  "accepted [] = []"
| "accepted (None # as) = []"
| "accepted (Some conn # as) = conn # accepted as"

definition sup_TcpListen :: "bool \<Rightarrow> 'c option list \<Rightarrow> 'c list go" where
  \<comment> \<open>\<open>ok\<close>: the supervisor can listen at its address\<close>
  "sup_TcpListen ok answers = (if \<not> ok then Inl (LogPanic ''listen'') else Inr (accepted answers))"

declare handleClientRequest.simps [simp del] and sup_handleClientRequest.simps [simp del]

definition readMessage :: "bytes \<Rightarrow> bytes \<times> bytes" where
  \<comment> \<open>on a buffer: the end of the buffer is not an error, and gives what is left\<close>
  "readMessage buffer = (case ReadBytes buffer of None \<Rightarrow> (buffer, []) | Some (l, r) \<Rightarrow> (l, r))"

partial_function (option) handle_full :: "bytes \<Rightarrow> bytes list \<Rightarrow> bytes list option" where
  \<comment> \<open>the inner loop of \<open>ReadFromConn\<close>, with the messages logged so far; \<open>readMessage\<close> reports no error, so that
    neither of the two exits is taken\<close>
  "handle_full buffer logged = (let (message, rest) = readMessage buffer in handle_full rest (logged @ [message]))"

section \<open>The rate limits\<close>

lemma pay_pos:
  assumes "limiter_ok waitN burst" and "0 < burst"
  shows "pay waitN burst n = Some True"
proof (induction "nat n" arbitrary: n rule: less_induct)
  case less
  show ?case
  proof (cases "0 < n")
    case True
    then have "pay waitN burst (n - min n burst) = Some True" using assms(2) by (intro less.hyps) auto
    moreover have "waitN (min n burst)" using assms(1) by (simp add: limiter_ok_def)
    moreover have "min n burst = (if burst > n then n else burst)" by simp
    ultimately show ?thesis using True by (subst pay.simps) (simp add: Let_def)
  qed (subst pay.simps, simp)
qed

lemma pay_zero:
  assumes "limiter_ok waitN 0" and "0 < n"
  shows "pay waitN 0 n = None"
proof -
  have "wa = waitN \<longrightarrow> burst = 0 \<longrightarrow> m \<le> 0" if "pay wa burst m = Some b" for wa burst m b
    by (rule pay.raw_induct [OF _ that]) (use assms(1) in \<open>force simp: Let_def limiter_ok_def split: if_splits\<close>)
  from this [of waitN 0 n] show ?thesis using assms(2) by (cases "pay waitN 0 n") auto
qed

text \<open>
  C39. Upload limit: with a positive bandwidth the loop that waits for the tokens of a message ends, whatever the
  length of the message. With bandwidth zero, which \<open>InitNetworkTools\<close> lets through, it runs forever on every
  message, and \<open>TcpDial\<close> never gives \<open>connMaplock\<close> back.
\<close>

theorem upload_limit_returns:
  assumes "limiter_ok waitN (np_Bandwidth (InitNetworkTools np))"
  shows "(pay waitN (np_Bandwidth (InitNetworkTools np)) n = Some True) =
           (np_Bandwidth np \<noteq> 0 \<or> n \<le> 0) \<and>
         (pay waitN (np_Bandwidth (InitNetworkTools np)) n = None) = (np_Bandwidth np = 0 \<and> 0 < n)"
proof (cases "np_Bandwidth np = 0")
  case True
  then show ?thesis
  proof (cases "0 < n")
    case False
    then show ?thesis using True by (subst (1 2) pay.simps) simp
  qed (use pay_zero assms in \<open>simp_all add: InitNetworkTools_def\<close>)
next
  case False
  then have "0 < np_Bandwidth (InitNetworkTools np)" by (simp add: InitNetworkTools_def)
  from pay_pos [OF assms this] False show ?thesis by simp
qed

text \<open>
  Download limit: a read into a buffer that is longer than the burst size fails before it reads anything, since the
  loop asks for all the missing tokens at once and not for a burst of them.
\<close>

lemma pay_read_fails:
  assumes "limiter_ok waitN burst" and "0 < n"
  shows "pay_read waitN burst n = Some False \<longleftrightarrow> burst < n"
proof (cases "burst < n")
  case True
  then show ?thesis using assms by (subst pay_read.simps) (simp add: Let_def limiter_ok_def)
next
  case False
  then have "pay_read waitN burst n = pay_read waitN burst 0" 
    using assms by (subst pay_read.simps) (auto simp: Let_def limiter_ok_def)
  also have "\<dots> = Some True" by (subst pay_read.simps) simp
  finally show ?thesis using False by simp
qed

text \<open>
  Delays: after \<open>InitNetworkTools\<close> the delay of a message never panics and stays within half the jitter range of
  the configured delay.
\<close>

theorem thisDelay_bounds:
  assumes "\<And>n. 0 < n \<Longrightarrow> 0 \<le> intn n \<and> intn n < n"
  shows "\<exists>d. thisDelay (InitNetworkTools np) intn = Inr d \<and>
           2 * \<bar>d - max 0 (np_Delay np)\<bar> \<le> max 0 (np_JitterRange np)"
proof -
  have "go_quot (np_JitterRange np) 2 = np_JitterRange np div 2" if "0 < np_JitterRange np"
    using that by (simp add: go_quot_def)
  moreover have "2 * \<bar>r - j div 2\<bar> \<le> j" if "0 \<le> r" "r < j" for r j :: int using that by arith
  ultimately show ?thesis using assms [of "np_JitterRange np"]
    by (auto simp: thisDelay_def InitNetworkTools_def max_def)
qed

section \<open>Messages arrive\<close>

definition healthy :: "'c \<Rightarrow> 'c world \<Rightarrow> bool" where
  \<comment> \<open>dialling gives \<open>c\<close>, which stays alive and takes what is written\<close>
  "healthy c w \<longleftrightarrow> w_dial w = Some c \<and> w_alive w \<and> w_write w = None"

lemma TcpDial_healthy:
  assumes "limiter_ok waitN burst" and "0 < burst" and "is_tcp c" and "healthy c w"
    and "connectionPool net addr \<in> {None, Some c}"
  shows "NetTcpDial is_tcp waitN burst w m addr net =
           Inr (net\<lparr>connectionPool := (connectionPool net)(addr \<mapsto> c), wire := (wire net)(c := wire net c @ m @ [10])\<rparr>)"
proof -
  have "(connectionPool net)(addr \<mapsto> c) = connectionPool net" if "connectionPool net addr = Some c"
    using that by (simp add: fun_upd_idem)
  then show ?thesis using assms(3-5) pay_pos [OF assms(1,2)]
    by (auto simp: NetTcpDial_def writeToConn_def healthy_def Let_def)
qed

lemma ReadBytes_line: "10 \<notin> set m \<Longrightarrow> ReadBytes (m @ 10 # r) = Some (m @ [10], r)"
  by (induction m) auto

lemma handle_lines:
  assumes "\<forall>m \<in> set ms. 10 \<notin> set m"
  shows "sup_handleClientRequest h (concat (map (\<lambda>m. m @ [10]) ms)) s = go_fold h (map (\<lambda>m. m @ [10]) ms) s"
  using assms
proof (induction ms arbitrary: s)
  case (Cons m ms)
  have "sup_handleClientRequest h (concat (map (\<lambda>m. m @ [10]) ms)) = go_fold h (map (\<lambda>m. m @ [10]) ms)"
    using Cons by (intro ext) simp
  then show ?case using ReadBytes_line [of m "concat (map (\<lambda>m. m @ [10]) ms)"] Cons.prems
    by (subst sup_handleClientRequest.simps) simp
qed (simp add: sup_handleClientRequest.simps)

lemma handle_unstopped: "handleClientRequest (\<lambda>_. False) h bs s = sup_handleClientRequest h bs s"
proof (induction "length bs" arbitrary: bs s rule: less_induct)
  case less
  show ?case
  proof (cases "ReadBytes bs")
    case (Some lr)
    then obtain l r where lr: "ReadBytes bs = Some (l, r)" by (cases lr) auto
    have "handleClientRequest (\<lambda>_. False) h r = sup_handleClientRequest h r"
      using less [OF ReadBytes_shorter [OF lr]] by (intro ext)
    then show ?thesis using lr by (simp add: handleClientRequest.simps [of _ _ bs] sup_handleClientRequest.simps [of _ bs])
  qed (simp add: handleClientRequest.simps sup_handleClientRequest.simps)
qed

lemma sup_TcpListen_closed: "sup_TcpListen True (map Some conns @ None # as) = Inr conns"
proof -
  have "accepted (map Some conns @ None # as) = conns" by (induction conns) auto
  then show ?thesis by (simp add: sup_TcpListen_def)
qed

lemma handle_stopped: "stop s \<Longrightarrow> handleClientRequest stop h bs s = Inr s"
  by (simp add: handleClientRequest.simps split: option.splits)

definition send_all ::
  "('c \<Rightarrow> bool) \<Rightarrow> (int \<Rightarrow> bool) \<Rightarrow> int \<Rightarrow> string \<Rightarrow> ('c world \<times> string \<times> bytes) list \<Rightarrow> 'c net \<Rightarrow> 'c net go" where
  \<comment> \<open>messages framed and sent to one address, in the order in which the goroutines take the lock\<close>
  "send_all is_tcp waitN burst addr =
     go_fold (\<lambda>(w, t, c) net. and_then (MergeMessage (to_bytes t) c) (\<lambda>m. NetTcpDial is_tcp waitN burst w m addr net))"

lemma send_all_wire:
  assumes lim: "limiter_ok waitN burst" "0 < burst" and c: "is_tcp c"
    and ms: "\<forall>(w, t, d) \<in> set ms. healthy c w \<and> t \<in> set message_types"
    and "connectionPool net addr \<in> {None, Some c}"
  shows "\<exists>net'. send_all is_tcp waitN burst addr ms net = Inr net' \<and>
           wire net' c = wire net c @ concat (map (\<lambda>m. m @ [10]) (map (\<lambda>(w, t, d). frame t d) ms))"
  using ms assms(5)
proof (induction ms arbitrary: net)
  case (Cons x ms)
  obtain w t d where x: "x = (w, t, d)" by (cases x)
  let ?net = "net\<lparr>connectionPool := (connectionPool net)(addr \<mapsto> c), wire := (wire net)(c := wire net c @ frame t d @ [10])\<rparr>"
  have t: "healthy c w" "t \<in> set message_types" using Cons.prems(1) x by auto
  have "send_all is_tcp waitN burst addr (x # ms) net = send_all is_tcp waitN burst addr ms ?net"
    using TcpDial_healthy [where is_tcp = is_tcp and c = c, OF lim c t(1) Cons.prems(2)] frame_roundtrip(1) [OF t(2)] by (simp add: send_all_def x)
  moreover obtain net' where "send_all is_tcp waitN burst addr ms ?net = Inr net'"
    "wire net' c = wire ?net c @ concat (map (\<lambda>m. m @ [10]) (map (\<lambda>(w, t, d). frame t d) ms))"
    using Cons.IH [of ?net] Cons.prems(1) by auto
  ultimately show ?case by (simp add: x)
qed (simp add: send_all_def)

lemma frame_no_newline: "t \<in> set message_types \<Longrightarrow> 10 \<notin> set d \<Longrightarrow> 10 \<notin> set (frame t d)"
  using message_type_bytes(3) by (auto simp: frame_def)

lemma go_fold_map: "go_fold f (map g xs) s = go_fold (\<lambda>x. f (g x)) xs s"
  by (induction xs arbitrary: s) (auto simp: and_then_def split: sum.splits)

lemma go_fold_cong: "(\<And>x s. x \<in> set xs \<Longrightarrow> f x s = g x s) \<Longrightarrow> go_fold f xs s = go_fold g xs s"
  by (induction xs arbitrary: s) (auto simp: and_then_def split: sum.splits)

text \<open>
  C21. Delivery: framed messages that \<open>TcpDial\<close> sends to one address over a fresh connection, whose contents have no
  newline (JSON has none), are handled by the receiver one by one, in the order in which they were sent, each with its own
  type and its own content, to which the delimiter is still attached; the same holds for a node that is not stopped.
\<close>

theorem network_delivers:
  assumes "limiter_ok waitN burst" and "0 < burst" and "is_tcp c"
    and "\<forall>(w, t, d) \<in> set ms. healthy c w \<and> t \<in> set message_types \<and> 10 \<notin> set d"
    and "connectionPool net addr = None" and "wire net c = []"
  shows "\<exists>net'. send_all is_tcp waitN burst addr ms net = Inr net' \<and>
           sup_handleClientRequest (\<lambda>m s. and_then (SplitMessage m) (\<lambda>(t, d). h t d s)) (wire net' c) s =
             go_fold (\<lambda>(w, t, d). h (to_bytes t) (d @ [10])) ms s \<and>
           handleClientRequest (\<lambda>_. False) (\<lambda>m s. and_then (SplitMessage m) (\<lambda>(t, d). h t d s)) (wire net' c) s =
             go_fold (\<lambda>(w, t, d). h (to_bytes t) (d @ [10])) ms s"
proof -
  let ?h = "\<lambda>m s. and_then (SplitMessage m) (\<lambda>(t, d). h t d s)"
  let ?fs = "map (\<lambda>(w, t, d). frame t d) ms"
  obtain net' where net': "send_all is_tcp waitN burst addr ms net = Inr net'" "wire net' c = concat (map (\<lambda>m. m @ [10]) ?fs)"
    using send_all_wire [where is_tcp = is_tcp and c = c, OF assms(1-3), of ms net addr] assms(4-6) by fastforce
  have "sup_handleClientRequest ?h (wire net' c) s = go_fold (\<lambda>m. ?h (m @ [10])) ?fs s"
    unfolding net'(2) using assms(4) frame_no_newline by (subst handle_lines) (auto simp: go_fold_map)
  also have "\<dots> = go_fold (\<lambda>(w, t, d). h (to_bytes t) (d @ [10])) ms s"
  proof -
    have "?h (frame t d @ [10]) s = h (to_bytes t) (d @ [10]) s" if "t \<in> set message_types" for t d s
      using frame_roundtrip(2) [OF that, of "d @ [10]"] by (simp add: frame_def)
    then show ?thesis unfolding go_fold_map using assms(4) by (intro go_fold_cong) fastforce
  qed
  finally show ?thesis using net'(1) by (simp only: handle_unstopped) blast
qed

definition pool_ok :: "('c \<Rightarrow> bool) \<Rightarrow> 'c net \<Rightarrow> bool" where
  "pool_ok is_tcp net \<longleftrightarrow> (\<forall>c \<in> ran (connectionPool net). is_tcp c)"

text \<open>
  Sending in a network that may fail: as long as the pool holds TCP connections only and the bandwidth is not zero, a
  call of \<open>TcpDial\<close> returns, whether dialling, the connection or the write fails, and keeps the pool so; it appends
  to at most one connection, the one kept for the address, the message with its delimiter or a prefix of it. Closing the pool closes every
  connection in it and leaves it empty.
\<close>

theorem TcpDial_effect:
  assumes "limiter_ok waitN burst" and "0 < burst" and "pool_ok is_tcp net" and "\<forall>c. w_dial w = Some c \<longrightarrow> is_tcp c"
  shows "\<exists>net'. NetTcpDial is_tcp waitN burst w m addr net = Inr net' \<and> pool_ok is_tcp net' \<and>
           (wire net' = wire net \<or>
            (\<exists>c k. connectionPool net' addr = Some c \<and> wire net' = (wire net)(c := wire net c @ take k (m @ [10])))) \<and>
           pool_ok is_tcp (CloseAllConnInPool net') \<and> ran (connectionPool net') \<subseteq> closed (CloseAllConnInPool net')"
proof -
  have pool: "is_tcp c" if "connectionPool net a = Some c" for a c using assms(3) that by (auto simp: pool_ok_def ran_def)
  have close: "pool_ok is_tcp (CloseAllConnInPool n) \<and> ran (connectionPool n) \<subseteq> closed (CloseAllConnInPool n)" for n :: "'a net"
    by (simp add: pool_ok_def CloseAllConnInPool_def)
  have writes: "\<exists>net'. writeToConn waitN burst w (m @ [10]) (Some c) n = Inr net' \<and> connectionPool net' = connectionPool n \<and>
      (\<exists>k. wire net' = (wire n)(c := wire n c @ take k (m @ [10])))" for c and n :: "'a net"
  proof (cases "w_write w")
    case None
    then show ?thesis using pay_pos [OF assms(1,2)] by (auto simp: writeToConn_def intro!: exI [of _ "Suc (length m)"])
  next
    case (Some k)
    then show ?thesis using pay_pos [OF assms(1,2)] by (auto simp: writeToConn_def)
  qed
  have dial: "\<exists>net'. (case w_dial w of None \<Rightarrow> Inr n
        | Some c' \<Rightarrow> writeToConn waitN burst w (m @ [10]) (Some c') (n\<lparr>connectionPool := (connectionPool n)(addr \<mapsto> c')\<rparr>)) = Inr net' \<and>
      pool_ok is_tcp net' \<and> (wire net' = wire n \<or> (\<exists>c k. connectionPool net' addr = Some c \<and> wire net' = (wire n)(c := wire n c @ take k (m @ [10]))))"
    if "pool_ok is_tcp n" for n :: "'a net"
  proof (cases "w_dial w")
    case (Some c)
    then have "pool_ok is_tcp (n\<lparr>connectionPool := (connectionPool n)(addr \<mapsto> c)\<rparr>)"
      using that assms(4) by (auto simp: pool_ok_def ran_def)
    then show ?thesis using writes [of c "n\<lparr>connectionPool := (connectionPool n)(addr \<mapsto> c)\<rparr>"] Some by (auto simp: pool_ok_def)
  qed (use that in simp)
  show ?thesis
  proof (cases "connectionPool net addr")
    case None
    then show ?thesis using dial [OF assms(3)] close by (auto simp: NetTcpDial_def Let_def)
  next
    case (Some c)
    have del: "pool_ok is_tcp (net\<lparr>connectionPool := (connectionPool net)(addr := None)\<rparr>)"
      using assms(3) by (auto simp: pool_ok_def ran_def)
    show ?thesis
    proof (cases "w_alive w")
      case True
      then show ?thesis using writes [of c net] pool [OF Some] Some assms(3) close by (auto simp: NetTcpDial_def Let_def pool_ok_def)
    next
      case False
      then show ?thesis using dial [OF del] pool [OF Some] Some close by (simp add: NetTcpDial_def Let_def)
    qed
  qed
qed

text \<open>
  \<open>ReadFromConn\<close> does not return once it has read something: at the end of its buffer \<open>readMessage\<close> gives an empty
  message and no error, so that the inner loop logs empty messages forever.
\<close>

lemma handle_full_diverges: "handle_full buffer logged = None"
proof -
  have "False" if "handle_full b l = Some r" for b l r
    by (rule handle_full.raw_induct [OF _ that]) (auto simp: Let_def split: prod.splits)
  then show ?thesis by (cases "handle_full buffer logged") auto
qed

section \<open>Witnesses\<close>

theorem upload_limit_returns_witness:
  "limiter_ok (\<lambda>n. n \<le> 0) 0 \<and> pay (\<lambda>n. n \<le> 0) 0 31 = None"
proof -
  define np where "np = \<lparr>np_Delay = 0, np_JitterRange = 0, np_Bandwidth = 0\<rparr>"
  have b: "np_Bandwidth (InitNetworkTools np) = 0" "np_Bandwidth np = 0" by (simp_all add: np_def InitNetworkTools_def)
  have l: "limiter_ok (\<lambda>n. n \<le> 0) 0" by (simp add: limiter_ok_def)
  show ?thesis using upload_limit_returns [of "\<lambda>n. n \<le> 0" np 31] l unfolding b by simp
qed

theorem thisDelay_bounds_witness:
  "thisDelay (InitNetworkTools \<lparr>np_Delay = 100, np_JitterRange = 31, np_Bandwidth = - 1\<rparr>) (\<lambda>n. n - 1) = Inr 115 \<and>
   2 * \<bar>115 - max 0 (100 :: int)\<bar> \<le> max 0 31"
proof -
  let ?np = "\<lparr>np_Delay = 100, np_JitterRange = 31, np_Bandwidth = - 1\<rparr>"
  have r: "\<And>n :: int. 0 < n \<Longrightarrow> 0 \<le> n - 1 \<and> n - 1 < n" by simp
  have "thisDelay (InitNetworkTools ?np) (\<lambda>n. n - 1) = Inr 115" by (simp add: thisDelay_def InitNetworkTools_def go_quot_def)
  with thisDelay_bounds [of "\<lambda>n. n - 1" ?np, OF r] show ?thesis by simp
qed

definition demo_net :: "nat net" where
  "demo_net = \<lparr>connectionPool = Map.empty, wire = (\<lambda>_. []), closed = {}\<rparr>"

definition demo_world :: "nat world" where
  "demo_world = \<lparr>w_dial = Some 7, w_alive = True, w_write = None\<rparr>"

theorem TcpDial_effect_witness:
  "\<exists>net'. NetTcpDial (\<lambda>_. True) (\<lambda>n. n \<le> 4) 4 demo_world [1, 2, 3, 4, 5, 6] ''127.0.0.1:32216'' demo_net = Inr net' \<and>
     pool_ok (\<lambda>_. True) net'"
proof -
  have "limiter_ok (\<lambda>n. n \<le> 4) 4" "(0 :: int) < 4" "pool_ok (\<lambda>_. True) demo_net"
    "\<forall>c. w_dial demo_world = Some c \<longrightarrow> True" by (simp_all add: limiter_ok_def pool_ok_def)
  from TcpDial_effect [OF this, of "[1, 2, 3, 4, 5, 6]" "''127.0.0.1:32216''"] show ?thesis by blast
qed

definition demo_sends :: "(nat world \<times> string \<times> bytes) list" where
  "demo_sends = [(demo_world, ''inject'', [123, 125]), (demo_world, ''stop'', [])]"

theorem network_delivers_witness:
  "\<exists>net'. send_all (\<lambda>_. True) (\<lambda>n. n \<le> 4) 4 ''127.0.0.1:32216'' demo_sends demo_net = Inr net' \<and>
     sup_handleClientRequest (\<lambda>m s. and_then (SplitMessage m) (\<lambda>(t, d). Inr (s @ [(t, d)]))) (wire net' 7) [] =
       Inr [(to_bytes ''inject'', [123, 125, 10]), (to_bytes ''stop'', [10])]"
proof -
  have "limiter_ok (\<lambda>n. n \<le> 4) 4" "(0 :: int) < 4" "(\<lambda>_. True) (7 :: nat)"
    "\<forall>(w, t, d) \<in> set demo_sends. healthy 7 w \<and> t \<in> set message_types \<and> 10 \<notin> set d"
    "connectionPool demo_net ''127.0.0.1:32216'' = None" "wire demo_net 7 = []"
    by (simp_all add: limiter_ok_def demo_sends_def demo_world_def healthy_def message_types_def demo_net_def)
  note d = network_delivers [OF this, where h = "\<lambda>t d s. Inr (s @ [(t, d)])" and s = "[]"]
  have "go_fold (\<lambda>(w, t, d) s. Inr (s @ [(to_bytes t, d @ [10])])) demo_sends [] =
      Inr [(to_bytes ''inject'', [123, 125, 10]), (to_bytes ''stop'', [10])]" by (simp add: demo_sends_def)
  with d show ?thesis by (auto simp: case_prod_unfold)
qed

end
