(* ===== verification/Committee.thy ===== *)
theory Committee
  imports Messages
begin

text \<open>
  What the committees of the supervisor share, and the relay committee: \<open>supervisor/signal/\<close>,
  \<open>supervisor/committee/committee_relay.go\<close>. A committee reads transactions from a data file, collects
  them in batches and injects every batch into the shards, at a bounded rate.

  The rows of the data file are the results of successive \<open>reader.Read()\<close>: \<open>Some\<close> of the fields, or
  \<open>None\<close> for a read error; the end of the list is the end of the file. \<open>parse_value\<close> is
  \<open>new(big.Float).SetString\<close> followed by the conversion to an integer. \<open>now n\<close> is the time at which
  the \<open>n\<close>-th transaction is made. Messages handed to the network are appended to an output list of
  pairs of an IP address and a message.
\<close>

section \<open>The stop signal\<close>

record stop_signal =
  stopGap :: int
  stopThreshold :: int

definition NewStopSignal :: "int \<Rightarrow> stop_signal" where
  "NewStopSignal stop_Threshold = \<lparr>stopGap = 0, stopThreshold = stop_Threshold\<rparr>"

definition StopGap_Inc :: "stop_signal \<Rightarrow> stop_signal" where
  "StopGap_Inc ss = ss\<lparr>stopGap := stopGap ss + 1\<rparr>"

definition StopGap_Reset :: "stop_signal \<Rightarrow> stop_signal" where
  "StopGap_Reset ss = ss\<lparr>stopGap := 0\<rparr>"

definition GapEnough :: "stop_signal \<Rightarrow> bool" where
  "GapEnough ss \<longleftrightarrow> stopGap ss \<ge> stopThreshold ss"

section \<open>Rows of the data file\<close>

type_synonym row = "string list option"

fun parse_uint10 :: "nat \<Rightarrow> string \<Rightarrow> nat" where
  "parse_uint10 n [] = n"
| "parse_uint10 n (c # cs) =
     (let d = of_char c :: nat in
      if d < 48 \<or> 57 < d then 0
      else if 10 * n + (d - 48) \<ge> 2 ^ 64 then 2 ^ 64 - 1
      else parse_uint10 (10 * n + (d - 48)) cs)"

definition ParseUint10 :: "string \<Rightarrow> u64" where
  \<comment> \<open>the first result of \<open>strconv.ParseUint(s, 10, 64)\<close>, the error ignored\<close>
  "ParseUint10 s = of_nat (parse_uint10 0 s)"

definition field :: "string list \<Rightarrow> nat \<Rightarrow> string go" where
  "field data i = (if i < length data then Inr (data ! i) else Inl IndexOutOfRange)"

definition legal_row :: "string list \<Rightarrow> bool go" where
  \<comment> \<open>the condition of \<open>data2tx\<close>, from left to right\<close>
  "legal_row data =
     and_then (field data 3) (\<lambda>d3. if d3 \<noteq> ''0'' then Inr False else
     and_then (field data 4) (\<lambda>d4. if d4 \<noteq> ''0'' then Inr False else
     and_then (field data 0) (\<lambda>d0. if length d0 \<le> 16 then Inr False else
     and_then (field data 1) (\<lambda>d1. Inr (16 < length d1 \<and> d0 \<noteq> d1)))))"

definition data2tx :: "go_env \<Rightarrow> (string \<Rightarrow> int option) \<Rightarrow> gotime \<Rightarrow> string list \<Rightarrow> u64 \<Rightarrow> transaction option go" where
  "data2tx E parse_value now data nonce =
     and_then (legal_row data) (\<lambda>ok.
       if \<not> ok then Inr None
       else and_then (field data 5) (\<lambda>d5.
         case parse_value d5 of
           None \<Rightarrow> Inl (LogPanic ''convert string to float failed'')
         | Some val \<Rightarrow>
             and_then (field data 6) (\<lambda>d6. and_then (field data 7) (\<lambda>d7. and_then (field data 8) (\<lambda>d8.
             and_then (field data 0) (\<lambda>d0. and_then (field data 1) (\<lambda>d1.
               Inr (Some (NewTransaction E (drop 2 d0) (drop 2 d1) val nonce now
                            (ParseUint10 d6) (ParseUint10 d7) (ParseUint10 d8))))))))))"

section \<open>Sending a batch\<close>

type_synonym ip_table = "u64 \<Rightarrow> u64 \<Rightarrow> string"
type_synonym out = "(string \<times> message) list"

definition all_shards :: "go_env \<Rightarrow> u64 list" where
  "all_shards E = map of_nat [0 ..< unat (of_int (ShardNum E) :: u64)]"

definition inject :: "go_env \<Rightarrow> ip_table \<Rightarrow> (u64 \<rightharpoonup> transaction list) \<Rightarrow> out" where
  "inject E ips sendToShard = map (\<lambda>sid. (ips sid 0, InjectMsg (map_default [] sendToShard sid))) (all_shards E)"

definition send_due :: "go_env \<Rightarrow> nat \<Rightarrow> bool \<Rightarrow> bool go" where
  \<comment> \<open>\<open>idx > 0 && (idx%params.InjectSpeed == 0 || idx == len(txlist))\<close>\<close>
  "send_due E idx at_end =
     (if idx = 0 then Inr False else and_then (go_mod (int idx) (InjectSpeed E)) (\<lambda>r. Inr (r = 0 \<or> at_end)))"

fun send_loop ::
  "go_env \<Rightarrow> ip_table \<Rightarrow> (transaction \<Rightarrow> u64 go) \<Rightarrow> nat \<Rightarrow> transaction list \<Rightarrow> (u64 \<rightharpoonup> transaction list) \<Rightarrow> out \<Rightarrow> out go" where
  "send_loop E ips route idx [] sendToShard out =
     and_then (send_due E idx True) (\<lambda>due. Inr (if due then out @ inject E ips sendToShard else out))"
| "send_loop E ips route idx (tx # txs) sendToShard out =
     and_then (send_due E idx False) (\<lambda>due.
       let out = (if due then out @ inject E ips sendToShard else out);
           sendToShard = (if due then Map.empty else sendToShard)
       in and_then (route tx) (\<lambda>sendersid.
            send_loop E ips route (Suc idx) txs
              (sendToShard(sendersid \<mapsto> map_default [] sendToShard sendersid @ [tx])) out))"

definition txSending :: "go_env \<Rightarrow> ip_table \<Rightarrow> (transaction \<Rightarrow> u64 go) \<Rightarrow> transaction list \<Rightarrow> out go" where
  \<comment> \<open>\<open>route\<close> is the shard a committee sends a transaction to\<close>
  "txSending E ips route txlist = send_loop E ips route 0 txlist Map.empty []"

definition Addr2Shard64 :: "go_env \<Rightarrow> address \<Rightarrow> u64 go" where
  \<comment> \<open>\<open>uint64(utils.Addr2Shard(addr))\<close>\<close>
  "Addr2Shard64 E addr = and_then (Addr2Shard E addr) (\<lambda>s. Inr (of_int s))"

section \<open>The relay committee\<close>

record relay_committee =
  rc_dataTotalNum :: int
  rc_nowDataNum :: int
  rc_batchDataNum :: int
  rc_IpNodeTable :: ip_table
  rc_Ss :: stop_signal
  rc_out :: out

definition NewRelayCommitteeModule :: "ip_table \<Rightarrow> stop_signal \<Rightarrow> int \<Rightarrow> int \<Rightarrow> relay_committee" where
  "NewRelayCommitteeModule ips Ss dataNum batchNum =
     \<lparr>rc_dataTotalNum = dataNum, rc_nowDataNum = 0, rc_batchDataNum = batchNum, rc_IpNodeTable = ips, rc_Ss = Ss, rc_out = []\<rparr>"

definition relay_route :: "go_env \<Rightarrow> transaction \<Rightarrow> u64 go" where
  "relay_route E tx = Addr2Shard64 E (tx_Sender tx)"

definition relay_send :: "go_env \<Rightarrow> transaction list \<Rightarrow> relay_committee \<Rightarrow> relay_committee go" where
  "relay_send E txlist rc =
     and_then (txSending E (rc_IpNodeTable rc) (relay_route E) txlist) (\<lambda>o'.
       Inr (rc\<lparr>rc_out := rc_out rc @ o', rc_Ss := StopGap_Reset (rc_Ss rc)\<rparr>))"

fun msg_control ::
  "bool \<Rightarrow> (u64 \<Rightarrow> string list \<Rightarrow> transaction option go) \<Rightarrow> int \<Rightarrow> int \<Rightarrow> (transaction list \<Rightarrow> 'c \<Rightarrow> 'c go) \<Rightarrow>
   row list \<Rightarrow> transaction list \<Rightarrow> int \<Rightarrow> 'c \<Rightarrow> (int \<times> 'c) go" where
  \<comment> \<open>the loop of \<open>MsgSendingControl\<close> over the rows that are left, with the transactions collected since the last
    batch and the value of \<open>nowDataNum\<close>; \<open>send\<close> is what the committee does with a batch, and \<open>skip\<close> says
    whether an illegal row goes straight to the next one (the relay committee first checks the batch)\<close>
  "msg_control skip parse dataTotalNum batchDataNum send [] txlist nowDataNum c = Inr (nowDataNum, c)"
| "msg_control skip parse dataTotalNum batchDataNum send (None # rows) txlist nowDataNum c = Inl (LogPanic ''read'')"
| "msg_control skip parse dataTotalNum batchDataNum send (Some data # rows) txlist nowDataNum c =
     and_then (parse (of_int nowDataNum) data) (\<lambda>otx.
       if skip \<and> otx = None then msg_control skip parse dataTotalNum batchDataNum send rows txlist nowDataNum c
       else
         let txlist = (case otx of None \<Rightarrow> txlist | Some tx \<Rightarrow> txlist @ [tx]);
             nowDataNum = (case otx of None \<Rightarrow> nowDataNum | Some tx \<Rightarrow> nowDataNum + 1);
             full = (int (length txlist) = batchDataNum \<or> nowDataNum = dataTotalNum)
         in and_then (if full then send txlist c else Inr c) (\<lambda>c.
              if nowDataNum = dataTotalNum then Inr (nowDataNum, c)
              else msg_control skip parse dataTotalNum batchDataNum send rows (if full then [] else txlist) nowDataNum c))"

definition relay_MsgSendingControl ::
  "go_env \<Rightarrow> (string \<Rightarrow> int option) \<Rightarrow> (u64 \<Rightarrow> gotime) \<Rightarrow> row list \<Rightarrow> relay_committee \<Rightarrow> relay_committee go" where
  "relay_MsgSendingControl E parse_value now rows rc =
     and_then (msg_control False (\<lambda>n data. data2tx E parse_value (now n) data n) (rc_dataTotalNum rc) (rc_batchDataNum rc)
                 (relay_send E) rows [] (rc_nowDataNum rc) rc)
       (\<lambda>(n, rc). Inr (rc\<lparr>rc_nowDataNum := n\<rparr>))"

section \<open>Lemmas on sending\<close>

definition injected :: "string \<Rightarrow> out \<Rightarrow> transaction list" where
  \<comment> \<open>the transactions injected at an address, in the order of sending\<close>
  "injected ip out = concat (map (\<lambda>(ip', m). case m of InjectMsg txs \<Rightarrow> if ip' = ip then txs else [] | _ \<Rightarrow> []) out)"

definition bounded_injects :: "int \<Rightarrow> out \<Rightarrow> bool" where
  "bounded_injects n out \<longleftrightarrow> list_all (\<lambda>(ip, m). case m of InjectMsg txs \<Rightarrow> int (length txs) \<le> n | _ \<Rightarrow> False) out"

definition separate :: "go_env \<Rightarrow> ip_table \<Rightarrow> bool" where
  \<comment> \<open>the leaders of different shards have different addresses\<close>
  "separate E ips \<longleftrightarrow> (\<forall>a \<in> set (all_shards E). \<forall>b \<in> set (all_shards E). ips a 0 = ips b 0 \<longrightarrow> a = b)"

definition shards_ok :: "go_env \<Rightarrow> bool" where
  "shards_ok E \<longleftrightarrow> 0 < ShardNum E \<and> ShardNum E < 2 ^ 63"

lemma injected_simps [simp]:
  "injected ip [] = []" "injected ip (xs @ ys) = injected ip xs @ injected ip ys"
  by (simp_all add: injected_def)

lemma bounded_injects_simps [simp]:
  "bounded_injects n []" "bounded_injects n (xs @ ys) \<longleftrightarrow> bounded_injects n xs \<and> bounded_injects n ys"
  by (simp_all add: bounded_injects_def)

lemma unat_shards: "shards_ok E \<Longrightarrow> unat (of_int (ShardNum E) :: u64) = nat (ShardNum E)"
  by (simp add: shards_ok_def unat_eq_nat_uint uint_word_of_int)

lemma unat_small: "shards_ok E \<Longrightarrow> k < nat (ShardNum E) \<Longrightarrow> unat (of_nat k :: u64) = k"
  by (simp add: shards_ok_def unat_of_nat zless_nat_eq_int_zless)

lemma all_shards_iff:
  assumes "shards_ok E"
  shows "s \<in> set (all_shards E) \<longleftrightarrow> uint s < ShardNum E"
proof -
  have "s \<in> set (all_shards E) \<longleftrightarrow> unat s < nat (ShardNum E)"
  proof
    assume "s \<in> set (all_shards E)"
    then obtain k where "k < nat (ShardNum E)" "s = of_nat k"
      unfolding all_shards_def unat_shards [OF assms] by auto
    then show "unat s < nat (ShardNum E)" using unat_small [OF assms] by simp
  next
    assume "unat s < nat (ShardNum E)"
    then have "(of_nat (unat s) :: u64) \<in> of_nat ` {0 ..< nat (ShardNum E)}" by (intro imageI) simp
    then show "s \<in> set (all_shards E)" by (simp add: all_shards_def unat_shards [OF assms])
  qed
  also have "\<dots> \<longleftrightarrow> uint s < ShardNum E" unfolding zless_nat_eq_int_zless by simp
  finally show ?thesis .
qed

lemma distinct_shards:
  assumes "shards_ok E"
  shows "distinct (all_shards E)"
proof -
  have "inj_on (of_nat :: nat \<Rightarrow> u64) {0 ..< nat (ShardNum E)}"
    by (rule inj_on_inverseI [of _ unat]) (simp add: unat_small [OF assms])
  then show ?thesis by (simp add: all_shards_def unat_shards [OF assms] distinct_map)
qed

lemma concat_at_shard:
  assumes "shards_ok E" and "separate E ips" and "sid \<in> set (all_shards E)"
  shows "concat (map (\<lambda>s. if ips s 0 = ips sid 0 then f s else []) (all_shards E)) = f sid"
proof -
  have "concat (map (\<lambda>s. if ips s 0 = ips sid 0 then f s else []) ss) = (if sid \<in> set ss then f sid else [])"
    if "distinct ss" "set ss \<subseteq> set (all_shards E)" for ss
    using that
  proof (induction ss)
    case (Cons s ss)
    then have "ips s 0 = ips sid 0 \<longleftrightarrow> s = sid" using assms(2,3) by (auto simp: separate_def)
    with Cons show ?case by auto
  qed simp
  from this [OF distinct_shards [OF assms(1)] subset_refl] assms(3) show ?thesis by simp
qed

lemma injected_inject:
  assumes "shards_ok E" and "separate E ips" and "sid \<in> set (all_shards E)"
  shows "injected (ips sid 0) (inject E ips b) = map_default [] b sid"
  using concat_at_shard [OF assms, of "map_default [] b"] by (simp add: injected_def inject_def comp_def)

definition room :: "nat \<Rightarrow> nat \<Rightarrow> nat" where
  \<comment> \<open>how many transactions may wait at position \<open>idx\<close> of the list\<close>
  "room n idx = (if idx = 0 then 0 else if idx mod n = 0 then n else idx mod n)"

lemma room_Suc: "0 < n \<Longrightarrow> room n (Suc idx) = Suc (if idx = 0 \<or> idx mod n = 0 then 0 else room n idx)"
  by (auto simp: room_def mod_Suc)

lemma room_le: "0 < n \<Longrightarrow> room n idx \<le> n"
  by (auto simp: room_def intro: less_imp_le)

lemma send_due_eq:
  assumes "0 < InjectSpeed E"
  shows "send_due E idx e = Inr (idx \<noteq> 0 \<and> (idx mod nat (InjectSpeed E) = 0 \<or> e))"
proof -
  have "int idx mod InjectSpeed E = 0 \<longleftrightarrow> idx mod nat (InjectSpeed E) = 0"
    using assms zmod_int [of idx "nat (InjectSpeed E)"] by (metis int_nat_eq of_nat_eq_0_iff less_imp_le)
  with assms show ?thesis by (simp add: send_due_def go_mod_nonneg)
qed

lemma inject_bounded:
  assumes "\<And>s. int (length (map_default [] b s)) \<le> n"
  shows "bounded_injects n (inject E ips b)"
  using assms by (simp add: bounded_injects_def inject_def list_all_iff)

lemma send_loop_delivers:
  assumes "shards_ok E" and "separate E ips" and "0 < InjectSpeed E"
    and "\<And>tx. tx \<in> set txs \<Longrightarrow> route tx = Inr (dest tx)"
    and "idx = 0 \<Longrightarrow> b = Map.empty" and "\<And>s. length (map_default [] b s) \<le> room (nat (InjectSpeed E)) idx"
  shows "\<exists>out'. send_loop E ips route idx txs b out = Inr (out @ out') \<and> bounded_injects (InjectSpeed E) out' \<and>
    (\<forall>sid \<in> set (all_shards E). injected (ips sid 0) out' = map_default [] b sid @ filter (\<lambda>tx. dest tx = sid) txs)"
  using assms(4-6)
proof (induction txs arbitrary: idx b out)
  case Nil
  have "int (length (map_default [] b s)) \<le> InjectSpeed E" for s
    using Nil.prems(3) [of s] room_le [of "nat (InjectSpeed E)" idx] assms(3) by simp
  then have bd: "bounded_injects (InjectSpeed E) (inject E ips b)" by (rule inject_bounded)
  show ?case
  proof (cases "idx = 0")
    case True
    then show ?thesis using Nil.prems(2) by (intro exI [of _ "[]"]) (simp add: send_due_eq [OF assms(3)])
  next
    case False
    then show ?thesis using bd injected_inject [OF assms(1,2)]
      by (intro exI [of _ "inject E ips b"]) (simp add: send_due_eq [OF assms(3)])
  qed
next
  case (Cons tx txs)
  let ?n = "nat (InjectSpeed E)"
  let ?due = "idx \<noteq> 0 \<and> idx mod ?n = 0"
  let ?o = "if ?due then inject E ips b else []" and ?b = "if ?due then Map.empty else b"
  let ?b' = "?b(dest tx \<mapsto> map_default [] ?b (dest tx) @ [tx])"
  have n: "0 < ?n" using assms(3) by simp
  have "int (length (map_default [] b s)) \<le> InjectSpeed E" for s
    using Cons.prems(3) [of s] room_le [OF n, of idx] assms(3) by simp
  then have bd: "bounded_injects (InjectSpeed E) ?o" using inject_bounded by simp
  have room: "length (map_default [] ?b' s) \<le> room ?n (Suc idx)" for s
    using Cons.prems(2) Cons.prems(3) [of s] unfolding room_Suc [OF n] by (auto simp: room_def)
  have p: "t \<in> set txs \<Longrightarrow> route t = Inr (dest t)" and q: "Suc idx = 0 \<Longrightarrow> ?b' = Map.empty" for t using Cons.prems(1) by simp_all
  obtain out' where out': "send_loop E ips route (Suc idx) txs ?b' (out @ ?o) = Inr ((out @ ?o) @ out')"
      "bounded_injects (InjectSpeed E) out'"
      "\<forall>sid \<in> set (all_shards E). injected (ips sid 0) out' = map_default [] ?b' sid @ filter (\<lambda>tx. dest tx = sid) txs"
    using Cons.IH [OF p q room, of "out @ ?o"] by blast
  have "send_loop E ips route idx (tx # txs) b out = send_loop E ips route (Suc idx) txs ?b' (out @ ?o)"
    using Cons.prems(1) [of tx] by (simp add: send_due_eq [OF assms(3)] Let_def)
  moreover have "injected (ips sid 0) (?o @ out') = map_default [] b sid @ filter (\<lambda>tx. dest tx = sid) (tx # txs)"
    if "sid \<in> set (all_shards E)" for sid
    using out'(3) that injected_inject [OF assms(1,2) that] by auto
  ultimately show ?case using out'(1,2) bd by (intro exI [of _ "?o @ out'"]) simp
qed

section \<open>The interface of routing\<close>

text \<open>
  A committee routes a transaction by its own state; all it promises is that the shard exists. For
  every such committee the batch arrives: each shard gets exactly the transactions routed to it, in
  order, in messages of at most \<open>InjectSpeed\<close> transactions.
\<close>

locale tx_router =
  fixes router_ok :: "go_env \<Rightarrow> 'st \<Rightarrow> bool" and route :: "go_env \<Rightarrow> 'st \<Rightarrow> transaction \<Rightarrow> u64 go"
  assumes ok_shards: "router_ok E st \<Longrightarrow> shards_ok E"
    and route_range: "router_ok E st \<Longrightarrow> route E st tx = Inr s \<Longrightarrow> uint s < ShardNum E"
begin

lemma send_delivers:
  assumes "router_ok E st" and "separate E ips" and "0 < InjectSpeed E" and "\<And>tx. tx \<in> set txs \<Longrightarrow> \<not> is_panic (route E st tx)"
  shows "\<exists>out. txSending E ips (route E st) txs = Inr out \<and> bounded_injects (InjectSpeed E) out \<and>
    (\<forall>sid \<in> set (all_shards E). injected (ips sid 0) out = filter (\<lambda>tx. route E st tx = Inr sid) txs)"
proof -
  define dest where "dest = (\<lambda>tx. projr (route E st tx))"
  have d: "route E st tx = Inr (dest tx)" if "tx \<in> set txs" for tx
    using assms(4) [OF that] by (auto simp: dest_def not_panic_iff)
  have "\<exists>out'. send_loop E ips (route E st) 0 txs Map.empty [] = Inr ([] @ out') \<and> bounded_injects (InjectSpeed E) out' \<and>
      (\<forall>sid \<in> set (all_shards E). injected (ips sid 0) out' = map_default [] Map.empty sid @ filter (\<lambda>tx. dest tx = sid) txs)"
    by (rule send_loop_delivers [OF ok_shards [OF assms(1)] assms(2,3) d]) simp_all
  then show ?thesis using d by (auto simp: txSending_def cong: filter_cong)
qed

lemma all_sent:
  assumes "router_ok E st" and "\<And>tx. tx \<in> set txs \<Longrightarrow> \<not> is_panic (route E st tx)" and "tx \<in> set txs"
  shows "\<exists>sid \<in> set (all_shards E). tx \<in> set (filter (\<lambda>tx. route E st tx = Inr sid) txs)"
  using assms route_range [OF assms(1)] all_shards_iff [OF ok_shards [OF assms(1)]] by (fastforce simp: not_panic_iff)

end

definition relay_router_ok :: "go_env \<Rightarrow> unit \<Rightarrow> bool" where
  "relay_router_ok E st \<longleftrightarrow> shards_ok E"

definition relay_routing :: "go_env \<Rightarrow> unit \<Rightarrow> transaction \<Rightarrow> u64 go" where
  "relay_routing E st = relay_route E"

lemma Addr2Shard64_range:
  assumes "shards_ok E" and "Addr2Shard64 E a = Inr s"
  shows "uint s < ShardNum E" "Addr2Shard E a = Inr (uint s)"
proof -
  obtain i where i: "Addr2Shard E a = Inr i" "s = of_int i" using assms(2) by (auto simp: Addr2Shard64_def and_then_Inr)
  have r: "0 \<le> i" "i < ShardNum E" using Addr2Shard_range [OF _ i(1)] assms(1) by (auto simp: shards_ok_def)
  then have "uint s = i" using assms(1) i(2) by (simp add: shards_ok_def uint_word_of_int)
  then show "uint s < ShardNum E" "Addr2Shard E a = Inr (uint s)" using r(2) i(1) by simp_all
qed

interpretation relay_sender: tx_router relay_router_ok relay_routing
  by unfold_locales (auto simp: relay_router_ok_def relay_routing_def relay_route_def dest: Addr2Shard64_range(1))

section \<open>Batches\<close>

text \<open>The legal transactions of the data file, numbered from \<open>n\<close> on, and the batches the loop makes of them.\<close>

fun legal_txs :: "(u64 \<Rightarrow> string list \<Rightarrow> transaction option go) \<Rightarrow> int \<Rightarrow> row list \<Rightarrow> transaction list go" where
  "legal_txs parse n [] = Inr []"
| "legal_txs parse n (None # rows) = Inl (LogPanic ''read'')"
| "legal_txs parse n (Some data # rows) =
     and_then (parse (of_int n) data) (\<lambda>otx. case otx of
        None \<Rightarrow> legal_txs parse n rows
      | Some tx \<Rightarrow> and_then (legal_txs parse (n + 1) rows) (\<lambda>txs. Inr (tx # txs)))"

fun batches :: "int \<Rightarrow> int \<Rightarrow> int \<Rightarrow> transaction list \<Rightarrow> transaction list \<Rightarrow> transaction list list" where
  "batches N k n pend [] = []"
| "batches N k n pend (tx # txs) =
     (if n + 1 = N then [pend @ [tx]]
      else if int (length pend) + 1 = k then (pend @ [tx]) # batches N k (n + 1) [] txs
      else batches N k (n + 1) (pend @ [tx]) txs)"

lemma msg_control_batches:
  assumes "legal_txs parse n rows = Inr txs" and "0 < k" and "n < N" and "int (length pend) < k"
  shows "msg_control skip parse N k send rows pend n c =
    and_then (go_fold send (batches N k n pend txs) c) (\<lambda>c. Inr (min N (n + int (length txs)), c))"
  using assms
proof (induction parse n rows arbitrary: txs pend c rule: legal_txs.induct)
  case (3 parse n data rows)
  obtain otx where otx: "parse (of_int n) data = Inr otx" using 3(3) by (auto simp: and_then_Inr)
  show ?case
  proof (cases otx)
    case None
    with 3(3) otx have t: "legal_txs parse n rows = Inr txs" by simp
    from 3(1) [OF otx None t 3(4-6)] show ?thesis using otx None 3(5,6) by (cases skip) simp_all
  next
    case (Some tx)
    with 3(3) otx obtain txs' where t: "legal_txs parse (n + 1) rows = Inr txs'" "txs = tx # txs'" by (auto simp: and_then_Inr)
    consider "n + 1 = N" | "n + 1 < N" "int (length pend) + 1 = k" | "n + 1 < N" "int (length pend) + 1 < k"
      using 3(5,6) by linarith
    then show ?thesis
    proof cases
      case 1
      then show ?thesis using otx Some t(2) by (cases "send (pend @ [tx]) c") (simp_all add: Let_def add.assoc)
    next
      case 2
      note IH = 3(2) [OF otx Some t(1) 3(4) 2(1), of "[]"]
      show ?thesis using IH 2 3(4) otx Some t(2) by (cases "send (pend @ [tx]) c") (simp_all add: Let_def add.assoc)
    next
      case l: 3
      note IH = 3(2) [OF otx Some t(1) 3(4) l(1), of "pend @ [tx]"]
      show ?thesis using IH l otx Some t(2) by (simp add: Let_def add.assoc)
    qed
  qed
qed auto

definition dispatched :: "int \<Rightarrow> int \<Rightarrow> transaction list \<Rightarrow> transaction list" where
  \<comment> \<open>what is sent of the legal transactions: the first \<open>N\<close>, or all full batches if there are fewer\<close>
  "dispatched N k txs = (if N \<le> int (length txs) then take (nat N) txs else take (length txs div nat k * nat k) txs)"

lemma concat_batches:
  assumes "0 < k" and "n < N" and "int (length pend) < k"
  shows "concat (batches N k n pend txs) = (if N - n \<le> int (length txs) then pend @ take (nat (N - n)) txs
     else take ((length pend + length txs) div nat k * nat k) (pend @ txs))"
  using assms
proof (induction txs arbitrary: n pend)
  case Nil
  then have "length pend div nat k = 0" by (simp add: zless_nat_eq_int_zless)
  with Nil show ?case by simp
next
  case (Cons tx txs)
  consider "n + 1 = N" | "n + 1 < N" "int (length pend) + 1 = k" | "n + 1 < N" "int (length pend) + 1 < k"
    using Cons.prems by linarith
  then show ?case
  proof cases
    case 1
    then have "nat (N - n) = 1" by simp
    with 1 show ?thesis by simp
  next
    case 2
    have N: "nat (N - n) = Suc (nat (N - (n + 1)))" using 2(1) by simp
    have k: "nat k = Suc (length pend)" using 2(2) by simp
    have "(length pend + length (tx # txs)) div nat k = Suc (length txs div nat k)"
      using k by (simp add: div_add_self1 [of "Suc (length pend)" "length txs", simplified])
    then show ?thesis using Cons.IH [OF Cons.prems(1) 2(1), of "[]"] Cons.prems(1) 2 N k by simp
  next
    case 3
    have N: "nat (N - n) = Suc (nat (N - (n + 1)))" using 3(1) by simp
    show ?thesis using Cons.IH [OF Cons.prems(1) 3(1), of "pend @ [tx]"] 3 N by simp
  qed
qed

lemma relay_sends:
  assumes "shards_ok E" and "separate E (rc_IpNodeTable rc)" and "0 < InjectSpeed E"
    and "\<And>tx. tx \<in> set (concat bs) \<Longrightarrow> \<not> is_panic (relay_route E tx)"
  shows "\<exists>rc'. go_fold (relay_send E) bs rc = Inr rc' \<and>
    (\<exists>out. rc_out rc' = rc_out rc @ out \<and> bounded_injects (InjectSpeed E) out \<and>
      (\<forall>sid \<in> set (all_shards E). injected (rc_IpNodeTable rc sid 0) out = filter (\<lambda>tx. relay_route E tx = Inr sid) (concat bs)))"
  using assms(2,4)
proof (induction bs arbitrary: rc)
  case (Cons txs bs)
  have ok: "relay_router_ok E ()" using assms(1) by (simp add: relay_router_ok_def)
  have np: "tx \<in> set txs \<Longrightarrow> \<not> is_panic (relay_routing E () tx)" for tx using Cons.prems(2) by (simp add: relay_routing_def)
  obtain o1 where o1: "txSending E (rc_IpNodeTable rc) (relay_route E) txs = Inr o1" "bounded_injects (InjectSpeed E) o1"
      "\<forall>sid \<in> set (all_shards E). injected (rc_IpNodeTable rc sid 0) o1 = filter (\<lambda>tx. relay_route E tx = Inr sid) txs"
    using relay_sender.send_delivers [OF ok Cons.prems(1) assms(3) np] by (auto simp: relay_routing_def)
  let ?rc = "rc\<lparr>rc_out := rc_out rc @ o1, rc_Ss := StopGap_Reset (rc_Ss rc)\<rparr>"
  have "\<exists>rc'. go_fold (relay_send E) bs ?rc = Inr rc' \<and> (\<exists>out. rc_out rc' = rc_out ?rc @ out \<and> bounded_injects (InjectSpeed E) out \<and>
      (\<forall>sid \<in> set (all_shards E). injected (rc_IpNodeTable ?rc sid 0) out = filter (\<lambda>tx. relay_route E tx = Inr sid) (concat bs)))"
    by (rule Cons.IH) (use Cons.prems in simp_all)
  then obtain rc' out where "go_fold (relay_send E) bs ?rc = Inr rc'" "rc_out rc' = (rc_out rc @ o1) @ out" "bounded_injects (InjectSpeed E) out"
      "\<forall>sid \<in> set (all_shards E). injected (rc_IpNodeTable rc sid 0) out = filter (\<lambda>tx. relay_route E tx = Inr sid) (concat bs)" by auto
  moreover have "relay_send E txs rc = Inr ?rc" using o1(1) by (simp add: relay_send_def)
  ultimately show ?case using o1(2,3) by (intro exI [of _ rc'] conjI exI [of _ "o1 @ out"]) simp_all
qed simp

text \<open>
  C24. Injection of the workload. Let the data file be readable with legal transactions \<open>txs\<close>, all with
  senders that have a shard. A fresh relay committee then returns from \<open>MsgSendingControl\<close>, and the
  leader of every shard has been sent exactly those of the dispatched transactions whose sender lives
  there, once each and in file order, in messages of at most \<open>InjectSpeed\<close> transactions. Dispatched are
  the first \<open>dataTotalNum\<close> transactions; if the file has fewer, only its full batches: the rest of at
  most \<open>batchDataNum - 1\<close> transactions is read and never sent.
\<close>

theorem relay_workload_injected:
  assumes "shards_ok E" and "separate E ips" and "0 < InjectSpeed E" and "0 < batch" and "0 < N"
    and "legal_txs (\<lambda>n data. data2tx E pv (now n) data n) 0 rows = Inr txs" and "\<forall>tx \<in> set txs. \<not> is_panic (relay_route E tx)"
  shows "\<exists>rc. relay_MsgSendingControl E pv now rows (NewRelayCommitteeModule ips Ss N batch) = Inr rc \<and>
    rc_nowDataNum rc = min N (int (length txs)) \<and> bounded_injects (InjectSpeed E) (rc_out rc) \<and>
    (\<forall>sid. uint sid < ShardNum E \<longrightarrow>
       injected (ips sid 0) (rc_out rc) = filter (\<lambda>tx. relay_route E tx = Inr sid) (dispatched N batch txs))"
proof -
  let ?rc = "NewRelayCommitteeModule ips Ss N batch" and ?bs = "batches N batch 0 [] txs"
  have d: "concat ?bs = dispatched N batch txs"
    using concat_batches [of batch 0 N "[]" txs] assms(4,5) by (simp add: dispatched_def)
  have "tx \<in> set txs" if "tx \<in> set (concat ?bs)" for tx
    using that unfolding d dispatched_def by (auto split: if_splits dest: in_set_takeD)
  then obtain rc' out where rc': "go_fold (relay_send E) ?bs ?rc = Inr rc'" "rc_out rc' = rc_out ?rc @ out"
      "bounded_injects (InjectSpeed E) out"
      "\<forall>sid \<in> set (all_shards E). injected (rc_IpNodeTable ?rc sid 0) out = filter (\<lambda>tx. relay_route E tx = Inr sid) (concat ?bs)"
    using relay_sends [of E ?rc ?bs] assms(1-3,7) by (auto simp: NewRelayCommitteeModule_def)
  have "relay_MsgSendingControl E pv now rows ?rc = Inr (rc'\<lparr>rc_nowDataNum := min N (int (length txs))\<rparr>)"
    using msg_control_batches [OF assms(6,4,5), of "[]" False "relay_send E" ?rc] rc'(1) assms(4)
    by (simp add: relay_MsgSendingControl_def NewRelayCommitteeModule_def)
  then show ?thesis using rc'(2-4) d all_shards_iff [OF assms(1)] by (auto simp: NewRelayCommitteeModule_def)
qed

theorem relay_workload_injected_witness:
  "\<exists>rc. relay_MsgSendingControl demo_env (\<lambda>s. Some 5) (\<lambda>n. 1)
      [Some [''0x00000000000000a0'', ''0x00000000000000b1'', '''', ''0'', ''0'', ''5'', ''1'', ''0'', ''1''], Some [''f'', '''', '''', ''1'']]
      (NewRelayCommitteeModule (\<lambda>s n. if s = 0 then ''ip0'' else ''ip1'') (NewStopSignal 6) 1 1) = Inr rc \<and>
    map tx_Recipient (injected ''ip0'' (rc_out rc)) = [''00000000000000b1''] \<and> injected ''ip1'' (rc_out rc) = []"
proof -
  let ?E = demo_env and ?ips = "\<lambda>s n :: u64. if s = (0 :: u64) then ''ip0'' else ''ip1''"
  let ?tx = "NewTransaction demo_env ''00000000000000a0'' ''00000000000000b1'' 5 0 1 1 0 1"
  let ?rows = "[Some [''0x00000000000000a0'', ''0x00000000000000b1'', '''', ''0'', ''0'', ''5'', ''1'', ''0'', ''1''], Some [''f'', '''', '''', ''1'']]"
  have s: "shards_ok ?E" "0 < InjectSpeed ?E" by (simp_all add: shards_ok_def demo_env_simps)
  have sh: "all_shards ?E = [0, 1]" by (simp add: all_shards_def unat_shards [OF s(1)] demo_env_simps upt_rec)
  have sep: "separate ?E ?ips" by (simp add: separate_def sh)
  have leg: "legal_txs (\<lambda>n data. data2tx ?E (\<lambda>s. Some 5) 1 data n) 0 ?rows = Inr [?tx]"
    by (simp add: data2tx_def legal_row_def field_def ParseUint10_def)
  have r: "relay_route ?E ?tx = Inr 0"
    by (simp add: relay_route_def Addr2Shard64_def Addr2Shard_def last8_def ParseUint16_def hex_digit_def demo_env_simps go_mod_def)
  obtain rc where rc: "relay_MsgSendingControl ?E (\<lambda>s. Some 5) (\<lambda>n. 1) ?rows (NewRelayCommitteeModule ?ips (NewStopSignal 6) 1 1) = Inr rc"
      "\<forall>sid. uint sid < ShardNum ?E \<longrightarrow> injected (?ips sid 0) (rc_out rc) = filter (\<lambda>tx. relay_route ?E tx = Inr sid) (dispatched 1 1 [?tx])"
    using relay_workload_injected [OF s(1) sep s(2) _ _ leg, of 1 1 "NewStopSignal 6"] r by auto
  have n: "uint (0 :: u64) < ShardNum ?E" "uint (1 :: u64) < ShardNum ?E" by (simp_all add: demo_env_simps)
  have "injected ''ip0'' (rc_out rc) = [?tx]" "injected ''ip1'' (rc_out rc) = []"
    using rc(2) [rule_format, OF n(1)] rc(2) [rule_format, OF n(2)] r by (simp_all add: dispatched_def)
  with rc(1) show ?thesis by auto
qed

end
