(* ===== verification/Clpa_Graph.thy ===== *)
theory Clpa_Graph
  imports Core_Types
begin

text \<open>
  The partitioning algorithm of the supervisor: \<open>partition/graph.go\<close> and
  \<open>partition/partition_CLPA.go\<close> (constrained label propagation). A \<open>Vertex\<close> has the single field
  \<open>Addr\<close> and is that address. The graph of transactions is an adjacency list; the state keeps, per
  shard, the number of edges that touch it (\<open>Edges2Shard\<close>) and the number of its vertices, which
  the algorithm updates incrementally while it moves vertices.

  Arithmetic on \<open>float64\<close> only ranks shards; its operations are the parameter \<open>fl\<close>, about which nothing
  is assumed, so that the theorems hold for IEEE arithmetic including NaN. The order of visiting the
  edge map is a function of the map, the order of visiting the vertices may differ in every iteration.
\<close>

section \<open>The graph\<close>

type_synonym vertex = address

record graph =
  g_VertexSet :: "vertex set"
  g_EdgeSet :: "(vertex \<rightharpoonup> vertex list) option"

definition edge_map :: "graph \<Rightarrow> (vertex \<rightharpoonup> vertex list)" where
  \<comment> \<open>reading: a nil map reads as an empty one\<close>
  "edge_map g = (case g_EdgeSet g of None \<Rightarrow> Map.empty | Some m \<Rightarrow> m)"

abbreviation adj :: "graph \<Rightarrow> vertex \<Rightarrow> vertex list" where
  "adj g \<equiv> map_default [] (edge_map g)"

definition Graph_AddVertex :: "vertex \<Rightarrow> graph \<Rightarrow> graph" where
  "Graph_AddVertex v g = g\<lparr>g_VertexSet := insert v (g_VertexSet g)\<rparr>"

definition Graph_AddEdge :: "vertex \<Rightarrow> vertex \<Rightarrow> graph \<Rightarrow> graph" where
  "Graph_AddEdge u v g =
     (let g = (if u \<in> g_VertexSet g then g else Graph_AddVertex u g);
          g = (if v \<in> g_VertexSet g then g else Graph_AddVertex v g);
          m = edge_map g;
          m = m(u \<mapsto> map_default [] m u @ [v]);
          m = m(v \<mapsto> map_default [] m v @ [u])
      in g\<lparr>g_EdgeSet := Some m\<rparr>)"

definition CopyGraph :: "graph \<Rightarrow> graph \<Rightarrow> graph" where
  "CopyGraph src dst =
     (let dst = dst\<lparr>g_VertexSet := g_VertexSet src\<rparr>
      in if g_EdgeSet src = None then dst
         else dst\<lparr>g_EdgeSet := Some (\<lambda>v. if v \<in> g_VertexSet src then Some (adj src v) else None)\<rparr>)"

section \<open>The state of the algorithm\<close>

record 'f clpa_state =
  cs_NetGraph :: graph
  cs_PartitionMap :: "vertex \<rightharpoonup> int"
  cs_Edges2Shard :: "int list"
  cs_VertexsNumInShard :: "int list"
  cs_WeightPenalty :: 'f
  cs_MinEdges2Shard :: int
  cs_MaxIterations :: int
  cs_CrossShardEdgeNum :: int
  cs_ShardNum :: int

record 'f float_ops =
  fl_of_int :: "int \<Rightarrow> 'f"
  fl_mul :: "'f \<Rightarrow> 'f \<Rightarrow> 'f"
  fl_div :: "'f \<Rightarrow> 'f \<Rightarrow> 'f"
  fl_sub :: "'f \<Rightarrow> 'f \<Rightarrow> 'f"
  fl_less :: "'f \<Rightarrow> 'f \<Rightarrow> bool"

abbreviation shard_of :: "'f clpa_state \<Rightarrow> vertex \<Rightarrow> int" where
  "shard_of cs \<equiv> map_default 0 (cs_PartitionMap cs)"

definition add_at :: "int \<Rightarrow> int \<Rightarrow> int list \<Rightarrow> int list go" where
  \<comment> \<open>\<open>xs[i] += d\<close>\<close>
  "add_at d i xs = (if 0 \<le> i \<and> i < int (length xs) then Inr (xs[nat i := xs ! nat i + d]) else Inl IndexOutOfRange)"

definition make_ints :: "int \<Rightarrow> int list go" where
  \<comment> \<open>\<open>make([]int, n)\<close>\<close>
  "make_ints n = (if n < 0 then Inl (LogPanic ''makeslice'') else Inr (replicate (nat n) 0))"

definition AddVertex :: "go_env \<Rightarrow> vertex \<Rightarrow> 'f clpa_state \<Rightarrow> 'f clpa_state go" where
  "AddVertex E v cs =
     (let cs = cs\<lparr>cs_NetGraph := Graph_AddVertex v (cs_NetGraph cs)\<rparr> in
      and_then (case cs_PartitionMap cs v of None \<Rightarrow> Addr2Shard E v | Some val \<Rightarrow> Inr val) (\<lambda>s.
      and_then (add_at 1 s (cs_VertexsNumInShard cs)) (\<lambda>vn.
        Inr (cs\<lparr>cs_PartitionMap := (cs_PartitionMap cs)(v \<mapsto> s), cs_VertexsNumInShard := vn\<rparr>))))"

definition AddEdge :: "go_env \<Rightarrow> vertex \<Rightarrow> vertex \<Rightarrow> 'f clpa_state \<Rightarrow> 'f clpa_state go" where
  "AddEdge E u v cs =
     and_then (if u \<in> g_VertexSet (cs_NetGraph cs) then Inr cs else AddVertex E u cs) (\<lambda>cs.
     and_then (if v \<in> g_VertexSet (cs_NetGraph cs) then Inr cs else AddVertex E v cs) (\<lambda>cs.
       Inr (cs\<lparr>cs_NetGraph := Graph_AddEdge u v (cs_NetGraph cs)\<rparr>)))"

definition CopyCLPA :: "'f clpa_state \<Rightarrow> 'f clpa_state \<Rightarrow> 'f clpa_state go" where
  "CopyCLPA src dst =
     and_then (make_ints (cs_ShardNum src)) (\<lambda>e. Inr (dst
       \<lparr>cs_NetGraph := CopyGraph (cs_NetGraph src) (cs_NetGraph dst), cs_PartitionMap := cs_PartitionMap src,
        cs_Edges2Shard := take (length e) (cs_Edges2Shard src) @ drop (length (cs_Edges2Shard src)) e,
        cs_VertexsNumInShard := cs_VertexsNumInShard src, cs_WeightPenalty := cs_WeightPenalty src,
        cs_MinEdges2Shard := cs_MinEdges2Shard src, cs_MaxIterations := cs_MaxIterations src,
        cs_ShardNum := cs_ShardNum src\<rparr>))"

section \<open>Edge counts\<close>

type_synonym edge_order = "(vertex \<rightharpoonup> vertex list) \<Rightarrow> vertex list"

definition MaxInt :: int where
  "MaxInt = 9223372036854775807"

definition least :: "int list \<Rightarrow> int" where
  \<comment> \<open>the loop that computes \<open>MinEdges2Shard\<close>\<close>
  "least xs = fold (\<lambda>val m. if m > val then val else m) xs MaxInt"

definition count_edge :: "'f clpa_state \<Rightarrow> vertex \<Rightarrow> vertex \<Rightarrow> int list \<times> int list \<Rightarrow> (int list \<times> int list) go" where
  "count_edge cs v u = (\<lambda>(e, inter).
     if shard_of cs v \<noteq> shard_of cs u
     then and_then (add_at 1 (shard_of cs u) e) (\<lambda>e. Inr (e, inter))
     else and_then (add_at 1 (shard_of cs u) inter) (\<lambda>inter. Inr (e, inter)))"

definition ComputeEdges2Shard :: "edge_order \<Rightarrow> 'f clpa_state \<Rightarrow> 'f clpa_state go" where
  "ComputeEdges2Shard eord cs =
     and_then (make_ints (cs_ShardNum cs)) (\<lambda>zero.
     and_then (go_fold (\<lambda>v. go_fold (count_edge cs v) (adj (cs_NetGraph cs) v)) (eord (edge_map (cs_NetGraph cs))) (zero, zero))
       (\<lambda>(e, inter).
         let total = map2 (\<lambda>x i. x + i div 2) e inter
         in Inr (cs\<lparr>cs_Edges2Shard := total, cs_CrossShardEdgeNum := sum_list e div 2, cs_MinEdges2Shard := least total\<rparr>)))"

definition recount_edge :: "'f clpa_state \<Rightarrow> int \<Rightarrow> int \<Rightarrow> vertex \<Rightarrow> int list \<times> int \<Rightarrow> (int list \<times> int) go" where
  "recount_edge cs new old u = (\<lambda>(e, c).
     let neighborShard = shard_of cs u in
     if neighborShard \<noteq> new \<and> neighborShard \<noteq> old
     then and_then (add_at 1 new e) (\<lambda>e. and_then (add_at (- 1) old e) (\<lambda>e. Inr (e, c)))
     else if neighborShard = new then and_then (add_at (- 1) old e) (\<lambda>e. Inr (e, c - 1))
     else and_then (add_at 1 new e) (\<lambda>e. Inr (e, c + 1)))"

definition changeShardRecompute :: "vertex \<Rightarrow> int \<Rightarrow> 'f clpa_state \<Rightarrow> 'f clpa_state go" where
  "changeShardRecompute v old cs =
     and_then (go_fold (recount_edge cs (shard_of cs v) old) (adj (cs_NetGraph cs) v) (cs_Edges2Shard cs, cs_CrossShardEdgeNum cs))
       (\<lambda>(e, c). Inr (cs\<lparr>cs_Edges2Shard := e, cs_CrossShardEdgeNum := c, cs_MinEdges2Shard := least e\<rparr>))"

section \<open>Initial partitions\<close>

definition Init_CLPAState :: "'f \<Rightarrow> int \<Rightarrow> int \<Rightarrow> 'f clpa_state \<Rightarrow> 'f clpa_state go" where
  "Init_CLPAState wp mIter sn cs =
     and_then (make_ints sn) (\<lambda>vn. Inr (cs\<lparr>cs_WeightPenalty := wp, cs_MaxIterations := mIter, cs_ShardNum := sn,
        cs_VertexsNumInShard := vn, cs_PartitionMap := Map.empty\<rparr>))"

definition ParseInt16 :: "string \<Rightarrow> int option" where
  \<comment> \<open>\<open>strconv.ParseInt(s, 16, 64)\<close>: as \<open>ParseUint\<close>, with an optional sign\<close>
  "ParseInt16 s =
     (let (neg, t) = (case s of [] \<Rightarrow> (False, s)
                      | c # cs \<Rightarrow> if c = CHR ''-'' then (True, cs) else if c = CHR ''+'' then (False, cs) else (False, s))
      in case ParseUint16 t of None \<Rightarrow> None
         | Some n \<Rightarrow> if neg then (if n \<le> 2 ^ 63 then Some (- int n) else None)
                     else if n < 2 ^ 63 then Some (int n) else None)"

definition assign :: "vertex \<Rightarrow> int \<Rightarrow> 'f clpa_state \<Rightarrow> 'f clpa_state go" where
  \<comment> \<open>the two statements that put a vertex into a shard\<close>
  "assign v s cs =
     and_then (add_at 1 s (cs_VertexsNumInShard cs)) (\<lambda>vn.
       Inr (cs\<lparr>cs_PartitionMap := (cs_PartitionMap cs)(v \<mapsto> s), cs_VertexsNumInShard := vn\<rparr>))"

definition init_vertex :: "vertex \<Rightarrow> 'f clpa_state \<Rightarrow> 'f clpa_state go" where
  "init_vertex v cs =
     (if length v < 8 then Inl IndexOutOfRange
      else case ParseInt16 (drop (length v - 8) v) of
        None \<Rightarrow> Inl (LogPanic '''')
      | Some num \<Rightarrow> and_then (go_mod num (cs_ShardNum cs)) (\<lambda>s. assign v s cs))"

definition Init_Partition :: "edge_order \<Rightarrow> vertex list \<Rightarrow> 'f clpa_state \<Rightarrow> 'f clpa_state go" where
  "Init_Partition eord vord cs =
     and_then (make_ints (cs_ShardNum cs)) (\<lambda>vn.
     and_then (go_fold init_vertex vord (cs\<lparr>cs_VertexsNumInShard := vn, cs_PartitionMap := Map.empty\<rparr>))
       (ComputeEdges2Shard eord))"

datatype partition_error = TooManyShards

definition Stable_Init_Partition ::
  "edge_order \<Rightarrow> vertex list \<Rightarrow> 'f clpa_state \<Rightarrow> (partition_error option \<times> 'f clpa_state) go" where
  "Stable_Init_Partition eord vord cs =
     (if cs_ShardNum cs > int (card (g_VertexSet (cs_NetGraph cs))) then Inr (Some TooManyShards, cs)
      else and_then (make_ints (cs_ShardNum cs)) (\<lambda>vn.
           and_then (go_foldi (\<lambda>cnt v cs. and_then (go_mod (int cnt) (cs_ShardNum cs)) (\<lambda>s. assign v s cs)) 0 vord
                       (cs\<lparr>cs_VertexsNumInShard := vn, cs_PartitionMap := Map.empty\<rparr>)) (\<lambda>cs.
           and_then (ComputeEdges2Shard eord cs) (\<lambda>cs. Inr (None, cs)))))"

section \<open>Label propagation\<close>

definition getShard_score :: "'f float_ops \<Rightarrow> 'f clpa_state \<Rightarrow> vertex \<Rightarrow> int \<Rightarrow> 'f go" where
  "getShard_score fl cs v uShard =
     (let v_outdegree = int (length (adj (cs_NetGraph cs) v));
          edgesto_uShard = int (length (filter (\<lambda>u. shard_of cs u = uShard) (adj (cs_NetGraph cs) v)))
      in and_then (go_nth (cs_Edges2Shard cs) uShard) (\<lambda>w.
           Inr (fl_mul fl (fl_div fl (fl_of_int fl edgesto_uShard) (fl_of_int fl v_outdegree))
                  (fl_sub fl (fl_of_int fl 1)
                     (fl_div fl (fl_mul fl (cs_WeightPenalty cs) (fl_of_int fl w)) (fl_of_int fl (cs_MinEdges2Shard cs)))))))"

record 'f best =
  be_scores :: "int \<rightharpoonup> 'f"
  be_score :: 'f
  be_shard :: int

definition consider_neighbor :: "'f float_ops \<Rightarrow> 'f clpa_state \<Rightarrow> vertex \<Rightarrow> vertex \<Rightarrow> 'f best \<Rightarrow> 'f best go" where
  "consider_neighbor fl cs v u b =
     (let uShard = shard_of cs u in
      if be_scores b uShard \<noteq> None then Inr b
      else and_then (getShard_score fl cs v uShard) (\<lambda>sc.
        let b = b\<lparr>be_scores := (be_scores b)(uShard \<mapsto> sc)\<rparr>
        in Inr (if fl_less fl (be_score b) sc then b\<lparr>be_score := sc, be_shard := uShard\<rparr> else b)))"

record 'f run =
  ru_state :: "'f clpa_state"
  ru_res :: "vertex \<rightharpoonup> u64"
  ru_updates :: "vertex \<rightharpoonup> int"

definition visit :: "'f float_ops \<Rightarrow> vertex \<Rightarrow> 'f run \<Rightarrow> 'f run go" where
  \<comment> \<open>the body of the inner loop of \<open>CLPA_Partition\<close>\<close>
  "visit fl v r =
     (let cs = ru_state r in
      if map_default 0 (ru_updates r) v \<ge> 50 then Inr r
      else
        and_then (go_fold (consider_neighbor fl cs v) (adj (cs_NetGraph cs) v)
                    \<lparr>be_scores = Map.empty, be_score = fl_of_int fl (- 9999), be_shard = shard_of cs v\<rparr>) (\<lambda>b.
        let vNowShard = shard_of cs v; max_scoreShard = be_shard b in
        if vNowShard = max_scoreShard then Inr r
        else and_then (go_nth (cs_VertexsNumInShard cs) vNowShard) (\<lambda>n.
          if \<not> n > 1 then Inr r
          else
            and_then (add_at (- 1) vNowShard (cs_VertexsNumInShard cs)) (\<lambda>vn.
            and_then (add_at 1 max_scoreShard vn) (\<lambda>vn.
            and_then (changeShardRecompute v vNowShard
                        (cs\<lparr>cs_PartitionMap := (cs_PartitionMap cs)(v \<mapsto> max_scoreShard), cs_VertexsNumInShard := vn\<rparr>)) (\<lambda>cs.
              Inr \<lparr>ru_state = cs, ru_res = (ru_res r)(v \<mapsto> word_of_int max_scoreShard),
                   ru_updates = (ru_updates r)(v \<mapsto> map_default 0 (ru_updates r) v + 1)\<rparr>))))))"

definition clpa_rounds :: "'f float_ops \<Rightarrow> (nat \<Rightarrow> vertex list) \<Rightarrow> int \<Rightarrow> 'f run \<Rightarrow> 'f run go" where
  \<comment> \<open>the two nested loops; \<open>vord iter\<close> is the order in which round \<open>iter\<close> visits the vertices\<close>
  "clpa_rounds fl vord n = go_fold (\<lambda>iter. go_fold (visit fl) (vord iter)) [0 ..< nat n]"

definition CLPA_Partition ::
  "'f float_ops \<Rightarrow> edge_order \<Rightarrow> (nat \<Rightarrow> vertex list) \<Rightarrow> 'f clpa_state \<Rightarrow> (((vertex \<rightharpoonup> u64) \<times> int) \<times> 'f clpa_state) go" where
  "CLPA_Partition fl eord vord cs =
     and_then (ComputeEdges2Shard eord cs) (\<lambda>cs.
     and_then (clpa_rounds fl vord (cs_MaxIterations cs) \<lparr>ru_state = cs, ru_res = Map.empty, ru_updates = Map.empty\<rparr>) (\<lambda>r.
     and_then (ComputeEdges2Shard eord (ru_state r)) (\<lambda>cs.
       Inr ((ru_res r, cs_CrossShardEdgeNum cs), cs))))"

definition EraseEdges :: "'f clpa_state \<Rightarrow> 'f clpa_state" where
  "EraseEdges cs = cs\<lparr>cs_NetGraph := (cs_NetGraph cs)\<lparr>g_EdgeSet := Some Map.empty\<rparr>\<rparr>"

section \<open>Counting directed edges\<close>

definition directed :: "vertex list \<Rightarrow> graph \<Rightarrow> (vertex \<times> vertex) list" where
  "directed ord g = concat (map (\<lambda>v. map (Pair v) (adj g v)) ord)"

definition cnt :: "('a \<Rightarrow> bool) \<Rightarrow> 'a list \<Rightarrow> int" where
  "cnt Q xs = int (length (filter Q xs))"

definition cross_in :: "(vertex \<Rightarrow> int) \<Rightarrow> (vertex \<times> vertex) list \<Rightarrow> int \<Rightarrow> int" where
  "cross_in P D k = cnt (\<lambda>(v, u). P u = k \<and> P v \<noteq> k) D"

definition inter_in :: "(vertex \<Rightarrow> int) \<Rightarrow> (vertex \<times> vertex) list \<Rightarrow> int \<Rightarrow> int" where
  "inter_in P D k = cnt (\<lambda>(v, u). P u = k \<and> P v = k) D"

lemma cnt_simps [simp]:
  "cnt Q [] = 0" "cnt Q (x # xs) = (if Q x then 1 else 0) + cnt Q xs" "cnt Q (xs @ ys) = cnt Q xs + cnt Q ys"
  "0 \<le> cnt Q xs"
  by (simp_all add: cnt_def)

lemma cnt_mset: "mset xs = mset ys \<Longrightarrow> cnt Q xs = cnt Q ys"
  by (metis cnt_def mset_filter size_mset)

lemma cnt_split: "cnt Q xs = cnt Q (filter A xs) + cnt Q (filter (\<lambda>x. \<not> A x) xs)"
  by (induction xs) auto

lemma cnt_map: "cnt Q (map f xs) = cnt (Q \<circ> f) xs"
  by (induction xs) auto

lemma cnt_cong: "(\<And>x. x \<in> set xs \<Longrightarrow> Q x = R x) \<Longrightarrow> cnt Q xs = cnt R xs"
  by (induction xs) auto

lemma cnt_not: "cnt (\<lambda>x. \<not> Q x) xs = int (length xs) - cnt Q xs"
  by (induction xs) auto

lemma add_at_Inr: "add_at d i xs = Inr ys \<longleftrightarrow> 0 \<le> i \<and> i < int (length xs) \<and> ys = xs[nat i := xs ! nat i + d]"
  by (auto simp: add_at_def)

text \<open>A list that counts: what it holds at index \<open>k\<close> is \<open>f k\<close>.\<close>

definition tabulates :: "nat \<Rightarrow> (int \<Rightarrow> int) \<Rightarrow> int list" where
  "tabulates n f = map (\<lambda>k. f (int k)) [0 ..< n]"

lemma tabulates_simps [simp]: "length (tabulates n f) = n" "k < n \<Longrightarrow> tabulates n f ! k = f (int k)"
  by (simp_all add: tabulates_def)

lemma tabulates_cong: "(\<And>k. 0 \<le> k \<Longrightarrow> k < int n \<Longrightarrow> f k = g k) \<Longrightarrow> tabulates n f = tabulates n g"
  by (simp add: tabulates_def)

lemma add_at_tabulates:
  assumes "0 \<le> i" "i < int n"
  shows "add_at d i (tabulates n f) = Inr (tabulates n (\<lambda>k. f k + (if k = i then d else 0)))"
  using assms by (auto simp: add_at_def nth_list_update intro!: nth_equalityI)

lemma go_fold_concat: "go_fold (\<lambda>v. go_fold (f v) (g v)) vs s = go_fold (\<lambda>(v, u). f v u) (concat (map (\<lambda>v. map (Pair v) (g v)) vs)) s"
proof (induction vs arbitrary: s)
  case (Cons v vs)
  have "go_fold (f v) us t = go_fold (\<lambda>(v, u). f v u) (map (Pair v) us) t" for us t
    by (induction us arbitrary: t) (auto intro: and_then_cong)
  with Cons show ?case by (simp add: go_fold_append cong: and_then_cong)
qed simp

lemma count_edges:
  assumes "\<And>v u. (v, u) \<in> set D \<Longrightarrow> 0 \<le> shard_of cs u \<and> shard_of cs u < int n"
  shows "go_fold (\<lambda>(v, u). count_edge cs v u) D (tabulates n e, tabulates n i) =
    Inr (tabulates n (\<lambda>k. e k + cross_in (shard_of cs) D k), tabulates n (\<lambda>k. i k + inter_in (shard_of cs) D k))"
  using assms
proof (induction D arbitrary: e i)
  case (Cons vu D)
  obtain v u where vu: "vu = (v, u)" by fastforce
  then have r: "0 \<le> shard_of cs u" "shard_of cs u < int n" using Cons.prems [of v u] by auto
  have D: "(v, u) \<in> set D \<Longrightarrow> 0 \<le> shard_of cs u \<and> shard_of cs u < int n" for v u using Cons.prems by auto
  show ?case
  proof (cases "shard_of cs v = shard_of cs u")
    case True
    have c: "cross_in (shard_of cs) (vu # D) k = cross_in (shard_of cs) D k"
      "inter_in (shard_of cs) (vu # D) k = (if k = shard_of cs u then 1 else 0) + inter_in (shard_of cs) D k" for k
      using True by (auto simp: cross_in_def inter_in_def vu)
    have "count_edge cs v u (tabulates n e, tabulates n i) =
        Inr (tabulates n e, tabulates n (\<lambda>k. i k + (if k = shard_of cs u then 1 else 0)))"
      using True r by (simp add: count_edge_def add_at_tabulates)
    then show ?thesis by (simp add: vu Cons.IH [OF D] c [unfolded vu] add.assoc)
  next
    case False
    have c: "inter_in (shard_of cs) (vu # D) k = inter_in (shard_of cs) D k"
      "cross_in (shard_of cs) (vu # D) k = (if k = shard_of cs u then 1 else 0) + cross_in (shard_of cs) D k" for k
      using False by (auto simp: cross_in_def inter_in_def vu)
    have "count_edge cs v u (tabulates n e, tabulates n i) =
        Inr (tabulates n (\<lambda>k. e k + (if k = shard_of cs u then 1 else 0)), tabulates n i)"
      using False r by (simp add: count_edge_def add_at_tabulates)
    then show ?thesis by (simp add: vu Cons.IH [OF D] c [unfolded vu] add.assoc)
  qed
qed (simp add: cross_in_def inter_in_def)

section \<open>The reference computation\<close>

definition graph_ok :: "graph \<Rightarrow> bool" where
  "graph_ok g \<longleftrightarrow> finite (g_VertexSet g) \<and> dom (edge_map g) \<subseteq> g_VertexSet g \<and> (\<forall>v. set (adj g v) \<subseteq> g_VertexSet g) \<and>
     (\<forall>u v. count_list (adj g u) v = count_list (adj g v) u)"

definition no_loops :: "graph \<Rightarrow> bool" where
  "no_loops g \<longleftrightarrow> (\<forall>v. v \<notin> set (adj g v))"

definition in_range :: "'f clpa_state \<Rightarrow> bool" where
  "in_range cs \<longleftrightarrow> 0 < cs_ShardNum cs \<and> (\<forall>v \<in> g_VertexSet (cs_NetGraph cs). 0 \<le> shard_of cs v \<and> shard_of cs v < cs_ShardNum cs)"

definition edge_order_ok :: "edge_order \<Rightarrow> bool" where
  "edge_order_ok eord \<longleftrightarrow> (\<forall>m. finite (dom m) \<longrightarrow> ranges_over (eord m) m)"

abbreviation edges_of :: "edge_order \<Rightarrow> 'f clpa_state \<Rightarrow> (vertex \<times> vertex) list" where
  "edges_of eord cs \<equiv> directed (eord (edge_map (cs_NetGraph cs))) (cs_NetGraph cs)"

definition weight :: "(vertex \<Rightarrow> int) \<Rightarrow> (vertex \<times> vertex) list \<Rightarrow> int \<Rightarrow> int" where
  \<comment> \<open>edges that touch shard \<open>k\<close>\<close>
  "weight P D k = cross_in P D k + inter_in P D k div 2"

definition recounted :: "(vertex \<times> vertex) list \<Rightarrow> 'f clpa_state \<Rightarrow> 'f clpa_state" where
  "recounted D cs = (let n = nat (cs_ShardNum cs); e = tabulates n (weight (shard_of cs) D) in
     cs\<lparr>cs_Edges2Shard := e, cs_CrossShardEdgeNum := (\<Sum>k = 0..<n. cross_in (shard_of cs) D (int k)) div 2,
        cs_MinEdges2Shard := least e\<rparr>)"

lemma recounted_simps [simp]:
  "cs_Edges2Shard (recounted D cs) = tabulates (nat (cs_ShardNum cs)) (weight (shard_of cs) D)"
  "cs_CrossShardEdgeNum (recounted D cs) = (\<Sum>k = 0..<nat (cs_ShardNum cs). cross_in (shard_of cs) D (int k)) div 2"
  "cs_MinEdges2Shard (recounted D cs) = least (tabulates (nat (cs_ShardNum cs)) (weight (shard_of cs) D))"
  "cs_NetGraph (recounted D cs) = cs_NetGraph cs" "cs_PartitionMap (recounted D cs) = cs_PartitionMap cs"
  "cs_VertexsNumInShard (recounted D cs) = cs_VertexsNumInShard cs" "cs_ShardNum (recounted D cs) = cs_ShardNum cs"
  "cs_MaxIterations (recounted D cs) = cs_MaxIterations cs" "cs_WeightPenalty (recounted D cs) = cs_WeightPenalty cs"
  by (simp_all add: recounted_def Let_def)

lemma graph_ok_range:
  assumes "graph_ok (cs_NetGraph cs)" and "edge_order_ok eord"
  shows "ranges_over (eord (edge_map (cs_NetGraph cs))) (edge_map (cs_NetGraph cs))"
  using assms by (auto simp: edge_order_ok_def graph_ok_def intro: finite_subset)

lemma in_directed: "(v, u) \<in> set (directed ord g) \<longleftrightarrow> v \<in> set ord \<and> u \<in> set (adj g v)"
  by (auto simp: directed_def)

lemma count_directed:
  assumes "ranges_over ord (edge_map g)"
  shows "count (mset (directed ord g)) (v, u) = count_list (adj g v) u"
proof -
  have 1: "count (mset (map (Pair w) us)) (v, u) = (if w = v then count_list us u else 0)" for w us
    by (induction us) auto
  have "count (mset (directed vs g)) (v, u) = (if v \<in> set vs then count_list (adj g v) u else 0)" if "distinct vs" for vs
    using that by (induction vs) (auto simp: directed_def 1 [unfolded mset_map])
  moreover have "adj g v = []" if "v \<notin> set ord" using assms that by (auto simp: ranges_over_def map_default_def split: option.splits)
  ultimately show ?thesis using assms by (auto simp: ranges_over_def)
qed

lemma ComputeEdges2Shard_eq:
  assumes "graph_ok (cs_NetGraph cs)" and "in_range cs" and "edge_order_ok eord"
  shows "ComputeEdges2Shard eord cs = Inr (recounted (edges_of eord cs) cs)"
proof -
  let ?n = "nat (cs_ShardNum cs)" and ?P = "shard_of cs" and ?D = "edges_of eord cs"
  have rng: "0 \<le> ?P u \<and> ?P u < int ?n" if "(v, u) \<in> set ?D" for v u
  proof -
    have "u \<in> g_VertexSet (cs_NetGraph cs)" using that assms(1) by (auto simp: in_directed graph_ok_def)
    with assms(2) show ?thesis by (simp add: in_range_def)
  qed
  have z: "replicate ?n 0 = tabulates ?n (\<lambda>k. 0)" by (simp add: tabulates_def map_replicate_const)
  have "go_fold (\<lambda>v. go_fold (count_edge cs v) (adj (cs_NetGraph cs) v)) (eord (edge_map (cs_NetGraph cs)))
      (tabulates ?n (\<lambda>k. 0), tabulates ?n (\<lambda>k. 0)) = Inr (tabulates ?n (cross_in ?P ?D), tabulates ?n (inter_in ?P ?D))"
    unfolding go_fold_concat using count_edges [where D = ?D and e = "\<lambda>k. 0" and i = "\<lambda>k. 0", OF rng] by (simp add: directed_def)
  moreover have "map2 (\<lambda>x i. x + i div 2) (tabulates ?n f) (tabulates ?n g) = tabulates ?n (\<lambda>k. f k + g k div 2)" for f g
    by (rule nth_equalityI) simp_all
  moreover have "sum_list (tabulates ?n f) = (\<Sum>k = 0..<?n. f (int k))" for f
    by (simp add: tabulates_def interv_sum_list_conv_sum_set_nat)
  ultimately show ?thesis using assms(2)
    by (simp add: ComputeEdges2Shard_def make_ints_def in_range_def z recounted_def Let_def weight_def [abs_def])
qed

section \<open>Moving one vertex\<close>

definition star :: "(vertex \<times> vertex) list \<Rightarrow> vertex \<Rightarrow> vertex list \<Rightarrow> bool" where
  \<comment> \<open>a symmetric multiset of directed edges without loops at \<open>x\<close>, whose neighbours are listed in \<open>N\<close>\<close>
  "star D x N \<longleftrightarrow> (\<forall>u. count (mset D) (x, u) = count_list N u) \<and> (\<forall>u v. count (mset D) (u, v) = count (mset D) (v, u)) \<and>
     x \<notin> set N"

definition rest :: "vertex \<Rightarrow> (vertex \<times> vertex) list \<Rightarrow> (vertex \<times> vertex) list" where
  "rest x D = filter (\<lambda>(v, u). v \<noteq> x \<and> u \<noteq> x) D"

lemma starD:
  assumes "star D x N"
  shows "count (mset D) (x, u) = count_list N u" "count (mset D) (u, x) = count_list N u"
  using assms unfolding star_def by metis+

lemma out_edges:
  assumes "star D x N"
  shows "mset (filter (\<lambda>(v, u). v = x) D) = mset (map (Pair x) N)"
proof (rule multiset_eqI)
  fix e :: "vertex \<times> vertex"
  obtain v u where e: "e = (v, u)" by fastforce
  have "count (mset (map (Pair x) us)) (x, u) = count_list us u" "v \<noteq> x \<Longrightarrow> count (mset (map (Pair x) us)) (v, u) = 0" for us
    by (induction us) auto
  then show "count (mset (filter (\<lambda>(v, u). v = x) D)) e = count (mset (map (Pair x) N)) e"
    using starD [OF assms] by (cases "v = x") (simp_all add: e)
qed

lemma in_edges:
  assumes "star D x N"
  shows "mset (filter (\<lambda>(v, u). u = x) D) = mset (map (\<lambda>v. (v, x)) N)"
proof (rule multiset_eqI)
  fix e :: "vertex \<times> vertex"
  obtain v u where e: "e = (v, u)" by fastforce
  have "count (mset (map (\<lambda>v. (v, x)) us)) (v, x) = count_list us v" "u \<noteq> x \<Longrightarrow> count (mset (map (\<lambda>v. (v, x)) us)) (v, u) = 0" for us
    by (induction us) auto
  then show "count (mset (filter (\<lambda>(v, u). u = x) D)) e = count (mset (map (\<lambda>v. (v, x)) N)) e"
    using starD [OF assms] by (cases "u = x") (simp_all add: e)
qed

lemma no_loop_edge:
  assumes "star D x N"
  shows "(x, x) \<notin> set D"
  using assms unfolding star_def by (metis count_list_0_iff count_mset_0_iff)

lemma cnt_star:
  assumes "star D x N"
  shows "cnt Q D = cnt Q (rest x D) + cnt (\<lambda>u. Q (x, u)) N + cnt (\<lambda>v. Q (v, x)) N"
proof -
  have 1: "cnt Q (filter (\<lambda>(v, u). v = x) D) = cnt (\<lambda>u. Q (x, u)) N"
    using cnt_mset [OF out_edges [OF assms], of Q] by (simp add: cnt_map comp_def)
  have "filter (\<lambda>(v, u). u = x) (filter (\<lambda>e. \<not> (case e of (v, u) \<Rightarrow> v = x)) D) = filter (\<lambda>(v, u). u = x) D"
    unfolding filter_filter using no_loop_edge [OF assms] by (intro filter_cong) auto
  then have 2: "cnt Q (filter (\<lambda>(v, u). u = x) (filter (\<lambda>e. \<not> (case e of (v, u) \<Rightarrow> v = x)) D)) = cnt (\<lambda>v. Q (v, x)) N"
    using cnt_mset [OF in_edges [OF assms], of Q] by (simp add: cnt_map comp_def)
  have 3: "filter (\<lambda>e. \<not> (case e of (v, u) \<Rightarrow> u = x)) (filter (\<lambda>e. \<not> (case e of (v, u) \<Rightarrow> v = x)) D) = rest x D"
    unfolding rest_def filter_filter by (intro filter_cong) auto
  show ?thesis
    using cnt_split [of Q D "\<lambda>(v, u). v = x"]
      cnt_split [of Q "filter (\<lambda>e. \<not> (case e of (v, u) \<Rightarrow> v = x)) D" "\<lambda>(v, u). u = x"] 1 2 3 by simp
qed

lemma cross_star:
  assumes "star D x N"
  shows "cross_in P D k = cross_in P (rest x D) k +
     (if P x = k then int (length N) - cnt (\<lambda>u. P u = k) N else cnt (\<lambda>u. P u = k) N)"
  unfolding cross_in_def cnt_star [OF assms] using cnt_not [of "\<lambda>u. P u = k" N] by (auto simp: cnt_def)

lemma inter_star:
  assumes "star D x N"
  shows "inter_in P D k = inter_in P (rest x D) k + (if P x = k then 2 * cnt (\<lambda>u. P u = k) N else 0)"
  unfolding inter_in_def cnt_star [OF assms] by (auto simp: cnt_def)

lemma weight_star:
  assumes "star D x N"
  shows "weight P D k = weight P (rest x D) k + (if P x = k then int (length N) else cnt (\<lambda>u. P u = k) N)"
  by (simp add: weight_def cross_star [OF assms] inter_star [OF assms])

lemma rest_moved: "cross_in (P(x := s)) (rest x D) k = cross_in P (rest x D) k" "weight (P(x := s)) (rest x D) k = weight P (rest x D) k"
proof -
  have "cnt (\<lambda>(v, u). R ((P(x := s)) v) ((P(x := s)) u)) (rest x D) = cnt (\<lambda>(v, u). R (P v) (P u)) (rest x D)" for R
    by (rule cnt_cong) (auto simp: rest_def)
  from this [of "\<lambda>a b. b = k \<and> a \<noteq> k"] this [of "\<lambda>a b. b = k \<and> a = k"]
  show "cross_in (P(x := s)) (rest x D) k = cross_in P (rest x D) k" "weight (P(x := s)) (rest x D) k = weight P (rest x D) k"
    by (simp_all add: weight_def cross_in_def inter_in_def)
qed

lemma neighbours_moved: "star D x N \<Longrightarrow> cnt (\<lambda>u. (P(x := s)) u = k) N = cnt (\<lambda>u. P u = k) N"
  by (intro cnt_cong) (auto simp: star_def)

lemma weight_moved:
  assumes "star D x N" and "P x = old" and "s \<noteq> old"
  shows "weight (P(x := s)) D k = weight P D k +
     (if k = s then cnt (\<lambda>u. P u \<noteq> s) N else 0) - (if k = old then cnt (\<lambda>u. P u \<noteq> old) N else 0)"
  using assms cnt_not [of "\<lambda>u. P u = s" N] cnt_not [of "\<lambda>u. P u = old" N]
  unfolding weight_star [OF assms(1)] rest_moved neighbours_moved [OF assms(1)] by auto

lemma cross_sum_moved:
  assumes "star D x N" and "P x = old" and "s \<noteq> old" and "0 \<le> s" "s < int n" "0 \<le> old" "old < int n"
  shows "(\<Sum>k = 0..<n. cross_in (P(x := s)) D (int k)) =
    (\<Sum>k = 0..<n. cross_in P D (int k)) + 2 * (cnt (\<lambda>u. P u = old) N - cnt (\<lambda>u. P u = s) N)"
proof -
  let ?c = "\<lambda>k. cnt (\<lambda>u. P u = int k) N" and ?d = "int (length N)"
  have "(\<Sum>k = 0..<n. if p = int k then ?d - ?c k else ?c k) =
      (\<Sum>k = 0..<n. ?c k) + (?d - 2 * cnt (\<lambda>u. P u = p) N)" if "0 \<le> p" "p < int n" for p
  proof -
    have "(\<Sum>k = 0..<n. if p = int k then ?d - ?c k else ?c k) =
        (\<Sum>k = 0..<n. ?c k + (if k = nat p then ?d - 2 * cnt (\<lambda>u. P u = p) N else 0))"
      using that by (intro sum.cong) auto
    then show ?thesis using that by (simp add: sum.distrib nat_less_iff)
  qed
  note s = this [OF assms(4,5)] this [OF assms(6,7)]
  show ?thesis unfolding cross_star [OF assms(1)] rest_moved neighbours_moved [OF assms(1)] using s assms(2) by (simp add: sum.distrib)
qed

lemma recount_edges:
  assumes "new \<noteq> old" and "0 \<le> new" "new < int n" "0 \<le> old" "old < int n"
  shows "go_fold (recount_edge cs new old) N (tabulates n f, c) =
    Inr (tabulates n (\<lambda>k. f k + (if k = new then cnt (\<lambda>u. shard_of cs u \<noteq> new) N else 0) -
           (if k = old then cnt (\<lambda>u. shard_of cs u \<noteq> old) N else 0)),
         c + cnt (\<lambda>u. shard_of cs u = old) N - cnt (\<lambda>u. shard_of cs u = new) N)"
proof (induction N arbitrary: f c)
  case (Cons u N)
  have "recount_edge cs new old u (tabulates n f, c) =
      Inr (tabulates n (\<lambda>k. f k + (if k = new \<and> shard_of cs u \<noteq> new then 1 else 0) - (if k = old \<and> shard_of cs u \<noteq> old then 1 else 0)),
           c + (if shard_of cs u = old then 1 else 0) - (if shard_of cs u = new then 1 else 0))"
    using assms by (auto simp: recount_edge_def Let_def add_at_tabulates intro!: tabulates_cong)
  then show ?case by (simp add: Cons.IH algebra_simps) (auto intro!: tabulates_cong)
qed (simp add: cong: if_cong)

lemma star_of_graph:
  assumes "graph_ok g" and "no_loops g" and "ranges_over ord (edge_map g)"
  shows "star (directed ord g) x (adj g x)"
  using assms count_directed [OF assms(3)] by (auto simp: star_def graph_ok_def no_loops_def)

lemma changeShard_moved:
  assumes "graph_ok (cs_NetGraph cs)" and "no_loops (cs_NetGraph cs)" and "in_range cs" and "edge_order_ok eord"
    and "x \<in> g_VertexSet (cs_NetGraph cs)" and "0 \<le> new" "new < cs_ShardNum cs" and "new \<noteq> shard_of cs x"
    and "cs_Edges2Shard cs = cs_Edges2Shard (recounted (edges_of eord cs) cs)"
    and "cs_CrossShardEdgeNum cs = cs_CrossShardEdgeNum (recounted (edges_of eord cs) cs)"
  shows "changeShardRecompute x (shard_of cs x) (cs\<lparr>cs_PartitionMap := (cs_PartitionMap cs)(x \<mapsto> new)\<rparr>) =
    ComputeEdges2Shard eord (cs\<lparr>cs_PartitionMap := (cs_PartitionMap cs)(x \<mapsto> new)\<rparr>)"
proof -
  let ?g = "cs_NetGraph cs" and ?P = "shard_of cs" and ?D = "edges_of eord cs" and ?n = "nat (cs_ShardNum cs)"
  let ?cs = "cs\<lparr>cs_PartitionMap := (cs_PartitionMap cs)(x \<mapsto> new)\<rparr>" and ?N = "adj (cs_NetGraph cs) x" and ?old = "shard_of cs x"
  have st: "star ?D x ?N" by (rule star_of_graph [OF assms(1,2) graph_ok_range [OF assms(1,4)]])
  have P': "shard_of ?cs = ?P(x := new)" by (auto simp: fun_eq_iff)
  have rng: "0 \<le> new" "new < int ?n" "0 \<le> ?old" "?old < int ?n" using assms(3,5-7) by (auto simp: in_range_def)
  have nb: "cnt (\<lambda>u. shard_of ?cs u = k) ?N = cnt (\<lambda>u. ?P u = k) ?N" "cnt (\<lambda>u. shard_of ?cs u \<noteq> k) ?N = cnt (\<lambda>u. ?P u \<noteq> k) ?N" for k
    using neighbours_moved [OF st, of ?P new k] by (simp_all only: P' cnt_not)
  have ok: "in_range ?cs" using assms(3,6,7) by (auto simp: in_range_def)
  have "ComputeEdges2Shard eord ?cs = Inr (recounted ?D ?cs)" using ComputeEdges2Shard_eq [of ?cs] assms(1,4) ok by simp
  moreover have t: "tabulates ?n (\<lambda>k. weight ?P ?D k + (if k = new then cnt (\<lambda>u. ?P u \<noteq> new) ?N else 0) -
      (if k = ?old then cnt (\<lambda>u. ?P u \<noteq> ?old) ?N else 0)) = tabulates ?n (weight (?P(x := new)) ?D)"
    using weight_moved [OF st, of ?P ?old new] assms(8) by (intro tabulates_cong) simp
  moreover have c: "(\<Sum>k = 0..<?n. cross_in (?P(x := new)) ?D (int k)) div 2 =
      (\<Sum>k = 0..<?n. cross_in ?P ?D (int k)) div 2 + cnt (\<lambda>u. ?P u = ?old) ?N - cnt (\<lambda>u. ?P u = new) ?N"
    unfolding cross_sum_moved [where P = ?P and s = new and old = ?old, OF st refl assms(8) rng] by simp
  moreover have "go_fold (recount_edge ?cs new ?old) ?N (cs_Edges2Shard cs, cs_CrossShardEdgeNum cs) =
      Inr (tabulates ?n (weight (?P(x := new)) ?D), (\<Sum>k = 0..<?n. cross_in (?P(x := new)) ?D (int k)) div 2)"
    unfolding t [symmetric] c using recount_edges [OF assms(8) rng, of ?cs ?N "weight ?P ?D" "cs_CrossShardEdgeNum cs"]
    unfolding nb assms(9,10) by (simp only: recounted_simps)
  moreover have "changeShardRecompute x ?old ?cs = and_then (go_fold (recount_edge ?cs new ?old) ?N (cs_Edges2Shard cs, cs_CrossShardEdgeNum cs))
      (\<lambda>(e, c). Inr (?cs\<lparr>cs_Edges2Shard := e, cs_CrossShardEdgeNum := c, cs_MinEdges2Shard := least e\<rparr>))"
    by (simp add: changeShardRecompute_def)
  ultimately show ?thesis by (simp only: recounted_def Let_def P' and_then_simps prod.case) simp
qed

end
