(* ===== verification/Clpa_Partition.thy ===== *)
theory Clpa_Partition
  imports Clpa_Graph "HOL-Library.List_Lexorder" "HOL-Library.Char_ord"
begin

text \<open>
  Correctness of the label propagation of \<open>partition/partition_CLPA.go\<close>: the well-formedness
  \<open>wf_clpa\<close> of its state, kept by every operation; the incremental edge counts against the full
  computation; and that \<open>CLPA_Partition\<close> returns for every graph, with a partition that its result
  map describes and no shard emptied.
\<close>

section \<open>Well-formed states\<close>

definition placed :: "(vertex \<Rightarrow> int) \<Rightarrow> vertex set \<Rightarrow> int \<Rightarrow> int" where
  \<comment> \<open>number of vertices in shard \<open>k\<close>\<close>
  "placed P V k = int (card {v \<in> V. P v = k})"

definition wf_clpa :: "'f clpa_state \<Rightarrow> bool" where
  "wf_clpa cs \<longleftrightarrow>
     graph_ok (cs_NetGraph cs) \<and> 0 < cs_ShardNum cs \<and> cs_ShardNum cs \<le> MaxInt \<and>
     g_VertexSet (cs_NetGraph cs) \<subseteq> dom (cs_PartitionMap cs) \<and>
     (\<forall>s \<in> ran (cs_PartitionMap cs). 0 \<le> s \<and> s < cs_ShardNum cs) \<and>
     cs_VertexsNumInShard cs = tabulates (nat (cs_ShardNum cs)) (placed (shard_of cs) (g_VertexSet (cs_NetGraph cs)))"

lemma placed_insert:
  assumes "finite V" and "v \<notin> V"
  shows "placed (P(v := s)) (insert v V) k = placed P V k + (if k = s then 1 else 0)"
proof -
  have "{w \<in> insert v V. (P(v := s)) w = k} = (if k = s then insert v {w \<in> V. P w = k} else {w \<in> V. P w = k})"
    using assms(2) by auto
  with assms show ?thesis by (simp add: placed_def)
qed

lemma placed_move:
  assumes "finite V" and "x \<in> V"
  shows "placed (P(x := s)) V k = placed P V k + (if k = s then 1 else 0) - (if k = P x then 1 else 0)"
proof -
  obtain W where W: "V = insert x W" "x \<notin> W" "finite W" using assms by (metis finite_insert mk_disjoint_insert)
  from placed_insert [OF W(3,2), of P "P x" k] placed_insert [OF W(3,2), of P s k] show ?thesis
    unfolding W(1) by (simp add: fun_upd_idem)
qed

lemma wf_shard:
  assumes "wf_clpa cs" and "v \<in> g_VertexSet (cs_NetGraph cs)"
  shows "0 \<le> shard_of cs v" "shard_of cs v < cs_ShardNum cs" "shard_of cs v < int (nat (cs_ShardNum cs))"
  using assms by (auto simp: wf_clpa_def map_default_def ran_def dom_def split: option.splits)

lemma wf_in_range: "wf_clpa cs \<Longrightarrow> in_range cs"
  using wf_shard by (fastforce simp: in_range_def wf_clpa_def)

lemma shard_of_upd: "map_default 0 ((cs_PartitionMap cs)(x \<mapsto> s)) = (shard_of cs)(x := s)"
  by (auto simp: fun_eq_iff)

lemma wf_move:
  assumes "wf_clpa cs" and "x \<in> g_VertexSet (cs_NetGraph cs)" and "0 \<le> s" "s < cs_ShardNum cs"
    and "add_at (- 1) (shard_of cs x) (cs_VertexsNumInShard cs) = Inr vn1" and "add_at 1 s vn1 = Inr vn2"
  shows "wf_clpa (cs\<lparr>cs_PartitionMap := (cs_PartitionMap cs)(x \<mapsto> s), cs_VertexsNumInShard := vn2\<rparr>)"
proof -
  let ?n = "nat (cs_ShardNum cs)" and ?V = "g_VertexSet (cs_NetGraph cs)"
  have f: "finite ?V" and vn: "cs_VertexsNumInShard cs = tabulates ?n (placed (shard_of cs) ?V)"
    using assms(1) by (auto simp: wf_clpa_def graph_ok_def)
  have "vn1 = tabulates ?n (\<lambda>k. placed (shard_of cs) ?V k + (if k = shard_of cs x then - 1 else 0))"
    using assms(5) wf_shard [OF assms(1,2)] unfolding vn by (simp add: add_at_tabulates)
  with assms(3,4,6) have "vn2 = tabulates ?n (\<lambda>k. placed (shard_of cs) ?V k + (if k = shard_of cs x then - 1 else 0) + (if k = s then 1 else 0))"
    by (simp add: add_at_tabulates)
  also have "\<dots> = tabulates ?n (placed ((shard_of cs)(x := s)) ?V)"
    by (rule tabulates_cong) (simp add: placed_move [OF f assms(2)])
  finally show ?thesis using assms(1,3,4) by (auto simp: wf_clpa_def shard_of_upd ran_def)
qed

lemma changeShard_keeps:
  assumes "changeShardRecompute v old cs = Inr cs'"
  shows "cs_NetGraph cs' = cs_NetGraph cs" "cs_PartitionMap cs' = cs_PartitionMap cs" "cs_ShardNum cs' = cs_ShardNum cs"
    "cs_VertexsNumInShard cs' = cs_VertexsNumInShard cs" "cs_MaxIterations cs' = cs_MaxIterations cs"
    "cs_WeightPenalty cs' = cs_WeightPenalty cs"
  using assms by (auto simp: changeShardRecompute_def and_then_Inr)

lemma wf_clpa_cong:
  assumes "cs_NetGraph cs' = cs_NetGraph cs" "cs_PartitionMap cs' = cs_PartitionMap cs" "cs_ShardNum cs' = cs_ShardNum cs"
    "cs_VertexsNumInShard cs' = cs_VertexsNumInShard cs"
  shows "wf_clpa cs' \<longleftrightarrow> wf_clpa cs"
  by (simp add: wf_clpa_def assms)

lemma recount_total:
  assumes "0 \<le> new" "new < int (length e)" "0 \<le> old" "old < int (length e)"
  shows "\<exists>e' c'. go_fold (recount_edge cs new old) N (e, c) = Inr (e', c') \<and> length e' = length e"
proof -
  have "\<exists>p. go_fold (recount_edge cs new old) N (e, c) = Inr p \<and> length (fst p) = length e"
    by (rule go_fold_total) (use assms in \<open>auto simp: recount_edge_def add_at_def Let_def\<close>)
  then show ?thesis by fastforce
qed

lemma changeShard_total:
  assumes "0 \<le> shard_of cs v" "shard_of cs v < int (length (cs_Edges2Shard cs))" "0 \<le> old" "old < int (length (cs_Edges2Shard cs))"
  obtains cs' where "changeShardRecompute v old cs = Inr cs'" and "length (cs_Edges2Shard cs') = length (cs_Edges2Shard cs)"
proof -
  obtain e' c' where "go_fold (recount_edge cs (shard_of cs v) old) (adj (cs_NetGraph cs) v) (cs_Edges2Shard cs, cs_CrossShardEdgeNum cs)
      = Inr (e', c')" "length e' = length (cs_Edges2Shard cs)" using recount_total [OF assms] by blast
  then show ?thesis using that by (simp add: changeShardRecompute_def)
qed

section \<open>One visit\<close>

definition best_shard :: "'f float_ops \<Rightarrow> 'f clpa_state \<Rightarrow> vertex \<Rightarrow> 'f best go" where
  "best_shard fl cs v = go_fold (consider_neighbor fl cs v) (adj (cs_NetGraph cs) v)
     \<lparr>be_scores = Map.empty, be_score = fl_of_int fl (- 9999), be_shard = shard_of cs v\<rparr>"

lemma best_shard_total:
  assumes "wf_clpa cs" and "v \<in> g_VertexSet (cs_NetGraph cs)" and "length (cs_Edges2Shard cs) = nat (cs_ShardNum cs)"
  obtains b where "best_shard fl cs v = Inr b" and "be_shard b \<in> shard_of cs ` g_VertexSet (cs_NetGraph cs)"
proof -
  have adj: "u \<in> g_VertexSet (cs_NetGraph cs)" if "u \<in> set (adj (cs_NetGraph cs) v)" for u
    using assms(1) that by (auto simp: wf_clpa_def graph_ok_def)
  have sc: "\<exists>sc. getShard_score fl cs v (shard_of cs u) = Inr sc" if "u \<in> g_VertexSet (cs_NetGraph cs)" for u
    using wf_shard [OF assms(1) that] assms(3) by (simp add: getShard_score_def go_nth_def)
  have "\<exists>b. best_shard fl cs v = Inr b \<and> be_shard b \<in> shard_of cs ` g_VertexSet (cs_NetGraph cs)"
    unfolding best_shard_def
  proof (rule go_fold_total)
    fix u and b :: "'a best"
    assume u: "u \<in> set (adj (cs_NetGraph cs) v)" and b: "be_shard b \<in> shard_of cs ` g_VertexSet (cs_NetGraph cs)"
    obtain sc where "getShard_score fl cs v (shard_of cs u) = Inr sc" using sc [OF adj [OF u]] by blast
    with b adj [OF u] show "\<exists>b'. consider_neighbor fl cs v u b = Inr b' \<and> be_shard b' \<in> shard_of cs ` g_VertexSet (cs_NetGraph cs)"
      by (simp add: consider_neighbor_def Let_def)
  qed (use assms(2) in auto)
  with that show ?thesis by blast
qed

definition moved :: "vertex \<Rightarrow> int \<Rightarrow> 'f run \<Rightarrow> 'f run \<Rightarrow> bool" where
  \<comment> \<open>vertex \<open>v\<close> moves to shard \<open>s\<close>, which leaves its old shard non-empty\<close>
  "moved v s r r' \<longleftrightarrow>
     s \<noteq> shard_of (ru_state r) v \<and> s \<in> shard_of (ru_state r) ` g_VertexSet (cs_NetGraph (ru_state r)) \<and>
     1 < placed (shard_of (ru_state r)) (g_VertexSet (cs_NetGraph (ru_state r))) (shard_of (ru_state r) v) \<and>
     (\<exists>vn. changeShardRecompute v (shard_of (ru_state r) v) (ru_state r
           \<lparr>cs_PartitionMap := (cs_PartitionMap (ru_state r))(v \<mapsto> s), cs_VertexsNumInShard := vn\<rparr>) = Inr (ru_state r')) \<and>
     ru_res r' = (ru_res r)(v \<mapsto> word_of_int s) \<and> map_default 0 (ru_updates r) v < 50 \<and>
     ru_updates r' = (ru_updates r)(v \<mapsto> map_default 0 (ru_updates r) v + 1) \<and>
     wf_clpa (ru_state r') \<and> length (cs_Edges2Shard (ru_state r')) = length (cs_Edges2Shard (ru_state r))"

lemma visit_cases:
  assumes "wf_clpa (ru_state r)" and "v \<in> g_VertexSet (cs_NetGraph (ru_state r))"
    and "length (cs_Edges2Shard (ru_state r)) = nat (cs_ShardNum (ru_state r))"
  obtains "visit fl v r = Inr r" | s r' where "visit fl v r = Inr r'" and "moved v s r r'"
proof -
  let ?cs = "ru_state r" and ?n = "nat (cs_ShardNum (ru_state r))"
  let ?old = "shard_of ?cs v" and ?V = "g_VertexSet (cs_NetGraph ?cs)"
  obtain b where b: "best_shard fl ?cs v = Inr b" and s: "be_shard b \<in> shard_of ?cs ` ?V"
    by (rule best_shard_total [OF assms])
  let ?s = "be_shard b"
  note old = wf_shard [OF assms(1,2)]
  have sr: "0 \<le> ?s" "?s < cs_ShardNum ?cs" "?s < int ?n" using s wf_shard [OF assms(1)] by auto
  have vn: "cs_VertexsNumInShard ?cs = tabulates ?n (placed (shard_of ?cs) ?V)" using assms(1) by (simp add: wf_clpa_def)
  have nth: "go_nth (cs_VertexsNumInShard ?cs) ?old = Inr (placed (shard_of ?cs) ?V ?old)"
    using old by (simp add: vn go_nth_def nat_less_iff)
  show ?thesis
  proof (cases "map_default 0 (ru_updates r) v \<ge> 50 \<or> ?old = ?s \<or> \<not> 1 < placed (shard_of ?cs) ?V ?old")
    case True
    have "visit fl v r = Inr r" using True b nth by (auto simp: visit_def best_shard_def Let_def)
    with that(1) show ?thesis .
  next
    case False
    obtain vn1 vn2 where add: "add_at (- 1) ?old (cs_VertexsNumInShard ?cs) = Inr vn1" "add_at 1 ?s vn1 = Inr vn2"
      using old sr by (simp add: vn add_at_tabulates)
    let ?cs1 = "?cs\<lparr>cs_PartitionMap := (cs_PartitionMap ?cs)(v \<mapsto> ?s), cs_VertexsNumInShard := vn2\<rparr>"
    have wf1: "wf_clpa ?cs1" by (rule wf_move [OF assms(1,2) sr(1,2) add])
    obtain cs2 where cs2: "changeShardRecompute v ?old ?cs1 = Inr cs2" "length (cs_Edges2Shard cs2) = length (cs_Edges2Shard ?cs1)"
      by (rule changeShard_total [of ?cs1 v ?old]) (use old sr assms(3) in simp_all)
    have wf2: "wf_clpa cs2" using wf1 wf_clpa_cong [of cs2 ?cs1] changeShard_keeps [OF cs2(1)] by simp
    let ?r = "\<lparr>ru_state = cs2, ru_res = (ru_res r)(v \<mapsto> word_of_int ?s), ru_updates = (ru_updates r)(v \<mapsto> map_default 0 (ru_updates r) v + 1)\<rparr>"
    have "visit fl v r = Inr ?r" using False b nth add cs2(1) by (simp add: visit_def best_shard_def Let_def)
    moreover have "moved v ?s r ?r" unfolding moved_def using False s wf2 cs2 by auto
    ultimately show ?thesis by (rule that(2))
  qed
qed

section \<open>The whole run\<close>

definition fresh :: "edge_order \<Rightarrow> 'f clpa_state \<Rightarrow> bool" where
  \<comment> \<open>the edge counts of the state are those of the full computation\<close>
  "fresh eord cs \<longleftrightarrow> ComputeEdges2Shard eord cs = Inr cs"

definition run_ok :: "edge_order \<Rightarrow> 'f clpa_state \<Rightarrow> 'f run \<Rightarrow> bool" where
  "run_ok eord cs0 r \<longleftrightarrow>
     wf_clpa (ru_state r) \<and> cs_NetGraph (ru_state r) = cs_NetGraph cs0 \<and> cs_ShardNum (ru_state r) = cs_ShardNum cs0 \<and>
     cs_MaxIterations (ru_state r) = cs_MaxIterations cs0 \<and> length (cs_Edges2Shard (ru_state r)) = nat (cs_ShardNum cs0) \<and>
     dom (ru_res r) \<subseteq> g_VertexSet (cs_NetGraph cs0) \<and>
     (\<forall>v. cs_PartitionMap (ru_state r) v = (case ru_res r v of None \<Rightarrow> cs_PartitionMap cs0 v | Some s \<Rightarrow> Some (uint s))) \<and>
     shard_of (ru_state r) ` g_VertexSet (cs_NetGraph cs0) = shard_of cs0 ` g_VertexSet (cs_NetGraph cs0) \<and>
     (\<forall>v. map_default 0 (ru_updates r) v \<le> 50) \<and>
     (no_loops (cs_NetGraph cs0) \<longrightarrow> fresh eord (ru_state r))"

lemma fresh_eq:
  assumes "wf_clpa cs" and "edge_order_ok eord"
  shows "ComputeEdges2Shard eord cs = Inr (recounted (edges_of eord cs) cs)"
    "fresh eord cs \<longleftrightarrow> recounted (edges_of eord cs) cs = cs"
  using ComputeEdges2Shard_eq [OF _ wf_in_range [OF assms(1)] assms(2)] assms(1) by (auto simp: fresh_def wf_clpa_def)

lemma recounted_wf:
  assumes "wf_clpa cs"
  shows "wf_clpa (recounted D cs)" "recounted D (recounted D cs) = recounted D cs"
    "length (cs_Edges2Shard (recounted D cs)) = nat (cs_ShardNum cs)"
  using assms wf_clpa_cong [of "recounted D cs" cs] by (simp_all add: recounted_def Let_def)

lemma moved_keeps:
  assumes "moved v s r r'"
  shows "cs_NetGraph (ru_state r') = cs_NetGraph (ru_state r)" "cs_ShardNum (ru_state r') = cs_ShardNum (ru_state r)"
    "cs_MaxIterations (ru_state r') = cs_MaxIterations (ru_state r)"
    "cs_PartitionMap (ru_state r') = (cs_PartitionMap (ru_state r))(v \<mapsto> s)"
  using assms by (auto simp: moved_def dest: changeShard_keeps)

lemma moved_fresh:
  assumes "moved v s r r'" and "wf_clpa (ru_state r)" and "v \<in> g_VertexSet (cs_NetGraph (ru_state r))"
    and "edge_order_ok eord" and "no_loops (cs_NetGraph (ru_state r))" and "fresh eord (ru_state r)"
  shows "fresh eord (ru_state r')"
proof -
  let ?cs = "ru_state r" and ?old = "shard_of (ru_state r) v"
  obtain vn where ch: "changeShardRecompute v ?old (?cs\<lparr>cs_PartitionMap := (cs_PartitionMap ?cs)(v \<mapsto> s), cs_VertexsNumInShard := vn\<rparr>)
      = Inr (ru_state r')" and s: "s \<noteq> ?old" "s \<in> shard_of ?cs ` g_VertexSet (cs_NetGraph ?cs)" and wf: "wf_clpa (ru_state r')"
    using assms(1) by (auto simp: moved_def)
  let ?cs1 = "?cs\<lparr>cs_VertexsNumInShard := vn\<rparr>"
  have swap: "?cs\<lparr>cs_PartitionMap := (cs_PartitionMap ?cs)(v \<mapsto> s), cs_VertexsNumInShard := vn\<rparr> =
      ?cs1\<lparr>cs_PartitionMap := (cs_PartitionMap ?cs1)(v \<mapsto> s)\<rparr>"
    by (rule clpa_state.equality) simp_all
  have sr: "0 \<le> s" "s < cs_ShardNum ?cs1" using s(2) wf_shard [OF assms(2)] by auto
  have ok: "graph_ok (cs_NetGraph ?cs1)" "no_loops (cs_NetGraph ?cs1)" "in_range ?cs1" "v \<in> g_VertexSet (cs_NetGraph ?cs1)"
    using assms(2,3,5) wf_in_range [OF assms(2)] by (simp_all add: wf_clpa_def in_range_def)
  have eq: "recounted (edges_of eord ?cs) ?cs = ?cs" using fresh_eq(2) [OF assms(2,4)] assms(6) by simp
  have fr: "cs_Edges2Shard ?cs1 = cs_Edges2Shard (recounted (edges_of eord ?cs1) ?cs1)"
    "cs_CrossShardEdgeNum ?cs1 = cs_CrossShardEdgeNum (recounted (edges_of eord ?cs1) ?cs1)"
    using arg_cong [OF eq, of cs_Edges2Shard] arg_cong [OF eq, of cs_CrossShardEdgeNum] by simp_all
  have "ComputeEdges2Shard eord (?cs1\<lparr>cs_PartitionMap := (cs_PartitionMap ?cs1)(v \<mapsto> s)\<rparr>) = Inr (ru_state r')"
    using changeShard_moved [of ?cs1, OF ok(1-3) assms(4) ok(4) sr _ fr] s(1) ch unfolding swap by simp
  then have "ru_state r' = recounted (edges_of eord ?cs) (?cs1\<lparr>cs_PartitionMap := (cs_PartitionMap ?cs1)(v \<mapsto> s)\<rparr>)"
    using ComputeEdges2Shard_eq [OF _ _ assms(4), of "?cs1\<lparr>cs_PartitionMap := (cs_PartitionMap ?cs1)(v \<mapsto> s)\<rparr>"] ok sr
    by (simp add: in_range_def)
  then show ?thesis using fresh_eq(2) [OF wf assms(4)] by (simp add: recounted_def Let_def)
qed

lemma moved_occupied:
  assumes "moved v s r r'" and "v \<in> V" and "V = g_VertexSet (cs_NetGraph (ru_state r))" and "finite V"
  shows "shard_of (ru_state r') ` V = shard_of (ru_state r) ` V"
proof -
  let ?P = "shard_of (ru_state r)"
  have P': "shard_of (ru_state r') = ?P(v := s)" by (simp add: moved_keeps [OF assms(1)] shard_of_upd)
  have "1 < placed ?P V (?P v)" and s: "s \<in> ?P ` V" using assms(1,3) by (simp_all add: moved_def)
  then have "\<not> card {w \<in> V. ?P w = ?P v} \<le> Suc 0" by (simp add: placed_def)
  then have "\<exists>w \<in> {w \<in> V. ?P w = ?P v}. w \<noteq> v"
    using card_mono [of "{v}" "{w \<in> V. ?P w = ?P v}"] by force
  then obtain w where "w \<in> V - {v}" "?P w = ?P v" by blast
  then have "?P v \<in> ?P ` (V - {v})" by (metis imageI)
  then have "insert (?P v) (?P ` (V - {v})) = ?P ` (V - {v})" by (rule insert_absorb)
  then have "?P ` (V - {v}) = ?P ` V" using assms(2) insert_Diff [of v V] by (metis image_insert)
  moreover have "(?P(v := s)) ` V = insert s (?P ` (V - {v}))" using assms(2) by (auto simp: image_iff)
  ultimately show ?thesis unfolding P' using s by (simp add: insert_absorb)
qed

lemma visit_run_ok:
  assumes "run_ok eord cs0 r" and "v \<in> g_VertexSet (cs_NetGraph cs0)" and "edge_order_ok eord"
  shows "\<exists>r'. visit fl v r = Inr r' \<and> run_ok eord cs0 r'"
proof -
  have wf: "wf_clpa (ru_state r)" and g: "cs_NetGraph (ru_state r) = cs_NetGraph cs0" and n: "cs_ShardNum (ru_state r) = cs_ShardNum cs0"
    and len: "length (cs_Edges2Shard (ru_state r)) = nat (cs_ShardNum (ru_state r))"
    using assms(1) by (auto simp: run_ok_def)
  have v: "v \<in> g_VertexSet (cs_NetGraph (ru_state r))" using assms(2) g by simp
  from wf v len show ?thesis
  proof (cases rule: visit_cases [where fl = fl])
    case (2 s r')
    note keep = moved_keeps [OF 2(2)]
    have s: "0 \<le> s" "s < cs_ShardNum cs0" using 2(2) wf_shard [OF wf] n by (auto simp: moved_def)
    moreover have "cs_ShardNum cs0 \<le> MaxInt" using wf n by (simp add: wf_clpa_def)
    ultimately have u: "uint (word_of_int s :: u64) = s" by (simp add: uint_word_of_int MaxInt_def)
    have fin: "finite (g_VertexSet (cs_NetGraph cs0))" using wf g by (simp add: wf_clpa_def graph_ok_def)
    have "run_ok eord cs0 r'" unfolding run_ok_def
    proof (intro conjI impI)
      show "wf_clpa (ru_state r')" using 2(2) by (simp add: moved_def)
      show "length (cs_Edges2Shard (ru_state r')) = nat (cs_ShardNum cs0)" using 2(2) len n by (simp add: moved_def)
      show "dom (ru_res r') \<subseteq> g_VertexSet (cs_NetGraph cs0)" using 2(2) assms(1,2) by (auto simp: moved_def run_ok_def)
      show "\<forall>w. cs_PartitionMap (ru_state r') w = (case ru_res r' w of None \<Rightarrow> cs_PartitionMap cs0 w | Some s \<Rightarrow> Some (uint s))"
        using 2(2) assms(1) u unfolding keep by (simp add: moved_def run_ok_def)
      show "shard_of (ru_state r') ` g_VertexSet (cs_NetGraph cs0) = shard_of cs0 ` g_VertexSet (cs_NetGraph cs0)"
        using moved_occupied [OF 2(2) assms(2) _ fin] g assms(1) by (simp add: run_ok_def)
      show "\<forall>w. map_default 0 (ru_updates r') w \<le> 50" using 2(2) assms(1) by (auto simp: moved_def run_ok_def)
      show "fresh eord (ru_state r')" if "no_loops (cs_NetGraph cs0)"
        using moved_fresh [OF 2(2) wf v assms(3)] assms(1) g that by (simp add: run_ok_def)
      show "cs_MaxIterations (ru_state r') = cs_MaxIterations cs0" using assms(1) by (simp add: keep run_ok_def)
    qed (simp_all add: keep g n)
    with 2(1) show ?thesis by blast
  qed (use assms(1) in blast)
qed

definition visits_vertices :: "(nat \<Rightarrow> vertex list) \<Rightarrow> graph \<Rightarrow> bool" where
  \<comment> \<open>every round lists the vertices of the graph\<close>
  "visits_vertices vord g \<longleftrightarrow> (\<forall>i. distinct (vord i) \<and> set (vord i) = g_VertexSet g)"

lemma run_ok_start:
  assumes "wf_clpa cs" and "edge_order_ok eord"
  shows "run_ok eord cs \<lparr>ru_state = recounted (edges_of eord cs) cs, ru_res = Map.empty, ru_updates = Map.empty\<rparr>"
  using recounted_wf [OF assms(1), of "edges_of eord cs"] fresh_eq(2) [OF _ assms(2), of "recounted (edges_of eord cs) cs"]
  by (simp add: run_ok_def)

lemma rounds_run_ok:
  assumes "run_ok eord cs0 r" and "visits_vertices vord (cs_NetGraph cs0)" and "edge_order_ok eord"
  shows "\<exists>r'. clpa_rounds fl vord n r = Inr r' \<and> run_ok eord cs0 r'"
  unfolding clpa_rounds_def
proof (rule go_fold_total)
  fix i r assume "run_ok eord cs0 r"
  then show "\<exists>r'. go_fold (visit fl) (vord i) r = Inr r' \<and> run_ok eord cs0 r'"
    by (rule go_fold_total) (use assms(2,3) visit_run_ok in \<open>fastforce simp: visits_vertices_def\<close>)
qed (rule assms(1))

section \<open>Building the graph\<close>

lemma adj_AddVertex [simp]: "edge_map (Graph_AddVertex v g) = edge_map g" "g_VertexSet (Graph_AddVertex v g) = insert v (g_VertexSet g)"
  by (simp_all add: Graph_AddVertex_def edge_map_def)

lemma graph_ok_AddVertex: "graph_ok g \<Longrightarrow> graph_ok (Graph_AddVertex v g)"
  by (auto simp: graph_ok_def)

lemma Graph_AddEdge_simps:
  "g_VertexSet (Graph_AddEdge u v g) = insert u (insert v (g_VertexSet g))"
  "adj (Graph_AddEdge u v g) w = adj g w @ (if w = u then [v] else []) @ (if w = v then [u] else [])"
  "dom (edge_map (Graph_AddEdge u v g)) = insert u (insert v (dom (edge_map g)))"
  by (auto simp: Graph_AddEdge_def Let_def edge_map_def Graph_AddVertex_def)

lemma graph_ok_AddEdge:
  assumes "graph_ok g"
  shows "graph_ok (Graph_AddEdge u v g)"
proof -
  have "count_list (adj (Graph_AddEdge u v g) a) b = count_list (adj (Graph_AddEdge u v g) b) a" for a b
  proof -
    have "count_list (adj g a) b = count_list (adj g b) a" using assms by (simp add: graph_ok_def)
    then show ?thesis by (simp add: Graph_AddEdge_simps)
  qed
  then show ?thesis using assms by (auto simp: graph_ok_def Graph_AddEdge_simps)
qed

definition extends :: "go_env \<Rightarrow> 'f clpa_state \<Rightarrow> 'f clpa_state \<Rightarrow> bool" where
  \<comment> \<open>no placed vertex changes its shard, a newly placed one is where \<open>Addr2Shard\<close> puts it, and the parameters stay\<close>
  "extends E cs cs' \<longleftrightarrow> cs_PartitionMap cs \<subseteq>\<^sub>m cs_PartitionMap cs' \<and>
     (\<forall>v s. cs_PartitionMap cs v = None \<longrightarrow> cs_PartitionMap cs' v = Some s \<longrightarrow> Addr2Shard E v = Inr s) \<and> cs_ShardNum cs' = cs_ShardNum cs \<and>
     cs_MaxIterations cs' = cs_MaxIterations cs \<and> cs_WeightPenalty cs' = cs_WeightPenalty cs"

lemma extends_Some: "extends E cs cs' \<Longrightarrow> cs_PartitionMap cs v = Some s \<Longrightarrow> cs_PartitionMap cs' v = Some s"
  by (metis domI extends_def map_le_def)

lemma extends_trans:
  assumes "extends E a b" and "extends E b c"
  shows "extends E a c"
proof -
  have "Addr2Shard E v = Inr s" if "cs_PartitionMap a v = None" "cs_PartitionMap c v = Some s" for v s
  proof (cases "cs_PartitionMap b v")
    case (Some t)
    then have "cs_PartitionMap c v = Some t" by (rule extends_Some [OF assms(2)])
    then show ?thesis using Some that assms(1) by (simp add: extends_def)
  qed (use that assms(2) in \<open>simp add: extends_def\<close>)
  then show ?thesis using assms by (auto simp: extends_def intro: map_le_trans)
qed

lemma AddVertex_wf:
  assumes "wf_clpa cs" and "v \<notin> g_VertexSet (cs_NetGraph cs)" and "ShardNum E = cs_ShardNum cs"
    and "(case cs_PartitionMap cs v of None \<Rightarrow> Addr2Shard E v | Some val \<Rightarrow> Inr val) = Inr s"
  obtains cs' where "AddVertex E v cs = Inr cs'" and "wf_clpa cs'" and "extends E cs cs'"
    and "cs_NetGraph cs' = Graph_AddVertex v (cs_NetGraph cs)"
proof -
  let ?n = "nat (cs_ShardNum cs)" and ?V = "g_VertexSet (cs_NetGraph cs)"
  have f: "finite ?V" and vn: "cs_VertexsNumInShard cs = tabulates ?n (placed (shard_of cs) ?V)"
    using assms(1) by (auto simp: wf_clpa_def graph_ok_def)
  have s: "0 \<le> s" "s < cs_ShardNum cs"
    using Addr2Shard_range [of E v s] assms(1,3,4) by (auto simp: wf_clpa_def ran_def split: option.splits)
  let ?cs = "cs\<lparr>cs_NetGraph := Graph_AddVertex v (cs_NetGraph cs), cs_PartitionMap := (cs_PartitionMap cs)(v \<mapsto> s),
      cs_VertexsNumInShard := tabulates ?n (placed ((shard_of cs)(v := s)) (insert v ?V))\<rparr>"
  have add: "add_at 1 s (cs_VertexsNumInShard cs) = Inr (tabulates ?n (placed ((shard_of cs)(v := s)) (insert v ?V)))"
    using s unfolding vn by (simp add: add_at_tabulates placed_insert [OF f assms(2)] cong: tabulates_cong)
  then have "AddVertex E v cs = Inr ?cs" using assms(4) by (simp add: AddVertex_def Let_def)
  moreover have "wf_clpa ?cs"
    using assms(1) s by (auto simp: wf_clpa_def shard_of_upd graph_ok_AddVertex ran_def)
  moreover have "extends E cs ?cs" using assms(4) by (auto simp: extends_def map_le_def)
  ultimately show ?thesis using that [of ?cs] by simp
qed

definition ensure_vertex :: "go_env \<Rightarrow> vertex \<Rightarrow> 'f clpa_state \<Rightarrow> 'f clpa_state go" where
  "ensure_vertex E v cs = (if v \<in> g_VertexSet (cs_NetGraph cs) then Inr cs else AddVertex E v cs)"

lemma ensure_vertex_wf:
  assumes "ensure_vertex E v cs = Inr cs'" and "wf_clpa cs" and "ShardNum E = cs_ShardNum cs"
  shows "wf_clpa cs'" "extends E cs cs'" "g_VertexSet (cs_NetGraph cs') = insert v (g_VertexSet (cs_NetGraph cs))"
    "edge_map (cs_NetGraph cs') = edge_map (cs_NetGraph cs)"
proof -
  have "wf_clpa cs' \<and> extends E cs cs' \<and> g_VertexSet (cs_NetGraph cs') = insert v (g_VertexSet (cs_NetGraph cs)) \<and>
      edge_map (cs_NetGraph cs') = edge_map (cs_NetGraph cs)"
  proof (cases "v \<in> g_VertexSet (cs_NetGraph cs)")
    case True
    then have "cs' = cs" using assms(1) by (simp add: ensure_vertex_def)
    with True assms(2) show ?thesis by (auto simp: extends_def)
  next
    case False
    then obtain s where s: "(case cs_PartitionMap cs v of None \<Rightarrow> Addr2Shard E v | Some val \<Rightarrow> Inr val) = Inr s"
      using assms(1) by (auto simp: ensure_vertex_def AddVertex_def and_then_Inr Let_def)
    obtain c where "AddVertex E v cs = Inr c" "wf_clpa c" "extends E cs c" "cs_NetGraph c = Graph_AddVertex v (cs_NetGraph cs)"
      by (rule AddVertex_wf [OF assms(2) False assms(3) s])
    with False assms(1) show ?thesis by (simp add: ensure_vertex_def)
  qed
  then show "wf_clpa cs'" "extends E cs cs'" "g_VertexSet (cs_NetGraph cs') = insert v (g_VertexSet (cs_NetGraph cs))"
    "edge_map (cs_NetGraph cs') = edge_map (cs_NetGraph cs)" by simp_all
qed

lemma ensure_vertex_total:
  assumes "wf_clpa cs" and "ShardNum E = cs_ShardNum cs" and "\<not> is_panic (Addr2Shard E v)"
  shows "\<exists>cs'. ensure_vertex E v cs = Inr cs'"
proof (cases "v \<in> g_VertexSet (cs_NetGraph cs)")
  case False
  obtain s where s: "(case cs_PartitionMap cs v of None \<Rightarrow> Addr2Shard E v | Some val \<Rightarrow> Inr val) = Inr s"
    using assms(3) by (cases "cs_PartitionMap cs v") (auto simp: not_panic_iff)
  show ?thesis by (rule AddVertex_wf [OF assms(1) False assms(2) s]) (use False in \<open>simp add: ensure_vertex_def\<close>)
qed (simp add: ensure_vertex_def)

lemma AddEdge_ensure:
  "AddEdge E u v cs = and_then (ensure_vertex E u cs) (\<lambda>cs. and_then (ensure_vertex E v cs)
     (\<lambda>cs. Inr (cs\<lparr>cs_NetGraph := Graph_AddEdge u v (cs_NetGraph cs)\<rparr>)))"
  by (simp add: AddEdge_def ensure_vertex_def)

lemma AddEdge_keeps:
  assumes "AddEdge E u v cs = Inr cs'" and "wf_clpa cs" and "ShardNum E = cs_ShardNum cs"
  shows "wf_clpa cs'" "extends E cs cs'" "g_VertexSet (cs_NetGraph cs') = insert u (insert v (g_VertexSet (cs_NetGraph cs)))"
    "adj (cs_NetGraph cs') w = adj (cs_NetGraph cs) w @ (if w = u then [v] else []) @ (if w = v then [u] else [])"
proof -
  obtain cs1 cs2 where e: "ensure_vertex E u cs = Inr cs1" "ensure_vertex E v cs1 = Inr cs2"
      and c: "cs' = cs2\<lparr>cs_NetGraph := Graph_AddEdge u v (cs_NetGraph cs2)\<rparr>"
    using assms(1) by (auto simp: AddEdge_ensure and_then_Inr)
  note 1 = ensure_vertex_wf [OF e(1) assms(2,3)]
  have n: "ShardNum E = cs_ShardNum cs1" using 1(2) assms(3) by (simp add: extends_def)
  note 2 = ensure_vertex_wf [OF e(2) 1(1) n]
  have V: "g_VertexSet (cs_NetGraph cs') = g_VertexSet (cs_NetGraph cs2)" using 1(3) 2(3) by (auto simp: c Graph_AddEdge_simps)
  show "wf_clpa cs'" using 2(1) V by (simp add: wf_clpa_def graph_ok_AddEdge c)
  show "extends E cs cs'" using extends_trans [OF 1(2) 2(2)] by (simp add: extends_def c)
  show "g_VertexSet (cs_NetGraph cs') = insert u (insert v (g_VertexSet (cs_NetGraph cs)))" unfolding V using 1(3) 2(3) by auto
  show "adj (cs_NetGraph cs') w = adj (cs_NetGraph cs) w @ (if w = u then [v] else []) @ (if w = v then [u] else [])"
    using 1(4) 2(4) by (simp add: c Graph_AddEdge_simps)
qed

lemma AddEdge_total:
  assumes "wf_clpa cs" and "ShardNum E = cs_ShardNum cs" and "\<not> is_panic (Addr2Shard E u)" and "\<not> is_panic (Addr2Shard E v)"
  shows "\<exists>cs'. AddEdge E u v cs = Inr cs'"
proof -
  obtain cs1 where cs1: "ensure_vertex E u cs = Inr cs1" using ensure_vertex_total [OF assms(1-3)] by blast
  note k = ensure_vertex_wf [OF cs1 assms(1,2)]
  have "ShardNum E = cs_ShardNum cs1" using k(2) assms(2) by (simp add: extends_def)
  then obtain cs2 where "ensure_vertex E v cs1 = Inr cs2" using ensure_vertex_total [OF k(1) _ assms(4)] by blast
  then show ?thesis by (simp add: AddEdge_ensure cs1)
qed

lemma Init_wf:
  assumes "0 < sn" "sn \<le> MaxInt" and "g_VertexSet (cs_NetGraph cs) = {}" and "g_EdgeSet (cs_NetGraph cs) = None"
    and "ran m \<subseteq> {0 ..< sn}" and "Init_CLPAState wp mi sn cs = Inr cs'"
  shows "wf_clpa (cs'\<lparr>cs_PartitionMap := m\<rparr>)" "cs_ShardNum cs' = sn"
proof -
  have "cs' = cs\<lparr>cs_WeightPenalty := wp, cs_MaxIterations := mi, cs_ShardNum := sn, cs_VertexsNumInShard := replicate (nat sn) 0, cs_PartitionMap := Map.empty\<rparr>"
    using assms(1,6) by (simp add: Init_CLPAState_def make_ints_def)
  moreover have "replicate (nat sn) 0 = tabulates (nat sn) (placed P {})" for P
    by (simp add: tabulates_def placed_def map_replicate_const)
  ultimately show "wf_clpa (cs'\<lparr>cs_PartitionMap := m\<rparr>)" "cs_ShardNum cs' = sn"
    using assms(1-5) by (auto simp: wf_clpa_def graph_ok_def edge_map_def subset_iff)
qed

section \<open>Initial partitions\<close>

definition filled :: "vertex set \<Rightarrow> 'f clpa_state \<Rightarrow> bool" where
  \<comment> \<open>exactly the vertices of \<open>W\<close> are placed, and counted\<close>
  "filled W cs \<longleftrightarrow> finite W \<and> dom (cs_PartitionMap cs) = W \<and> ran (cs_PartitionMap cs) \<subseteq> {0 ..< cs_ShardNum cs} \<and>
     cs_VertexsNumInShard cs = tabulates (nat (cs_ShardNum cs)) (placed (shard_of cs) W)"

definition only_places :: "'f clpa_state \<Rightarrow> 'f clpa_state \<Rightarrow> bool" where
  "only_places cs cs' \<longleftrightarrow> cs_NetGraph cs' = cs_NetGraph cs \<and> cs_ShardNum cs' = cs_ShardNum cs \<and>
     cs_MaxIterations cs' = cs_MaxIterations cs \<and> cs_WeightPenalty cs' = cs_WeightPenalty cs"

lemma assign_filled:
  assumes "filled W cs" and "v \<notin> W" and "0 \<le> s" "s < cs_ShardNum cs"
  obtains cs' where "assign v s cs = Inr cs'" and "filled (insert v W) cs'" and "only_places cs cs'"
    and "cs_PartitionMap cs' = (cs_PartitionMap cs)(v \<mapsto> s)"
proof -
  let ?n = "nat (cs_ShardNum cs)"
  have f: "finite W" and vn: "cs_VertexsNumInShard cs = tabulates ?n (placed (shard_of cs) W)" using assms(1) by (auto simp: filled_def)
  let ?cs = "cs\<lparr>cs_PartitionMap := (cs_PartitionMap cs)(v \<mapsto> s), cs_VertexsNumInShard := tabulates ?n (placed ((shard_of cs)(v := s)) (insert v W))\<rparr>"
  have "assign v s cs = Inr ?cs"
    using assms(3,4) unfolding assign_def vn by (simp add: add_at_tabulates placed_insert [OF f assms(2)] cong: tabulates_cong)
  moreover have "filled (insert v W) ?cs"
    using assms f unfolding filled_def by (auto simp: shard_of_upd ran_def)
  ultimately show ?thesis by (rule that) (simp_all add: only_places_def)
qed

text \<open>Both initial partitions place the vertices one by one, the \<open>i\<close>-th of them in shard \<open>h i v\<close>.\<close>

lemma place_all:
  assumes "filled W cs" and "distinct vs" and "set vs \<inter> W = {}"
    and "\<And>i v. v \<in> set vs \<Longrightarrow> 0 \<le> h i v \<and> h i v < cs_ShardNum cs"
    and "\<And>i v t. v \<in> set vs \<Longrightarrow> cs_ShardNum t = cs_ShardNum cs \<Longrightarrow> f i v t = assign v (h i v) t"
  shows "\<exists>cs'. go_foldi f i vs cs = Inr cs' \<and> filled (W \<union> set vs) cs' \<and> only_places cs cs' \<and>
    (\<forall>j < length vs. cs_PartitionMap cs' (vs ! j) = Some (h (i + j) (vs ! j))) \<and> (\<forall>v \<in> W. cs_PartitionMap cs' v = cs_PartitionMap cs v)"
  using assms
proof (induction vs arbitrary: W cs i)
  case (Cons v vs)
  have v: "v \<notin> W" "0 \<le> h i v" "h i v < cs_ShardNum cs" using Cons.prems(3,4) by auto
  obtain cs1 where cs1: "assign v (h i v) cs = Inr cs1" "filled (insert v W) cs1" "only_places cs cs1"
      "cs_PartitionMap cs1 = (cs_PartitionMap cs)(v \<mapsto> h i v)"
    by (rule assign_filled [OF Cons.prems(1) v])
  have n: "cs_ShardNum cs1 = cs_ShardNum cs" using cs1(3) by (simp add: only_places_def)
  obtain cs' where cs': "go_foldi f (Suc i) vs cs1 = Inr cs'" "filled (insert v W \<union> set vs) cs'" "only_places cs1 cs'"
      "\<forall>j < length vs. cs_PartitionMap cs' (vs ! j) = Some (h (Suc i + j) (vs ! j))"
      "\<forall>w \<in> insert v W. cs_PartitionMap cs' w = cs_PartitionMap cs1 w"
    using Cons.IH [OF cs1(2), of "Suc i"] Cons.prems(2-5) n by auto
  have "go_foldi f i (v # vs) cs = Inr cs'" using Cons.prems(5) [of v cs i] cs1(1) cs'(1) by simp
  moreover have "only_places cs cs'" using cs1(3) cs'(3) by (simp add: only_places_def)
  moreover have "cs_PartitionMap cs' ((v # vs) ! j) = Some (h (i + j) ((v # vs) ! j))" if "j < length (v # vs)" for j
    using that cs'(4,5) cs1(4) by (cases j) simp_all
  moreover have "\<forall>w \<in> W. cs_PartitionMap cs' w = cs_PartitionMap cs w" using cs'(5) cs1(4) v(1) by auto
  ultimately show ?case using cs'(2) by auto
qed (simp add: only_places_def)

lemma filled_start:
  assumes "make_ints (cs_ShardNum cs) = Inr vn"
  shows "filled {} (cs\<lparr>cs_VertexsNumInShard := vn, cs_PartitionMap := Map.empty\<rparr>)"
  using assms by (auto simp: make_ints_def filled_def tabulates_def placed_def map_replicate_const split: if_splits)

lemma filled_wf:
  assumes "filled (g_VertexSet (cs_NetGraph cs)) cs" and "graph_ok (cs_NetGraph cs)" and "0 < cs_ShardNum cs" "cs_ShardNum cs \<le> MaxInt"
  shows "wf_clpa cs"
  using assms by (auto simp: filled_def wf_clpa_def)

text \<open>
  The balanced start. \<open>Stable_Init_Partition\<close> refuses, without touching the state, a graph with
  fewer vertices than shards. Otherwise it does not panic, the \<open>i\<close>-th visited vertex is in shard
  \<open>i mod ShardNum\<close>, the state is well formed with edge counts of the full computation, and no shard is
  empty.
\<close>

theorem Stable_Init_Partition_correct:
  assumes "graph_ok (cs_NetGraph cs)" and "0 < cs_ShardNum cs" "cs_ShardNum cs \<le> MaxInt" and "edge_order_ok eord"
    and "distinct vord" and "set vord = g_VertexSet (cs_NetGraph cs)"
  shows "if cs_ShardNum cs > int (length vord) then Stable_Init_Partition eord vord cs = Inr (Some TooManyShards, cs)
    else \<exists>cs'. Stable_Init_Partition eord vord cs = Inr (None, cs') \<and> wf_clpa cs' \<and> fresh eord cs' \<and> cs_NetGraph cs' = cs_NetGraph cs \<and>
      (\<forall>i < length vord. cs_PartitionMap cs' (vord ! i) = Some (int i mod cs_ShardNum cs)) \<and>
      shard_of cs' ` g_VertexSet (cs_NetGraph cs) = {0 ..< cs_ShardNum cs}"
proof (cases "cs_ShardNum cs > int (length vord)")
  case True
  moreover have "length vord = card (g_VertexSet (cs_NetGraph cs))" using assms(5,6) distinct_card by metis
  ultimately show ?thesis by (simp add: Stable_Init_Partition_def)
next
  case False
  let ?n = "cs_ShardNum cs" and ?f = "\<lambda>cnt v cs. and_then (go_mod (int cnt) (cs_ShardNum cs)) (\<lambda>s. assign v s cs)"
  have card: "length vord = card (g_VertexSet (cs_NetGraph cs))" using assms(5,6) distinct_card by metis
  obtain vn where vn: "make_ints ?n = Inr vn" using assms(2) by (simp add: make_ints_def)
  let ?c0 = "cs\<lparr>cs_VertexsNumInShard := vn, cs_PartitionMap := Map.empty\<rparr>"
  have "\<exists>c1. go_foldi ?f 0 vord ?c0 = Inr c1 \<and> filled ({} \<union> set vord) c1 \<and> only_places ?c0 c1 \<and>
      (\<forall>j < length vord. cs_PartitionMap c1 (vord ! j) = Some (int (0 + j) mod ?n)) \<and>
      (\<forall>v \<in> {}. cs_PartitionMap c1 v = cs_PartitionMap ?c0 v)"
    by (rule place_all [OF filled_start [OF vn] assms(5)]) (use assms(2) in \<open>simp_all add: go_mod_nonneg\<close>)
  then obtain c1 where c1: "go_foldi ?f 0 vord ?c0 = Inr c1" "filled (set vord) c1" "only_places ?c0 c1"
      "\<forall>j < length vord. cs_PartitionMap c1 (vord ! j) = Some (int j mod ?n)" by auto
  have c1g: "cs_NetGraph c1 = cs_NetGraph cs" "cs_ShardNum c1 = ?n" using c1(3) by (simp_all add: only_places_def)
  then have wf: "wf_clpa c1" using filled_wf [of c1] c1(2) assms(1-3,6) by simp
  let ?c2 = "recounted (edges_of eord c1) c1"
  have "Stable_Init_Partition eord vord cs = Inr (None, ?c2)"
    using False card vn c1(1) fresh_eq(1) [OF wf assms(4)] by (simp add: Stable_Init_Partition_def)
  moreover have "wf_clpa ?c2" "fresh eord ?c2"
    using recounted_wf [OF wf, of "edges_of eord c1"] fresh_eq(2) [OF _ assms(4), of ?c2] by simp_all
  moreover have "shard_of ?c2 ` set vord = {0 ..< ?n}"
  proof (intro equalityI subsetI)
    fix k assume "k \<in> {0 ..< ?n}"
    then have k: "nat k < length vord" "int (nat k) mod ?n = k" using False by (auto simp: nat_less_iff)
    then have "shard_of ?c2 (vord ! nat k) = k" using c1(4) by (simp add: map_default_def)
    then show "k \<in> shard_of ?c2 ` set vord" using k(1) by (metis imageI nth_mem)
  next
    fix k assume "k \<in> shard_of ?c2 ` set vord"
    then show "k \<in> {0 ..< ?n}" using wf_shard(1,2) [OF wf] c1g assms(6) by auto
  qed
  ultimately show ?thesis using False c1(4) c1g assms(6) by auto
qed

lemma init_vertex_Addr2Shard:
  assumes "8 \<le> length v" and "0 < ShardNum E" and "Addr2Shard E v = Inr s" and "cs_ShardNum cs = ShardNum E"
  shows "init_vertex v cs = assign v s cs"
proof -
  obtain num where num: "ParseUint16 (last8 v) = Some num" and s: "go_mod (sint (of_nat num :: u64)) (ShardNum E) = Inr s"
    using assms(3) by (auto simp: Addr2Shard_def split: option.splits)
  have d: "drop (length v - 8) v = last8 v" using assms(1) by (auto simp: last8_def)
  have lt: "num < 2 ^ 63" and si: "sint (of_nat num :: u64) = int num"
    using ParseUint16_last8_lt [OF num] sint_of_small_nat [OF ParseUint16_last8_lt [OF num]] by simp_all
  have "hex_digit (CHR ''-'') = None" "hex_digit (CHR ''+'') = None" by (simp_all add: hex_digit_def)
  then have "ParseInt16 (last8 v) = Some (int num)" using num lt
    by (auto simp: ParseInt16_def ParseUint16_def Let_def split: list.splits if_splits option.splits)
  then show ?thesis using assms s by (simp add: init_vertex_def d si)
qed

text \<open>
  The address-based start. If every vertex has an address of at least eight characters that
  \<open>Addr2Shard\<close> accepts, \<open>Init_Partition\<close> does not panic and puts every vertex exactly where
  \<open>Addr2Shard\<close>, the placement used by all nodes, puts the account; the state is well formed with edge
  counts of the full computation.
\<close>

theorem Init_Partition_is_Addr2Shard:
  assumes "graph_ok (cs_NetGraph cs)" and "cs_ShardNum cs = ShardNum E" and "0 < ShardNum E" "ShardNum E \<le> MaxInt"
    and "edge_order_ok eord" and "distinct vord" and "set vord = g_VertexSet (cs_NetGraph cs)"
    and "\<forall>v \<in> set vord. 8 \<le> length v \<and> \<not> is_panic (Addr2Shard E v)"
  shows "\<exists>cs'. Init_Partition eord vord cs = Inr cs' \<and> wf_clpa cs' \<and> fresh eord cs' \<and> cs_NetGraph cs' = cs_NetGraph cs \<and>
    (\<forall>v \<in> g_VertexSet (cs_NetGraph cs). Addr2Shard E v = Inr (shard_of cs' v))"
proof -
  define h where "h = (\<lambda>v. case Addr2Shard E v of Inl e \<Rightarrow> 0 | Inr s \<Rightarrow> s)"
  have h: "Addr2Shard E v = Inr (h v)" if "v \<in> set vord" for v
    using assms(8) that by (fastforce simp: h_def not_panic_iff)
  obtain vn where vn: "make_ints (cs_ShardNum cs) = Inr vn" using assms(2,3) by (simp add: make_ints_def)
  let ?c0 = "cs\<lparr>cs_VertexsNumInShard := vn, cs_PartitionMap := Map.empty\<rparr>"
  have "go_foldi (\<lambda>i. init_vertex) i vs t = go_fold init_vertex vs t" for i vs and t :: "'a clpa_state"
    by (induction vs arbitrary: i t) (auto intro: and_then_cong)
  moreover have "\<exists>c1. go_foldi (\<lambda>i. init_vertex) 0 vord ?c0 = Inr c1 \<and> filled ({} \<union> set vord) c1 \<and> only_places ?c0 c1 \<and>
      (\<forall>j < length vord. cs_PartitionMap c1 (vord ! j) = Some (h (vord ! j))) \<and> (\<forall>v \<in> {}. cs_PartitionMap c1 v = cs_PartitionMap ?c0 v)"
    by (rule place_all [OF filled_start [OF vn] assms(6)])
      (use assms(2,3,8) h Addr2Shard_range [OF assms(3) h] init_vertex_Addr2Shard [OF _ assms(3) h] in simp_all)
  ultimately obtain c1 where c1: "go_fold init_vertex vord ?c0 = Inr c1" "filled (set vord) c1" "only_places ?c0 c1"
      "\<forall>j < length vord. cs_PartitionMap c1 (vord ! j) = Some (h (vord ! j))" by auto
  have c1g: "cs_NetGraph c1 = cs_NetGraph cs" "cs_ShardNum c1 = ShardNum E" using c1(3) assms(2) by (simp_all add: only_places_def)
  then have wf: "wf_clpa c1" using filled_wf [of c1] c1(2) assms(1,3,4,7) by simp
  let ?c2 = "recounted (edges_of eord c1) c1"
  have "Init_Partition eord vord cs = Inr ?c2" using vn c1(1) fresh_eq(1) [OF wf assms(5)] by (simp add: Init_Partition_def)
  moreover have "wf_clpa ?c2" "fresh eord ?c2"
    using recounted_wf [OF wf, of "edges_of eord c1"] fresh_eq(2) [OF _ assms(5), of ?c2] by simp_all
  moreover have "Addr2Shard E v = Inr (shard_of ?c2 v)" if "v \<in> g_VertexSet (cs_NetGraph cs)" for v
    using c1(4) h that assms(7) by (metis in_set_conv_nth map_default_Some recounted_simps(5))
  ultimately show ?thesis using c1g by auto
qed

section \<open>Properties of the algorithm\<close>

text \<open>
  C18. The incremental update is right. In a well-formed state whose counts are those of the full
  computation, over a graph without loops, put a vertex into another shard. Then
  \<open>changeShardRecompute\<close> does not panic and yields exactly what the full computation
  \<open>ComputeEdges2Shard\<close> yields: all edge counts per shard, their minimum and the number of cross-shard
  edges.
\<close>

theorem changeShardRecompute_exact:
  assumes "wf_clpa cs" and "fresh eord cs" and "no_loops (cs_NetGraph cs)" and "edge_order_ok eord"
    and "v \<in> g_VertexSet (cs_NetGraph cs)" and "0 \<le> new" "new < cs_ShardNum cs" and "new \<noteq> shard_of cs v"
  shows "\<exists>cs'. changeShardRecompute v (shard_of cs v) (cs\<lparr>cs_PartitionMap := (cs_PartitionMap cs)(v \<mapsto> new)\<rparr>) = Inr cs' \<and>
    ComputeEdges2Shard eord (cs\<lparr>cs_PartitionMap := (cs_PartitionMap cs)(v \<mapsto> new)\<rparr>) = Inr cs'"
proof -
  let ?cs = "cs\<lparr>cs_PartitionMap := (cs_PartitionMap cs)(v \<mapsto> new)\<rparr>"
  have g: "graph_ok (cs_NetGraph cs)" and r: "in_range cs" using assms(1) wf_in_range by (auto simp: wf_clpa_def)
  have eq: "recounted (edges_of eord cs) cs = cs" using fresh_eq(2) [OF assms(1,4)] assms(2) by simp
  have "changeShardRecompute v (shard_of cs v) ?cs = ComputeEdges2Shard eord ?cs"
    by (rule changeShard_moved [OF g assms(3) r assms(4-8)]) (simp_all only: eq)
  moreover have "ComputeEdges2Shard eord ?cs = Inr (recounted (edges_of eord ?cs) ?cs)"
    by (rule ComputeEdges2Shard_eq [OF _ _ assms(4)]) (use g r assms(6,7) in \<open>auto simp: in_range_def\<close>)
  ultimately show ?thesis by simp
qed

lemma CLPA_Partition_ok:
  assumes "wf_clpa cs" and "edge_order_ok eord" and "visits_vertices vord (cs_NetGraph cs)"
  shows "\<exists>res cross cs' r. CLPA_Partition fl eord vord cs = Inr ((res, cross), cs') \<and> wf_clpa cs' \<and> fresh eord cs' \<and>
    cross = cs_CrossShardEdgeNum cs' \<and> cs_NetGraph cs' = cs_NetGraph cs \<and> cs_ShardNum cs' = cs_ShardNum cs \<and> dom res \<subseteq> g_VertexSet (cs_NetGraph cs) \<and>
    (\<forall>v. cs_PartitionMap cs' v = (case res v of None \<Rightarrow> cs_PartitionMap cs v | Some s \<Rightarrow> Some (uint s))) \<and>
    shard_of cs' ` g_VertexSet (cs_NetGraph cs) = shard_of cs ` g_VertexSet (cs_NetGraph cs) \<and>
    (no_loops (cs_NetGraph cs) \<longrightarrow>
       clpa_rounds fl vord (cs_MaxIterations cs) \<lparr>ru_state = recounted (edges_of eord cs) cs, ru_res = Map.empty, ru_updates = Map.empty\<rparr> = Inr r \<and>
       ru_state r = cs')"
proof -
  let ?c0 = "recounted (edges_of eord cs) cs"
  let ?r0 = "\<lparr>ru_state = ?c0, ru_res = Map.empty, ru_updates = Map.empty\<rparr>"
  obtain r where r: "clpa_rounds fl vord (cs_MaxIterations cs) ?r0 = Inr r" "run_ok eord cs r"
    using rounds_run_ok [OF run_ok_start [OF assms(1,2)] assms(3,2)] by blast
  have wf: "wf_clpa (ru_state r)" using r(2) by (simp add: run_ok_def)
  let ?c2 = "recounted (edges_of eord (ru_state r)) (ru_state r)"
  have "CLPA_Partition fl eord vord cs = Inr ((ru_res r, cs_CrossShardEdgeNum ?c2), ?c2)"
    using r(1) fresh_eq(1) [OF assms(1,2)] fresh_eq(1) [OF wf assms(2)] by (simp add: CLPA_Partition_def)
  moreover have "wf_clpa ?c2" "fresh eord ?c2"
    using recounted_wf [OF wf, of "edges_of eord (ru_state r)"] fresh_eq(2) [OF _ assms(2), of ?c2] by simp_all
  moreover have "ru_state r = ?c2" if "no_loops (cs_NetGraph cs)"
  proof -
    have "fresh eord (ru_state r)" using r(2) that by (simp add: run_ok_def)
    then show ?thesis unfolding fresh_eq(2) [OF wf assms(2)] by (rule sym)
  qed
  ultimately show ?thesis using r unfolding run_ok_def
    by (intro exI [of _ "ru_res r"] exI [of _ "cs_CrossShardEdgeNum ?c2"] exI [of _ ?c2] exI [of _ r]) (simp only: recounted_simps, simp)
qed

text \<open>
  C17. \<open>CLPA_Partition\<close> returns, for every floating-point behaviour and every visiting order, from every
  well-formed state. The graph is unchanged; the map it returns, which the committee broadcasts,
  mentions only vertices of the graph and is exactly the difference between the old and the new
  placement; a shard has a vertex afterwards if and only if it had one before; vertex and edge counts
  are those of the new placement, and the returned number is the cross-shard edge count. Over a graph
  without loops the loop leaves up-to-date counts already: the final recount changes nothing.
\<close>

theorem CLPA_Partition_returns:
  assumes "wf_clpa cs" and "edge_order_ok eord" and "visits_vertices vord (cs_NetGraph cs)"
  shows "\<exists>res cross cs' r. CLPA_Partition fl eord vord cs = Inr ((res, cross), cs') \<and> wf_clpa cs' \<and> fresh eord cs' \<and>
    cross = cs_CrossShardEdgeNum cs' \<and> cs_NetGraph cs' = cs_NetGraph cs \<and> cs_ShardNum cs' = cs_ShardNum cs \<and> dom res \<subseteq> g_VertexSet (cs_NetGraph cs) \<and>
    (\<forall>v. cs_PartitionMap cs' v = (case res v of None \<Rightarrow> cs_PartitionMap cs v | Some s \<Rightarrow> Some (uint s))) \<and>
    shard_of cs' ` g_VertexSet (cs_NetGraph cs) = shard_of cs ` g_VertexSet (cs_NetGraph cs) \<and>
    (no_loops (cs_NetGraph cs) \<longrightarrow>
       clpa_rounds fl vord (cs_MaxIterations cs) \<lparr>ru_state = recounted (edges_of eord cs) cs, ru_res = Map.empty, ru_updates = Map.empty\<rparr> = Inr r \<and>
       ru_state r = cs')"
  by (rule CLPA_Partition_ok [OF assms])

text \<open>
  C36. Growing the graph. For addresses that \<open>Addr2Shard\<close> accepts, \<open>AddEdge\<close> does not panic and keeps the
  state well formed: the adjacency lists stay symmetric (each endpoint gains the other, a loop twice),
  the vertex counts stay exact, new vertices are placed, and no vertex that had a shard changes it.
\<close>

theorem AddEdge_wf:
  assumes "wf_clpa cs" and "ShardNum E = cs_ShardNum cs" and "\<not> is_panic (Addr2Shard E u)" and "\<not> is_panic (Addr2Shard E v)"
  shows "\<exists>cs'. AddEdge E u v cs = Inr cs' \<and> wf_clpa cs' \<and> cs_PartitionMap cs \<subseteq>\<^sub>m cs_PartitionMap cs' \<and>
    g_VertexSet (cs_NetGraph cs') = g_VertexSet (cs_NetGraph cs) \<union> {u, v} \<and>
    adj (cs_NetGraph cs') u = adj (cs_NetGraph cs) u @ (if u = v then [v, u] else [v])"
proof -
  obtain cs' where "AddEdge E u v cs = Inr cs'" using AddEdge_total [OF assms] by blast
  with AddEdge_keeps [OF this assms(1,2)] show ?thesis by (auto simp: extends_def)
qed

section \<open>A concrete graph for the witnesses\<close>

definition demo_order :: edge_order where
  "demo_order m = sorted_list_of_set (dom m)"

definition demo_fl :: "int float_ops" where
  "demo_fl = \<lparr>fl_of_int = id, fl_mul = (*), fl_div = (div), fl_sub = (-), fl_less = (<)\<rparr>"

definition demo_graph :: graph where
  "demo_graph = \<lparr>g_VertexSet = {''000000a0'', ''000000b1'', ''000000c0''},
     g_EdgeSet = Some [''000000a0'' \<mapsto> [''000000b1''], ''000000b1'' \<mapsto> [''000000a0'']]\<rparr>"

definition demo_clpa :: "int clpa_state" where
  "demo_clpa = \<lparr>cs_NetGraph = demo_graph, cs_PartitionMap = [''000000a0'' \<mapsto> 0, ''000000b1'' \<mapsto> 1, ''000000c0'' \<mapsto> 0],
     cs_Edges2Shard = [1, 1], cs_VertexsNumInShard = [2, 1], cs_WeightPenalty = 0, cs_MinEdges2Shard = 1,
     cs_MaxIterations = 100, cs_CrossShardEdgeNum = 1, cs_ShardNum = 2\<rparr>"

definition demo_vertices :: "vertex list" where
  "demo_vertices = [''000000a0'', ''000000b1'', ''000000c0'']"

lemma demo_order_ok: "edge_order_ok demo_order"
  by (simp add: edge_order_ok_def demo_order_def ranges_over_def)

lemma demo_graph_ok: "graph_ok demo_graph" "no_loops demo_graph"
  by (auto simp: demo_graph_def graph_ok_def no_loops_def edge_map_def map_default_def)

lemma demo_vertices_ok: "distinct demo_vertices" "set demo_vertices = g_VertexSet demo_graph"
  by (auto simp: demo_vertices_def demo_graph_def)

lemma demo_placed: "placed (shard_of demo_clpa) (g_VertexSet demo_graph) 0 = 2" "placed (shard_of demo_clpa) (g_VertexSet demo_graph) 1 = 1"
proof -
  have "{v \<in> g_VertexSet demo_graph. shard_of demo_clpa v = 0} = {''000000a0'', ''000000c0''}"
    "{v \<in> g_VertexSet demo_graph. shard_of demo_clpa v = 1} = {''000000b1''}"
    by (auto simp: demo_graph_def demo_clpa_def map_default_def)
  then show "placed (shard_of demo_clpa) (g_VertexSet demo_graph) 0 = 2" "placed (shard_of demo_clpa) (g_VertexSet demo_graph) 1 = 1"
    by (simp_all add: placed_def)
qed

lemma demo_wf: "wf_clpa demo_clpa"
proof -
  have "tabulates 2 (placed (shard_of demo_clpa) (g_VertexSet demo_graph)) = [2, 1]"
    using demo_placed by (simp add: tabulates_def upt_rec)
  then show ?thesis using demo_graph_ok
    by (auto simp: wf_clpa_def demo_clpa_def MaxInt_def demo_graph_def ran_def split: if_splits)
qed

lemma demo_fresh: "fresh demo_order demo_clpa"
proof -
  have "dom (edge_map demo_graph) = {''000000a0'', ''000000b1''}" by (auto simp: edge_map_def demo_graph_def)
  then have "demo_order (edge_map demo_graph) = [''000000a0'', ''000000b1'']" by (simp add: demo_order_def)
  then show ?thesis
    by (simp add: fresh_def ComputeEdges2Shard_def demo_clpa_def make_ints_def count_edge_def add_at_def
        edge_map_def demo_graph_def map_default_def numeral_2_eq_2 least_def MaxInt_def)
qed

theorem changeShardRecompute_exact_witness:
  "wf_clpa demo_clpa \<and> no_loops (cs_NetGraph demo_clpa) \<and>
   (\<exists>cs'. changeShardRecompute ''000000a0'' (shard_of demo_clpa ''000000a0'') (demo_clpa\<lparr>cs_PartitionMap := (cs_PartitionMap demo_clpa)(''000000a0'' \<mapsto> 1)\<rparr>) = Inr cs' \<and>
    ComputeEdges2Shard demo_order (demo_clpa\<lparr>cs_PartitionMap := (cs_PartitionMap demo_clpa)(''000000a0'' \<mapsto> 1)\<rparr>) = Inr cs')"
proof -
  have h: "no_loops (cs_NetGraph demo_clpa)" "''000000a0'' \<in> g_VertexSet (cs_NetGraph demo_clpa)" "(0::int) \<le> 1" "1 < cs_ShardNum demo_clpa"
    "1 \<noteq> shard_of demo_clpa ''000000a0''"
    using demo_graph_ok by (simp_all add: demo_clpa_def demo_graph_def map_default_def)
  show ?thesis using demo_wf h(1) changeShardRecompute_exact [OF demo_wf demo_fresh h(1) demo_order_ok h(2-5)] by blast
qed

theorem CLPA_Partition_returns_witness:
  "wf_clpa demo_clpa \<and> (\<exists>res cross cs'. CLPA_Partition demo_fl demo_order (\<lambda>i. demo_vertices) demo_clpa = Inr ((res, cross), cs') \<and> wf_clpa cs' \<and>
     shard_of cs' ` g_VertexSet demo_graph = {0, 1})"
proof -
  have g: "cs_NetGraph demo_clpa = demo_graph" by (simp add: demo_clpa_def)
  have v: "visits_vertices (\<lambda>i. demo_vertices) (cs_NetGraph demo_clpa)" using demo_vertices_ok by (simp add: visits_vertices_def g)
  have "shard_of demo_clpa ` g_VertexSet demo_graph = {0, 1}" by (auto simp: demo_clpa_def demo_graph_def map_default_def)
  moreover obtain res cross cs' where "CLPA_Partition demo_fl demo_order (\<lambda>i. demo_vertices) demo_clpa = Inr ((res, cross), cs')" "wf_clpa cs'"
      "shard_of cs' ` g_VertexSet demo_graph = shard_of demo_clpa ` g_VertexSet demo_graph"
    using CLPA_Partition_returns [OF demo_wf demo_order_ok v, of demo_fl] unfolding g by (elim exE conjE) (rule that)
  ultimately show ?thesis using demo_wf by auto
qed

theorem AddEdge_wf_witness:
  "wf_clpa demo_clpa \<and> (\<exists>cs'. AddEdge demo_env ''000000a0'' ''000000d1'' demo_clpa = Inr cs' \<and> wf_clpa cs' \<and>
     ''000000d1'' \<in> g_VertexSet (cs_NetGraph cs'))"
proof -
  have h: "ShardNum demo_env = cs_ShardNum demo_clpa" by (simp add: demo_env_simps demo_clpa_def)
  have a: "\<not> is_panic (Addr2Shard demo_env ''000000a0'')" "\<not> is_panic (Addr2Shard demo_env ''000000d1'')"
    by (simp_all add: Addr2Shard_def last8_def ParseUint16_def hex_digit_def demo_env_simps go_mod_def)
  show ?thesis using demo_wf AddEdge_wf [OF demo_wf h a] by blast
qed

theorem Stable_Init_Partition_correct_witness:
  "graph_ok (cs_NetGraph demo_clpa) \<and> (\<exists>cs'. Stable_Init_Partition demo_order demo_vertices demo_clpa = Inr (None, cs') \<and>
     shard_of cs' ` g_VertexSet demo_graph = {0, 1})"
proof -
  have g: "cs_NetGraph demo_clpa = demo_graph" "cs_ShardNum demo_clpa = 2" by (simp_all add: demo_clpa_def)
  have h: "graph_ok (cs_NetGraph demo_clpa)" "0 < cs_ShardNum demo_clpa" "cs_ShardNum demo_clpa \<le> MaxInt" "set demo_vertices = g_VertexSet (cs_NetGraph demo_clpa)"
    using demo_graph_ok demo_vertices_ok by (simp_all add: g MaxInt_def)
  have "{0 ..< 2 :: int} = {0, 1}" by auto
  moreover have "length demo_vertices = 3" by (simp add: demo_vertices_def)
  ultimately show ?thesis
    using h(1) Stable_Init_Partition_correct [OF h(1-3) demo_order_ok demo_vertices_ok(1) h(4)] unfolding g by auto
qed

theorem Init_Partition_is_Addr2Shard_witness:
  "graph_ok (cs_NetGraph demo_clpa) \<and> (\<exists>cs'. Init_Partition demo_order demo_vertices demo_clpa = Inr cs' \<and> wf_clpa cs' \<and>
     Addr2Shard demo_env ''000000b1'' = Inr (shard_of cs' ''000000b1''))"
proof -
  have g: "cs_NetGraph demo_clpa = demo_graph" "cs_ShardNum demo_clpa = ShardNum demo_env" by (simp_all add: demo_clpa_def demo_env_simps)
  have h: "graph_ok (cs_NetGraph demo_clpa)" "0 < ShardNum demo_env" "ShardNum demo_env \<le> MaxInt" "set demo_vertices = g_VertexSet (cs_NetGraph demo_clpa)"
    "''000000b1'' \<in> g_VertexSet (cs_NetGraph demo_clpa)"
    using demo_graph_ok demo_vertices_ok by (simp_all add: g MaxInt_def demo_env_simps demo_graph_def)
  have a: "\<forall>v \<in> set demo_vertices. 8 \<le> length v \<and> \<not> is_panic (Addr2Shard demo_env v)"
    by (simp add: demo_vertices_def Addr2Shard_def last8_def ParseUint16_def hex_digit_def demo_env_simps go_mod_def)
  show ?thesis
    using h(1,5) Init_Partition_is_Addr2Shard [OF h(1) g(2) h(2,3) demo_order_ok demo_vertices_ok(1) h(4) a] by blast
qed

end
