(* ===== verification/Committee_Clpa.thy ===== *)
theory Committee_Clpa
  imports Committee Clpa_Partition
begin

text \<open>
  The CLPA committee, \<open>supervisor/committee/committee_clpa.go\<close>, and the part of the supervisor that
  feeds it (\<open>handleBlockInfos\<close> of \<open>supervisor/supervisor.go\<close>). The committee injects the workload like
  the relay committee, collects the graph of the transactions that the leaders report, and from time
  to time partitions the graph, broadcasts the accounts that move and starts a new graph.

  \<open>MsgSendingControl\<close> runs concurrently with the handling of reports, so it is the step relation
  \<open>clpa_step\<close>: its position is \<open>clpa_pc\<close>, and reports may come between any two steps. One step reads a
  row and sends the batch it completes, another checks the timer and partitions, others wait; \<open>clpaLock\<close>
  makes one partitioning and one report atomic, and sending a batch uses nothing that a report changes.
  The parameters \<open>fl\<close> (floating point), \<open>eord\<close> (order of visiting the edge map) are those of
  \<open>Clpa_Graph\<close>; \<open>wp\<close> is the constant 0.5.
\<close>

section \<open>The committee\<close>

record 'f clpa_committee =
  ccm_dataTotalNum :: int
  ccm_nowDataNum :: int
  ccm_batchDataNum :: int
  ccm_curEpoch :: int
  ccm_clpaGraph :: "'f clpa_state"
  ccm_modifiedMap :: "address \<rightharpoonup> u64"
  ccm_clpaLastRunningTime :: gotime
  ccm_clpaFreq :: int
  ccm_Ss :: stop_signal
  ccm_IpNodeTable :: ip_table
  ccm_out :: out

definition new_CLPAState :: "'f \<Rightarrow> 'f clpa_state" where
  \<comment> \<open>\<open>new(partition.CLPAState)\<close>; \<open>zero\<close> is the float 0\<close>
  "new_CLPAState zero = \<lparr>cs_NetGraph = \<lparr>g_VertexSet = {}, g_EdgeSet = None\<rparr>, cs_PartitionMap = Map.empty, cs_Edges2Shard = [],
     cs_VertexsNumInShard = [], cs_WeightPenalty = zero, cs_MinEdges2Shard = 0, cs_MaxIterations = 0, cs_CrossShardEdgeNum = 0,
     cs_ShardNum = 0\<rparr>"

definition new_graph :: "go_env \<Rightarrow> 'f \<Rightarrow> 'f \<Rightarrow> 'f clpa_state go" where
  "new_graph E zero wp = Init_CLPAState wp 100 (ShardNum E) (new_CLPAState zero)"

definition NewCLPACommitteeModule ::
  "go_env \<Rightarrow> 'f \<Rightarrow> 'f \<Rightarrow> ip_table \<Rightarrow> stop_signal \<Rightarrow> int \<Rightarrow> int \<Rightarrow> int \<Rightarrow> 'f clpa_committee go" where
  "NewCLPACommitteeModule E zero wp ips Ss dataNum batchNum clpaFrequency =
     and_then (new_graph E zero wp) (\<lambda>cg.
       Inr \<lparr>ccm_dataTotalNum = dataNum, ccm_nowDataNum = 0, ccm_batchDataNum = batchNum, ccm_curEpoch = 0, ccm_clpaGraph = cg,
            ccm_modifiedMap = Map.empty, ccm_clpaLastRunningTime = 0, ccm_clpaFreq = clpaFrequency, ccm_Ss = Ss,
            ccm_IpNodeTable = ips, ccm_out = []\<rparr>)"

definition fetchModifiedMap :: "go_env \<Rightarrow> (address \<rightharpoonup> u64) \<Rightarrow> address \<Rightarrow> u64 go" where
  "fetchModifiedMap E m key = (case m key of None \<Rightarrow> Addr2Shard64 E key | Some val \<Rightarrow> Inr val)"

definition clpa_route :: "go_env \<Rightarrow> (address \<rightharpoonup> u64) \<Rightarrow> transaction \<Rightarrow> u64 go" where
  "clpa_route E m tx = fetchModifiedMap E m (tx_Sender tx)"

definition clpa_txSending :: "go_env \<Rightarrow> transaction list \<Rightarrow> 'f clpa_committee \<Rightarrow> 'f clpa_committee go" where
  "clpa_txSending E txlist ccm =
     and_then (txSending E (ccm_IpNodeTable ccm) (clpa_route E (ccm_modifiedMap ccm)) txlist) (\<lambda>o'.
       Inr (ccm\<lparr>ccm_out := ccm_out ccm @ o'\<rparr>))"

definition clpaMapSend :: "go_env \<Rightarrow> (address \<rightharpoonup> u64) \<Rightarrow> 'f clpa_committee \<Rightarrow> 'f clpa_committee" where
  "clpaMapSend E m ccm = ccm\<lparr>ccm_out := ccm_out ccm @ map (\<lambda>i. (ccm_IpNodeTable ccm i 0, PartitionMsg m)) (all_shards E)\<rparr>"

definition clpaReset :: "go_env \<Rightarrow> 'f \<Rightarrow> 'f \<Rightarrow> 'f clpa_committee \<Rightarrow> 'f clpa_committee go" where
  "clpaReset E zero wp ccm =
     and_then (new_graph E zero wp) (\<lambda>cg.
       Inr (ccm\<lparr>ccm_clpaGraph := cg\<lparr>cs_PartitionMap := (\<lambda>key. map_option sint (ccm_modifiedMap ccm key))\<rparr>\<rparr>))"

definition clpa_epoch ::
  "go_env \<Rightarrow> 'f float_ops \<Rightarrow> edge_order \<Rightarrow> 'f \<Rightarrow> 'f \<Rightarrow> (nat \<Rightarrow> vertex list) \<Rightarrow> 'f clpa_committee \<Rightarrow> 'f clpa_committee go" where
  \<comment> \<open>what \<open>MsgSendingControl\<close> does while it holds \<open>clpaLock\<close>\<close>
  "clpa_epoch E fl eord zero wp vord ccm =
     and_then (CLPA_Partition fl eord vord (ccm_clpaGraph ccm)) (\<lambda>((mmap, _), cg).
       let ccm = clpaMapSend E mmap (ccm\<lparr>ccm_clpaGraph := cg\<rparr>)
       in clpaReset E zero wp (ccm\<lparr>ccm_modifiedMap := ccm_modifiedMap ccm ++ mmap\<rparr>))"

definition HandleBlockInfo :: "go_env \<Rightarrow> block_info \<Rightarrow> 'f clpa_committee \<Rightarrow> 'f clpa_committee go" where
  "HandleBlockInfo E b ccm =
     (let ccm = (if ccm_curEpoch ccm = to_int32 (bi_Epoch b - 1) then ccm\<lparr>ccm_curEpoch := to_int32 (bi_Epoch b)\<rparr> else ccm)
      in if bi_BlockBodyLength b = 0 then Inr ccm
         else
           and_then (go_fold (\<lambda>tx. AddEdge E (tx_Sender tx) (tx_Recipient tx)) (bi_InnerShardTxs b) (ccm_clpaGraph ccm)) (\<lambda>cg.
           and_then (go_fold (\<lambda>r2tx. AddEdge E (tx_Sender r2tx) (tx_Recipient r2tx)) (bi_Relay2Txs b) cg) (\<lambda>cg.
             Inr (ccm\<lparr>ccm_clpaGraph := cg\<rparr>))))"

definition handleBlockInfos :: "go_env \<Rightarrow> block_info \<Rightarrow> 'f clpa_committee \<Rightarrow> 'f clpa_committee go" where
  \<comment> \<open>the supervisor's handler of a report: stop signal, then committee\<close>
  "handleBlockInfos E bim ccm =
     HandleBlockInfo E bim (ccm\<lparr>ccm_Ss := (if bi_BlockBodyLength bim = 0 then StopGap_Inc (ccm_Ss ccm) else StopGap_Reset (ccm_Ss ccm))\<rparr>)"

section \<open>The control loop\<close>

datatype clpa_pc =
    ReadRows "row list" "transaction list"
  | CheckTimer "row list" "transaction list"
  | WaitEpoch "row list" "transaction list"
  | Drain
  | WaitDrain
  | Finished

record 'f clpa_run =
  rn_ccm :: "'f clpa_committee"
  rn_pc :: clpa_pc
  rn_clpaCnt :: int

definition second :: int where
  "second = 1000000000"

definition clpa_due :: "gotime \<Rightarrow> 'f clpa_committee \<Rightarrow> bool" where
  \<comment> \<open>\<open>time.Since(clpaLastRunningTime) >= clpaFreq\<close> seconds\<close>
  "clpa_due t ccm \<longleftrightarrow> t - ccm_clpaLastRunningTime ccm \<ge> ccm_clpaFreq ccm * second"

definition clpa_batch :: "go_env \<Rightarrow> gotime \<Rightarrow> transaction list \<Rightarrow> 'f clpa_committee \<Rightarrow> 'f clpa_committee go" where
  "clpa_batch E t txlist ccm =
     and_then (clpa_txSending E txlist
                 (if ccm_clpaLastRunningTime ccm = 0 then ccm\<lparr>ccm_clpaLastRunningTime := t\<rparr> else ccm)) (\<lambda>ccm.
       Inr (ccm\<lparr>ccm_Ss := StopGap_Reset (ccm_Ss ccm)\<rparr>))"

definition after_row :: "row list \<Rightarrow> transaction list \<Rightarrow> 'f clpa_committee \<Rightarrow> clpa_pc" where
  "after_row rows txlist ccm = (if ccm_nowDataNum ccm = ccm_dataTotalNum ccm then Drain else ReadRows rows txlist)"

definition timer_due :: "go_env \<Rightarrow> gotime \<Rightarrow> 'f clpa_committee \<Rightarrow> bool" where
  \<comment> \<open>the condition for a partitioning in the reading loop\<close>
  "timer_due E t ccm \<longleftrightarrow> ShardNum E > 1 \<and> ccm_clpaLastRunningTime ccm \<noteq> 0 \<and> clpa_due t ccm"

definition read_row ::
  "go_env \<Rightarrow> (string \<Rightarrow> int option) \<Rightarrow> gotime \<Rightarrow> gotime \<Rightarrow> string list \<Rightarrow> row list \<Rightarrow> transaction list \<Rightarrow> 'f clpa_run \<Rightarrow> 'f clpa_run go" where
  \<comment> \<open>one turn of the reading loop up to the timer; the transaction is made at \<open>t0\<close>, the batch sent at \<open>t1\<close>\<close>
  "read_row E pv t0 t1 data rows txlist r =
     (let ccm = rn_ccm r in
      and_then (data2tx E pv t0 data (of_int (ccm_nowDataNum ccm))) (\<lambda>otx. case otx of
        None \<Rightarrow> Inr (r\<lparr>rn_pc := ReadRows rows txlist\<rparr>)
      | Some tx \<Rightarrow>
          let txlist = txlist @ [tx];
              ccm = ccm\<lparr>ccm_nowDataNum := ccm_nowDataNum ccm + 1\<rparr>;
              full = (int (length txlist) = ccm_batchDataNum ccm \<or> ccm_nowDataNum ccm = ccm_dataTotalNum ccm)
          in and_then (if full then clpa_batch E t1 txlist ccm else Inr ccm) (\<lambda>ccm.
               Inr (r\<lparr>rn_ccm := ccm, rn_pc := CheckTimer rows (if full then [] else txlist)\<rparr>))))"

definition epoch_over :: "'f clpa_run \<Rightarrow> bool" where
  "epoch_over r \<longleftrightarrow> ccm_curEpoch (rn_ccm r) = to_int32 (rn_clpaCnt r)"

inductive clpa_step ::
  "go_env \<Rightarrow> 'f float_ops \<Rightarrow> edge_order \<Rightarrow> 'f \<Rightarrow> 'f \<Rightarrow> (string \<Rightarrow> int option) \<Rightarrow> 'f clpa_run \<Rightarrow> 'f clpa_run \<Rightarrow> bool"
  for E fl eord zero wp pv where
  read: "rn_pc r = ReadRows (Some data # rows) txlist \<Longrightarrow> read_row E pv t0 t1 data rows txlist r = Inr r' \<Longrightarrow>
    clpa_step E fl eord zero wp pv r r'"
| partition: "rn_pc r = CheckTimer rows txlist \<Longrightarrow> timer_due E t (rn_ccm r) \<Longrightarrow>
    visits_vertices vord (cs_NetGraph (ccm_clpaGraph (rn_ccm r))) \<Longrightarrow> clpa_epoch E fl eord zero wp vord (rn_ccm r) = Inr ccm \<Longrightarrow>
    clpa_step E fl eord zero wp pv r (r\<lparr>rn_ccm := ccm, rn_clpaCnt := rn_clpaCnt r + 1, rn_pc := WaitEpoch rows txlist\<rparr>)"
| early: "rn_pc r = CheckTimer rows txlist \<Longrightarrow> \<not> timer_due E t (rn_ccm r) \<Longrightarrow>
    clpa_step E fl eord zero wp pv r (r\<lparr>rn_pc := after_row rows txlist (rn_ccm r)\<rparr>)"
| eof: "rn_pc r = ReadRows [] txlist \<Longrightarrow> clpa_step E fl eord zero wp pv r (r\<lparr>rn_pc := Drain\<rparr>)"
| released: "rn_pc r = WaitEpoch rows txlist \<Longrightarrow> epoch_over r \<Longrightarrow> ccm = (rn_ccm r)\<lparr>ccm_clpaLastRunningTime := t\<rparr> \<Longrightarrow>
    clpa_step E fl eord zero wp pv r (r\<lparr>rn_ccm := ccm, rn_pc := after_row rows txlist ccm\<rparr>)"
| drain: "rn_pc r = Drain \<Longrightarrow> \<not> GapEnough (ccm_Ss (rn_ccm r)) \<Longrightarrow> clpa_due t (rn_ccm r) \<Longrightarrow>
    visits_vertices vord (cs_NetGraph (ccm_clpaGraph (rn_ccm r))) \<Longrightarrow> clpa_epoch E fl eord zero wp vord (rn_ccm r) = Inr ccm \<Longrightarrow>
    clpa_step E fl eord zero wp pv r (r\<lparr>rn_ccm := ccm, rn_clpaCnt := rn_clpaCnt r + 1, rn_pc := WaitDrain\<rparr>)"
| drain_released: "rn_pc r = WaitDrain \<Longrightarrow> epoch_over r \<Longrightarrow>
    clpa_step E fl eord zero wp pv r (r\<lparr>rn_ccm := (rn_ccm r)\<lparr>ccm_clpaLastRunningTime := t\<rparr>, rn_pc := Drain\<rparr>)"
| finish: "rn_pc r = Drain \<Longrightarrow> GapEnough (ccm_Ss (rn_ccm r)) \<Longrightarrow> clpa_step E fl eord zero wp pv r (r\<lparr>rn_pc := Finished\<rparr>)"
| report: "handleBlockInfos E b (rn_ccm r) = Inr ccm \<Longrightarrow> clpa_step E fl eord zero wp pv r (r\<lparr>rn_ccm := ccm\<rparr>)"

inductive clpa_reachable ::
  "go_env \<Rightarrow> 'f float_ops \<Rightarrow> edge_order \<Rightarrow> 'f \<Rightarrow> 'f \<Rightarrow> (string \<Rightarrow> int option) \<Rightarrow> 'f clpa_run \<Rightarrow> bool"
  for E fl eord zero wp pv where
  start: "NewCLPACommitteeModule E zero wp ips Ss dataNum batchNum freq = Inr ccm \<Longrightarrow>
    clpa_reachable E fl eord zero wp pv \<lparr>rn_ccm = ccm, rn_pc = ReadRows rows [], rn_clpaCnt = 0\<rparr>"
| step: "clpa_reachable E fl eord zero wp pv r \<Longrightarrow> clpa_step E fl eord zero wp pv r r' \<Longrightarrow> clpa_reachable E fl eord zero wp pv r'"

section \<open>Lemmas\<close>

definition clpa_router_ok :: "go_env \<Rightarrow> (address \<rightharpoonup> u64) \<Rightarrow> bool" where
  "clpa_router_ok E m \<longleftrightarrow> shards_ok E \<and> (\<forall>s \<in> ran m. uint s < ShardNum E)"

lemma fetch_range: "clpa_router_ok E m \<Longrightarrow> fetchModifiedMap E m a = Inr s \<Longrightarrow> uint s < ShardNum E"
  by (auto simp: clpa_router_ok_def fetchModifiedMap_def ran_def split: option.splits dest: Addr2Shard64_range(1))

interpretation clpa_sender: tx_router clpa_router_ok clpa_route
  by unfold_locales (auto simp: clpa_router_ok_def clpa_route_def intro: fetch_range [unfolded clpa_router_ok_def])

definition partition_maps :: "string \<Rightarrow> out \<Rightarrow> (address \<rightharpoonup> u64) list" where
  \<comment> \<open>the modified maps sent to an address\<close>
  "partition_maps ip out = concat (map (\<lambda>(ip', m). case m of PartitionMsg mm \<Rightarrow> if ip' = ip then [mm] else [] | _ \<Rightarrow> []) out)"

lemma partition_maps_simps [simp]:
  "partition_maps ip [] = []" "partition_maps ip (xs @ ys) = partition_maps ip xs @ partition_maps ip ys"
  by (simp_all add: partition_maps_def)

lemma partition_maps_inject [simp]: "partition_maps ip (inject E ips b) = []"
  by (simp add: partition_maps_def inject_def comp_def)

lemma send_loop_no_maps:
  "send_loop E ips route idx txs b out = Inr out' \<Longrightarrow> partition_maps ip out' = partition_maps ip out"
  by (induction E ips route idx txs b out rule: send_loop.induct) (auto simp: and_then_Inr Let_def split: if_splits)

lemma partition_maps_broadcast:
  assumes "shards_ok E" and "separate E ips" and "sid \<in> set (all_shards E)"
  shows "partition_maps (ips sid 0) (map (\<lambda>i. (ips i 0, PartitionMsg m)) (all_shards E)) = [m]"
  using concat_at_shard [OF assms, of "\<lambda>s. [m]"] by (simp add: partition_maps_def comp_def)

definition clpa_inv :: "go_env \<Rightarrow> 'f clpa_committee \<Rightarrow> bool" where
  "clpa_inv E ccm \<longleftrightarrow>
     clpa_router_ok E (ccm_modifiedMap ccm) \<and> wf_clpa (ccm_clpaGraph ccm) \<and> cs_ShardNum (ccm_clpaGraph ccm) = ShardNum E \<and>
     (\<forall>v s. ccm_modifiedMap ccm v = Some s \<longrightarrow> cs_PartitionMap (ccm_clpaGraph ccm) v = Some (uint s)) \<and>
     (\<forall>v s. cs_PartitionMap (ccm_clpaGraph ccm) v = Some s \<longrightarrow> fetchModifiedMap E (ccm_modifiedMap ccm) v = Inr (of_int s)) \<and>
     (separate E (ccm_IpNodeTable ccm) \<longrightarrow> (\<forall>sid \<in> set (all_shards E).
        ccm_modifiedMap ccm = foldl (++) Map.empty (partition_maps (ccm_IpNodeTable ccm sid 0) (ccm_out ccm))))"

lemma clpa_inv_cong:
  assumes "ccm_modifiedMap c' = ccm_modifiedMap c" "ccm_clpaGraph c' = ccm_clpaGraph c" "ccm_IpNodeTable c' = ccm_IpNodeTable c"
    and "\<And>ip. partition_maps ip (ccm_out c') = partition_maps ip (ccm_out c)"
  shows "clpa_inv E c' \<longleftrightarrow> clpa_inv E c"
  by (simp add: clpa_inv_def assms)

lemma sint_small: "shards_ok E \<Longrightarrow> uint (s :: u64) < ShardNum E \<Longrightarrow> sint s = uint s"
  by (auto simp: shards_ok_def sint_uint intro!: signed_take_bit_int_eq_self intro: order.trans [OF _ uint_ge_0])

lemma reset_graph:
  assumes "clpa_router_ok E m" and "new_graph E zero wp = Inr cg"
  shows "wf_clpa (cg\<lparr>cs_PartitionMap := (\<lambda>key. map_option sint (m key))\<rparr>)" "cs_ShardNum cg = ShardNum E"
proof -
  have n: "0 < ShardNum E" "ShardNum E \<le> MaxInt" using assms(1) by (auto simp: clpa_router_ok_def shards_ok_def MaxInt_def)
  have r: "ran (\<lambda>key. map_option sint (m key)) \<subseteq> {0 ..< ShardNum E}"
    using assms(1) sint_small by (fastforce simp: ran_def clpa_router_ok_def)
  show "wf_clpa (cg\<lparr>cs_PartitionMap := (\<lambda>key. map_option sint (m key))\<rparr>)" "cs_ShardNum cg = ShardNum E"
    using Init_wf [OF n _ _ r assms(2) [unfolded new_graph_def]] by (simp_all add: new_CLPAState_def)
qed

lemma new_graph_total: "shards_ok E \<Longrightarrow> \<exists>cg. new_graph E zero wp = Inr cg"
  by (simp add: new_graph_def Init_CLPAState_def make_ints_def shards_ok_def)

lemma clpa_start_inv:
  assumes "shards_ok E" and "NewCLPACommitteeModule E zero wp ips Ss dn bn fr = Inr ccm"
  shows "clpa_inv E ccm"
proof -
  have r: "clpa_router_ok E Map.empty" using assms(1) by (simp add: clpa_router_ok_def)
  obtain cg where cg: "new_graph E zero wp = Inr cg" using assms(2) by (auto simp: NewCLPACommitteeModule_def and_then_Inr)
  then have "cs_PartitionMap cg = Map.empty" by (auto simp: new_graph_def Init_CLPAState_def and_then_Inr)
  then have "cg\<lparr>cs_PartitionMap := (\<lambda>key. map_option sint (Map.empty key))\<rparr> = cg" by (intro clpa_state.equality) simp_all
  with reset_graph(1) [OF r cg] have "wf_clpa cg" by metis
  then show ?thesis using assms(2) cg reset_graph(2) [OF r cg] r \<open>cs_PartitionMap cg = Map.empty\<close>
    by (auto simp: NewCLPACommitteeModule_def clpa_inv_def)
qed

lemma clpa_epoch_ok:
  assumes "clpa_inv E ccm" and "edge_order_ok eord" and "visits_vertices vord (cs_NetGraph (ccm_clpaGraph ccm))"
  obtains ccm' mmap cross cg where "clpa_epoch E fl eord zero wp vord ccm = Inr ccm'" and "clpa_inv E ccm'"
    and "CLPA_Partition fl eord vord (ccm_clpaGraph ccm) = Inr ((mmap, cross), cg)"
    and "ccm_modifiedMap ccm' = ccm_modifiedMap ccm ++ mmap" and "dom mmap \<subseteq> g_VertexSet (cs_NetGraph (ccm_clpaGraph ccm))"
    and "\<And>v. v \<in> g_VertexSet (cs_NetGraph (ccm_clpaGraph ccm)) \<Longrightarrow> fetchModifiedMap E (ccm_modifiedMap ccm') v = Inr (of_int (shard_of cg v))"
proof -
  let ?g = "ccm_clpaGraph ccm" and ?mm = "ccm_modifiedMap ccm"
  have wf: "wf_clpa ?g" and sh: "shards_ok E" and n: "cs_ShardNum ?g = ShardNum E"
    and fetch: "\<And>v s. cs_PartitionMap ?g v = Some s \<Longrightarrow> fetchModifiedMap E ?mm v = Inr (of_int s)"
    using assms(1) by (auto simp: clpa_inv_def clpa_router_ok_def)
  obtain mmap cross cg where p: "CLPA_Partition fl eord vord ?g = Inr ((mmap, cross), cg)" and wf': "wf_clpa cg"
      and g': "cs_NetGraph cg = cs_NetGraph ?g" and dom: "dom mmap \<subseteq> g_VertexSet (cs_NetGraph ?g)"
      and pm: "\<forall>v. cs_PartitionMap cg v = (case mmap v of None \<Rightarrow> cs_PartitionMap ?g v | Some s \<Rightarrow> Some (uint s))"
      and n': "cs_ShardNum cg = cs_ShardNum ?g"
    using CLPA_Partition_ok [OF wf assms(2,3), of fl] by (elim exE conjE) (rule that)
  let ?mm' = "?mm ++ mmap"
  have ran: "uint s < ShardNum E" if "mmap v = Some s" for v s
  proof -
    have "uint s \<in> ran (cs_PartitionMap cg)" using pm that by (auto intro!: ranI [of _ v])
    then show ?thesis using wf' n n' by (auto simp: wf_clpa_def)
  qed
  have ok: "clpa_router_ok E ?mm'" using assms(1) ran by (auto simp: clpa_inv_def clpa_router_ok_def ran_def map_add_Some_iff)
  obtain cg' where cg': "new_graph E zero wp = Inr cg'" using new_graph_total [OF sh, of zero wp] by blast
  let ?g' = "cg'\<lparr>cs_PartitionMap := (\<lambda>key. map_option sint (?mm' key))\<rparr>"
  let ?c = "(clpaMapSend E mmap (ccm\<lparr>ccm_clpaGraph := cg\<rparr>))\<lparr>ccm_modifiedMap := ?mm', ccm_clpaGraph := ?g'\<rparr>"
  have e: "clpa_epoch E fl eord zero wp vord ccm = Inr ?c"
    using p cg' by (simp add: clpa_epoch_def clpaReset_def clpaMapSend_def Let_def)
  have s: "sint s = uint s" if "?mm' v = Some s" for v s using ranI [of ?mm', OF that] ok sint_small [OF sh] unfolding clpa_router_ok_def by blast
  have "clpa_inv E ?c"
    unfolding clpa_inv_def
  proof (intro conjI allI impI ballI)
    show "clpa_router_ok E (ccm_modifiedMap ?c)" using ok by simp
    show "wf_clpa (ccm_clpaGraph ?c)" using reset_graph(1) [OF ok cg'] by simp
    show "cs_ShardNum (ccm_clpaGraph ?c) = ShardNum E" using reset_graph(2) [OF ok cg'] by simp
    show "cs_PartitionMap (ccm_clpaGraph ?c) v = Some (uint s)" if "ccm_modifiedMap ?c v = Some s" for v s using that s by simp
    show "fetchModifiedMap E (ccm_modifiedMap ?c) v = Inr (of_int s)" if "cs_PartitionMap (ccm_clpaGraph ?c) v = Some s" for v s
      using that by (cases "?mm' v") (auto simp: fetchModifiedMap_def simp del: map_add_Some_iff map_add_None)
    show "ccm_modifiedMap ?c = foldl (++) Map.empty (partition_maps (ccm_IpNodeTable ?c sid 0) (ccm_out ?c))"
      if "separate E (ccm_IpNodeTable ?c)" "sid \<in> set (all_shards E)" for sid
      using that assms(1) partition_maps_broadcast [OF sh, of "ccm_IpNodeTable ccm" sid mmap] by (auto simp: clpa_inv_def clpaMapSend_def)
  qed
  moreover have "fetchModifiedMap E (ccm_modifiedMap ?c) v = Inr (of_int (shard_of cg v))" if vV: "v \<in> g_VertexSet (cs_NetGraph ?g)" for v
  proof (cases "mmap v")
    case None
    obtain t where t: "cs_PartitionMap ?g v = Some t" using wf vV by (auto simp: wf_clpa_def)
    then have "shard_of cg v = t" using pm None by (simp add: map_default_def)
    moreover have "fetchModifiedMap E (?mm ++ mmap) v = fetchModifiedMap E ?mm v" using None by (simp add: fetchModifiedMap_def map_add_def)
    ultimately show ?thesis using fetch [OF t] by simp
  next
    case (Some t)
    then show ?thesis using pm by (simp add: fetchModifiedMap_def map_add_def map_default_def)
  qed
  ultimately show ?thesis using that [of ?c mmap cross cg] e p dom by simp
qed

lemma AddEdges_inv:
  assumes "clpa_inv E ccm" and "go_fold (\<lambda>tx. AddEdge E (f tx) (g tx)) txs (ccm_clpaGraph ccm) = Inr cg"
  shows "clpa_inv E (ccm\<lparr>ccm_clpaGraph := cg\<rparr>)"
  using assms
proof (induction txs arbitrary: ccm)
  case Nil
  then show ?case by (auto simp: clpa_inv_def)
next
  case (Cons tx txs)
  have wf: "wf_clpa (ccm_clpaGraph ccm)" and n: "ShardNum E = cs_ShardNum (ccm_clpaGraph ccm)" using Cons.prems(1) by (auto simp: clpa_inv_def)
  obtain c where c: "AddEdge E (f tx) (g tx) (ccm_clpaGraph ccm) = Inr c" "go_fold (\<lambda>tx. AddEdge E (f tx) (g tx)) txs c = Inr cg"
    using Cons.prems(2) by (auto simp: and_then_Inr)
  note k = AddEdge_keeps [OF c(1) wf n]
  let ?c = "ccm\<lparr>ccm_clpaGraph := c\<rparr>"
  have "clpa_inv E ?c" unfolding clpa_inv_def
  proof (intro conjI allI impI)
    show "cs_PartitionMap (ccm_clpaGraph ?c) v = Some (uint s)" if "ccm_modifiedMap ?c v = Some s" for v s
      using that Cons.prems(1) extends_Some [OF k(2)] by (simp add: clpa_inv_def)
    show "fetchModifiedMap E (ccm_modifiedMap ?c) v = Inr (of_int s)" if "cs_PartitionMap (ccm_clpaGraph ?c) v = Some s" for v s
    proof (cases "cs_PartitionMap (ccm_clpaGraph ccm) v")
      case None
      then have "Addr2Shard E v = Inr s" using that k(2) by (simp add: extends_def)
      moreover have "ccm_modifiedMap ccm v = None" using None Cons.prems(1) by (cases "ccm_modifiedMap ccm v") (simp_all add: clpa_inv_def)
      ultimately show ?thesis by (simp add: fetchModifiedMap_def Addr2Shard64_def)
    next
      case (Some t)
      then have "t = s" using that extends_Some [OF k(2) Some] by simp
      then show ?thesis using Some Cons.prems(1) by (simp add: clpa_inv_def)
    qed
  qed (use Cons.prems(1) k(1,2) in \<open>auto simp: clpa_inv_def extends_def\<close>)
  moreover have "go_fold (\<lambda>tx. AddEdge E (f tx) (g tx)) txs (ccm_clpaGraph ?c) = Inr cg" using c(2) by simp
  ultimately show ?case using Cons.IH [of ?c] by simp
qed

lemma clpa_txSending_inv:
  assumes "clpa_inv E ccm" and "clpa_txSending E txs ccm = Inr ccm'"
  shows "clpa_inv E ccm'" "ccm_clpaGraph ccm' = ccm_clpaGraph ccm" "ccm_modifiedMap ccm' = ccm_modifiedMap ccm"
proof -
  obtain o' where o': "send_loop E (ccm_IpNodeTable ccm) (clpa_route E (ccm_modifiedMap ccm)) 0 txs Map.empty [] = Inr o'"
      and c: "ccm' = ccm\<lparr>ccm_out := ccm_out ccm @ o'\<rparr>"
    using assms(2) by (auto simp: clpa_txSending_def txSending_def and_then_Inr)
  have "partition_maps ip o' = []" for ip using send_loop_no_maps [OF o'] by simp
  then show "clpa_inv E ccm'" using assms(1) clpa_inv_cong [of ccm' ccm E] by (simp add: c)
  show "ccm_clpaGraph ccm' = ccm_clpaGraph ccm" "ccm_modifiedMap ccm' = ccm_modifiedMap ccm" by (simp_all add: c)
qed

lemma clpa_batch_inv:
  assumes "clpa_inv E ccm" and "clpa_batch E t txs ccm = Inr ccm'"
  shows "clpa_inv E ccm'" "ccm_clpaGraph ccm' = ccm_clpaGraph ccm"
proof -
  let ?c0 = "if ccm_clpaLastRunningTime ccm = 0 then ccm\<lparr>ccm_clpaLastRunningTime := t\<rparr> else ccm"
  obtain c1 where c1: "clpa_txSending E txs ?c0 = Inr c1" "ccm' = c1\<lparr>ccm_Ss := StopGap_Reset (ccm_Ss c1)\<rparr>"
    using assms(2) by (auto simp: clpa_batch_def and_then_Inr)
  have "clpa_inv E ?c0" using assms(1) clpa_inv_cong [of ?c0 ccm E] by simp
  note k = clpa_txSending_inv [OF this c1(1)]
  show "clpa_inv E ccm'" using k(1) clpa_inv_cong [of ccm' c1 E] by (simp add: c1(2))
  show "ccm_clpaGraph ccm' = ccm_clpaGraph ccm" using k(2) by (simp add: c1(2))
qed

lemma clpa_inv_epoch:
  assumes "clpa_inv E ccm" and "edge_order_ok eord" and "visits_vertices vord (cs_NetGraph (ccm_clpaGraph ccm))"
    and "clpa_epoch E fl eord zero wp vord ccm = Inr ccm'"
  shows "clpa_inv E ccm'"
  by (rule clpa_epoch_ok [OF assms(1-3), where fl = fl and zero = zero and wp = wp]) (use assms(4) in simp)

definition report_ok :: "go_env \<Rightarrow> block_info \<Rightarrow> bool" where
  \<comment> \<open>all accounts of a report have addresses \<open>Addr2Shard\<close> accepts\<close>
  "report_ok E b \<longleftrightarrow> list_all (\<lambda>tx. \<not> is_panic (Addr2Shard E (tx_Sender tx)) \<and> \<not> is_panic (Addr2Shard E (tx_Recipient tx)))
     (bi_InnerShardTxs b @ bi_Relay2Txs b)"

lemma HandleBlockInfo_inv:
  assumes "clpa_inv E ccm" and "HandleBlockInfo E b ccm = Inr ccm'"
  shows "clpa_inv E ccm'"
proof -
  define c0 where "c0 = (if ccm_curEpoch ccm = to_int32 (bi_Epoch b - 1) then ccm\<lparr>ccm_curEpoch := to_int32 (bi_Epoch b)\<rparr> else ccm)"
  have i: "clpa_inv E c0" using assms(1) clpa_inv_cong [of c0 ccm E] by (simp add: c0_def)
  show ?thesis
  proof (cases "bi_BlockBodyLength b = 0")
    case True
    with assms(2) i show ?thesis by (simp add: HandleBlockInfo_def c0_def Let_def)
  next
    case False
    obtain g1 g2 where g: "go_fold (\<lambda>tx. AddEdge E (tx_Sender tx) (tx_Recipient tx)) (bi_InnerShardTxs b) (ccm_clpaGraph c0) = Inr g1"
        "go_fold (\<lambda>tx. AddEdge E (tx_Sender tx) (tx_Recipient tx)) (bi_Relay2Txs b) g1 = Inr g2" "ccm' = c0\<lparr>ccm_clpaGraph := g2\<rparr>"
      using assms(2) False by (auto simp: HandleBlockInfo_def c0_def Let_def and_then_Inr split del: if_split)
    have "clpa_inv E (c0\<lparr>ccm_clpaGraph := g1\<rparr>)" by (rule AddEdges_inv [OF i g(1)])
    from AddEdges_inv [OF this, where cg = g2 and f = tx_Sender and g = tx_Recipient and txs = "bi_Relay2Txs b"] g(2,3)
    show ?thesis by simp
  qed
qed

lemma handleBlockInfos_inv:
  assumes "clpa_inv E ccm" and "handleBlockInfos E b ccm = Inr ccm'"
  shows "clpa_inv E ccm'"
proof -
  let ?c = "ccm\<lparr>ccm_Ss := (if bi_BlockBodyLength b = 0 then StopGap_Inc (ccm_Ss ccm) else StopGap_Reset (ccm_Ss ccm))\<rparr>"
  have "clpa_inv E ?c" using assms(1) clpa_inv_cong [of ?c ccm E] by simp
  from HandleBlockInfo_inv [OF this assms(2) [unfolded handleBlockInfos_def]] show ?thesis .
qed

lemma read_row_inv:
  assumes "clpa_inv E (rn_ccm r)" and "read_row E pv t0 t1 data rows txlist r = Inr r'"
  shows "clpa_inv E (rn_ccm r')"
proof -
  obtain otx where otx: "data2tx E pv t0 data (of_int (ccm_nowDataNum (rn_ccm r))) = Inr otx"
    using assms(2) by (auto simp: read_row_def and_then_Inr Let_def)
  show ?thesis
  proof (cases otx)
    case None
    with otx assms show ?thesis by (auto simp: read_row_def Let_def)
  next
    case (Some tx)
    define c0 where "c0 = (rn_ccm r)\<lparr>ccm_nowDataNum := ccm_nowDataNum (rn_ccm r) + 1\<rparr>"
    define full where "full = (int (length (txlist @ [tx])) = ccm_batchDataNum c0 \<or> ccm_nowDataNum c0 = ccm_dataTotalNum c0)"
    have i0: "clpa_inv E c0" using assms(1) clpa_inv_cong [of c0 "rn_ccm r" E] by (simp add: c0_def)
    obtain c1 where c1: "(if full then clpa_batch E t1 (txlist @ [tx]) c0 else Inr c0) = Inr c1" and r': "rn_ccm r' = c1"
      using assms(2) unfolding read_row_def Let_def otx Some and_then_simps option.case
      unfolding c0_def [symmetric] full_def [symmetric] and_then_Inr by auto
    then show ?thesis using i0 clpa_batch_inv(1) [OF i0, of t1 "txlist @ [tx]" c1] by (auto split: if_splits)
  qed
qed

lemma clpa_step_inv:
  assumes "clpa_step E fl eord zero wp pv r r'" and "clpa_inv E (rn_ccm r)" and "edge_order_ok eord"
  shows "clpa_inv E (rn_ccm r')"
  using assms(1)
proof (cases rule: clpa_step.cases)
  case (read data rows txlist t0 t1)
  then show ?thesis using read_row_inv [OF assms(2) read(2)] by simp
next
  case (partition rows txlist t vord ccm)
  then show ?thesis using clpa_inv_epoch [OF assms(2,3) partition(4,5)] by simp
next
  case (drain t vord ccm)
  then show ?thesis using clpa_inv_epoch [OF assms(2,3) drain(5,6)] by simp
next
  case (report b ccm)
  then show ?thesis using handleBlockInfos_inv [OF assms(2) report(2)] by simp
qed (use assms(2) in \<open>auto simp: clpa_inv_def\<close>)

lemma clpa_reachable_inv:
  assumes "clpa_reachable E fl eord zero wp pv r" and "shards_ok E" and "edge_order_ok eord"
  shows "clpa_inv E (rn_ccm r)"
  using assms
  by (induction rule: clpa_reachable.induct) (auto intro: clpa_start_inv clpa_step_inv)

lemma AddEdges_total:
  assumes "wf_clpa cs" and "ShardNum E = cs_ShardNum cs"
    and "\<And>tx. tx \<in> set txs \<Longrightarrow> \<not> is_panic (Addr2Shard E (tx_Sender tx)) \<and> \<not> is_panic (Addr2Shard E (tx_Recipient tx))"
  shows "\<exists>cs'. go_fold (\<lambda>tx. AddEdge E (tx_Sender tx) (tx_Recipient tx)) txs cs = Inr cs' \<and> wf_clpa cs' \<and> cs_ShardNum cs' = cs_ShardNum cs \<and>
    g_VertexSet (cs_NetGraph cs') = g_VertexSet (cs_NetGraph cs) \<union> tx_Sender ` set txs \<union> tx_Recipient ` set txs"
  using assms
proof (induction txs arbitrary: cs)
  case (Cons tx txs)
  obtain c where c: "AddEdge E (tx_Sender tx) (tx_Recipient tx) cs = Inr c"
    using AddEdge_total [OF Cons.prems(1,2)] Cons.prems(3) [of tx] by auto
  note k = AddEdge_keeps [OF c Cons.prems(1,2)]
  have n: "ShardNum E = cs_ShardNum c" "cs_ShardNum c = cs_ShardNum cs" using k(2) Cons.prems(2) by (simp_all add: extends_def)
  show ?case using Cons.IH [OF k(1) n(1)] Cons.prems(3) c k(3) n(2) by auto
qed simp

lemma handleBlockInfos_total:
  assumes "clpa_inv E ccm" and "report_ok E b"
  shows "\<exists>ccm'. handleBlockInfos E b ccm = Inr ccm' \<and> ccm_modifiedMap ccm' = ccm_modifiedMap ccm \<and> (bi_BlockBodyLength b \<noteq> 0 \<longrightarrow>
    g_VertexSet (cs_NetGraph (ccm_clpaGraph ccm')) = g_VertexSet (cs_NetGraph (ccm_clpaGraph ccm)) \<union>
      tx_Sender ` set (bi_InnerShardTxs b @ bi_Relay2Txs b) \<union> tx_Recipient ` set (bi_InnerShardTxs b @ bi_Relay2Txs b))"
proof (cases "bi_BlockBodyLength b = 0")
  case True
  then show ?thesis by (simp add: handleBlockInfos_def HandleBlockInfo_def Let_def)
next
  case False
  let ?add = "\<lambda>tx. AddEdge E (tx_Sender tx) (tx_Recipient tx)"
  have wf: "wf_clpa (ccm_clpaGraph ccm)" and n: "ShardNum E = cs_ShardNum (ccm_clpaGraph ccm)" using assms(1) by (auto simp: clpa_inv_def)
  have a: "tx \<in> set (bi_InnerShardTxs b) \<or> tx \<in> set (bi_Relay2Txs b) \<Longrightarrow>
      \<not> is_panic (Addr2Shard E (tx_Sender tx)) \<and> \<not> is_panic (Addr2Shard E (tx_Recipient tx))" for tx
    using assms(2) by (auto simp: report_ok_def list_all_iff)
  obtain g1 where g1: "go_fold ?add (bi_InnerShardTxs b) (ccm_clpaGraph ccm) = Inr g1" "wf_clpa g1" "cs_ShardNum g1 = cs_ShardNum (ccm_clpaGraph ccm)"
      "g_VertexSet (cs_NetGraph g1) = g_VertexSet (cs_NetGraph (ccm_clpaGraph ccm)) \<union> tx_Sender ` set (bi_InnerShardTxs b) \<union> tx_Recipient ` set (bi_InnerShardTxs b)"
    using AddEdges_total [OF wf n, of "bi_InnerShardTxs b"] a by blast
  have n1: "ShardNum E = cs_ShardNum g1" using n g1(3) by simp
  obtain g2 where g2: "go_fold ?add (bi_Relay2Txs b) g1 = Inr g2"
      "g_VertexSet (cs_NetGraph g2) = g_VertexSet (cs_NetGraph g1) \<union> tx_Sender ` set (bi_Relay2Txs b) \<union> tx_Recipient ` set (bi_Relay2Txs b)"
    using AddEdges_total [OF g1(2) n1, of "bi_Relay2Txs b"] a by blast
  have V: "g_VertexSet (cs_NetGraph g2) = g_VertexSet (cs_NetGraph (ccm_clpaGraph ccm)) \<union>
      tx_Sender ` set (bi_InnerShardTxs b @ bi_Relay2Txs b) \<union> tx_Recipient ` set (bi_InnerShardTxs b @ bi_Relay2Txs b)"
    unfolding g2(2) g1(4) by auto
  show ?thesis
  proof (intro exI conjI impI)
    show "handleBlockInfos E b ccm = Inr ((if ccm_curEpoch ccm = to_int32 (bi_Epoch b - 1) then ccm\<lparr>ccm_Ss := StopGap_Reset (ccm_Ss ccm), ccm_curEpoch := to_int32 (bi_Epoch b)\<rparr>
        else ccm\<lparr>ccm_Ss := StopGap_Reset (ccm_Ss ccm)\<rparr>)\<lparr>ccm_clpaGraph := g2\<rparr>)"
      using False g1(1) g2(1) by (simp add: handleBlockInfos_def HandleBlockInfo_def Let_def)
  qed (use V in simp_all)
qed

section \<open>Properties of the CLPA committee\<close>

text \<open>
  C14. One truth about placement. In every state the CLPA committee can reach, with reports arriving
  at any time, the graph is well formed, and for each of its accounts the routing of transactions
  (\<open>fetchModifiedMap\<close>) and the placement in the graph (\<open>PartitionMap\<close>) name the same shard; every shard
  the routing map names exists.
\<close>

theorem clpa_placement_invariant:
  assumes "clpa_reachable E fl eord zero wp pv r" and "shards_ok E" and "edge_order_ok eord"
  shows "wf_clpa (ccm_clpaGraph (rn_ccm r)) \<and>
    (\<forall>v \<in> g_VertexSet (cs_NetGraph (ccm_clpaGraph (rn_ccm r))).
       fetchModifiedMap E (ccm_modifiedMap (rn_ccm r)) v = Inr (of_int (shard_of (ccm_clpaGraph (rn_ccm r)) v))) \<and>
    (\<forall>s \<in> ran (ccm_modifiedMap (rn_ccm r)). uint s < ShardNum E)"
proof -
  let ?g = "ccm_clpaGraph (rn_ccm r)" and ?mm = "ccm_modifiedMap (rn_ccm r)"
  have i: "clpa_inv E (rn_ccm r)" by (rule clpa_reachable_inv [OF assms])
  have "fetchModifiedMap E ?mm v = Inr (of_int (shard_of ?g v))" if vV: "v \<in> g_VertexSet (cs_NetGraph ?g)" for v
  proof -
    obtain s where s: "cs_PartitionMap ?g v = Some s" using i vV by (auto simp: clpa_inv_def wf_clpa_def)
    then show ?thesis using i by (simp add: clpa_inv_def map_default_Some)
  qed
  then show ?thesis using i by (simp add: clpa_inv_def clpa_router_ok_def)
qed

text \<open>
  C15. What the shards are told is what the committee believes. In every reachable state, the routing
  map of the committee is the result of applying, in order, the modified maps sent to the leader of any
  one shard. A chain that has applied those maps places every account where the committee routes it.
\<close>

theorem clpa_maps_announced:
  assumes "clpa_reachable E fl eord zero wp pv r" and "shards_ok E" and "edge_order_ok eord"
    and "separate E (ccm_IpNodeTable (rn_ccm r))" and "uint sid < ShardNum E"
    and "bc_PartitionMap bc = foldl (++) Map.empty (partition_maps (ccm_IpNodeTable (rn_ccm r) sid 0) (ccm_out (rn_ccm r)))"
  shows "Get_PartitionMap E bc a = fetchModifiedMap E (ccm_modifiedMap (rn_ccm r)) a"
proof -
  have "clpa_inv E (rn_ccm r)" by (rule clpa_reachable_inv [OF assms(1-3)])
  moreover have "sid \<in> set (all_shards E)" using all_shards_iff [OF assms(2)] assms(5) by simp
  ultimately have "bc_PartitionMap bc = ccm_modifiedMap (rn_ccm r)" using assms(4,6) by (simp add: clpa_inv_def)
  then show ?thesis by (simp add: Get_PartitionMap_def fetchModifiedMap_def Addr2Shard64_def split: option.split)
qed


text \<open>
  Injection under repartitioning. In every reachable state, sending a batch of transactions whose
  senders have a shard returns, and the leader of each shard is sent exactly the transactions the
  current map routes there, in order and in messages of at most \<open>InjectSpeed\<close> transactions; none is lost.
\<close>

theorem clpa_batch_delivered:
  assumes "clpa_reachable E fl eord zero wp pv r" and "shards_ok E" and "edge_order_ok eord"
    and "separate E (ccm_IpNodeTable (rn_ccm r))" and "0 < InjectSpeed E"
    and "\<forall>tx \<in> set txs. \<not> is_panic (clpa_route E (ccm_modifiedMap (rn_ccm r)) tx)"
  shows "\<exists>ccm o'. clpa_txSending E txs (rn_ccm r) = Inr ccm \<and> ccm_out ccm = ccm_out (rn_ccm r) @ o' \<and> bounded_injects (InjectSpeed E) o' \<and>
    (\<forall>sid. uint sid < ShardNum E \<longrightarrow> injected (ccm_IpNodeTable (rn_ccm r) sid 0) o' =
       filter (\<lambda>tx. clpa_route E (ccm_modifiedMap (rn_ccm r)) tx = Inr sid) txs) \<and>
    (\<forall>tx \<in> set txs. \<exists>sid. uint sid < ShardNum E \<and> tx \<in> set (injected (ccm_IpNodeTable (rn_ccm r) sid 0) o'))"
proof -
  let ?c = "rn_ccm r"
  have ok: "clpa_router_ok E (ccm_modifiedMap ?c)" using clpa_reachable_inv [OF assms(1-3)] by (simp add: clpa_inv_def)
  have np: "tx \<in> set txs \<Longrightarrow> \<not> is_panic (clpa_route E (ccm_modifiedMap ?c) tx)" for tx using assms(6) by blast
  obtain o' where o': "txSending E (ccm_IpNodeTable ?c) (clpa_route E (ccm_modifiedMap ?c)) txs = Inr o'" "bounded_injects (InjectSpeed E) o'"
      "\<forall>sid \<in> set (all_shards E). injected (ccm_IpNodeTable ?c sid 0) o' = filter (\<lambda>tx. clpa_route E (ccm_modifiedMap ?c) tx = Inr sid) txs"
    using clpa_sender.send_delivers [OF ok assms(4,5) np] by blast
  have "\<exists>sid. uint sid < ShardNum E \<and> tx \<in> set (injected (ccm_IpNodeTable ?c sid 0) o')" if "tx \<in> set txs" for tx
    using clpa_sender.all_sent [OF ok np that] o'(3) all_shards_iff [OF assms(2)] by fastforce
  then show ?thesis using o' all_shards_iff [OF assms(2)] by (auto simp: clpa_txSending_def)
qed

section \<open>Witnesses\<close>

definition demo_ips :: ip_table where
  "demo_ips s n = (if s = 0 then ''ip0'' else ''ip1'')"

definition demo_payment :: transaction where
  "demo_payment = NewTransaction demo_env ''a0'' ''b1'' 5 0 1 1 0 1"

definition demo_report :: block_info where
  "demo_report = \<lparr>bi_BlockBodyLength = 1, bi_InnerShardTxs = [demo_payment], bi_Epoch = 0, bi_ProposeTime = 1, bi_CommitTime = 2,
     bi_SenderShardID = 0, bi_Relay1Txs = [], bi_Relay2Txs = [], bi_Broker1Txs = [], bi_Broker2Txs = []\<rparr>"

lemma demo_committee_env: "shards_ok demo_env" "separate demo_env demo_ips" "0 < InjectSpeed demo_env"
proof -
  show s: "shards_ok demo_env" by (simp add: shards_ok_def demo_env_simps)
  have "all_shards demo_env = [0, 1]" by (simp add: all_shards_def unat_shards [OF s] demo_env_simps upt_rec)
  then show "separate demo_env demo_ips" by (simp add: separate_def demo_ips_def)
qed (simp add: demo_env_simps)

lemma demo_address: "Addr2Shard demo_env ''a0'' = Inr 0" "Addr2Shard demo_env ''b1'' = Inr 1"
  by (simp_all add: Addr2Shard_def last8_def ParseUint16_def hex_digit_def demo_env_simps go_mod_def)

text \<open>A reachable state after one report: two accounts in the graph.\<close>

lemma demo_reachable:
  obtains r where "clpa_reachable demo_env demo_fl demo_order 0 1 (\<lambda>s. Some 5) r"
    and "g_VertexSet (cs_NetGraph (ccm_clpaGraph (rn_ccm r))) = {''a0'', ''b1''}" and "ccm_IpNodeTable (rn_ccm r) = demo_ips"
    and "ccm_modifiedMap (rn_ccm r) = Map.empty"
proof -
  obtain ccm where ccm: "NewCLPACommitteeModule demo_env (0 :: int) 1 demo_ips (NewStopSignal 6) 10 2 30 = Inr ccm"
    using new_graph_total [OF demo_committee_env(1), of 0 "1 :: int"] by (auto simp: NewCLPACommitteeModule_def)
  let ?r = "\<lparr>rn_ccm = ccm, rn_pc = ReadRows [] [], rn_clpaCnt = 0\<rparr>"
  have r0: "clpa_reachable demo_env demo_fl demo_order 0 1 (\<lambda>s. Some 5) ?r" by (rule clpa_reachable.start [OF ccm])
  have c: "ccm_IpNodeTable ccm = demo_ips" "ccm_modifiedMap ccm = Map.empty" "g_VertexSet (cs_NetGraph (ccm_clpaGraph ccm)) = {}"
    using ccm by (auto simp: NewCLPACommitteeModule_def and_then_Inr new_graph_def Init_CLPAState_def new_CLPAState_def)
  have ok: "report_ok demo_env demo_report" using demo_address by (simp add: report_ok_def demo_report_def demo_payment_def)
  obtain ccm' where h: "handleBlockInfos demo_env demo_report ccm = Inr ccm'" "ccm_modifiedMap ccm' = Map.empty"
      "g_VertexSet (cs_NetGraph (ccm_clpaGraph ccm')) = {''a0'', ''b1''}"
    using handleBlockInfos_total [OF clpa_start_inv [OF demo_committee_env(1) ccm] ok] c by (auto simp: demo_report_def demo_payment_def)
  have "ccm_IpNodeTable ccm' = demo_ips"
    using h(1) c(1) by (auto simp: handleBlockInfos_def HandleBlockInfo_def Let_def and_then_Inr split: if_splits)
  moreover have "clpa_step demo_env demo_fl demo_order 0 1 (\<lambda>s. Some 5) ?r (?r\<lparr>rn_ccm := ccm'\<rparr>)"
    by (rule clpa_step.report [where b = demo_report]) (simp add: h(1))
  ultimately show ?thesis using that [of "?r\<lparr>rn_ccm := ccm'\<rparr>"] clpa_reachable.step [OF r0] h by simp
qed

theorem clpa_placement_invariant_witness:
  "\<exists>r. clpa_reachable demo_env demo_fl demo_order 0 1 (\<lambda>s. Some 5) r \<and>
     fetchModifiedMap demo_env (ccm_modifiedMap (rn_ccm r)) ''b1'' = Inr (of_int (shard_of (ccm_clpaGraph (rn_ccm r)) ''b1''))"
proof -
  obtain r where r: "clpa_reachable demo_env demo_fl demo_order 0 1 (\<lambda>s. Some 5) r"
      "g_VertexSet (cs_NetGraph (ccm_clpaGraph (rn_ccm r))) = {''a0'', ''b1''}" by (rule demo_reachable)
  from clpa_placement_invariant [OF r(1) demo_committee_env(1) demo_order_ok] r show ?thesis by auto
qed

theorem clpa_maps_announced_witness:
  "\<exists>r. clpa_reachable demo_env demo_fl demo_order 0 1 (\<lambda>s. Some 5) r \<and>
     (\<exists>bc. Get_PartitionMap demo_env bc ''b1'' = fetchModifiedMap demo_env (ccm_modifiedMap (rn_ccm r)) ''b1'')"
proof -
  obtain r where r: "clpa_reachable demo_env demo_fl demo_order 0 1 (\<lambda>s. Some 5) r" "ccm_IpNodeTable (rn_ccm r) = demo_ips"
    by (rule demo_reachable)
  have s: "separate demo_env (ccm_IpNodeTable (rn_ccm r))" "uint (0 :: u64) < ShardNum demo_env"
    using demo_committee_env(2) r(2) by (simp_all add: demo_env_simps)
  let ?m = "foldl (++) Map.empty (partition_maps (ccm_IpNodeTable (rn_ccm r) 0 0) (ccm_out (rn_ccm r)))"
  have "bc_PartitionMap (bc\<lparr>bc_PartitionMap := ?m\<rparr>) = ?m" for bc :: blockchain by simp
  from clpa_maps_announced [OF r(1) demo_committee_env(1) demo_order_ok s this] r(1) show ?thesis by blast
qed


theorem clpa_batch_delivered_witness:
  "\<exists>r ccm. clpa_reachable demo_env demo_fl demo_order 0 1 (\<lambda>s. Some 5) r \<and> clpa_txSending demo_env [demo_payment] (rn_ccm r) = Inr ccm"
proof -
  obtain r where r: "clpa_reachable demo_env demo_fl demo_order 0 1 (\<lambda>s. Some 5) r" "ccm_IpNodeTable (rn_ccm r) = demo_ips"
      "ccm_modifiedMap (rn_ccm r) = Map.empty"
    by (rule demo_reachable)
  have s: "separate demo_env (ccm_IpNodeTable (rn_ccm r))" using demo_committee_env(2) r(2) by simp
  have a: "\<forall>tx \<in> set [demo_payment]. \<not> is_panic (clpa_route demo_env (ccm_modifiedMap (rn_ccm r)) tx)"
    using r(3) by (simp add: clpa_route_def fetchModifiedMap_def Addr2Shard64_def demo_payment_def demo_address)
  from clpa_batch_delivered [OF r(1) demo_committee_env(1) demo_order_ok s demo_committee_env(3) a] r(1) show ?thesis by blast
qed

end
