(* ===== verification/Committee_Broker.thy ===== *)
theory Committee_Broker
  imports Committee_Clpa
begin

text \<open>
  The broker committees: \<open>broker/broker.go\<close>, \<open>supervisor/committee/committee_broker.go\<close> and
  \<open>supervisor/committee/committee_clpa_broker.go\<close>. A cross-shard transfer between ordinary accounts is
  replaced by two transactions: the first pays the broker in the shard of the sender; when a shard
  reports that it was executed, the committee sends the second, by which the broker pays the recipient
  in the recipient's shard.

  The two committees share this code literally; it is modelled once, over the record \<open>broker_part\<close> of
  the fields it uses and the function \<open>fetch\<close> for \<open>fetchModifiedMap\<close>. The functions return what they send.
  \<open>dg\<close> is the digest of a raw message (SHA-256 of its JSON), \<open>tm i\<close> the time at which the \<open>i\<close>-th transaction
  of a call is made. Fields of the message structs marked as ignored in the source are left out.
\<close>

section \<open>Messages and state\<close>

record raw_meg =
  rm_Tx :: transaction
  rm_Broker :: address

record type1_meg =
  t1_RawMeg :: raw_meg
  t1_Broker :: address

record mag1_confirm =
  m1_Tx1Hash :: bytes
  m1_RawMeg :: raw_meg

record type2_meg =
  t2_RawMeg :: raw_meg
  t2_Broker :: address

record mag2_confirm =
  m2_Tx2Hash :: bytes
  m2_RawMeg :: raw_meg

record broker =
  br_BrokerRawMegs :: "bytes \<rightharpoonup> raw_meg"
  br_BrokerAddress :: "address list"
  br_RawTx2BrokerTx :: "bytes \<rightharpoonup> bytes list"

fun initBrokerAddr :: "int \<Rightarrow> string list \<Rightarrow> address list" where
  \<comment> \<open>over the lines of the file; no line if it cannot be opened\<close>
  "initBrokerAddr num [] = []"
| "initBrokerAddr num (l # ls) = l # (if num - 1 = 0 then [] else initBrokerAddr (num - 1) ls)"

definition NewBroker :: "int \<Rightarrow> string list \<Rightarrow> broker" where
  "NewBroker BrokerNum ls =
     \<lparr>br_BrokerRawMegs = Map.empty, br_BrokerAddress = initBrokerAddr BrokerNum ls, br_RawTx2BrokerTx = Map.empty\<rparr>"

fun is_listed :: "address list \<Rightarrow> address \<Rightarrow> bool" where
  "is_listed [] a = False"
| "is_listed (b # bs) a = (if b = a then True else is_listed bs a)"

definition IsBroker :: "broker \<Rightarrow> address \<Rightarrow> bool" where
  "IsBroker b a = is_listed (br_BrokerAddress b) a"

record broker_part =
  bp_broker :: broker
  bp_Confirm1Pool :: "bytes \<rightharpoonup> mag1_confirm"
  bp_Confirm2Pool :: "bytes \<rightharpoonup> mag2_confirm"

definition new_broker_part :: "int \<Rightarrow> string list \<Rightarrow> broker_part" where
  "new_broker_part BrokerNum ls = \<lparr>bp_broker = NewBroker BrokerNum ls, bp_Confirm1Pool = Map.empty, bp_Confirm2Pool = Map.empty\<rparr>"

definition first_broker :: "broker_part \<Rightarrow> address go" where
  "first_broker bp = go_nth (br_BrokerAddress (bp_broker bp)) 0"

section \<open>Sending\<close>

definition broker_route :: "(address \<Rightarrow> u64 go) \<Rightarrow> broker \<Rightarrow> transaction \<Rightarrow> u64 go" where
  "broker_route fetch b tx =
     and_then (fetch (tx_Sender tx)) (\<lambda>sendersid.
       if IsBroker b (tx_Sender tx) then fetch (tx_Recipient tx) else Inr sendersid)"

definition broker_txSending :: "go_env \<Rightarrow> ip_table \<Rightarrow> (address \<Rightarrow> u64 go) \<Rightarrow> transaction list \<Rightarrow> broker_part \<Rightarrow> out go" where
  "broker_txSending E ips fetch txlist bp = txSending E ips (broker_route fetch (bp_broker bp)) txlist"

section \<open>First half\<close>

definition make_tx1 :: "go_env \<Rightarrow> gotime \<Rightarrow> type1_meg \<Rightarrow> transaction" where
  "make_tx1 E now m =
     (let ctx = rm_Tx (t1_RawMeg m);
          tx1 = NewTransaction E (tx_Sender ctx) (t1_Broker m) (tx_Value ctx) (tx_Nonce ctx) now (tx_Height ctx) (tx_PairI ctx) (tx_PairJ ctx)
      in tx1\<lparr>tx_OriginalSender := tx_Sender ctx, tx_FinalRecipient := tx_Recipient ctx, tx_RawTxHash := Some (tx_TxHash ctx)\<rparr>)"

definition add_tx1 ::
  "go_env \<Rightarrow> (nat \<Rightarrow> gotime) \<Rightarrow> nat \<Rightarrow> type1_meg \<Rightarrow> transaction list \<times> broker_part \<Rightarrow> (transaction list \<times> broker_part) go" where
  "add_tx1 E tm i m = (\<lambda>(tx1s, bp).
     let tx1 = make_tx1 E (tm i) m
     in Inr (tx1s @ [tx1], bp\<lparr>bp_Confirm1Pool := (bp_Confirm1Pool bp)(tx_TxHash tx1 \<mapsto> \<lparr>m1_Tx1Hash = tx_TxHash tx1, m1_RawMeg = t1_RawMeg m\<rparr>)\<rparr>))"

definition handleBrokerType1Mes ::
  "go_env \<Rightarrow> ip_table \<Rightarrow> (address \<Rightarrow> u64 go) \<Rightarrow> (nat \<Rightarrow> gotime) \<Rightarrow> type1_meg list \<Rightarrow> broker_part \<Rightarrow> (out \<times> broker_part) go" where
  "handleBrokerType1Mes E ips fetch tm megs bp =
     and_then (go_foldi (add_tx1 E tm) 0 megs ([], bp)) (\<lambda>(tx1s, bp).
     and_then (broker_txSending E ips fetch tx1s bp) (\<lambda>o'. Inr (o', bp)))"

definition add_raw :: "(raw_meg \<Rightarrow> bytes) \<Rightarrow> raw_meg \<Rightarrow> type1_meg list \<times> broker_part \<Rightarrow> type1_meg list \<times> broker_part" where
  "add_raw dg meg = (\<lambda>(megs, bp).
     (megs @ [\<lparr>t1_RawMeg = meg, t1_Broker = rm_Broker meg\<rparr>],
      bp\<lparr>bp_broker := (bp_broker bp)\<lparr>br_BrokerRawMegs := (br_BrokerRawMegs (bp_broker bp))(dg meg \<mapsto> meg)\<rparr>\<rparr>))"

definition handleBrokerRawMag ::
  "go_env \<Rightarrow> ip_table \<Rightarrow> (address \<Rightarrow> u64 go) \<Rightarrow> (raw_meg \<Rightarrow> bytes) \<Rightarrow> (nat \<Rightarrow> gotime) \<Rightarrow> raw_meg list \<Rightarrow> broker_part \<Rightarrow> (out \<times> broker_part) go" where
  "handleBrokerRawMag E ips fetch dg tm raws bp =
     (let (megs, bp) = fold (add_raw dg) raws ([], bp) in handleBrokerType1Mes E ips fetch tm megs bp)"

definition mark_broker :: "broker \<Rightarrow> transaction \<Rightarrow> transaction" where
  "mark_broker b tx =
     (if IsBroker b (tx_Recipient tx) \<or> IsBroker b (tx_Sender tx)
      then tx\<lparr>tx_HasBroker := True, tx_SenderIsBroker := IsBroker b (tx_Sender tx)\<rparr> else tx)"

definition deal_tx ::
  "(address \<Rightarrow> u64 go) \<Rightarrow> broker_part \<Rightarrow> transaction \<Rightarrow> transaction list \<times> raw_meg list \<Rightarrow> (transaction list \<times> raw_meg list) go" where
  "deal_tx fetch bp tx = (\<lambda>(itxs, raws).
     and_then (fetch (tx_Recipient tx)) (\<lambda>rSid.
     and_then (fetch (tx_Sender tx)) (\<lambda>sSid.
       if rSid \<noteq> sSid \<and> \<not> IsBroker (bp_broker bp) (tx_Recipient tx) \<and> \<not> IsBroker (bp_broker bp) (tx_Sender tx)
       then and_then (first_broker bp) (\<lambda>b. Inr (itxs, raws @ [\<lparr>rm_Tx = tx, rm_Broker = b\<rparr>]))
       else Inr (itxs @ [mark_broker (bp_broker bp) tx], raws))))"

definition dealTxByBroker ::
  "go_env \<Rightarrow> ip_table \<Rightarrow> (address \<Rightarrow> u64 go) \<Rightarrow> (raw_meg \<Rightarrow> bytes) \<Rightarrow> (nat \<Rightarrow> gotime) \<Rightarrow> transaction list \<Rightarrow> broker_part \<Rightarrow>
   (transaction list \<times> out \<times> broker_part) go" where
  "dealTxByBroker E ips fetch dg tm txs bp =
     and_then (go_fold (deal_tx fetch bp) txs ([], [])) (\<lambda>(itxs, raws).
       if raws = [] then Inr (itxs, [], bp)
       else and_then (handleBrokerRawMag E ips fetch dg tm raws bp) (\<lambda>(o', bp). Inr (itxs, o', bp)))"

section \<open>Second half\<close>

definition make_tx2 :: "go_env \<Rightarrow> gotime \<Rightarrow> type2_meg \<Rightarrow> transaction" where
  "make_tx2 E now m =
     (let ctx = rm_Tx (t2_RawMeg m);
          tx2 = NewTransaction E (t2_Broker m) (tx_Recipient ctx) (tx_Value ctx) (tx_Nonce ctx) now (tx_Height ctx) (tx_PairI ctx) (tx_PairJ ctx)
      in tx2\<lparr>tx_OriginalSender := tx_Sender ctx, tx_FinalRecipient := tx_Recipient ctx, tx_RawTxHash := Some (tx_TxHash ctx)\<rparr>)"

definition add_tx2 ::
  "go_env \<Rightarrow> (nat \<Rightarrow> gotime) \<Rightarrow> nat \<Rightarrow> type2_meg \<Rightarrow> transaction list \<times> broker_part \<Rightarrow> (transaction list \<times> broker_part) go" where
  "add_tx2 E tm i m = (\<lambda>(tx2s, bp).
     let tx2 = make_tx2 E (tm i) m
     in Inr (tx2s @ [tx2], bp\<lparr>bp_Confirm2Pool := (bp_Confirm2Pool bp)(tx_TxHash tx2 \<mapsto> \<lparr>m2_Tx2Hash = tx_TxHash tx2, m2_RawMeg = t2_RawMeg m\<rparr>)\<rparr>))"

definition handleBrokerType2Mes ::
  "go_env \<Rightarrow> ip_table \<Rightarrow> (address \<Rightarrow> u64 go) \<Rightarrow> (nat \<Rightarrow> gotime) \<Rightarrow> type2_meg list \<Rightarrow> broker_part \<Rightarrow> (out \<times> broker_part) go" where
  "handleBrokerType2Mes E ips fetch tm megs bp =
     and_then (go_foldi (add_tx2 E tm) 0 megs ([], bp)) (\<lambda>(tx2s, bp).
     and_then (broker_txSending E ips fetch tx2s bp) (\<lambda>o'. Inr (o', bp)))"

definition record_half :: "bytes \<Rightarrow> bytes \<Rightarrow> broker_part \<Rightarrow> broker_part" where
  \<comment> \<open>appending to \<open>RawTx2BrokerTx[raw]\<close>\<close>
  "record_half raw h bp = bp\<lparr>bp_broker := (bp_broker bp)
     \<lparr>br_RawTx2BrokerTx := (br_RawTx2BrokerTx (bp_broker bp))(raw \<mapsto> map_default [] (br_RawTx2BrokerTx (bp_broker bp)) raw @ [h])\<rparr>\<rparr>"

definition confirm_tx1 ::
  "(raw_meg \<Rightarrow> bytes) \<Rightarrow> mag1_confirm \<Rightarrow> type2_meg list \<times> broker_part \<Rightarrow> (type2_meg list \<times> broker_part) go" where
  "confirm_tx1 dg c = (\<lambda>(megs, bp).
     let raw = m1_RawMeg c in
     if br_BrokerRawMegs (bp_broker bp) (dg raw) = None then Inr (megs, bp)
     else let bp = record_half (tx_TxHash (rm_Tx raw)) (m1_Tx1Hash c) bp
          in and_then (first_broker bp) (\<lambda>b. Inr (megs @ [\<lparr>t2_RawMeg = raw, t2_Broker = b\<rparr>], bp)))"

definition handleTx1ConfirmMag ::
  "go_env \<Rightarrow> ip_table \<Rightarrow> (address \<Rightarrow> u64 go) \<Rightarrow> (raw_meg \<Rightarrow> bytes) \<Rightarrow> (nat \<Rightarrow> gotime) \<Rightarrow> mag1_confirm list \<Rightarrow> broker_part \<Rightarrow> (out \<times> broker_part) go" where
  "handleTx1ConfirmMag E ips fetch dg tm cs bp =
     and_then (go_fold (confirm_tx1 dg) cs ([], bp)) (\<lambda>(megs, bp). handleBrokerType2Mes E ips fetch tm megs bp)"

definition handleTx2ConfirmMag :: "mag2_confirm list \<Rightarrow> broker_part \<Rightarrow> broker_part" where
  "handleTx2ConfirmMag cs bp = fold (\<lambda>c. record_half (tx_TxHash (rm_Tx (m2_RawMeg c))) (m2_Tx2Hash c)) cs bp"

definition confirms :: "(bytes \<rightharpoonup> 'c) \<Rightarrow> transaction list \<Rightarrow> 'c list" where
  \<comment> \<open>the entries of a confirmation pool for a list of transactions\<close>
  "confirms pool txs = List.map_filter (\<lambda>tx. pool (tx_TxHash tx)) txs"

definition createConfirm ::
  "go_env \<Rightarrow> ip_table \<Rightarrow> (address \<Rightarrow> u64 go) \<Rightarrow> (raw_meg \<Rightarrow> bytes) \<Rightarrow> (nat \<Rightarrow> gotime) \<Rightarrow> transaction list \<Rightarrow> broker_part \<Rightarrow> (out \<times> broker_part) go" where
  "createConfirm E ips fetch dg tm txs bp =
     (let confirm1s = confirms (bp_Confirm1Pool bp) txs;
          confirm2s = confirms (bp_Confirm2Pool bp) txs
      in and_then (if confirm1s \<noteq> [] then handleTx1ConfirmMag E ips fetch dg tm confirm1s bp else Inr ([], bp)) (\<lambda>(o', bp).
           Inr (o', if confirm2s \<noteq> [] then handleTx2ConfirmMag confirm2s bp else bp)))"

section \<open>The broker committee\<close>

record broker_committee =
  bcm_dataTotalNum :: int
  bcm_nowDataNum :: int
  bcm_batchDataNum :: int
  bcm_part :: broker_part
  bcm_Ss :: stop_signal
  bcm_IpNodeTable :: ip_table
  bcm_out :: out

definition NewBrokerCommitteeMod :: "int \<Rightarrow> string list \<Rightarrow> ip_table \<Rightarrow> stop_signal \<Rightarrow> int \<Rightarrow> int \<Rightarrow> broker_committee" where
  "NewBrokerCommitteeMod BrokerNum ls ips Ss dataNum batchNum =
     \<lparr>bcm_dataTotalNum = dataNum, bcm_nowDataNum = 0, bcm_batchDataNum = batchNum, bcm_part = new_broker_part BrokerNum ls,
      bcm_Ss = Ss, bcm_IpNodeTable = ips, bcm_out = []\<rparr>"

definition bcm_send ::
  "go_env \<Rightarrow> (raw_meg \<Rightarrow> bytes) \<Rightarrow> (nat \<Rightarrow> gotime) \<Rightarrow> transaction list \<Rightarrow> broker_committee \<Rightarrow> broker_committee go" where
  \<comment> \<open>what \<open>MsgSendingControl\<close> does with a batch\<close>
  "bcm_send E dg tm txlist bcm =
     and_then (dealTxByBroker E (bcm_IpNodeTable bcm) (Addr2Shard64 E) dg tm txlist (bcm_part bcm)) (\<lambda>(itx, o1, bp).
     and_then (broker_txSending E (bcm_IpNodeTable bcm) (Addr2Shard64 E) itx bp) (\<lambda>o2.
       Inr (bcm\<lparr>bcm_part := bp, bcm_out := bcm_out bcm @ o1 @ o2, bcm_Ss := StopGap_Reset (bcm_Ss bcm)\<rparr>)))"

definition bcm_MsgSendingControl ::
  "go_env \<Rightarrow> (raw_meg \<Rightarrow> bytes) \<Rightarrow> (nat \<Rightarrow> gotime) \<Rightarrow> (string \<Rightarrow> int option) \<Rightarrow> (u64 \<Rightarrow> gotime) \<Rightarrow> row list \<Rightarrow> broker_committee \<Rightarrow>
   broker_committee go" where
  "bcm_MsgSendingControl E dg tm parse_value now rows bcm =
     and_then (msg_control True (\<lambda>n data. data2tx E parse_value (now n) data n) (bcm_dataTotalNum bcm) (bcm_batchDataNum bcm)
                 (bcm_send E dg tm) rows [] (bcm_nowDataNum bcm) bcm)
       (\<lambda>(n, bcm). Inr (bcm\<lparr>bcm_nowDataNum := n\<rparr>))"

definition bcm_HandleBlockInfo ::
  "go_env \<Rightarrow> (raw_meg \<Rightarrow> bytes) \<Rightarrow> (nat \<Rightarrow> gotime) \<Rightarrow> block_info \<Rightarrow> broker_committee \<Rightarrow> broker_committee go" where
  "bcm_HandleBlockInfo E dg tm b bcm =
     (if bi_BlockBodyLength b = 0 then Inr bcm
      else and_then (createConfirm E (bcm_IpNodeTable bcm) (Addr2Shard64 E) dg tm (bi_Broker1Txs b @ bi_Broker2Txs b) (bcm_part bcm)) (\<lambda>(o', bp).
             Inr (bcm\<lparr>bcm_part := bp, bcm_out := bcm_out bcm @ o'\<rparr>)))"

section \<open>The CLPA committee with brokers\<close>

record 'f clpa_broker_committee =
  \<comment> \<open>the fields of \<open>CLPACommitteeModule\<close> and those of the broker part\<close>
  cbm_ccm :: "'f clpa_committee"
  cbm_part :: broker_part

definition cbm_fetch :: "go_env \<Rightarrow> 'f clpa_broker_committee \<Rightarrow> address \<Rightarrow> u64 go" where
  "cbm_fetch E cbm = fetchModifiedMap E (ccm_modifiedMap (cbm_ccm cbm))"

definition cbm_put :: "out \<Rightarrow> broker_part \<Rightarrow> 'f clpa_broker_committee \<Rightarrow> 'f clpa_broker_committee" where
  "cbm_put o' bp cbm = cbm\<lparr>cbm_part := bp, cbm_ccm := (cbm_ccm cbm)\<lparr>ccm_out := ccm_out (cbm_ccm cbm) @ o'\<rparr>\<rparr>"

definition cbm_txSending :: "go_env \<Rightarrow> transaction list \<Rightarrow> 'f clpa_broker_committee \<Rightarrow> 'f clpa_broker_committee go" where
  "cbm_txSending E txlist cbm =
     and_then (broker_txSending E (ccm_IpNodeTable (cbm_ccm cbm)) (cbm_fetch E cbm) txlist (cbm_part cbm)) (\<lambda>o'.
       Inr (cbm_put o' (cbm_part cbm) cbm))"

text \<open>
  The broker functions of this committee are a second copy of those of the broker committee; they work on the
  committee itself. The bodies of their loops are the ones of the first copy.
\<close>

definition cbm_handleBrokerType1Mes ::
  "go_env \<Rightarrow> (nat \<Rightarrow> gotime) \<Rightarrow> type1_meg list \<Rightarrow> 'f clpa_broker_committee \<Rightarrow> 'f clpa_broker_committee go" where
  "cbm_handleBrokerType1Mes E tm brokerType1Megs cbm =
     and_then (go_foldi (add_tx1 E tm) 0 brokerType1Megs ([], cbm_part cbm)) (\<lambda>(tx1s, bp).
       cbm_txSending E tx1s (cbm\<lparr>cbm_part := bp\<rparr>))"

definition cbm_handleBrokerType2Mes ::
  "go_env \<Rightarrow> (nat \<Rightarrow> gotime) \<Rightarrow> type2_meg list \<Rightarrow> 'f clpa_broker_committee \<Rightarrow> 'f clpa_broker_committee go" where
  "cbm_handleBrokerType2Mes E tm brokerType2Megs cbm =
     and_then (go_foldi (add_tx2 E tm) 0 brokerType2Megs ([], cbm_part cbm)) (\<lambda>(tx2s, bp).
       cbm_txSending E tx2s (cbm\<lparr>cbm_part := bp\<rparr>))"

definition cbm_handleBrokerRawMag ::
  "go_env \<Rightarrow> (raw_meg \<Rightarrow> bytes) \<Rightarrow> (nat \<Rightarrow> gotime) \<Rightarrow> raw_meg list \<Rightarrow> 'f clpa_broker_committee \<Rightarrow> 'f clpa_broker_committee go" where
  "cbm_handleBrokerRawMag E dg tm brokerRawMags cbm =
     (let (brokerType1Mags, bp) = fold (add_raw dg) brokerRawMags ([], cbm_part cbm)
      in cbm_handleBrokerType1Mes E tm brokerType1Mags (cbm\<lparr>cbm_part := bp\<rparr>))"

definition cbm_handleTx1ConfirmMag ::
  "go_env \<Rightarrow> (raw_meg \<Rightarrow> bytes) \<Rightarrow> (nat \<Rightarrow> gotime) \<Rightarrow> mag1_confirm list \<Rightarrow> 'f clpa_broker_committee \<Rightarrow> 'f clpa_broker_committee go" where
  "cbm_handleTx1ConfirmMag E dg tm mag1confirms cbm =
     and_then (go_fold (confirm_tx1 dg) mag1confirms ([], cbm_part cbm)) (\<lambda>(brokerType2Mags, bp).
       cbm_handleBrokerType2Mes E tm brokerType2Mags (cbm\<lparr>cbm_part := bp\<rparr>))"

definition cbm_handleTx2ConfirmMag :: "mag2_confirm list \<Rightarrow> 'f clpa_broker_committee \<Rightarrow> 'f clpa_broker_committee" where
  "cbm_handleTx2ConfirmMag mag2confirms cbm =
     cbm\<lparr>cbm_part := fold (\<lambda>c. record_half (tx_TxHash (rm_Tx (m2_RawMeg c))) (m2_Tx2Hash c)) mag2confirms (cbm_part cbm)\<rparr>"

definition cbm_dealTxByBroker ::
  "go_env \<Rightarrow> (raw_meg \<Rightarrow> bytes) \<Rightarrow> (nat \<Rightarrow> gotime) \<Rightarrow> transaction list \<Rightarrow> 'f clpa_broker_committee \<Rightarrow> (transaction list \<times> 'f clpa_broker_committee) go" where
  "cbm_dealTxByBroker E dg tm txs cbm =
     and_then (go_fold (deal_tx (cbm_fetch E cbm) (cbm_part cbm)) txs ([], [])) (\<lambda>(itxs, brokerRawMegs).
       if brokerRawMegs \<noteq> []
       then and_then (cbm_handleBrokerRawMag E dg tm brokerRawMegs cbm) (\<lambda>cbm. Inr (itxs, cbm))
       else Inr (itxs, cbm))"

definition cbm_createConfirm ::
  "go_env \<Rightarrow> (raw_meg \<Rightarrow> bytes) \<Rightarrow> (nat \<Rightarrow> gotime) \<Rightarrow> transaction list \<Rightarrow> 'f clpa_broker_committee \<Rightarrow> 'f clpa_broker_committee go" where
  "cbm_createConfirm E dg tm txs cbm =
     (let confirm1s = confirms (bp_Confirm1Pool (cbm_part cbm)) txs;
          confirm2s = confirms (bp_Confirm2Pool (cbm_part cbm)) txs
      in and_then (if confirm1s \<noteq> [] then cbm_handleTx1ConfirmMag E dg tm confirm1s cbm else Inr cbm) (\<lambda>cbm.
           Inr (if confirm2s \<noteq> [] then cbm_handleTx2ConfirmMag confirm2s cbm else cbm)))"

definition cbm_deal ::
  "go_env \<Rightarrow> (raw_meg \<Rightarrow> bytes) \<Rightarrow> (nat \<Rightarrow> gotime) \<Rightarrow> transaction list \<Rightarrow> 'f clpa_broker_committee \<Rightarrow> 'f clpa_broker_committee go" where
  \<comment> \<open>\<open>itx := dealTxByBroker(txs); txSending(itx)\<close>, in \<open>HandleOtherMessage\<close> and for a batch\<close>
  "cbm_deal E dg tm txs cbm = and_then (cbm_dealTxByBroker E dg tm txs cbm) (\<lambda>(itx, cbm). cbm_txSending E itx cbm)"

definition cbm_HandleOtherMessage ::
  "go_env \<Rightarrow> (raw_meg \<Rightarrow> bytes) \<Rightarrow> (nat \<Rightarrow> gotime) \<Rightarrow> message \<Rightarrow> 'f clpa_broker_committee \<Rightarrow> 'f clpa_broker_committee go" where
  "cbm_HandleOtherMessage E dg tm msg cbm = (case msg of Inner2CrossMsg txs \<Rightarrow> cbm_deal E dg tm txs cbm | _ \<Rightarrow> Inr cbm)"

definition cbm_HandleBlockInfo ::
  "go_env \<Rightarrow> (raw_meg \<Rightarrow> bytes) \<Rightarrow> (nat \<Rightarrow> gotime) \<Rightarrow> block_info \<Rightarrow> 'f clpa_broker_committee \<Rightarrow> 'f clpa_broker_committee go" where
  "cbm_HandleBlockInfo E dg tm b cbm =
     (let ccm = cbm_ccm cbm;
          ccm = (if ccm_curEpoch ccm = to_int32 (bi_Epoch b - 1) then ccm\<lparr>ccm_curEpoch := to_int32 (bi_Epoch b)\<rparr> else ccm);
          cbm = cbm\<lparr>cbm_ccm := ccm\<rparr>
      in if bi_BlockBodyLength b = 0 then Inr cbm
         else
           and_then (cbm_createConfirm E dg tm (bi_Broker1Txs b @ bi_Broker2Txs b) cbm) (\<lambda>cbm.
           and_then (go_fold (\<lambda>tx. AddEdge E (tx_Sender tx) (tx_Recipient tx)) (filter (\<lambda>tx. \<not> tx_HasBroker tx) (bi_InnerShardTxs b))
                       (ccm_clpaGraph (cbm_ccm cbm))) (\<lambda>cg.
           and_then (go_fold (\<lambda>b1tx. AddEdge E (tx_OriginalSender b1tx) (tx_FinalRecipient b1tx)) (bi_Broker1Txs b) cg) (\<lambda>cg.
             Inr (cbm\<lparr>cbm_ccm := (cbm_ccm cbm)\<lparr>ccm_clpaGraph := cg\<rparr>\<rparr>)))))"

section \<open>Lemmas\<close>

text \<open>The two copies of the broker functions do the same.\<close>

lemma cbm_set_part:
  "cbm_fetch E (cbm\<lparr>cbm_part := bp\<rparr>) = cbm_fetch E cbm" "cbm_put o' bp' (cbm\<lparr>cbm_part := bp\<rparr>) = cbm_put o' bp' cbm"
  "cbm_put [] (cbm_part cbm) cbm = cbm" "cbm_part (cbm_put o' bp cbm) = bp"
  "(cbm_put o' bp cbm)\<lparr>cbm_part := bp'\<rparr> = cbm_put o' bp' cbm"
  by (simp_all add: cbm_fetch_def cbm_put_def)

lemma cbm_txSending_part:
  "cbm_txSending E txs (cbm\<lparr>cbm_part := bp\<rparr>) =
     and_then (broker_txSending E (ccm_IpNodeTable (cbm_ccm cbm)) (cbm_fetch E cbm) txs bp) (\<lambda>o'. Inr (cbm_put o' bp cbm))"
  by (simp add: cbm_txSending_def cbm_set_part)

lemma and_then_assoc_pair:
  "and_then (and_then m (\<lambda>(a, b). f a b)) g = and_then m (\<lambda>(a, b). and_then (f a b) g)"
  by (cases m) (auto split: prod.splits)

lemma cbm_handleBrokerRawMag_eq:
  "cbm_handleBrokerRawMag E dg tm raws cbm =
     and_then (handleBrokerRawMag E (ccm_IpNodeTable (cbm_ccm cbm)) (cbm_fetch E cbm) dg tm raws (cbm_part cbm))
       (\<lambda>(o', bp). Inr (cbm_put o' bp cbm))"
proof -
  obtain megs bp where f: "fold (add_raw dg) raws ([], cbm_part cbm) = (megs, bp)" by fastforce
  show ?thesis
    by (cases "go_foldi (add_tx1 E tm) 0 megs ([], bp)")
      (auto simp: cbm_handleBrokerRawMag_def handleBrokerRawMag_def f cbm_handleBrokerType1Mes_def handleBrokerType1Mes_def
        cbm_txSending_part and_then_def split: sum.splits prod.splits)
qed

lemma cbm_dealTxByBroker_eq:
  "cbm_dealTxByBroker E dg tm txs cbm =
     and_then (dealTxByBroker E (ccm_IpNodeTable (cbm_ccm cbm)) (cbm_fetch E cbm) dg tm txs (cbm_part cbm)) (\<lambda>(itxs, o', bp).
       Inr (itxs, cbm_put o' bp cbm))"
  by (auto simp: cbm_dealTxByBroker_def dealTxByBroker_def cbm_handleBrokerRawMag_eq cbm_set_part and_then_def
      split: sum.splits prod.splits)

lemma cbm_handleTx1ConfirmMag_eq:
  "cbm_handleTx1ConfirmMag E dg tm cs cbm =
     and_then (handleTx1ConfirmMag E (ccm_IpNodeTable (cbm_ccm cbm)) (cbm_fetch E cbm) dg tm cs (cbm_part cbm))
       (\<lambda>(o', bp). Inr (cbm_put o' bp cbm))"
  by (auto simp: cbm_handleTx1ConfirmMag_def handleTx1ConfirmMag_def cbm_handleBrokerType2Mes_def handleBrokerType2Mes_def
      cbm_txSending_def cbm_set_part and_then_def split: sum.splits prod.splits)

lemma cbm_createConfirm_eq:
  "cbm_createConfirm E dg tm txs cbm =
     and_then (createConfirm E (ccm_IpNodeTable (cbm_ccm cbm)) (cbm_fetch E cbm) dg tm txs (cbm_part cbm)) (\<lambda>(o', bp).
       Inr (cbm_put o' bp cbm))"
  by (auto simp: cbm_createConfirm_def createConfirm_def cbm_handleTx1ConfirmMag_eq cbm_handleTx2ConfirmMag_def
      handleTx2ConfirmMag_def cbm_set_part and_then_def Let_def cbm_put_def split: sum.splits prod.splits)

lemma IsBroker_iff: "IsBroker b a \<longleftrightarrow> a \<in> set (br_BrokerAddress b)"
proof -
  have "is_listed bs a \<longleftrightarrow> a \<in> set bs" for bs by (induction bs) auto
  then show ?thesis by (simp add: IsBroker_def)
qed

lemma first_broker_IsBroker: "first_broker bp = Inr b \<Longrightarrow> IsBroker (bp_broker bp) b"
  by (auto simp: first_broker_def IsBroker_iff dest: go_nth_in_set)

lemma initBrokerAddr_take: "0 < num \<Longrightarrow> initBrokerAddr num ls = take (nat num) ls" "num \<le> 0 \<Longrightarrow> initBrokerAddr num ls = ls"
proof -
  show "initBrokerAddr num ls = take (nat num) ls" if "0 < num" using that
  proof (induction num ls rule: initBrokerAddr.induct)
    case (2 num l ls)
    then have n: "nat num = Suc (nat (num - 1))" by simp
    show ?case using 2 by (cases "num = 1") (simp_all add: n)
  qed simp
  show "initBrokerAddr num ls = ls" if "num \<le> 0" using that by (induction num ls rule: initBrokerAddr.induct) simp_all
qed

text \<open>Routing through a map of moved accounts (empty in the broker committee) and the list of brokers.\<close>

definition broker_router_ok :: "go_env \<Rightarrow> (address \<rightharpoonup> u64) \<times> broker \<Rightarrow> bool" where
  "broker_router_ok E st \<longleftrightarrow> clpa_router_ok E (fst st)"

definition broker_routing :: "go_env \<Rightarrow> (address \<rightharpoonup> u64) \<times> broker \<Rightarrow> transaction \<Rightarrow> u64 go" where
  "broker_routing E st = broker_route (fetchModifiedMap E (fst st)) (snd st)"

interpretation broker_sender: tx_router broker_router_ok broker_routing
proof
  fix E st tx s
  assume ok: "broker_router_ok E st"
  then show "shards_ok E" by (simp add: broker_router_ok_def clpa_router_ok_def)
  assume "broker_routing E st tx = Inr s"
  then show "uint s < ShardNum E" using ok fetch_range [of E "fst st"]
    by (auto simp: broker_router_ok_def broker_routing_def broker_route_def and_then_Inr split: if_splits)
qed

lemma fetch_no_moves: "fetchModifiedMap E Map.empty = Addr2Shard64 E"
  by (simp add: fetchModifiedMap_def fun_eq_iff)

definition needs_broker :: "(address \<Rightarrow> u64 go) \<Rightarrow> broker \<Rightarrow> transaction \<Rightarrow> bool" where
  \<comment> \<open>a transfer across shards between ordinary accounts\<close>
  "needs_broker fetch b tx \<longleftrightarrow> fetch (tx_Recipient tx) \<noteq> fetch (tx_Sender tx) \<and> \<not> IsBroker b (tx_Recipient tx) \<and> \<not> IsBroker b (tx_Sender tx)"

definition endpoints_ok :: "(address \<Rightarrow> u64 go) \<Rightarrow> transaction \<Rightarrow> bool" where
  "endpoints_ok fetch tx \<longleftrightarrow> \<not> is_panic (fetch (tx_Sender tx)) \<and> \<not> is_panic (fetch (tx_Recipient tx))"

abbreviation raw_of :: "address \<Rightarrow> transaction \<Rightarrow> raw_meg" where
  "raw_of b tx \<equiv> \<lparr>rm_Tx = tx, rm_Broker = b\<rparr>"

lemma deal_all:
  assumes "first_broker bp = Inr b" and "\<And>tx. tx \<in> set txs \<Longrightarrow> endpoints_ok fetch tx"
  shows "go_fold (deal_tx fetch bp) txs (itxs, raws) =
    Inr (itxs @ map (mark_broker (bp_broker bp)) (filter (\<lambda>tx. \<not> needs_broker fetch (bp_broker bp) tx) txs),
         raws @ map (raw_of b) (filter (needs_broker fetch (bp_broker bp)) txs))"
  using assms(2)
proof (induction txs arbitrary: itxs raws)
  case (Cons tx txs)
  obtain s r where "fetch (tx_Sender tx) = Inr s" "fetch (tx_Recipient tx) = Inr r"
    using Cons.prems [of tx] by (auto simp: endpoints_ok_def not_panic_iff)
  then have "deal_tx fetch bp tx (itxs, raws) =
      Inr (if needs_broker fetch (bp_broker bp) tx then (itxs, raws @ [raw_of b tx]) else (itxs @ [mark_broker (bp_broker bp) tx], raws))"
    using assms(1) by (simp add: deal_tx_def needs_broker_def)
  then show ?case using Cons by simp
qed simp

definition halves1 :: "go_env \<Rightarrow> (nat \<Rightarrow> gotime) \<Rightarrow> address \<Rightarrow> transaction list \<Rightarrow> transaction list" where
  \<comment> \<open>the first halves of the given transfers\<close>
  "halves1 E tm b txs = map (\<lambda>(i, tx). make_tx1 E (tm i) \<lparr>t1_RawMeg = raw_of b tx, t1_Broker = b\<rparr>) (enumerate 0 txs)"

definition halves2 :: "go_env \<Rightarrow> (nat \<Rightarrow> gotime) \<Rightarrow> address \<Rightarrow> raw_meg list \<Rightarrow> transaction list" where
  \<comment> \<open>the second halves\<close>
  "halves2 E tm b raws = map (\<lambda>(i, r). make_tx2 E (tm i) \<lparr>t2_RawMeg = r, t2_Broker = b\<rparr>) (enumerate 0 raws)"

definition broker_inv :: "(raw_meg \<Rightarrow> bytes) \<Rightarrow> broker_part \<Rightarrow> bool" where
  "broker_inv dg bp \<longleftrightarrow>
     (\<forall>h c. bp_Confirm1Pool bp h = Some c \<longrightarrow> m1_Tx1Hash c = h \<and> br_BrokerRawMegs (bp_broker bp) (dg (m1_RawMeg c)) \<noteq> None) \<and>
     (\<forall>h c. bp_Confirm2Pool bp h = Some c \<longrightarrow> m2_Tx2Hash c = h)"

lemma new_broker_inv: "broker_inv dg (new_broker_part n ls)"
  by (simp add: broker_inv_def new_broker_part_def)

definition same_brokers :: "broker_part \<Rightarrow> broker_part \<Rightarrow> bool" where
  "same_brokers bp bp' \<longleftrightarrow> br_BrokerAddress (bp_broker bp') = br_BrokerAddress (bp_broker bp)"

lemma same_brokers_routing:
  assumes "same_brokers bp bp'"
  shows "IsBroker (bp_broker bp') = IsBroker (bp_broker bp)" "first_broker bp' = first_broker bp"
    "broker_route fetch (bp_broker bp') = broker_route fetch (bp_broker bp)"
  using assms by (auto simp: same_brokers_def fun_eq_iff first_broker_def IsBroker_def broker_route_def)

lemma add_raw_eq: "add_raw dg r (megs, bp) = (megs @ [\<lparr>t1_RawMeg = r, t1_Broker = rm_Broker r\<rparr>],
    bp\<lparr>bp_broker := (bp_broker bp)\<lparr>br_BrokerRawMegs := (br_BrokerRawMegs (bp_broker bp))(dg r \<mapsto> r)\<rparr>\<rparr>)"
  by (simp add: add_raw_def)

lemma add_tx1_eq: "add_tx1 E tm i m (txs, bp) = Inr (txs @ [make_tx1 E (tm i) m], bp\<lparr>bp_Confirm1Pool := (bp_Confirm1Pool bp)
    (tx_TxHash (make_tx1 E (tm i) m) \<mapsto> \<lparr>m1_Tx1Hash = tx_TxHash (make_tx1 E (tm i) m), m1_RawMeg = t1_RawMeg m\<rparr>)\<rparr>)"
  by (simp add: add_tx1_def Let_def)

lemma add_tx2_eq: "add_tx2 E tm i m (txs, bp) = Inr (txs @ [make_tx2 E (tm i) m], bp\<lparr>bp_Confirm2Pool := (bp_Confirm2Pool bp)
    (tx_TxHash (make_tx2 E (tm i) m) \<mapsto> \<lparr>m2_Tx2Hash = tx_TxHash (make_tx2 E (tm i) m), m2_RawMeg = t2_RawMeg m\<rparr>)\<rparr>)"
  by (simp add: add_tx2_def Let_def)

lemma add_raws:
  assumes "broker_inv dg bp"
  shows "\<exists>bp'. fold (add_raw dg) raws (megs, bp) = (megs @ map (\<lambda>r. \<lparr>t1_RawMeg = r, t1_Broker = rm_Broker r\<rparr>) raws, bp') \<and>
    broker_inv dg bp' \<and> same_brokers bp bp' \<and> bp_Confirm1Pool bp' = bp_Confirm1Pool bp \<and> bp_Confirm2Pool bp' = bp_Confirm2Pool bp \<and>
    br_RawTx2BrokerTx (bp_broker bp') = br_RawTx2BrokerTx (bp_broker bp) \<and>
    (\<forall>r \<in> set raws. br_BrokerRawMegs (bp_broker bp') (dg r) \<noteq> None) \<and>
    dom (br_BrokerRawMegs (bp_broker bp)) \<subseteq> dom (br_BrokerRawMegs (bp_broker bp'))"
  using assms
proof (induction raws arbitrary: megs bp)
  case (Cons r raws)
  let ?bp = "bp\<lparr>bp_broker := (bp_broker bp)\<lparr>br_BrokerRawMegs := (br_BrokerRawMegs (bp_broker bp))(dg r \<mapsto> r)\<rparr>\<rparr>"
  have "broker_inv dg ?bp" using Cons.prems by (auto simp: broker_inv_def)
  then obtain bp' where "fold (add_raw dg) raws (megs @ [\<lparr>t1_RawMeg = r, t1_Broker = rm_Broker r\<rparr>], ?bp) =
        ((megs @ [\<lparr>t1_RawMeg = r, t1_Broker = rm_Broker r\<rparr>]) @ map (\<lambda>r. \<lparr>t1_RawMeg = r, t1_Broker = rm_Broker r\<rparr>) raws, bp')"
      "broker_inv dg bp'" "same_brokers ?bp bp'" "bp_Confirm1Pool bp' = bp_Confirm1Pool ?bp" "bp_Confirm2Pool bp' = bp_Confirm2Pool ?bp"
      "br_RawTx2BrokerTx (bp_broker bp') = br_RawTx2BrokerTx (bp_broker ?bp)"
      "\<forall>r \<in> set raws. br_BrokerRawMegs (bp_broker bp') (dg r) \<noteq> None"
      "dom (br_BrokerRawMegs (bp_broker ?bp)) \<subseteq> dom (br_BrokerRawMegs (bp_broker bp'))"
    using Cons.IH by blast
  moreover from this(8) have "br_BrokerRawMegs (bp_broker bp') (dg r) \<noteq> None"
    "dom (br_BrokerRawMegs (bp_broker bp)) \<subseteq> dom (br_BrokerRawMegs (bp_broker bp'))" by auto
  ultimately show ?case by (intro exI [of _ bp']) (simp add: add_raw_eq same_brokers_def)
qed (simp add: same_brokers_def)

definition waits_for :: "(bytes \<rightharpoonup> mag1_confirm) \<Rightarrow> raw_meg set \<Rightarrow> bytes \<Rightarrow> bool" where
  \<comment> \<open>the pool holds, under hash \<open>h\<close>, a first half for one of the given raw messages\<close>
  "waits_for pool raws h \<longleftrightarrow> (\<exists>r \<in> raws. pool h = Some \<lparr>m1_Tx1Hash = h, m1_RawMeg = r\<rparr>)"

lemma add_tx1s:
  assumes "broker_inv dg bp" and "\<And>m. m \<in> set megs \<Longrightarrow> br_BrokerRawMegs (bp_broker bp) (dg (t1_RawMeg m)) \<noteq> None"
  shows "\<exists>pool. go_foldi (add_tx1 E tm) i megs (tx1s, bp) =
      Inr (tx1s @ map (\<lambda>(j, m). make_tx1 E (tm j) m) (enumerate i megs), bp\<lparr>bp_Confirm1Pool := pool\<rparr>) \<and>
    broker_inv dg (bp\<lparr>bp_Confirm1Pool := pool\<rparr>) \<and>
    (\<forall>h. pool h = bp_Confirm1Pool bp h \<or> waits_for pool (t1_RawMeg ` set megs) h) \<and>
    (\<forall>t \<in> set (map (\<lambda>(j, m). make_tx1 E (tm j) m) (enumerate i megs)). waits_for pool (t1_RawMeg ` set megs) (tx_TxHash t))"
  using assms
proof (induction megs arbitrary: i tx1s bp)
  case (Cons m megs)
  let ?tx = "make_tx1 E (tm i) m"
  let ?bp = "bp\<lparr>bp_Confirm1Pool := (bp_Confirm1Pool bp)(tx_TxHash ?tx \<mapsto> \<lparr>m1_Tx1Hash = tx_TxHash ?tx, m1_RawMeg = t1_RawMeg m\<rparr>)\<rparr>"
  have inv: "broker_inv dg ?bp" using Cons.prems(1,2) by (auto simp: broker_inv_def)
  have r: "br_BrokerRawMegs (bp_broker ?bp) (dg (t1_RawMeg m')) \<noteq> None" if "m' \<in> set megs" for m' using Cons.prems(2) [of m'] that by simp
  obtain pool where p: "go_foldi (add_tx1 E tm) (Suc i) megs (tx1s @ [?tx], ?bp) =
        Inr ((tx1s @ [?tx]) @ map (\<lambda>(j, m). make_tx1 E (tm j) m) (enumerate (Suc i) megs), ?bp\<lparr>bp_Confirm1Pool := pool\<rparr>)"
      "broker_inv dg (?bp\<lparr>bp_Confirm1Pool := pool\<rparr>)" "\<forall>h. pool h = bp_Confirm1Pool ?bp h \<or> waits_for pool (t1_RawMeg ` set megs) h"
      "\<forall>t \<in> set (map (\<lambda>(j, m). make_tx1 E (tm j) m) (enumerate (Suc i) megs)). waits_for pool (t1_RawMeg ` set megs) (tx_TxHash t)"
    using Cons.IH [OF inv r, of "Suc i" "tx1s @ [?tx]"] by blast
  have mono: "waits_for pool (t1_RawMeg ` set (m # megs)) h" if "waits_for pool (t1_RawMeg ` set megs) h" for h
    using that by (auto simp: waits_for_def)
  have own: "waits_for pool (t1_RawMeg ` set (m # megs)) (tx_TxHash ?tx)"
    using p(3) [rule_format, of "tx_TxHash ?tx"] mono by (auto simp: waits_for_def)
  have "pool h = bp_Confirm1Pool bp h \<or> waits_for pool (t1_RawMeg ` set (m # megs)) h" for h
    using p(3) [rule_format, of h] mono own by (cases "h = tx_TxHash ?tx") auto
  then show ?case using p own mono by (intro exI [of _ pool]) (simp add: add_tx1_eq)
next
  case Nil
  then show ?case by (intro exI [of _ "bp_Confirm1Pool bp"]) simp
qed

lemma add_tx2s:
  assumes "broker_inv dg bp"
  shows "\<exists>pool. go_foldi (add_tx2 E tm) i megs (tx2s, bp) =
      Inr (tx2s @ map (\<lambda>(j, m). make_tx2 E (tm j) m) (enumerate i megs), bp\<lparr>bp_Confirm2Pool := pool\<rparr>) \<and>
    broker_inv dg (bp\<lparr>bp_Confirm2Pool := pool\<rparr>)"
  using assms
proof (induction megs arbitrary: i tx2s bp)
  case (Cons m megs)
  let ?tx = "make_tx2 E (tm i) m"
  let ?bp = "bp\<lparr>bp_Confirm2Pool := (bp_Confirm2Pool bp)(tx_TxHash ?tx \<mapsto> \<lparr>m2_Tx2Hash = tx_TxHash ?tx, m2_RawMeg = t2_RawMeg m\<rparr>)\<rparr>"
  have inv: "broker_inv dg ?bp" using Cons.prems by (auto simp: broker_inv_def)
  obtain pool where "go_foldi (add_tx2 E tm) (Suc i) megs (tx2s @ [?tx], ?bp) =
        Inr ((tx2s @ [?tx]) @ map (\<lambda>(j, m). make_tx2 E (tm j) m) (enumerate (Suc i) megs), ?bp\<lparr>bp_Confirm2Pool := pool\<rparr>)"
      "broker_inv dg (?bp\<lparr>bp_Confirm2Pool := pool\<rparr>)"
    using Cons.IH [OF inv, of "Suc i" "tx2s @ [?tx]"] by blast
  then show ?case by (intro exI [of _ pool]) (simp add: add_tx2_eq)
next
  case Nil
  then show ?case by (intro exI [of _ "bp_Confirm2Pool bp"]) simp
qed

lemma make_tx_fields [simp]:
  "tx_Sender (make_tx1 E t m) = tx_Sender (rm_Tx (t1_RawMeg m))" "tx_Recipient (make_tx1 E t m) = t1_Broker m"
  "tx_Value (make_tx1 E t m) = tx_Value (rm_Tx (t1_RawMeg m))"
  "tx_OriginalSender (make_tx1 E t m) = tx_Sender (rm_Tx (t1_RawMeg m))" "tx_FinalRecipient (make_tx1 E t m) = tx_Recipient (rm_Tx (t1_RawMeg m))"
  "tx_RawTxHash (make_tx1 E t m) = Some (tx_TxHash (rm_Tx (t1_RawMeg m)))"
  "tx_Sender (make_tx2 E t n) = t2_Broker n" "tx_Recipient (make_tx2 E t n) = tx_Recipient (rm_Tx (t2_RawMeg n))"
  "tx_Value (make_tx2 E t n) = tx_Value (rm_Tx (t2_RawMeg n))"
  "tx_OriginalSender (make_tx2 E t n) = tx_Sender (rm_Tx (t2_RawMeg n))" "tx_FinalRecipient (make_tx2 E t n) = tx_Recipient (rm_Tx (t2_RawMeg n))"
  "tx_RawTxHash (make_tx2 E t n) = Some (tx_TxHash (rm_Tx (t2_RawMeg n)))"
  by (simp_all add: make_tx1_def make_tx2_def Let_def)

lemma halves1_origin: "t \<in> set (halves1 E tm b txs) \<Longrightarrow> \<exists>tx \<in> set txs. tx_Sender t = tx_Sender tx \<and> tx_Recipient t = b \<and> tx_Value t = tx_Value tx"
  by (auto simp: halves1_def in_set_enumerate_eq)

lemma halves2_origin: "t \<in> set (halves2 E tm b raws) \<Longrightarrow> \<exists>r \<in> set raws. tx_Sender t = b \<and> tx_Recipient t = tx_Recipient (rm_Tx r) \<and> tx_Value t = tx_Value (rm_Tx r)"
  by (auto simp: halves2_def in_set_enumerate_eq)

text \<open>Sending through the brokers' routing, for any list of transactions whose routes exist.\<close>

lemma broker_sends:
  assumes "clpa_router_ok E mm" and "separate E ips" and "0 < InjectSpeed E"
    and "\<And>tx. tx \<in> set txs \<Longrightarrow> broker_route (fetchModifiedMap E mm) (bp_broker bp) tx = Inr (dest tx)"
  shows "\<exists>o'. broker_txSending E ips (fetchModifiedMap E mm) txs bp = Inr o' \<and>
    (\<forall>sid. uint sid < ShardNum E \<longrightarrow> injected (ips sid 0) o' = filter (\<lambda>tx. dest tx = sid) txs)"
proof -
  have ok: "broker_router_ok E (mm, bp_broker bp)" using assms(1) by (simp add: broker_router_ok_def)
  have sh: "shards_ok E" using assms(1) by (simp add: clpa_router_ok_def)
  have np: "tx \<in> set txs \<Longrightarrow> \<not> is_panic (broker_routing E (mm, bp_broker bp) tx)" for tx
    using assms(4) [of tx] by (simp add: broker_routing_def)
  obtain o' where "txSending E ips (broker_route (fetchModifiedMap E mm) (bp_broker bp)) txs = Inr o'"
      "\<forall>sid \<in> set (all_shards E). injected (ips sid 0) o' = filter (\<lambda>tx. broker_route (fetchModifiedMap E mm) (bp_broker bp) tx = Inr sid) txs"
    using broker_sender.send_delivers [OF ok assms(2,3) np] by (auto simp: broker_routing_def)
  then show ?thesis using assms(4) all_shards_iff [OF sh] by (auto simp: broker_txSending_def cong: filter_cong)
qed

lemma dealTxByBroker_ok:
  assumes "clpa_router_ok E mm" and "separate E ips" and "0 < InjectSpeed E" and "broker_inv dg bp" and "first_broker bp = Inr b"
    and "\<And>tx. tx \<in> set txs \<Longrightarrow> endpoints_ok (fetchModifiedMap E mm) tx"
  defines "cross \<equiv> filter (needs_broker (fetchModifiedMap E mm) (bp_broker bp)) txs"
  obtains o' bp' where "dealTxByBroker E ips (fetchModifiedMap E mm) dg tm txs bp =
      Inr (map (mark_broker (bp_broker bp)) (filter (\<lambda>tx. \<not> needs_broker (fetchModifiedMap E mm) (bp_broker bp) tx) txs), o', bp')"
    and "broker_inv dg bp'" and "same_brokers bp bp'" and "bp_Confirm2Pool bp' = bp_Confirm2Pool bp"
    and "br_RawTx2BrokerTx (bp_broker bp') = br_RawTx2BrokerTx (bp_broker bp)"
    and "\<forall>t \<in> set (halves1 E tm b cross). waits_for (bp_Confirm1Pool bp') (raw_of b ` set cross) (tx_TxHash t)"
    and "\<forall>sid. uint sid < ShardNum E \<longrightarrow> injected (ips sid 0) o' = filter (\<lambda>t. fetchModifiedMap E mm (tx_Sender t) = Inr sid) (halves1 E tm b cross)"
proof -
  let ?f = "fetchModifiedMap E mm" and ?raws = "map (raw_of b) cross"
  let ?megs = "map (\<lambda>r. \<lparr>t1_RawMeg = r, t1_Broker = rm_Broker r\<rparr>) ?raws"
  let ?itxs = "map (mark_broker (bp_broker bp)) (filter (\<lambda>tx. \<not> needs_broker ?f (bp_broker bp) tx) txs)"
  have f: "go_fold (deal_tx ?f bp) txs ([], []) = Inr (?itxs, ?raws)"
    using deal_all [OF assms(5,6), of txs "[]" "[]"] by (simp add: cross_def)
  show ?thesis
  proof (cases "cross = []")
    case True
    then have "dealTxByBroker E ips ?f dg tm txs bp = Inr (?itxs, [], bp)" using f by (simp add: dealTxByBroker_def)
    then show ?thesis using True assms(4) by (intro that [of "[]" bp]) (simp_all add: same_brokers_def halves1_def)
  next
    case False
    obtain bp1 where bp1: "fold (add_raw dg) ?raws ([], bp) = (?megs, bp1)" "broker_inv dg bp1" "same_brokers bp bp1"
        "bp_Confirm2Pool bp1 = bp_Confirm2Pool bp" "br_RawTx2BrokerTx (bp_broker bp1) = br_RawTx2BrokerTx (bp_broker bp)"
        "\<forall>r \<in> set ?raws. br_BrokerRawMegs (bp_broker bp1) (dg r) \<noteq> None"
      using add_raws [OF assms(4), of ?raws "[]"] by auto
    have r: "br_BrokerRawMegs (bp_broker bp1) (dg (t1_RawMeg m)) \<noteq> None" if "m \<in> set ?megs" for m using bp1(6) that by auto
    have h: "map (\<lambda>(j, m). make_tx1 E (tm j) m) (enumerate 0 ?megs) = halves1 E tm b cross"
      by (simp add: halves1_def enumerate_map_upt enumerate_eq_zip zip_map2 comp_def case_prod_unfold)
    obtain pool where pool: "go_foldi (add_tx1 E tm) 0 ?megs ([], bp1) = Inr (halves1 E tm b cross, bp1\<lparr>bp_Confirm1Pool := pool\<rparr>)"
        "broker_inv dg (bp1\<lparr>bp_Confirm1Pool := pool\<rparr>)" "\<forall>t \<in> set (halves1 E tm b cross). waits_for pool (raw_of b ` set cross) (tx_TxHash t)"
      using add_tx1s [OF bp1(2) r, of ?megs E tm 0 "[]"] unfolding h append_Nil by (auto simp: image_image)
    let ?bp = "bp1\<lparr>bp_Confirm1Pool := pool\<rparr>"
    have same: "same_brokers bp ?bp" using bp1(3) by (simp add: same_brokers_def)
    define dest where "dest = (\<lambda>t :: transaction. projr (?f (tx_Sender t)))"
    have d: "?f (tx_Sender t) = Inr (dest t)" "broker_route ?f (bp_broker ?bp) t = Inr (dest t)" if "t \<in> set (halves1 E tm b cross)" for t
    proof -
      obtain tx where tx: "tx \<in> set cross" "tx_Sender t = tx_Sender tx" using halves1_origin [OF \<open>t \<in> _\<close>] by blast
      then have "endpoints_ok ?f tx" "\<not> IsBroker (bp_broker bp) (tx_Sender t)" using assms(6) [of tx] by (auto simp: cross_def needs_broker_def)
      then show "?f (tx_Sender t) = Inr (dest t)" using tx(2) by (auto simp: dest_def endpoints_ok_def not_panic_iff)
      then show "broker_route ?f (bp_broker ?bp) t = Inr (dest t)"
        using \<open>\<not> IsBroker _ _\<close> unfolding same_brokers_routing(3) [OF same] by (simp add: broker_route_def)
    qed
    obtain o' where o': "broker_txSending E ips ?f (halves1 E tm b cross) ?bp = Inr o'"
        "\<forall>sid. uint sid < ShardNum E \<longrightarrow> injected (ips sid 0) o' = filter (\<lambda>t. dest t = sid) (halves1 E tm b cross)"
      using broker_sends [OF assms(1-3), of "halves1 E tm b cross" ?bp dest] d(2) by blast
    have "dealTxByBroker E ips ?f dg tm txs bp = Inr (?itxs, o', ?bp)"
      using False f bp1(1) pool(1) o'(1) by (simp add: dealTxByBroker_def handleBrokerRawMag_def handleBrokerType1Mes_def)
    moreover have "filter (\<lambda>t. dest t = sid) (halves1 E tm b cross) = filter (\<lambda>t. ?f (tx_Sender t) = Inr sid) (halves1 E tm b cross)" for sid
      using d(1) by (intro filter_cong) auto
    ultimately show ?thesis using pool(2,3) same bp1(4,5) o'(2) by (intro that [of o' ?bp]) simp_all
  qed
qed

lemma record_half_simps [simp]:
  "bp_Confirm1Pool (record_half h x bp) = bp_Confirm1Pool bp" "bp_Confirm2Pool (record_half h x bp) = bp_Confirm2Pool bp"
  "br_BrokerAddress (bp_broker (record_half h x bp)) = br_BrokerAddress (bp_broker bp)"
  "br_BrokerRawMegs (bp_broker (record_half h x bp)) = br_BrokerRawMegs (bp_broker bp)"
  "map_default [] (br_RawTx2BrokerTx (bp_broker (record_half h x bp))) k =
     map_default [] (br_RawTx2BrokerTx (bp_broker bp)) k @ (if k = h then [x] else [])"
  by (simp_all add: record_half_def)

definition record_all :: "('c \<Rightarrow> bytes) \<Rightarrow> ('c \<Rightarrow> bytes) \<Rightarrow> 'c list \<Rightarrow> broker_part \<Rightarrow> broker_part" where
  "record_all raw h cs bp = fold (\<lambda>c. record_half (raw c) (h c)) cs bp"

lemma record_all_simps [simp]:
  "bp_Confirm1Pool (record_all raw h cs bp) = bp_Confirm1Pool bp" "bp_Confirm2Pool (record_all raw h cs bp) = bp_Confirm2Pool bp"
  "br_BrokerAddress (bp_broker (record_all raw h cs bp)) = br_BrokerAddress (bp_broker bp)"
  "br_BrokerRawMegs (bp_broker (record_all raw h cs bp)) = br_BrokerRawMegs (bp_broker bp)"
  "map_default [] (br_RawTx2BrokerTx (bp_broker (record_all raw h cs bp))) k =
     map_default [] (br_RawTx2BrokerTx (bp_broker bp)) k @ map h (filter (\<lambda>c. raw c = k) cs)"
  by (induction cs arbitrary: bp) (simp_all add: record_all_def)

lemma record_all_inv [simp]: "broker_inv dg (record_all raw h cs bp) \<longleftrightarrow> broker_inv dg bp" "same_brokers bp (record_all raw h cs bp)"
  "first_broker (record_all raw h cs bp) = first_broker bp"
  by (simp_all add: broker_inv_def same_brokers_def first_broker_def)

abbreviation raw1_hash :: "mag1_confirm \<Rightarrow> bytes" where
  "raw1_hash c \<equiv> tx_TxHash (rm_Tx (m1_RawMeg c))"

abbreviation raw2_hash :: "mag2_confirm \<Rightarrow> bytes" where
  "raw2_hash c \<equiv> tx_TxHash (rm_Tx (m2_RawMeg c))"

lemma confirm_all:
  assumes "first_broker bp = Inr b" and "\<And>c. c \<in> set cs \<Longrightarrow> br_BrokerRawMegs (bp_broker bp) (dg (m1_RawMeg c)) \<noteq> None"
  shows "go_fold (confirm_tx1 dg) cs (megs, bp) =
    Inr (megs @ map (\<lambda>c. \<lparr>t2_RawMeg = m1_RawMeg c, t2_Broker = b\<rparr>) cs, record_all raw1_hash m1_Tx1Hash cs bp)"
  using assms
proof (induction cs arbitrary: megs bp)
  case (Cons c cs)
  let ?bp = "record_half (raw1_hash c) (m1_Tx1Hash c) bp"
  have f: "first_broker ?bp = Inr b" using Cons.prems(1) by (simp add: first_broker_def)
  have "confirm_tx1 dg c (megs, bp) = Inr (megs @ [\<lparr>t2_RawMeg = m1_RawMeg c, t2_Broker = b\<rparr>], ?bp)"
    using Cons.prems(2) [of c] f by (simp add: confirm_tx1_def Let_def)
  then show ?case using Cons.IH [OF f] Cons.prems(2) by (simp add: record_all_def)
qed (simp add: record_all_def)

lemma confirms_in: "c \<in> set (confirms pool txs) \<Longrightarrow> \<exists>tx \<in> set txs. pool (tx_TxHash tx) = Some c"
  by (auto simp: confirms_def List.map_filter_def)

lemma createConfirm_ok:
  fixes txs :: "transaction list"
  assumes "clpa_router_ok E mm" and "separate E ips" and "0 < InjectSpeed E" and "broker_inv dg bp" and "first_broker bp = Inr b"
    and "\<not> is_panic (fetchModifiedMap E mm b)"
  defines "c1s \<equiv> confirms (bp_Confirm1Pool bp) txs" and "c2s \<equiv> confirms (bp_Confirm2Pool bp) txs"
  assumes "\<And>c. c \<in> set c1s \<Longrightarrow> \<not> is_panic (fetchModifiedMap E mm (tx_Recipient (rm_Tx (m1_RawMeg c))))"
  obtains o' bp' where "createConfirm E ips (fetchModifiedMap E mm) dg tm txs bp = Inr (o', bp')" and "broker_inv dg bp'"
    and "same_brokers bp bp'" and "bp_Confirm1Pool bp' = bp_Confirm1Pool bp"
    and "\<forall>k. map_default [] (br_RawTx2BrokerTx (bp_broker bp')) k = map_default [] (br_RawTx2BrokerTx (bp_broker bp)) k @
          map m1_Tx1Hash (filter (\<lambda>c. raw1_hash c = k) c1s) @ map m2_Tx2Hash (filter (\<lambda>c. raw2_hash c = k) c2s)"
    and "\<forall>sid. uint sid < ShardNum E \<longrightarrow> injected (ips sid 0) o' =
          filter (\<lambda>t. fetchModifiedMap E mm (tx_Recipient t) = Inr sid) (halves2 E tm b (map m1_RawMeg c1s))"
proof -
  let ?f = "fetchModifiedMap E mm" and ?h = "halves2 E tm b (map m1_RawMeg c1s)"
  let ?megs = "map (\<lambda>c. \<lparr>t2_RawMeg = m1_RawMeg c, t2_Broker = b\<rparr>) c1s"
  have raw: "br_BrokerRawMegs (bp_broker bp) (dg (m1_RawMeg c)) \<noteq> None" if "c \<in> set c1s" for c
    using assms(4) confirms_in [of c "bp_Confirm1Pool bp" txs] that by (auto simp: broker_inv_def c1s_def)
  let ?bp1 = "record_all raw1_hash m1_Tx1Hash c1s bp"
  have h: "map (\<lambda>(j, m). make_tx2 E (tm j) m) (enumerate 0 ?megs) = ?h"
    by (simp add: halves2_def enumerate_eq_zip zip_map2 comp_def case_prod_unfold)
  have inv1: "broker_inv dg ?bp1" using assms(4) by simp
  obtain pool where pool: "go_foldi (add_tx2 E tm) 0 ?megs ([], ?bp1) = Inr (?h, ?bp1\<lparr>bp_Confirm2Pool := pool\<rparr>)"
      "broker_inv dg (?bp1\<lparr>bp_Confirm2Pool := pool\<rparr>)"
    using add_tx2s [OF inv1, of E tm 0 ?megs "[]"] unfolding h append_Nil by blast
  let ?bp2 = "if c1s \<noteq> [] then ?bp1\<lparr>bp_Confirm2Pool := pool\<rparr> else bp"
  have same: "same_brokers bp ?bp2" by (simp add: same_brokers_def)
  define dest where "dest = (\<lambda>t :: transaction. projr (?f (tx_Recipient t)))"
  have d: "?f (tx_Recipient t) = Inr (dest t)" "broker_route ?f (bp_broker ?bp2) t = Inr (dest t)" if "t \<in> set ?h" for t
  proof -
    obtain c where c: "c \<in> set c1s" "tx_Sender t = b" "tx_Recipient t = tx_Recipient (rm_Tx (m1_RawMeg c))"
      using halves2_origin [OF \<open>t \<in> _\<close>] by auto
    show r: "?f (tx_Recipient t) = Inr (dest t)" using assms(9) [OF c(1)] c(3) by (auto simp: dest_def not_panic_iff)
    obtain s where "?f b = Inr s" using assms(6) by (auto simp: not_panic_iff)
    then show "broker_route ?f (bp_broker ?bp2) t = Inr (dest t)"
      unfolding same_brokers_routing(3) [OF same] using first_broker_IsBroker [OF assms(5)] c(2) r by (simp add: broker_route_def)
  qed
  obtain o' where o': "broker_txSending E ips ?f ?h ?bp2 = Inr o'"
      "\<forall>sid. uint sid < ShardNum E \<longrightarrow> injected (ips sid 0) o' = filter (\<lambda>t. dest t = sid) ?h"
    using broker_sends [OF assms(1-3), of ?h ?bp2 dest] d(2) by blast
  let ?o = "if c1s \<noteq> [] then o' else []"
  have eq: "filter (\<lambda>t. dest t = sid) ?h = filter (\<lambda>t. ?f (tx_Recipient t) = Inr sid) ?h" for sid
    using d(1) by (intro filter_cong) auto
  have "(if c1s \<noteq> [] then handleTx1ConfirmMag E ips ?f dg tm c1s bp else Inr ([], bp)) = Inr (?o, ?bp2)"
    using confirm_all [where dg = dg and cs = c1s and megs = "[]", OF assms(5) raw] pool(1) o'(1)
    by (cases "c1s = []") (simp_all add: handleTx1ConfirmMag_def handleBrokerType2Mes_def)
  then have "createConfirm E ips ?f dg tm txs bp = Inr (?o, record_all raw2_hash m2_Tx2Hash c2s ?bp2)"
    by (simp add: createConfirm_def Let_def c1s_def [symmetric] c2s_def [symmetric] handleTx2ConfirmMag_def record_all_def)
  then show ?thesis
  proof (rule that)
    show "broker_inv dg (record_all raw2_hash m2_Tx2Hash c2s ?bp2)" using pool(2) assms(4) by simp
    show "\<forall>sid. uint sid < ShardNum E \<longrightarrow> injected (ips sid 0) ?o = filter (\<lambda>t. ?f (tx_Recipient t) = Inr sid) ?h"
      using o'(2) eq by (auto simp: halves2_def)
  qed (simp_all add: same_brokers_def)
qed

section \<open>Properties of the broker committees\<close>

text \<open>
  First halves. Let a broker exist and let all accounts of a batch have shards. Then
  \<open>dealTxByBroker\<close> returns; it hands back, in order, exactly the transactions that need no broker, those
  with a broker as endpoint marked; for every other one it sends the first half, which pays the same
  amount from the sender to the first broker, to the leader of the sender's shard and to nobody else;
  every first half can be confirmed, and the confirmation pools stay consistent.
\<close>

theorem dealTxByBroker_splits:
  assumes "clpa_router_ok E mm" and "separate E ips" and "0 < InjectSpeed E" and "broker_inv dg bp" and "first_broker bp = Inr b"
    and "\<forall>tx \<in> set txs. endpoints_ok (fetchModifiedMap E mm) tx"
  shows "\<exists>o' bp'. dealTxByBroker E ips (fetchModifiedMap E mm) dg tm txs bp =
      Inr (map (mark_broker (bp_broker bp)) (filter (\<lambda>tx. \<not> needs_broker (fetchModifiedMap E mm) (bp_broker bp) tx) txs), o', bp') \<and>
    broker_inv dg bp' \<and>
    (\<forall>sid. uint sid < ShardNum E \<longrightarrow> injected (ips sid 0) o' = filter (\<lambda>t. fetchModifiedMap E mm (tx_Sender t) = Inr sid)
       (halves1 E tm b (filter (needs_broker (fetchModifiedMap E mm) (bp_broker bp)) txs))) \<and>
    (\<forall>t \<in> set (halves1 E tm b (filter (needs_broker (fetchModifiedMap E mm) (bp_broker bp)) txs)).
       tx_Recipient t = b \<and>
       waits_for (bp_Confirm1Pool bp') (raw_of b ` set (filter (needs_broker (fetchModifiedMap E mm) (bp_broker bp)) txs)) (tx_TxHash t))"
proof -
  have e: "tx \<in> set txs \<Longrightarrow> endpoints_ok (fetchModifiedMap E mm) tx" for tx using assms(6) by blast
  have r: "tx_Recipient t = b" if "t \<in> set (halves1 E tm b cs)" for t cs using halves1_origin [OF that] by blast
  let ?f = "fetchModifiedMap E mm"
  let ?cross = "filter (needs_broker ?f (bp_broker bp)) txs"
  obtain o' bp' where "dealTxByBroker E ips ?f dg tm txs bp =
        Inr (map (mark_broker (bp_broker bp)) (filter (\<lambda>tx. \<not> needs_broker ?f (bp_broker bp) tx) txs), o', bp')"
      "broker_inv dg bp'" "\<forall>t \<in> set (halves1 E tm b ?cross). waits_for (bp_Confirm1Pool bp') (raw_of b ` set ?cross) (tx_TxHash t)"
      "\<forall>sid. uint sid < ShardNum E \<longrightarrow> injected (ips sid 0) o' = filter (\<lambda>t. ?f (tx_Sender t) = Inr sid) (halves1 E tm b ?cross)"
    by (rule dealTxByBroker_ok [where txs = txs and tm = tm, OF assms(1-5) e])
  then show ?thesis using r by (intro exI [of _ o'] exI [of _ bp'] conjI ballI) simp_all
qed

text \<open>
  Second halves. When a report names transactions for which first halves are waiting, \<open>createConfirm\<close>
  returns and sends, once per match, the second half: the same amount from the first broker to the
  recipient of the original transfer, to the leader of the recipient's shard and to nobody else. The
  hashes of confirmed halves are recorded under the hash of the original. The pool of waiting first
  halves is left as it was.
\<close>

theorem createConfirm_pays_once_per_match:
  assumes "clpa_router_ok E mm" and "separate E ips" and "0 < InjectSpeed E" and "broker_inv dg bp" and "first_broker bp = Inr b"
    and "\<not> is_panic (fetchModifiedMap E mm b)"
    and "\<forall>c \<in> set (confirms (bp_Confirm1Pool bp) txs). \<not> is_panic (fetchModifiedMap E mm (tx_Recipient (rm_Tx (m1_RawMeg c))))"
  shows "\<exists>o' bp'. createConfirm E ips (fetchModifiedMap E mm) dg tm txs bp = Inr (o', bp') \<and> broker_inv dg bp' \<and>
    bp_Confirm1Pool bp' = bp_Confirm1Pool bp \<and>
    (\<forall>sid. uint sid < ShardNum E \<longrightarrow> injected (ips sid 0) o' = filter (\<lambda>t. fetchModifiedMap E mm (tx_Recipient t) = Inr sid)
       (halves2 E tm b (map m1_RawMeg (confirms (bp_Confirm1Pool bp) txs)))) \<and>
    (\<forall>k. map_default [] (br_RawTx2BrokerTx (bp_broker bp')) k = map_default [] (br_RawTx2BrokerTx (bp_broker bp)) k @
       map m1_Tx1Hash (filter (\<lambda>c. raw1_hash c = k) (confirms (bp_Confirm1Pool bp) txs)) @
       map m2_Tx2Hash (filter (\<lambda>c. raw2_hash c = k) (confirms (bp_Confirm2Pool bp) txs)))"
proof -
  have e: "c \<in> set (confirms (bp_Confirm1Pool bp) txs) \<Longrightarrow> \<not> is_panic (fetchModifiedMap E mm (tx_Recipient (rm_Tx (m1_RawMeg c))))" for c
    using assms(7) by blast
  show ?thesis by (rule createConfirm_ok [where tm = tm and txs = txs, OF assms(1-6) e]) (assumption | intro exI conjI; assumption)+
qed

section \<open>Runs of the CLPA committee with brokers\<close>

text \<open>
  \<open>MsgSendingControl\<close> is the loop of the CLPA committee with another treatment of a batch; its positions
  are those of \<open>clpa_pc\<close>. The supervisor handles one message at a time (\<open>tcpLock\<close>), between two steps of
  the loop: a report, or transactions that a migration has turned into cross-shard ones.
\<close>

definition NewCLPACommitteeMod_Broker ::
  "go_env \<Rightarrow> 'f \<Rightarrow> 'f \<Rightarrow> int \<Rightarrow> string list \<Rightarrow> ip_table \<Rightarrow> stop_signal \<Rightarrow> int \<Rightarrow> int \<Rightarrow> int \<Rightarrow> 'f clpa_broker_committee go" where
  "NewCLPACommitteeMod_Broker E zero wp BrokerNum ls ips Ss dataNum batchNum clpaFrequency =
     and_then (NewCLPACommitteeModule E zero wp ips Ss dataNum batchNum clpaFrequency) (\<lambda>ccm.
       Inr \<lparr>cbm_ccm = ccm, cbm_part = new_broker_part BrokerNum ls\<rparr>)"

definition cbm_batch ::
  "go_env \<Rightarrow> (raw_meg \<Rightarrow> bytes) \<Rightarrow> (nat \<Rightarrow> gotime) \<Rightarrow> gotime \<Rightarrow> transaction list \<Rightarrow> 'f clpa_broker_committee \<Rightarrow> 'f clpa_broker_committee go" where
  "cbm_batch E dg tm t txlist cbm =
     (let cbm = (if ccm_clpaLastRunningTime (cbm_ccm cbm) = 0 then cbm\<lparr>cbm_ccm := (cbm_ccm cbm)\<lparr>ccm_clpaLastRunningTime := t\<rparr>\<rparr> else cbm)
      in and_then (cbm_deal E dg tm txlist cbm) (\<lambda>cbm.
           Inr (cbm\<lparr>cbm_ccm := (cbm_ccm cbm)\<lparr>ccm_Ss := StopGap_Reset (ccm_Ss (cbm_ccm cbm))\<rparr>\<rparr>)))"

definition cbm_handleMessage ::
  "go_env \<Rightarrow> (raw_meg \<Rightarrow> bytes) \<Rightarrow> (nat \<Rightarrow> gotime) \<Rightarrow> message \<Rightarrow> 'f clpa_broker_committee \<Rightarrow> 'f clpa_broker_committee go" where
  \<comment> \<open>the supervisor's dispatch: a report goes to the stop signal and the committee\<close>
  "cbm_handleMessage E dg tm msg cbm = (case msg of
     BlockInfoMsg b \<Rightarrow>
       let Ss = ccm_Ss (cbm_ccm cbm) in
       cbm_HandleBlockInfo E dg tm b
         (cbm\<lparr>cbm_ccm := (cbm_ccm cbm)\<lparr>ccm_Ss := (if bi_BlockBodyLength b = 0 then StopGap_Inc Ss else StopGap_Reset Ss)\<rparr>\<rparr>)
   | _ \<Rightarrow> cbm_HandleOtherMessage E dg tm msg cbm)"

record 'f cbm_run =
  cr_cbm :: "'f clpa_broker_committee"
  cr_pc :: clpa_pc
  cr_clpaCnt :: int

definition cbm_read_row ::
  "go_env \<Rightarrow> (raw_meg \<Rightarrow> bytes) \<Rightarrow> (nat \<Rightarrow> gotime) \<Rightarrow> (string \<Rightarrow> int option) \<Rightarrow> gotime \<Rightarrow> gotime \<Rightarrow> string list \<Rightarrow> row list \<Rightarrow>
   transaction list \<Rightarrow> 'f cbm_run \<Rightarrow> 'f cbm_run go" where
  "cbm_read_row E dg tm pv t0 t1 data rows txlist r =
     (let cbm = cr_cbm r in
      and_then (data2tx E pv t0 data (of_int (ccm_nowDataNum (cbm_ccm cbm)))) (\<lambda>otx. case otx of
        None \<Rightarrow> Inr (r\<lparr>cr_pc := ReadRows rows txlist\<rparr>)
      | Some tx \<Rightarrow>
          let txlist = txlist @ [tx];
              ccm = (cbm_ccm cbm)\<lparr>ccm_nowDataNum := ccm_nowDataNum (cbm_ccm cbm) + 1\<rparr>;
              cbm = cbm\<lparr>cbm_ccm := ccm\<rparr>;
              full = (int (length txlist) = ccm_batchDataNum ccm \<or> ccm_nowDataNum ccm = ccm_dataTotalNum ccm)
          in and_then (if full then cbm_batch E dg tm t1 txlist cbm else Inr cbm) (\<lambda>cbm.
               Inr (r\<lparr>cr_cbm := cbm, cr_pc := CheckTimer rows (if full then [] else txlist)\<rparr>))))"

definition cbm_clpaMapSend :: "go_env \<Rightarrow> (address \<rightharpoonup> u64) \<Rightarrow> 'f clpa_broker_committee \<Rightarrow> 'f clpa_broker_committee" where
  "cbm_clpaMapSend E m cbm =
     cbm_put (map (\<lambda>i. (ccm_IpNodeTable (cbm_ccm cbm) i 0, PartitionMsg m)) (all_shards E)) (cbm_part cbm) cbm"

definition cbm_clpaReset :: "go_env \<Rightarrow> 'f \<Rightarrow> 'f \<Rightarrow> 'f clpa_broker_committee \<Rightarrow> 'f clpa_broker_committee go" where
  "cbm_clpaReset E zero wp cbm =
     and_then (new_graph E zero wp) (\<lambda>cg.
       let cg = cg\<lparr>cs_PartitionMap := (\<lambda>key. map_option sint (ccm_modifiedMap (cbm_ccm cbm) key))\<rparr>
       in Inr (cbm\<lparr>cbm_ccm := (cbm_ccm cbm)\<lparr>ccm_clpaGraph := cg\<rparr>\<rparr>))"

definition cbm_epoch ::
  "go_env \<Rightarrow> 'f float_ops \<Rightarrow> edge_order \<Rightarrow> 'f \<Rightarrow> 'f \<Rightarrow> (nat \<Rightarrow> vertex list) \<Rightarrow> 'f clpa_broker_committee \<Rightarrow> 'f clpa_broker_committee go" where
  "cbm_epoch E fl eord zero wp vord cbm =
     and_then (CLPA_Partition fl eord vord (ccm_clpaGraph (cbm_ccm cbm))) (\<lambda>((mmap, _), cg).
       let cbm = cbm_clpaMapSend E mmap (cbm\<lparr>cbm_ccm := (cbm_ccm cbm)\<lparr>ccm_clpaGraph := cg\<rparr>\<rparr>);
           ccm = cbm_ccm cbm
       in cbm_clpaReset E zero wp (cbm\<lparr>cbm_ccm := ccm\<lparr>ccm_modifiedMap := ccm_modifiedMap ccm ++ mmap\<rparr>\<rparr>))"

lemma cbm_epoch_eq:
  "cbm_epoch E fl eord zero wp vord cbm =
     and_then (clpa_epoch E fl eord zero wp vord (cbm_ccm cbm)) (\<lambda>ccm. Inr (cbm\<lparr>cbm_ccm := ccm\<rparr>))"
  by (auto simp: cbm_epoch_def clpa_epoch_def cbm_clpaMapSend_def clpaMapSend_def cbm_clpaReset_def clpaReset_def cbm_put_def
      and_then_def Let_def split: sum.splits prod.splits)

abbreviation cr_over :: "'f cbm_run \<Rightarrow> bool" where
  "cr_over r \<equiv> ccm_curEpoch (cbm_ccm (cr_cbm r)) = to_int32 (cr_clpaCnt r)"

abbreviation cr_graph :: "'f cbm_run \<Rightarrow> graph" where
  "cr_graph r \<equiv> cs_NetGraph (ccm_clpaGraph (cbm_ccm (cr_cbm r)))"

definition cbm_timer :: "gotime \<Rightarrow> 'f clpa_broker_committee \<Rightarrow> 'f clpa_broker_committee" where
  "cbm_timer t cbm = cbm\<lparr>cbm_ccm := (cbm_ccm cbm)\<lparr>ccm_clpaLastRunningTime := t\<rparr>\<rparr>"

inductive cbm_step ::
  "go_env \<Rightarrow> 'f float_ops \<Rightarrow> edge_order \<Rightarrow> 'f \<Rightarrow> 'f \<Rightarrow> (raw_meg \<Rightarrow> bytes) \<Rightarrow> (string \<Rightarrow> int option) \<Rightarrow> 'f cbm_run \<Rightarrow> 'f cbm_run \<Rightarrow> bool"
  for E fl eord zero wp dg pv where
  read: "cr_pc r = ReadRows (Some data # rows) txlist \<Longrightarrow> cbm_read_row E dg tm pv t0 t1 data rows txlist r = Inr r' \<Longrightarrow>
    cbm_step E fl eord zero wp dg pv r r'"
| partition: "cr_pc r = CheckTimer rows txlist \<Longrightarrow> timer_due E t (cbm_ccm (cr_cbm r)) \<Longrightarrow> visits_vertices vord (cr_graph r) \<Longrightarrow>
    cbm_epoch E fl eord zero wp vord (cr_cbm r) = Inr cbm \<Longrightarrow>
    cbm_step E fl eord zero wp dg pv r (r\<lparr>cr_cbm := cbm, cr_clpaCnt := cr_clpaCnt r + 1, cr_pc := WaitEpoch rows txlist\<rparr>)"
| early: "cr_pc r = CheckTimer rows txlist \<Longrightarrow> \<not> timer_due E t (cbm_ccm (cr_cbm r)) \<Longrightarrow>
    cbm_step E fl eord zero wp dg pv r (r\<lparr>cr_pc := after_row rows txlist (cbm_ccm (cr_cbm r))\<rparr>)"
| eof: "cr_pc r = ReadRows [] txlist \<Longrightarrow> cbm_step E fl eord zero wp dg pv r (r\<lparr>cr_pc := Drain\<rparr>)"
| released: "cr_pc r = WaitEpoch rows txlist \<Longrightarrow> cr_over r \<Longrightarrow>
    cbm_step E fl eord zero wp dg pv r (r\<lparr>cr_cbm := cbm_timer t (cr_cbm r), cr_pc := after_row rows txlist (cbm_ccm (cr_cbm r))\<rparr>)"
| drain: "cr_pc r = Drain \<Longrightarrow> \<not> GapEnough (ccm_Ss (cbm_ccm (cr_cbm r))) \<Longrightarrow> clpa_due t (cbm_ccm (cr_cbm r)) \<Longrightarrow>
    visits_vertices vord (cr_graph r) \<Longrightarrow> cbm_epoch E fl eord zero wp vord (cr_cbm r) = Inr cbm \<Longrightarrow>
    cbm_step E fl eord zero wp dg pv r (r\<lparr>cr_cbm := cbm, cr_clpaCnt := cr_clpaCnt r + 1, cr_pc := WaitDrain\<rparr>)"
| drain_released: "cr_pc r = WaitDrain \<Longrightarrow> cr_over r \<Longrightarrow>
    cbm_step E fl eord zero wp dg pv r (r\<lparr>cr_cbm := cbm_timer t (cr_cbm r), cr_pc := Drain\<rparr>)"
| finish: "cr_pc r = Drain \<Longrightarrow> GapEnough (ccm_Ss (cbm_ccm (cr_cbm r))) \<Longrightarrow> cbm_step E fl eord zero wp dg pv r (r\<lparr>cr_pc := Finished\<rparr>)"
| handle: "cbm_handleMessage E dg tm msg (cr_cbm r) = Inr cbm \<Longrightarrow> cbm_step E fl eord zero wp dg pv r (r\<lparr>cr_cbm := cbm\<rparr>)"

inductive cbm_reachable ::
  "go_env \<Rightarrow> 'f float_ops \<Rightarrow> edge_order \<Rightarrow> 'f \<Rightarrow> 'f \<Rightarrow> (raw_meg \<Rightarrow> bytes) \<Rightarrow> (string \<Rightarrow> int option) \<Rightarrow> 'f cbm_run \<Rightarrow> bool"
  for E fl eord zero wp dg pv where
  start: "NewCLPACommitteeMod_Broker E zero wp n ls ips Ss dn bn fr = Inr cbm \<Longrightarrow>
    cbm_reachable E fl eord zero wp dg pv \<lparr>cr_cbm = cbm, cr_pc = ReadRows rows [], cr_clpaCnt = 0\<rparr>"
| step: "cbm_reachable E fl eord zero wp dg pv r \<Longrightarrow> cbm_step E fl eord zero wp dg pv r r' \<Longrightarrow> cbm_reachable E fl eord zero wp dg pv r'"

lemma dealTxByBroker_inv:
  assumes "dealTxByBroker E ips fetch dg tm txs bp = Inr (itxs, o', bp')" and "broker_inv dg bp"
  shows "broker_inv dg bp'" "partition_maps ip o' = []"
proof -
  obtain raws where "go_fold (deal_tx fetch bp) txs ([], []) = Inr (itxs, raws)" and
      r: "if raws = [] then o' = [] \<and> bp' = bp else handleBrokerRawMag E ips fetch dg tm raws bp = Inr (o', bp')"
    using assms(1) by (auto simp: dealTxByBroker_def and_then_Inr split: if_splits)
  have "broker_inv dg bp' \<and> partition_maps ip o' = []"
  proof (cases "raws = []")
    case True
    with r assms(2) show ?thesis by simp
  next
    case False
    obtain bp1 where bp1: "fold (add_raw dg) raws ([], bp) = (map (\<lambda>r. \<lparr>t1_RawMeg = r, t1_Broker = rm_Broker r\<rparr>) raws, bp1)" "broker_inv dg bp1"
        "\<forall>r \<in> set raws. br_BrokerRawMegs (bp_broker bp1) (dg r) \<noteq> None"
      using add_raws [OF assms(2), of raws "[]"] by auto
    let ?megs = "map (\<lambda>r. \<lparr>t1_RawMeg = r, t1_Broker = rm_Broker r\<rparr>) raws"
    have m: "br_BrokerRawMegs (bp_broker bp1) (dg (t1_RawMeg m)) \<noteq> None" if "m \<in> set ?megs" for m using bp1(3) that by auto
    obtain tx1s pool where "go_foldi (add_tx1 E tm) 0 ?megs ([], bp1) = Inr (tx1s, bp1\<lparr>bp_Confirm1Pool := pool\<rparr>)"
        "broker_inv dg (bp1\<lparr>bp_Confirm1Pool := pool\<rparr>)" using add_tx1s [OF bp1(2) m, of ?megs E tm 0 "[]"] by blast
    then show ?thesis using r False bp1(1)
      by (auto simp: handleBrokerRawMag_def handleBrokerType1Mes_def and_then_Inr broker_txSending_def txSending_def dest: send_loop_no_maps [where ip = ip])
  qed
  then show "broker_inv dg bp'" "partition_maps ip o' = []" by simp_all
qed

lemma confirm_partial:
  assumes "go_fold (confirm_tx1 dg) cs (megs, bp) = Inr (megs', bp')" and "broker_inv dg bp"
  shows "broker_inv dg bp'"
  using assms
proof (induction cs arbitrary: megs bp)
  case (Cons c cs)
  obtain megs1 bp1 where s: "confirm_tx1 dg c (megs, bp) = Inr (megs1, bp1)" "go_fold (confirm_tx1 dg) cs (megs1, bp1) = Inr (megs', bp')"
    using Cons.prems(1) by (auto simp: and_then_Inr)
  have "bp1 = bp \<or> bp1 = record_half (raw1_hash c) (m1_Tx1Hash c) bp"
    using s(1) by (auto simp: confirm_tx1_def Let_def and_then_Inr split: if_splits)
  then have "broker_inv dg bp1" using Cons.prems(2) by (auto simp: broker_inv_def)
  with Cons.IH s(2) show ?case by blast
qed simp

lemma createConfirm_inv:
  assumes "createConfirm E ips fetch dg tm txs bp = Inr (o', bp')" and "broker_inv dg bp"
  shows "broker_inv dg bp'" "partition_maps ip o' = []"
proof -
  let ?c1 = "confirms (bp_Confirm1Pool bp) txs" and ?c2 = "confirms (bp_Confirm2Pool bp) txs"
  obtain bp1 where h: "(if ?c1 \<noteq> [] then handleTx1ConfirmMag E ips fetch dg tm ?c1 bp else Inr ([], bp)) = Inr (o', bp1)"
      and bp': "bp' = (if ?c2 \<noteq> [] then handleTx2ConfirmMag ?c2 bp1 else bp1)"
    using assms(1) by (auto simp: createConfirm_def Let_def and_then_Inr split del: if_split)
  have "broker_inv dg bp1 \<and> partition_maps ip o' = []"
  proof (cases "?c1 = []")
    case True
    with h assms(2) show ?thesis by simp
  next
    case False
    obtain megs bp2 where f: "go_fold (confirm_tx1 dg) ?c1 ([], bp) = Inr (megs, bp2)"
        and t: "handleBrokerType2Mes E ips fetch tm megs bp2 = Inr (o', bp1)"
      using h False by (auto simp: handleTx1ConfirmMag_def and_then_Inr)
    have inv2: "broker_inv dg bp2" by (rule confirm_partial [OF f assms(2)])
    obtain tx2s pool where "go_foldi (add_tx2 E tm) 0 megs ([], bp2) = Inr (tx2s, bp2\<lparr>bp_Confirm2Pool := pool\<rparr>)"
        "broker_inv dg (bp2\<lparr>bp_Confirm2Pool := pool\<rparr>)" using add_tx2s [OF inv2, of E tm 0 megs "[]"] by blast
    then show ?thesis using t
      by (auto simp: handleBrokerType2Mes_def and_then_Inr broker_txSending_def txSending_def dest: send_loop_no_maps [where ip = ip])
  qed
  moreover have "broker_inv dg (handleTx2ConfirmMag ?c2 bp1) \<longleftrightarrow> broker_inv dg bp1"
    using record_all_inv(1) [of dg raw2_hash m2_Tx2Hash ?c2 bp1] by (simp add: handleTx2ConfirmMag_def record_all_def)
  ultimately show "broker_inv dg bp'" "partition_maps ip o' = []" using bp' by auto
qed

definition cbm_inv :: "go_env \<Rightarrow> (raw_meg \<Rightarrow> bytes) \<Rightarrow> 'f clpa_broker_committee \<Rightarrow> bool" where
  "cbm_inv E dg c \<longleftrightarrow> clpa_inv E (cbm_ccm c) \<and> broker_inv dg (cbm_part c)"

lemma cbm_put_inv:
  assumes "cbm_inv E dg c" and "broker_inv dg bp" and "\<And>ip. partition_maps ip o' = []"
  shows "cbm_inv E dg (cbm_put o' bp c)"
  using assms clpa_inv_cong [of "(cbm_ccm c)\<lparr>ccm_out := ccm_out (cbm_ccm c) @ o'\<rparr>" "cbm_ccm c" E] by (simp add: cbm_inv_def cbm_put_def)

lemma cbm_deal_inv:
  assumes "cbm_deal E dg tm txs c = Inr c'" and "cbm_inv E dg c"
  shows "cbm_inv E dg c'"
proof -
  obtain itx o1 bp c1 where d: "dealTxByBroker E (ccm_IpNodeTable (cbm_ccm c)) (cbm_fetch E c) dg tm txs (cbm_part c) = Inr (itx, o1, bp)"
      and c1: "c1 = cbm_put o1 bp c" and s: "cbm_txSending E itx c1 = Inr c'"
    using assms(1) by (auto simp: cbm_deal_def cbm_dealTxByBroker_eq and_then_Inr)
  have "broker_inv dg (cbm_part c)" using assms(2) by (simp add: cbm_inv_def)
  then have i1: "cbm_inv E dg c1" using cbm_put_inv [OF assms(2)] dealTxByBroker_inv [OF d] by (simp add: c1)
  obtain o2 where o2: "broker_txSending E (ccm_IpNodeTable (cbm_ccm c1)) (cbm_fetch E c1) itx (cbm_part c1) = Inr o2" "c' = cbm_put o2 (cbm_part c1) c1"
    using s by (auto simp: cbm_txSending_def and_then_Inr)
  have "partition_maps ip o2 = []" for ip using o2(1) by (auto simp: broker_txSending_def txSending_def dest: send_loop_no_maps [where ip = ip])
  then show ?thesis using cbm_put_inv [OF i1, of "cbm_part c1" o2] i1 by (simp add: o2(2) cbm_inv_def)
qed

lemma cbm_createConfirm_inv:
  assumes "cbm_createConfirm E dg tm txs c = Inr c'" and "cbm_inv E dg c"
  shows "cbm_inv E dg c'"
proof -
  obtain o' bp where c: "createConfirm E (ccm_IpNodeTable (cbm_ccm c)) (cbm_fetch E c) dg tm txs (cbm_part c) = Inr (o', bp)"
      and c': "c' = cbm_put o' bp c" using assms(1) by (auto simp: cbm_createConfirm_eq and_then_Inr)
  have "broker_inv dg (cbm_part c)" using assms(2) by (simp add: cbm_inv_def)
  then show ?thesis using cbm_put_inv [OF assms(2)] createConfirm_inv [OF c] by (simp add: c')
qed

lemma cbm_report_inv:
  assumes "cbm_HandleBlockInfo E dg tm b c = Inr c'" and "cbm_inv E dg c"
  shows "cbm_inv E dg c'"
proof -
  define ccm where "ccm = (if ccm_curEpoch (cbm_ccm c) = to_int32 (bi_Epoch b - 1) then (cbm_ccm c)\<lparr>ccm_curEpoch := to_int32 (bi_Epoch b)\<rparr> else cbm_ccm c)"
  define c0 where "c0 = c\<lparr>cbm_ccm := ccm\<rparr>"
  have i0: "cbm_inv E dg c0" using assms(2) clpa_inv_cong [of ccm "cbm_ccm c" E] by (simp add: cbm_inv_def c0_def ccm_def)
  show ?thesis
  proof (cases "bi_BlockBodyLength b = 0")
    case True
    with assms(1) i0 show ?thesis by (simp add: cbm_HandleBlockInfo_def c0_def ccm_def Let_def)
  next
    case False
    obtain c1 g1 g2 where c: "cbm_createConfirm E dg tm (bi_Broker1Txs b @ bi_Broker2Txs b) c0 = Inr c1"
        and g: "go_fold (\<lambda>tx. AddEdge E (tx_Sender tx) (tx_Recipient tx)) (filter (\<lambda>tx. \<not> tx_HasBroker tx) (bi_InnerShardTxs b))
            (ccm_clpaGraph (cbm_ccm c1)) = Inr g1"
          "go_fold (\<lambda>tx. AddEdge E (tx_OriginalSender tx) (tx_FinalRecipient tx)) (bi_Broker1Txs b) g1 = Inr g2"
        and c': "c' = c1\<lparr>cbm_ccm := (cbm_ccm c1)\<lparr>ccm_clpaGraph := g2\<rparr>\<rparr>"
      using assms(1) False unfolding cbm_HandleBlockInfo_def Let_def ccm_def [symmetric] c0_def [symmetric]
      by (auto simp: and_then_Inr Let_def)
    have i1: "cbm_inv E dg c1" by (rule cbm_createConfirm_inv [OF c i0])
    then have "clpa_inv E (cbm_ccm c1)" by (simp add: cbm_inv_def)
    then have "clpa_inv E ((cbm_ccm c1)\<lparr>ccm_clpaGraph := g1\<rparr>)" by (rule AddEdges_inv [OF _ g(1)])
    from AddEdges_inv [OF this, where cg = g2 and f = tx_OriginalSender and g = tx_FinalRecipient and txs = "bi_Broker1Txs b"] g(2) i1
    show ?thesis by (simp add: c' cbm_inv_def)
  qed
qed

lemma cbm_batch_inv:
  assumes "cbm_batch E dg tm t txs c = Inr c'" and "cbm_inv E dg c"
  shows "cbm_inv E dg c'"
proof -
  let ?c = "if ccm_clpaLastRunningTime (cbm_ccm c) = 0 then c\<lparr>cbm_ccm := (cbm_ccm c)\<lparr>ccm_clpaLastRunningTime := t\<rparr>\<rparr> else c"
  obtain c1 where d: "cbm_deal E dg tm txs ?c = Inr c1" and c': "c' = c1\<lparr>cbm_ccm := (cbm_ccm c1)\<lparr>ccm_Ss := StopGap_Reset (ccm_Ss (cbm_ccm c1))\<rparr>\<rparr>"
    using assms(1) by (auto simp: cbm_batch_def Let_def and_then_Inr split del: if_split)
  have "cbm_inv E dg ?c" using assms(2) clpa_inv_cong [of "cbm_ccm ?c" "cbm_ccm c" E] by (simp add: cbm_inv_def)
  from cbm_deal_inv [OF d this] show ?thesis
    using clpa_inv_cong [of "cbm_ccm c'" "cbm_ccm c1" E] by (simp add: cbm_inv_def c')
qed

lemma cbm_inv_cong:
  assumes "ccm_modifiedMap (cbm_ccm c') = ccm_modifiedMap (cbm_ccm c)" "ccm_clpaGraph (cbm_ccm c') = ccm_clpaGraph (cbm_ccm c)"
    "ccm_IpNodeTable (cbm_ccm c') = ccm_IpNodeTable (cbm_ccm c)" "ccm_out (cbm_ccm c') = ccm_out (cbm_ccm c)" "cbm_part c' = cbm_part c"
  shows "cbm_inv E dg c' \<longleftrightarrow> cbm_inv E dg c"
  using clpa_inv_cong [of "cbm_ccm c'" "cbm_ccm c" E] assms by (simp add: cbm_inv_def)

lemma cbm_epoch_inv:
  assumes "cbm_epoch E fl eord zero wp vord c = Inr c'" and "cbm_inv E dg c" and "edge_order_ok eord"
    and "visits_vertices vord (cs_NetGraph (ccm_clpaGraph (cbm_ccm c)))"
  shows "cbm_inv E dg c'"
  using assms clpa_inv_epoch [of E "cbm_ccm c" eord vord fl zero wp] by (auto simp: cbm_epoch_eq cbm_inv_def and_then_Inr)

lemma cbm_handleMessage_inv:
  assumes "cbm_handleMessage E dg tm msg c = Inr c'" and "cbm_inv E dg c"
  shows "cbm_inv E dg c'"
proof (cases "\<exists>b. msg = BlockInfoMsg b")
  case True
  then obtain b where b: "msg = BlockInfoMsg b" by blast
  let ?Ss = "ccm_Ss (cbm_ccm c)"
  let ?c = "c\<lparr>cbm_ccm := (cbm_ccm c)\<lparr>ccm_Ss := (if bi_BlockBodyLength b = 0 then StopGap_Inc ?Ss else StopGap_Reset ?Ss)\<rparr>\<rparr>"
  have "cbm_inv E dg ?c" using assms(2) cbm_inv_cong [of ?c c E dg] by simp
  moreover have "cbm_HandleBlockInfo E dg tm b ?c = Inr c'" using assms(1) b by (simp add: cbm_handleMessage_def Let_def)
  ultimately show ?thesis by (rule cbm_report_inv [rotated])
next
  case False
  then have "cbm_HandleOtherMessage E dg tm msg c = Inr c'" using assms(1) by (cases msg) (auto simp: cbm_handleMessage_def)
  then show ?thesis using assms(2) cbm_deal_inv by (cases msg) (auto simp: cbm_HandleOtherMessage_def)
qed

lemma cbm_read_row_inv:
  assumes "cbm_read_row E dg tm pv t0 t1 data rows txlist r = Inr r'" and "cbm_inv E dg (cr_cbm r)"
  shows "cbm_inv E dg (cr_cbm r')"
proof -
  obtain otx where otx: "data2tx E pv t0 data (of_int (ccm_nowDataNum (cbm_ccm (cr_cbm r)))) = Inr otx"
    using assms(1) by (auto simp: cbm_read_row_def and_then_Inr Let_def)
  show ?thesis
  proof (cases otx)
    case None
    with otx assms show ?thesis by (auto simp: cbm_read_row_def Let_def)
  next
    case (Some tx)
    define c0 where "c0 = (cr_cbm r)\<lparr>cbm_ccm := (cbm_ccm (cr_cbm r))\<lparr>ccm_nowDataNum := ccm_nowDataNum (cbm_ccm (cr_cbm r)) + 1\<rparr>\<rparr>"
    have i0: "cbm_inv E dg c0" using assms(2) cbm_inv_cong [of c0 "cr_cbm r" E dg] by (simp add: c0_def)
    have "cr_cbm r' = c0 \<or> cbm_batch E dg tm t1 (txlist @ [tx]) c0 = Inr (cr_cbm r')"
      using assms(1) unfolding cbm_read_row_def Let_def otx Some and_then_simps option.case
      unfolding c0_def [symmetric] and_then_Inr by (auto split: if_splits)
    then show ?thesis using i0 cbm_batch_inv by blast
  qed
qed

lemma cbm_step_inv:
  assumes "cbm_step E fl eord zero wp dg pv r r'" and "cbm_inv E dg (cr_cbm r)" and "edge_order_ok eord"
  shows "cbm_inv E dg (cr_cbm r')"
  using assms(1)
proof (cases rule: cbm_step.cases)
  case (read data rows txlist tm t0 t1)
  then show ?thesis using cbm_read_row_inv assms(2) by blast
next
  case (partition rows txlist t vord cbm)
  then show ?thesis using cbm_epoch_inv [OF partition(5) assms(2,3) partition(4)] by simp
next
  case (drain t vord cbm)
  then show ?thesis using cbm_epoch_inv [OF drain(6) assms(2,3) drain(5)] by simp
next
  case (released rows txlist t)
  then show ?thesis using assms(2) cbm_inv_cong [of "cbm_timer t (cr_cbm r)" "cr_cbm r" E dg] by (simp add: cbm_timer_def)
next
  case (drain_released t)
  then show ?thesis using assms(2) cbm_inv_cong [of "cbm_timer t (cr_cbm r)" "cr_cbm r" E dg] by (simp add: cbm_timer_def)
next
  case (handle tm msg cbm)
  then show ?thesis using cbm_handleMessage_inv assms(2) by simp blast
qed (use assms(2) in simp_all)

lemma cbm_reachable_inv:
  assumes "cbm_reachable E fl eord zero wp dg pv r" and "shards_ok E" and "edge_order_ok eord"
  shows "cbm_inv E dg (cr_cbm r)"
  using assms
proof (induction rule: cbm_reachable.induct)
  case (start n ls ips Ss dn bn fr cbm rows)
  then show ?case by (auto simp: NewCLPACommitteeMod_Broker_def and_then_Inr cbm_inv_def new_broker_inv dest: clpa_start_inv)
next
  case (step r r')
  then show ?case using cbm_step_inv [OF step(2)] by simp
qed

text \<open>
  C19. The CLPA committee with brokers keeps both its books. In every reachable state the graph is well
  formed and agrees with the routing of transactions, the routing map is what the shards have been
  told, every waiting first half is filed under its own hash and belongs to a known raw message, and
  every waiting second half is filed under its own hash.
\<close>

theorem clpa_broker_invariant:
  assumes "cbm_reachable E fl eord zero wp dg pv r" and "shards_ok E" and "edge_order_ok eord" and "c = cr_cbm r"
  shows "wf_clpa (ccm_clpaGraph (cbm_ccm c)) \<and>
    (\<forall>v s. cs_PartitionMap (ccm_clpaGraph (cbm_ccm c)) v = Some s \<longrightarrow> cbm_fetch E c v = Inr (of_int s)) \<and>
    (separate E (ccm_IpNodeTable (cbm_ccm c)) \<longrightarrow> (\<forall>sid. uint sid < ShardNum E \<longrightarrow>
       ccm_modifiedMap (cbm_ccm c) = foldl (++) Map.empty (partition_maps (ccm_IpNodeTable (cbm_ccm c) sid 0) (ccm_out (cbm_ccm c))))) \<and>
    (\<forall>h m. bp_Confirm1Pool (cbm_part c) h = Some m \<longrightarrow>
       m1_Tx1Hash m = h \<and> br_BrokerRawMegs (bp_broker (cbm_part c)) (dg (m1_RawMeg m)) \<noteq> None) \<and>
    (\<forall>h m. bp_Confirm2Pool (cbm_part c) h = Some m \<longrightarrow> m2_Tx2Hash m = h)"
  using cbm_reachable_inv [OF assms(1-3)] all_shards_iff [OF assms(2)] assms(4)
  by (simp add: cbm_inv_def clpa_inv_def broker_inv_def cbm_fetch_def)


section \<open>Witnesses\<close>

definition demo_part :: broker_part where
  "demo_part = new_broker_part 1 [''c0'', ''d0'']"

definition demo_dg :: "raw_meg \<Rightarrow> bytes" where
  "demo_dg r = tx_TxHash (rm_Tx r)"

lemma demo_broker:
  "clpa_router_ok demo_env Map.empty" "broker_inv demo_dg demo_part" "first_broker demo_part = Inr ''c0''"
  "fetchModifiedMap demo_env Map.empty ''a0'' = Inr 0" "fetchModifiedMap demo_env Map.empty ''b1'' = Inr 1"
  "fetchModifiedMap demo_env Map.empty ''c0'' = Inr 0" "tx_Sender demo_payment = ''a0''" "tx_Recipient demo_payment = ''b1''"
proof -
  have "Addr2Shard demo_env ''c0'' = Inr 0"
    by (simp add: Addr2Shard_def last8_def ParseUint16_def hex_digit_def demo_env_simps go_mod_def)
  then show "fetchModifiedMap demo_env Map.empty ''c0'' = Inr 0" "fetchModifiedMap demo_env Map.empty ''a0'' = Inr 0"
    "fetchModifiedMap demo_env Map.empty ''b1'' = Inr 1"
    using demo_address by (simp_all add: fetchModifiedMap_def Addr2Shard64_def)
  show "clpa_router_ok demo_env Map.empty" using demo_committee_env(1) by (simp add: clpa_router_ok_def)
  show "broker_inv demo_dg demo_part" by (simp add: demo_part_def new_broker_inv)
  show "first_broker demo_part = Inr ''c0''" by (simp add: first_broker_def demo_part_def new_broker_part_def NewBroker_def go_nth_def)
  show "tx_Sender demo_payment = ''a0''" "tx_Recipient demo_payment = ''b1''" by (simp_all add: demo_payment_def)
qed

lemma demo_needs_broker: "needs_broker (fetchModifiedMap demo_env Map.empty) (bp_broker demo_part) demo_payment"
  using demo_broker by (simp add: needs_broker_def IsBroker_iff demo_part_def new_broker_part_def NewBroker_def)

theorem dealTxByBroker_splits_witness:
  "\<exists>o' bp'. dealTxByBroker demo_env demo_ips (fetchModifiedMap demo_env Map.empty) demo_dg (\<lambda>i. 3) [demo_payment] demo_part = Inr ([], o', bp') \<and>
     map tx_Recipient (injected ''ip0'' o') = [''c0'']"
proof -
  let ?f = "fetchModifiedMap demo_env Map.empty"
  have e: "\<forall>tx \<in> set [demo_payment]. endpoints_ok ?f tx" using demo_broker by (simp add: endpoints_ok_def)
  obtain o' bp' where d: "dealTxByBroker demo_env demo_ips ?f demo_dg (\<lambda>i. 3) [demo_payment] demo_part =
        Inr (map (mark_broker (bp_broker demo_part)) (filter (\<lambda>tx. \<not> needs_broker ?f (bp_broker demo_part) tx) [demo_payment]), o', bp')"
      "\<forall>sid. uint sid < ShardNum demo_env \<longrightarrow> injected (demo_ips sid 0) o' = filter (\<lambda>t. ?f (tx_Sender t) = Inr sid)
         (halves1 demo_env (\<lambda>i. 3) ''c0'' (filter (needs_broker ?f (bp_broker demo_part)) [demo_payment]))"
    using dealTxByBroker_splits [OF demo_broker(1) demo_committee_env(2,3) demo_broker(2,3) e, of "\<lambda>i. 3"] by blast
  have "uint (0 :: u64) < ShardNum demo_env" by (simp add: demo_env_simps)
  from d(2) [rule_format, OF this] have "map tx_Recipient (injected ''ip0'' o') = [''c0'']"
    using demo_needs_broker demo_broker by (simp add: halves1_def demo_ips_def)
  with d(1) demo_needs_broker show ?thesis by simp
qed

theorem createConfirm_pays_once_per_match_witness:
  "\<exists>o' bp'. createConfirm demo_env demo_ips (fetchModifiedMap demo_env Map.empty) demo_dg (\<lambda>i. 4) [demo_payment]
       (demo_part\<lparr>bp_broker := (bp_broker demo_part)\<lparr>br_BrokerRawMegs := [tx_TxHash demo_payment \<mapsto> raw_of ''c0'' demo_payment]\<rparr>,
          bp_Confirm1Pool := [tx_TxHash demo_payment \<mapsto> \<lparr>m1_Tx1Hash = tx_TxHash demo_payment, m1_RawMeg = raw_of ''c0'' demo_payment\<rparr>]\<rparr>) = Inr (o', bp') \<and>
     map tx_Recipient (injected ''ip1'' o') = [''b1'']"
proof -
  let ?f = "fetchModifiedMap demo_env Map.empty"
  let ?bp = "demo_part\<lparr>bp_broker := (bp_broker demo_part)\<lparr>br_BrokerRawMegs := [tx_TxHash demo_payment \<mapsto> raw_of ''c0'' demo_payment]\<rparr>,
          bp_Confirm1Pool := [tx_TxHash demo_payment \<mapsto> \<lparr>m1_Tx1Hash = tx_TxHash demo_payment, m1_RawMeg = raw_of ''c0'' demo_payment\<rparr>]\<rparr>"
  have inv: "broker_inv demo_dg ?bp" by (simp add: broker_inv_def demo_part_def new_broker_part_def demo_dg_def)
  have b: "first_broker ?bp = Inr ''c0''" using demo_broker(3) by (simp add: first_broker_def)
  have c: "confirms (bp_Confirm1Pool ?bp) [demo_payment] = [\<lparr>m1_Tx1Hash = tx_TxHash demo_payment, m1_RawMeg = raw_of ''c0'' demo_payment\<rparr>]"
    by (simp add: confirms_def List.map_filter_def)
  have p: "\<not> is_panic (?f ''c0'')" "\<forall>m \<in> set (confirms (bp_Confirm1Pool ?bp) [demo_payment]). \<not> is_panic (?f (tx_Recipient (rm_Tx (m1_RawMeg m))))"
    unfolding c using demo_broker by simp_all
  obtain o' bp' where k: "createConfirm demo_env demo_ips ?f demo_dg (\<lambda>i. 4) [demo_payment] ?bp = Inr (o', bp')"
      "\<forall>sid. uint sid < ShardNum demo_env \<longrightarrow> injected (demo_ips sid 0) o' = filter (\<lambda>t. ?f (tx_Recipient t) = Inr sid)
         (halves2 demo_env (\<lambda>i. 4) ''c0'' (map m1_RawMeg (confirms (bp_Confirm1Pool ?bp) [demo_payment])))"
    using createConfirm_pays_once_per_match [OF demo_broker(1) demo_committee_env(2,3) inv b p, of "\<lambda>i. 4"] by blast
  have "uint (1 :: u64) < ShardNum demo_env" by (simp add: demo_env_simps)
  from k(2) [rule_format, OF this] have "map tx_Recipient (injected ''ip1'' o') = [''b1'']"
    unfolding c using demo_broker by (simp add: halves2_def demo_ips_def)
  with k(1) show ?thesis by (intro exI conjI)
qed


theorem clpa_broker_invariant_witness:
  "\<exists>r. cbm_reachable demo_env demo_fl demo_order 0 1 demo_dg (\<lambda>s. Some 5) r \<and> wf_clpa (ccm_clpaGraph (cbm_ccm (cr_cbm r))) \<and>
     br_BrokerAddress (bp_broker (cbm_part (cr_cbm r))) = [''c0'']"
proof -
  obtain ccm where "NewCLPACommitteeModule demo_env (0 :: int) 1 demo_ips (NewStopSignal 6) 10 2 30 = Inr ccm"
    using new_graph_total [OF demo_committee_env(1), of 0 "1 :: int"] by (auto simp: NewCLPACommitteeModule_def)
  then have "NewCLPACommitteeMod_Broker demo_env (0 :: int) 1 1 [''c0'', ''d0''] demo_ips (NewStopSignal 6) 10 2 30 =
      Inr \<lparr>cbm_ccm = ccm, cbm_part = demo_part\<rparr>" by (simp add: NewCLPACommitteeMod_Broker_def demo_part_def)
  then have r: "cbm_reachable demo_env demo_fl demo_order 0 1 demo_dg (\<lambda>s. Some 5)
      \<lparr>cr_cbm = \<lparr>cbm_ccm = ccm, cbm_part = demo_part\<rparr>, cr_pc = ReadRows [] [], cr_clpaCnt = 0\<rparr>" by (rule cbm_reachable.start)
  from clpa_broker_invariant [OF r demo_committee_env(1) demo_order_ok] r show ?thesis
    by (intro exI [of _ "\<lparr>cr_cbm = \<lparr>cbm_ccm = ccm, cbm_part = demo_part\<rparr>, cr_pc = ReadRows [] [], cr_clpaCnt = 0\<rparr>"])
      (auto simp: demo_part_def new_broker_part_def NewBroker_def)
qed

end
