(* ===== verification/Measures.thy ===== *)
theory Measures
  imports Complex_Main Messages
begin

text \<open>
  The measures of the supervisor, \<open>supervisor/measure/\<close>: modules that the supervisor feeds with every
  report of a leader, which keep per-epoch figures: numbers of transactions, rate of cross-shard
  transactions, throughput, confirmation latency, and the time stamps of every transaction.

  The relay and the broker version of a module have the same fields and the same shape; the record is
  shared, and the versions differ in the lists of a report they read and in the order of the
  floating-point operations. A slice per figure is a list per figure, indexed by the epoch. \<open>float64\<close>
  is the parameter \<open>fl\<close> (\<open>f64\<close>). Times count nanoseconds; a difference of times is a \<open>Duration\<close>, which
  saturates. Writing the CSV files is in theory \<open>Measure_Files\<close>.
\<close>

section \<open>Floats, durations, slices indexed by epochs\<close>

record 'f f64 =
  f_of_int :: "int \<Rightarrow> 'f"
  f_add :: "'f \<Rightarrow> 'f \<Rightarrow> 'f"
  f_div :: "'f \<Rightarrow> 'f \<Rightarrow> 'f"

abbreviation f_zero :: "'f f64 \<Rightarrow> 'f" where
  "f_zero fl \<equiv> f_of_int fl 0"

abbreviation f_half :: "'f f64 \<Rightarrow> 'f \<Rightarrow> 'f" where
  "f_half fl x \<equiv> f_div fl x (f_of_int fl 2)"

definition go_sub :: "gotime \<Rightarrow> gotime \<Rightarrow> int" where
  \<comment> \<open>\<open>t.Sub(u)\<close>\<close>
  "go_sub t u = max (- (2 ^ 63)) (min (2 ^ 63 - 1) (t - u))"

definition Milliseconds :: "int \<Rightarrow> int" where
  "Milliseconds d = go_quot d 1000000"

definition Seconds :: "'f f64 \<Rightarrow> int \<Rightarrow> 'f" where
  "Seconds fl d =
     (let sec = go_quot d 1000000000 in
      f_add fl (f_of_int fl sec) (f_div fl (f_of_int fl (d - sec * 1000000000)) (f_of_int fl 1000000000)))"

definition grow :: "nat \<Rightarrow> 'a \<Rightarrow> 'a list \<Rightarrow> 'a list" where
  \<comment> \<open>\<open>k\<close> turns of the loop that appends the zero value\<close>
  "grow k z xs = xs @ replicate k z"

definition bump :: "('a \<Rightarrow> 'a) \<Rightarrow> int \<Rightarrow> 'a list \<Rightarrow> 'a list go" where
  \<comment> \<open>\<open>xs[i] = f(xs[i])\<close>\<close>
  "bump f i xs = (if 0 \<le> i \<and> i < int (length xs) then Inr (xs[nat i := f (xs ! nat i)]) else Inl IndexOutOfRange)"

definition turns :: "int \<Rightarrow> int \<Rightarrow> nat" where
  \<comment> \<open>number of turns of \<open>for epochID < epochid\<close>\<close>
  "turns epochID epochid = nat (epochid - epochID)"

section \<open>Numbers of transactions\<close>

record 'f tx_num =
  tn_epochID :: int
  tn_txNum :: "'f list"
  tn_normal :: "int list"
  tn_first :: "int list"
  tn_second :: "int list"

definition NewTestTxNumCount :: "'f tx_num" where
  "NewTestTxNumCount = \<lparr>tn_epochID = -1, tn_txNum = [], tn_normal = [], tn_first = [], tn_second = []\<rparr>"

definition TxNum_record :: "'f f64 \<Rightarrow> 'f \<Rightarrow> int \<Rightarrow> int \<Rightarrow> block_info \<Rightarrow> 'f tx_num \<Rightarrow> 'f tx_num go" where
  \<comment> \<open>for \<open>n1\<close> and \<open>n2\<close> halves of cross-shard transactions and the weight \<open>w\<close> of the block\<close>
  "TxNum_record fl w n1 n2 b m =
     (if bi_BlockBodyLength b = 0 then Inr m
      else
        let e = bi_Epoch b; k = turns (tn_epochID m) e in
        and_then (bump (\<lambda>x. x + int (length (bi_InnerShardTxs b))) e (grow k 0 (tn_normal m))) (\<lambda>normal.
        and_then (bump (\<lambda>x. x + n1) e (grow k 0 (tn_first m))) (\<lambda>first.
        and_then (bump (\<lambda>x. x + n2) e (grow k 0 (tn_second m))) (\<lambda>second.
        and_then (bump (\<lambda>x. f_add fl x w) e (grow k (f_zero fl) (tn_txNum m))) (\<lambda>txNum.
          Inr \<lparr>tn_epochID = tn_epochID m + int k, tn_txNum = txNum, tn_normal = normal, tn_first = first, tn_second = second\<rparr>)))))"

definition TxNum_Relay_update :: "'f f64 \<Rightarrow> block_info \<Rightarrow> 'f tx_num \<Rightarrow> 'f tx_num go" where
  "TxNum_Relay_update fl b =
     (let n1 = int (length (bi_Relay1Txs b)); n2 = int (length (bi_Relay2Txs b))
      in TxNum_record fl (f_add fl (f_of_int fl (int (length (bi_InnerShardTxs b)))) (f_half fl (f_of_int fl (n1 + n2)))) n1 n2 b)"

definition TxNum_Broker_update :: "'f f64 \<Rightarrow> block_info \<Rightarrow> 'f tx_num \<Rightarrow> 'f tx_num go" where
  "TxNum_Broker_update fl b =
     (let n1 = int (length (bi_Broker1Txs b)); n2 = int (length (bi_Broker2Txs b))
      in TxNum_record fl (f_add fl (f_of_int fl (int (length (bi_InnerShardTxs b))))
           (f_half fl (f_add fl (f_of_int fl n1) (f_of_int fl n2)))) n1 n2 b)"

definition TxNum_output :: "'f f64 \<Rightarrow> 'f tx_num \<Rightarrow> 'f list \<times> 'f" where
  "TxNum_output fl m = fold (\<lambda>tn (per, tot). (per @ [tn], f_add fl tot tn)) (tn_txNum m) ([], f_zero fl)"

section \<open>Rate of cross-shard transactions\<close>

record 'f cross_rate =
  cx_epochID :: int
  cx_totTxNum :: "'f list"
  cx_totCrossTxNum :: "'f list"
  cx_normal :: "int list"
  cx_first :: "int list"
  cx_second :: "int list"

definition NewTestCrossTxRate :: "'f cross_rate" where
  "NewTestCrossTxRate = \<lparr>cx_epochID = -1, cx_totTxNum = [], cx_totCrossTxNum = [], cx_normal = [], cx_first = [], cx_second = []\<rparr>"

definition CrossRate_record :: "'f f64 \<Rightarrow> 'f \<Rightarrow> 'f \<Rightarrow> int \<Rightarrow> int \<Rightarrow> block_info \<Rightarrow> 'f cross_rate \<Rightarrow> 'f cross_rate go" where
  "CrossRate_record fl c w n1 n2 b m =
     (if bi_BlockBodyLength b = 0 then Inr m
      else
        let e = bi_Epoch b; k = turns (cx_epochID m) e in
        and_then (bump (\<lambda>x. x + int (length (bi_InnerShardTxs b))) e (grow k 0 (cx_normal m))) (\<lambda>normal.
        and_then (bump (\<lambda>x. x + n1) e (grow k 0 (cx_first m))) (\<lambda>first.
        and_then (bump (\<lambda>x. x + n2) e (grow k 0 (cx_second m))) (\<lambda>second.
        and_then (bump (\<lambda>x. f_add fl x c) e (grow k (f_zero fl) (cx_totCrossTxNum m))) (\<lambda>cross.
        and_then (bump (\<lambda>x. f_add fl x w) e (grow k (f_zero fl) (cx_totTxNum m))) (\<lambda>tot.
          Inr \<lparr>cx_epochID = cx_epochID m + int k, cx_totTxNum = tot, cx_totCrossTxNum = cross, cx_normal = normal,
               cx_first = first, cx_second = second\<rparr>))))))"

definition CrossTxRate_Relay_update :: "'f f64 \<Rightarrow> block_info \<Rightarrow> 'f cross_rate \<Rightarrow> 'f cross_rate go" where
  "CrossTxRate_Relay_update fl b =
     (let n1 = int (length (bi_Relay1Txs b)); n2 = int (length (bi_Relay2Txs b)); c = f_half fl (f_of_int fl (n1 + n2))
      in CrossRate_record fl c (f_add fl c (f_of_int fl (int (length (bi_InnerShardTxs b))))) n1 n2 b)"

definition CrossTxRate_Broker_update :: "'f f64 \<Rightarrow> block_info \<Rightarrow> 'f cross_rate \<Rightarrow> 'f cross_rate go" where
  "CrossTxRate_Broker_update fl b =
     (let n1 = int (length (bi_Broker1Txs b)); n2 = int (length (bi_Broker2Txs b)); c = f_half fl (f_of_int fl (n1 + n2))
      in CrossRate_record fl c (f_add fl (f_of_int fl (int (length (bi_InnerShardTxs b)))) c) n1 n2 b)"

definition CrossTxRate_output :: "'f f64 \<Rightarrow> 'f cross_rate \<Rightarrow> ('f list \<times> 'f) go" where
  "CrossTxRate_output fl m =
     and_then (go_foldi (\<lambda>eid totTxN (per, tot, ctx).
         and_then (go_nth (cx_totCrossTxNum m) (int eid)) (\<lambda>c. Inr (per @ [f_div fl c totTxN], f_add fl tot totTxN, f_add fl ctx c)))
       0 (cx_totTxNum m) ([], f_zero fl, f_zero fl)) (\<lambda>(per, tot, ctx).
     Inr (per @ [tot, ctx], f_div fl ctx tot))"

section \<open>Throughput\<close>

record 'f avg_tps =
  tps_epochID :: int
  tps_excutedTxNum :: "'f list"
  tps_normal :: "int list"
  tps_first :: "int list"
  tps_second :: "int list"
  tps_startTime :: "gotime list"
  tps_endTime :: "gotime list"

definition NewTestModule_avgTPS :: "'f avg_tps" where
  "NewTestModule_avgTPS = \<lparr>tps_epochID = -1, tps_excutedTxNum = [], tps_normal = [], tps_first = [], tps_second = [],
     tps_startTime = [], tps_endTime = []\<rparr>"

definition earlier :: "gotime \<Rightarrow> gotime \<Rightarrow> gotime" where
  \<comment> \<open>the new start of an epoch: \<open>t\<close> is the recorded one\<close>
  "earlier earliestTime t = (if t = 0 \<or> t > earliestTime then earliestTime else t)"

definition later :: "gotime \<Rightarrow> gotime \<Rightarrow> gotime" where
  "later latestTime t = (if t = 0 \<or> latestTime > t then latestTime else t)"

definition avgTPS_record :: "('f \<Rightarrow> 'f) \<Rightarrow> 'f f64 \<Rightarrow> int \<Rightarrow> int \<Rightarrow> block_info \<Rightarrow> 'f avg_tps \<Rightarrow> 'f avg_tps go" where
  \<comment> \<open>\<open>add\<close> is what the block does to the number of executed transactions of its epoch\<close>
  "avgTPS_record add fl n1 n2 b m =
     (if bi_BlockBodyLength b = 0 then Inr m
      else
        let e = bi_Epoch b; k = turns (tps_epochID m) e in
        and_then (bump add e (grow k (f_zero fl) (tps_excutedTxNum m))) (\<lambda>ex.
        and_then (bump (\<lambda>x. x + int (length (bi_InnerShardTxs b))) e (grow k 0 (tps_normal m))) (\<lambda>normal.
        and_then (bump (\<lambda>x. x + n1) e (grow k 0 (tps_first m))) (\<lambda>first.
        and_then (bump (\<lambda>x. x + n2) e (grow k 0 (tps_second m))) (\<lambda>second.
        and_then (bump (earlier (bi_ProposeTime b)) e (grow k 0 (tps_startTime m))) (\<lambda>start.
        and_then (bump (later (bi_CommitTime b)) e (grow k 0 (tps_endTime m))) (\<lambda>end'.
          Inr \<lparr>tps_epochID = tps_epochID m + int k, tps_excutedTxNum = ex, tps_normal = normal, tps_first = first, tps_second = second,
               tps_startTime = start, tps_endTime = end'\<rparr>)))))))"

definition avgTPS_Relay_update :: "'f f64 \<Rightarrow> block_info \<Rightarrow> 'f avg_tps \<Rightarrow> 'f avg_tps go" where
  "avgTPS_Relay_update fl b =
     (let n1 = int (length (bi_Relay1Txs b)); n2 = int (length (bi_Relay2Txs b))
      in avgTPS_record (\<lambda>x. f_add fl (f_add fl x (f_half fl (f_of_int fl (n1 + n2)))) (f_of_int fl (int (length (bi_InnerShardTxs b))))) fl n1 n2 b)"

definition avgTPS_Broker_update :: "'f f64 \<Rightarrow> block_info \<Rightarrow> 'f avg_tps \<Rightarrow> 'f avg_tps go" where
  "avgTPS_Broker_update fl b =
     (let n1 = int (length (bi_Broker1Txs b)); n2 = int (length (bi_Broker2Txs b))
      in avgTPS_record (\<lambda>x. f_add fl x (f_add fl (f_of_int fl (int (length (bi_InnerShardTxs b)))) (f_half fl (f_of_int fl (n1 + n2))))) fl n1 n2 b)"

definition avgTPS_output :: "'f f64 \<Rightarrow> gotime \<Rightarrow> 'f avg_tps \<Rightarrow> ('f list \<times> 'f) go" where
  "avgTPS_output fl now m =
     and_then (go_foldi (\<lambda>eid exTxNum (per, total, eTime, lTime).
         and_then (go_nth (tps_startTime m) (int eid)) (\<lambda>start.
         and_then (go_nth (tps_endTime m) (int eid)) (\<lambda>end'.
         and_then (bump (\<lambda>_. f_div fl exTxNum (Seconds fl (go_sub end' start))) (int eid) per) (\<lambda>per.
           Inr (per, f_add fl total exTxNum, if eTime > start then start else eTime, if end' > lTime then end' else lTime)))))
       0 (tps_excutedTxNum m) (replicate (nat (tps_epochID m + 1)) (f_zero fl), f_zero fl, now, 0)) (\<lambda>(per, total, eTime, lTime).
     Inr (per, f_div fl total (Seconds fl (go_sub lTime eTime))))"

section \<open>Confirmation latency\<close>

record 'f tcl =
  tcl_epochID :: int
  tcl_totTxLatencyEpoch :: "'f list"
  tcl_firstLatency :: "int list"
  tcl_secondLatency :: "int list"
  tcl_ctxLatency :: "int list"
  tcl_normalLatency :: "int list"
  tcl_normal :: "int list"
  tcl_first :: "int list"
  tcl_second :: "int list"
  tcl_txNum :: "'f list"
  tcl_times :: "bytes \<rightharpoonup> gotime" \<comment> \<open>\<open>relay1CommitTS\<close>, \<open>brokerTxMap\<close>\<close>

definition NewTestModule_TCL :: "'f tcl" where
  "NewTestModule_TCL = \<lparr>tcl_epochID = -1, tcl_totTxLatencyEpoch = [], tcl_firstLatency = [], tcl_secondLatency = [], tcl_ctxLatency = [],
     tcl_normalLatency = [], tcl_normal = [], tcl_first = [], tcl_second = [], tcl_txNum = [], tcl_times = Map.empty\<rparr>"

definition latency :: "block_info \<Rightarrow> gotime \<Rightarrow> int" where
  \<comment> \<open>\<open>CommitTime.Sub(t).Milliseconds()\<close>\<close>
  "latency b t = Milliseconds (go_sub (bi_CommitTime b) t)"

definition add_seconds :: "'f f64 \<Rightarrow> block_info \<Rightarrow> gotime \<Rightarrow> 'f \<Rightarrow> 'f" where
  "add_seconds fl b t x = f_add fl x (Seconds fl (go_sub (bi_CommitTime b) t))"

definition raw_key :: "transaction \<Rightarrow> bytes" where
  \<comment> \<open>\<open>string(tx.RawTxHash)\<close>\<close>
  "raw_key tx = (case tx_RawTxHash tx of None \<Rightarrow> [] | Some h \<Rightarrow> h)"

text \<open>
  What one block adds to the latencies of its epoch: the loops over the transactions of the block, each
  accumulating in the entry of the epoch.
\<close>

record 'f tcl_block =
  tb_tot :: "'f \<Rightarrow> 'f"
  tb_first :: int
  tb_second :: int
  tb_ctx :: int
  tb_normal :: int

definition sum_over :: "('a \<Rightarrow> int) \<Rightarrow> 'a list \<Rightarrow> int" where
  \<comment> \<open>a loop that adds \<open>f x\<close> for every element\<close>
  "sum_over f xs = fold (\<lambda>x s. s + f x) xs 0"

definition TCL_record :: "'f f64 \<Rightarrow> int \<Rightarrow> int \<Rightarrow> (bytes \<rightharpoonup> gotime) \<Rightarrow> 'f tcl_block \<Rightarrow> block_info \<Rightarrow> 'f tcl \<Rightarrow> 'f tcl go" where
  "TCL_record fl n1 n2 ts tb b m =
     (let e = bi_Epoch b; k = turns (tcl_epochID m) e in
      and_then (bump (\<lambda>x. x + int (length (bi_InnerShardTxs b))) e (grow k 0 (tcl_normal m))) (\<lambda>normal.
      and_then (bump (\<lambda>x. x + n1) e (grow k 0 (tcl_first m))) (\<lambda>first.
      and_then (bump (\<lambda>x. x + n2) e (grow k 0 (tcl_second m))) (\<lambda>second.
      and_then (bump (\<lambda>x. f_add fl x (f_add fl (f_of_int fl (int (length (bi_InnerShardTxs b)))) (f_half fl (f_of_int fl (n1 + n2)))))
                  e (grow k (f_zero fl) (tcl_txNum m))) (\<lambda>txNum.
      and_then (bump (tb_tot tb) e (grow k (f_zero fl) (tcl_totTxLatencyEpoch m))) (\<lambda>tot.
      and_then (bump (\<lambda>x. x + tb_first tb) e (grow k 0 (tcl_firstLatency m))) (\<lambda>l1.
      and_then (bump (\<lambda>x. x + tb_second tb) e (grow k 0 (tcl_secondLatency m))) (\<lambda>l2.
      and_then (bump (\<lambda>x. x + tb_ctx tb) e (grow k 0 (tcl_ctxLatency m))) (\<lambda>lc.
      and_then (bump (\<lambda>x. x + tb_normal tb) e (grow k 0 (tcl_normalLatency m))) (\<lambda>ln.
        Inr \<lparr>tcl_epochID = tcl_epochID m + int k, tcl_totTxLatencyEpoch = tot, tcl_firstLatency = l1, tcl_secondLatency = l2,
             tcl_ctxLatency = lc, tcl_normalLatency = ln, tcl_normal = normal, tcl_first = first, tcl_second = second,
             tcl_txNum = txNum, tcl_times = ts\<rparr>))))))))))"

definition relay1_times :: "block_info \<Rightarrow> (bytes \<rightharpoonup> gotime) \<Rightarrow> (bytes \<rightharpoonup> gotime)" where
  "relay1_times b ts = fold (\<lambda>r1tx ts. ts(tx_TxHash r1tx \<mapsto> bi_CommitTime b)) (bi_Relay1Txs b) ts"

definition relay_block :: "'f f64 \<Rightarrow> block_info \<Rightarrow> (bytes \<rightharpoonup> gotime) \<Rightarrow> 'f tcl_block" where
  \<comment> \<open>\<open>ts\<close> are the times after the first loop; the total first gets the second halves, then the normal transactions\<close>
  "relay_block fl b ts =
     \<lparr>tb_tot = (\<lambda>x. fold (\<lambda>ntx. add_seconds fl b (tx_Time ntx)) (bi_InnerShardTxs b)
                       (fold (\<lambda>r2tx. add_seconds fl b (tx_Time r2tx)) (bi_Relay2Txs b) x)),
      tb_first = sum_over (\<lambda>r1tx. latency b (tx_Time r1tx)) (bi_Relay1Txs b),
      tb_second = sum_over (\<lambda>r2tx. case ts (tx_TxHash r2tx) of None \<Rightarrow> 0 | Some r1 \<Rightarrow> latency b r1) (bi_Relay2Txs b),
      tb_ctx = sum_over (\<lambda>r2tx. case ts (tx_TxHash r2tx) of None \<Rightarrow> 0 | Some r1 \<Rightarrow> latency b (tx_Time r2tx)) (bi_Relay2Txs b),
      tb_normal = sum_over (\<lambda>ntx. latency b (tx_Time ntx)) (bi_InnerShardTxs b)\<rparr>"

definition TCL_Relay_update :: "'f f64 \<Rightarrow> block_info \<Rightarrow> 'f tcl \<Rightarrow> 'f tcl go" where
  "TCL_Relay_update fl b m =
     (if bi_BlockBodyLength b = 0 then Inr m
      else let ts = relay1_times b (tcl_times m)
           in TCL_record fl (int (length (bi_Relay1Txs b))) (int (length (bi_Relay2Txs b))) ts (relay_block fl b ts) b m)"

definition broker1_times :: "block_info \<Rightarrow> (bytes \<rightharpoonup> gotime) \<Rightarrow> (bytes \<rightharpoonup> gotime)" where
  "broker1_times b ts = fold (\<lambda>b1tx ts. ts(raw_key b1tx \<mapsto> tx_Time b1tx)) (bi_Broker1Txs b) ts"

definition broker_block :: "'f f64 \<Rightarrow> block_info \<Rightarrow> (bytes \<rightharpoonup> gotime) \<Rightarrow> 'f tcl_block" where
  "broker_block fl b ts =
     \<lparr>tb_tot = (\<lambda>x. fold (\<lambda>b2tx. case ts (raw_key b2tx) of None \<Rightarrow> id | Some t \<Rightarrow> add_seconds fl b t) (bi_Broker2Txs b)
                       (fold (\<lambda>tx. add_seconds fl b (tx_Time tx)) (bi_InnerShardTxs b) x)),
      tb_first = sum_over (\<lambda>b1tx. latency b (tx_Time b1tx)) (bi_Broker1Txs b),
      tb_second = sum_over (\<lambda>b2tx. latency b (tx_Time b2tx)) (bi_Broker2Txs b),
      tb_ctx = sum_over (\<lambda>b2tx. case ts (raw_key b2tx) of None \<Rightarrow> 0 | Some t \<Rightarrow> latency b t) (bi_Broker2Txs b),
      tb_normal = sum_over (\<lambda>tx. latency b (tx_Time tx)) (bi_InnerShardTxs b)\<rparr>"

definition TCL_Broker_update :: "'f f64 \<Rightarrow> block_info \<Rightarrow> 'f tcl \<Rightarrow> 'f tcl go" where
  "TCL_Broker_update fl b m =
     (if bi_BlockBodyLength b = 0 then Inr m
      else let ts = broker1_times b (tcl_times m)
           in TCL_record fl (int (length (bi_Broker1Txs b))) (int (length (bi_Broker2Txs b))) ts (broker_block fl b ts) b m)"

definition TCL_output :: "'f f64 \<Rightarrow> 'f tcl \<Rightarrow> ('f list \<times> 'f) go" where
  "TCL_output fl m =
     and_then (go_foldi (\<lambda>eid totLatency (per, latencySum, totTxNum).
         and_then (go_nth (tcl_txNum m) (int eid)) (\<lambda>n. Inr (per @ [f_div fl totLatency n], f_add fl latencySum totLatency, f_add fl totTxNum n)))
       0 (tcl_totTxLatencyEpoch m) ([], f_zero fl, f_zero fl)) (\<lambda>(per, latencySum, totTxNum).
     Inr (per, f_div fl latencySum totTxNum))"

section \<open>Construction and output of the broker versions\<close>

definition NewTestTxNumCount_Broker :: "'f tx_num" where
  "NewTestTxNumCount_Broker = \<lparr>tn_epochID = -1, tn_txNum = [], tn_normal = [], tn_first = [], tn_second = []\<rparr>"

definition TxNum_Broker_output :: "'f f64 \<Rightarrow> 'f tx_num \<Rightarrow> 'f list \<times> 'f" where
  "TxNum_Broker_output fl ttnc =
     fold (\<lambda>tn (perEpochCTXs, totTxNum). (perEpochCTXs @ [tn], f_add fl totTxNum tn)) (tn_txNum ttnc) ([], f_zero fl)"

definition NewTestCrossTxRate_Broker :: "'f cross_rate" where
  "NewTestCrossTxRate_Broker = \<lparr>cx_epochID = -1, cx_totTxNum = [], cx_totCrossTxNum = [], cx_normal = [], cx_first = [], cx_second = []\<rparr>"

definition CrossTxRate_Broker_output :: "'f f64 \<Rightarrow> 'f cross_rate \<Rightarrow> ('f list \<times> 'f) go" where
  "CrossTxRate_Broker_output fl tctr =
     and_then (go_foldi (\<lambda>eid totTxN (per, totTxNum, ctxNum).
         and_then (go_nth (cx_totCrossTxNum tctr) (int eid)) (\<lambda>c.
           Inr (per @ [f_div fl c totTxN], f_add fl totTxNum totTxN, f_add fl ctxNum c)))
       0 (cx_totTxNum tctr) ([], f_zero fl, f_zero fl)) (\<lambda>(per, totTxNum, ctxNum).
     Inr (per @ [totTxNum, ctxNum], f_div fl ctxNum totTxNum))"

definition NewTestModule_avgTPS_Broker :: "'f avg_tps" where
  "NewTestModule_avgTPS_Broker = \<lparr>tps_epochID = -1, tps_excutedTxNum = [], tps_normal = [], tps_first = [], tps_second = [],
     tps_startTime = [], tps_endTime = []\<rparr>"

definition avgTPS_Broker_output :: "'f f64 \<Rightarrow> gotime \<Rightarrow> 'f avg_tps \<Rightarrow> ('f list \<times> 'f) go" where
  "avgTPS_Broker_output fl now tat =
     and_then (go_foldi (\<lambda>eid exTxNum (perEpochTPS, totalTxNum, eTime, lTime).
         and_then (go_nth (tps_startTime tat) (int eid)) (\<lambda>start.
         and_then (go_nth (tps_endTime tat) (int eid)) (\<lambda>end'.
         let timeGap = Seconds fl (go_sub end' start) in
         and_then (bump (\<lambda>_. f_div fl exTxNum timeGap) (int eid) perEpochTPS) (\<lambda>perEpochTPS.
           Inr (perEpochTPS, f_add fl totalTxNum exTxNum, if eTime > start then start else eTime, if end' > lTime then end' else lTime)))))
       0 (tps_excutedTxNum tat) (replicate (nat (tps_epochID tat + 1)) (f_zero fl), f_zero fl, now, 0))
       (\<lambda>(perEpochTPS, totalTxNum, eTime, lTime).
     Inr (perEpochTPS, f_div fl totalTxNum (Seconds fl (go_sub lTime eTime))))"

definition NewTestModule_TCL_Broker :: "'f tcl" where
  "NewTestModule_TCL_Broker = \<lparr>tcl_epochID = -1, tcl_totTxLatencyEpoch = [], tcl_firstLatency = [], tcl_secondLatency = [],
     tcl_ctxLatency = [], tcl_normalLatency = [], tcl_normal = [], tcl_first = [], tcl_second = [], tcl_txNum = [], tcl_times = Map.empty\<rparr>"

definition TCL_Broker_output :: "'f f64 \<Rightarrow> 'f tcl \<Rightarrow> ('f list \<times> 'f) go" where
  "TCL_Broker_output fl tml =
     and_then (go_foldi (\<lambda>eid totLatency (perEpochLatency, latencySum, totTxNum).
         and_then (go_nth (tcl_txNum tml) (int eid)) (\<lambda>n.
           Inr (perEpochLatency @ [f_div fl totLatency n], f_add fl latencySum totLatency, f_add fl totTxNum n)))
       0 (tcl_totTxLatencyEpoch tml) ([], f_zero fl, f_zero fl)) (\<lambda>(perEpochLatency, latencySum, totTxNum).
     Inr (perEpochLatency, f_div fl latencySum totTxNum))"

text \<open>They agree with the relay versions.\<close>

lemma broker_versions [simp]:
  "NewTestTxNumCount_Broker = NewTestTxNumCount" "NewTestCrossTxRate_Broker = NewTestCrossTxRate"
  "NewTestModule_avgTPS_Broker = NewTestModule_avgTPS" "NewTestModule_TCL_Broker = NewTestModule_TCL"
  "TxNum_Broker_output = TxNum_output" "CrossTxRate_Broker_output = CrossTxRate_output"
  "avgTPS_Broker_output = avgTPS_output" "TCL_Broker_output = TCL_output"
  by (simp_all add: fun_eq_iff NewTestTxNumCount_Broker_def NewTestTxNumCount_def NewTestCrossTxRate_Broker_def NewTestCrossTxRate_def
      NewTestModule_avgTPS_Broker_def NewTestModule_avgTPS_def NewTestModule_TCL_Broker_def NewTestModule_TCL_def
      TxNum_Broker_output_def TxNum_output_def CrossTxRate_Broker_output_def CrossTxRate_output_def
      avgTPS_Broker_output_def avgTPS_output_def TCL_Broker_output_def TCL_output_def Let_def)

section \<open>Details of every transaction\<close>

record tx_detail =
  td_TxPropose :: gotime
  td_BlockPropose :: gotime
  td_TxCommit :: gotime
  td_Relay1Commit :: gotime
  td_Relay2Commit :: gotime
  td_Broker1Commit :: gotime
  td_Broker2Commit :: gotime

definition no_detail :: tx_detail where
  "no_detail = \<lparr>td_TxPropose = 0, td_BlockPropose = 0, td_TxCommit = 0, td_Relay1Commit = 0, td_Relay2Commit = 0,
     td_Broker1Commit = 0, td_Broker2Commit = 0\<rparr>"

type_synonym tx_details = "bytes \<rightharpoonup> tx_detail"

definition set_detail :: "(transaction \<Rightarrow> bytes) \<Rightarrow> (transaction \<Rightarrow> tx_detail \<Rightarrow> tx_detail) \<Rightarrow> transaction list \<Rightarrow> tx_details \<Rightarrow> tx_details" where
  \<comment> \<open>one of the five loops: create the entry of a transaction if there is none, then set time stamps\<close>
  "set_detail key f txs m = fold (\<lambda>tx m. m(key tx \<mapsto> f tx (map_default no_detail m (key tx)))) txs m"

definition TxDetail_update :: "block_info \<Rightarrow> tx_details \<Rightarrow> tx_details" where
  "TxDetail_update b m =
     (if bi_BlockBodyLength b = 0 then m
      else
        let m = set_detail tx_TxHash (\<lambda>tx d. d\<lparr>td_TxPropose := tx_Time tx, td_BlockPropose := bi_ProposeTime b, td_TxCommit := bi_CommitTime b\<rparr>)
                  (bi_InnerShardTxs b) m;
            m = set_detail tx_TxHash (\<lambda>tx d. d\<lparr>td_TxPropose := tx_Time tx, td_BlockPropose := bi_ProposeTime b, td_Relay1Commit := bi_CommitTime b\<rparr>)
                  (bi_Relay1Txs b) m;
            m = set_detail tx_TxHash (\<lambda>tx d. d\<lparr>td_Relay2Commit := bi_CommitTime b, td_TxCommit := bi_CommitTime b\<rparr>) (bi_Relay2Txs b) m;
            m = set_detail raw_key (\<lambda>tx d. d\<lparr>td_TxPropose := tx_Time tx, td_BlockPropose := bi_ProposeTime b, td_Broker1Commit := bi_CommitTime b\<rparr>)
                  (bi_Broker1Txs b) m
        in set_detail raw_key (\<lambda>tx d. d\<lparr>td_Broker2Commit := bi_CommitTime b, td_TxCommit := bi_CommitTime b\<rparr>) (bi_Broker2Txs b) m)"

definition confirmed_latency :: "tx_detail \<Rightarrow> int" where
  \<comment> \<open>the last column of the CSV file\<close>
  "confirmed_latency d = Milliseconds (go_sub (td_TxCommit d) (td_TxPropose d))"

section \<open>The modules of the supervisor\<close>

datatype 'f measure_module =
    TPS_Relay "'f avg_tps"
  | TPS_Broker "'f avg_tps"
  | TCL_Relay "'f tcl"
  | TCL_Broker "'f tcl"
  | CrossTxRate_Relay "'f cross_rate"
  | CrossTxRate_Broker "'f cross_rate"
  | TxNumberCount_Relay "'f tx_num"
  | TxNumberCount_Broker "'f tx_num"
  | Tx_Details tx_details

definition new_measure :: "string \<Rightarrow> 'f measure_module option" where
  "new_measure mModName =
     (if mModName = ''TPS_Relay'' then Some (TPS_Relay NewTestModule_avgTPS)
      else if mModName = ''TPS_Broker'' then Some (TPS_Broker NewTestModule_avgTPS_Broker)
      else if mModName = ''TCL_Relay'' then Some (TCL_Relay NewTestModule_TCL)
      else if mModName = ''TCL_Broker'' then Some (TCL_Broker NewTestModule_TCL_Broker)
      else if mModName = ''CrossTxRate_Relay'' then Some (CrossTxRate_Relay NewTestCrossTxRate)
      else if mModName = ''CrossTxRate_Broker'' then Some (CrossTxRate_Broker NewTestCrossTxRate_Broker)
      else if mModName = ''TxNumberCount_Relay'' then Some (TxNumberCount_Relay NewTestTxNumCount)
      else if mModName = ''TxNumberCount_Broker'' then Some (TxNumberCount_Broker NewTestTxNumCount_Broker)
      else if mModName = ''Tx_Details'' then Some (Tx_Details Map.empty)
      else None)"

definition new_measures :: "string list \<Rightarrow> 'f measure_module list" where
  "new_measures measureModNames = List.map_filter new_measure measureModNames"

fun UpdateMeasureRecord :: "'f f64 \<Rightarrow> block_info \<Rightarrow> 'f measure_module \<Rightarrow> 'f measure_module go" where
  "UpdateMeasureRecord fl b (TPS_Relay m) = and_then (avgTPS_Relay_update fl b m) (\<lambda>m. Inr (TPS_Relay m))"
| "UpdateMeasureRecord fl b (TPS_Broker m) = and_then (avgTPS_Broker_update fl b m) (\<lambda>m. Inr (TPS_Broker m))"
| "UpdateMeasureRecord fl b (TCL_Relay m) = and_then (TCL_Relay_update fl b m) (\<lambda>m. Inr (TCL_Relay m))"
| "UpdateMeasureRecord fl b (TCL_Broker m) = and_then (TCL_Broker_update fl b m) (\<lambda>m. Inr (TCL_Broker m))"
| "UpdateMeasureRecord fl b (CrossTxRate_Relay m) = and_then (CrossTxRate_Relay_update fl b m) (\<lambda>m. Inr (CrossTxRate_Relay m))"
| "UpdateMeasureRecord fl b (CrossTxRate_Broker m) = and_then (CrossTxRate_Broker_update fl b m) (\<lambda>m. Inr (CrossTxRate_Broker m))"
| "UpdateMeasureRecord fl b (TxNumberCount_Relay m) = and_then (TxNum_Relay_update fl b m) (\<lambda>m. Inr (TxNumberCount_Relay m))"
| "UpdateMeasureRecord fl b (TxNumberCount_Broker m) = and_then (TxNum_Broker_update fl b m) (\<lambda>m. Inr (TxNumberCount_Broker m))"
| "UpdateMeasureRecord fl b (Tx_Details m) = Inr (Tx_Details (TxDetail_update b m))"

fun OutputRecord :: "'f f64 \<Rightarrow> gotime \<Rightarrow> 'f measure_module \<Rightarrow> ('f list \<times> 'f) go" where
  "OutputRecord fl now (TPS_Relay m) = avgTPS_output fl now m"
| "OutputRecord fl now (TPS_Broker m) = avgTPS_Broker_output fl now m"
| "OutputRecord fl now (TCL_Relay m) = TCL_output fl m"
| "OutputRecord fl now (TCL_Broker m) = TCL_Broker_output fl m"
| "OutputRecord fl now (CrossTxRate_Relay m) = CrossTxRate_output fl m"
| "OutputRecord fl now (CrossTxRate_Broker m) = CrossTxRate_Broker_output fl m"
| "OutputRecord fl now (TxNumberCount_Relay m) = Inr (TxNum_output fl m)"
| "OutputRecord fl now (TxNumberCount_Broker m) = Inr (TxNum_Broker_output fl m)"
| "OutputRecord fl now (Tx_Details m) = Inr ([], f_zero fl)"

fun update_measures :: "'f f64 \<Rightarrow> block_info \<Rightarrow> 'f measure_module list \<Rightarrow> 'f measure_module list go" where
  \<comment> \<open>the loop of \<open>handleBlockInfos\<close> over the modules\<close>
  "update_measures fl b [] = Inr []"
| "update_measures fl b (m # ms) =
     and_then (UpdateMeasureRecord fl b m) (\<lambda>m. and_then (update_measures fl b ms) (\<lambda>ms. Inr (m # ms)))"

section \<open>A measure is a fold per epoch\<close>

text \<open>
  The contract of a measure with per-epoch figures. \<open>row m e\<close> are the figures of epoch \<open>e\<close> (zero values
  for an epoch without a slot), \<open>glob m\<close> is what the module remembers across epochs. Reports of empty
  blocks are ignored; any other report changes the row of its epoch only, by \<open>acc\<close>.
\<close>

definition reports_ok :: "block_info list \<Rightarrow> bool" where
  "reports_ok bs \<longleftrightarrow> list_all (\<lambda>b. 0 \<le> bi_Epoch b) bs"

definition epoch_step :: "(block_info \<Rightarrow> 'g \<Rightarrow> 'd \<Rightarrow> 'd) \<Rightarrow> (block_info \<Rightarrow> 'g \<Rightarrow> 'g) \<Rightarrow> block_info \<Rightarrow> 'g \<times> (nat \<Rightarrow> 'd) \<Rightarrow> 'g \<times> (nat \<Rightarrow> 'd)" where
  "epoch_step acc note b = (\<lambda>(g, rows).
     if bi_BlockBodyLength b = 0 then (g, rows) else (note b g, rows(nat (bi_Epoch b) := acc b g (rows (nat (bi_Epoch b))))))"

definition of_epoch :: "nat \<Rightarrow> block_info list \<Rightarrow> block_info list" where
  \<comment> \<open>the reports that count for an epoch\<close>
  "of_epoch e bs = filter (\<lambda>b. bi_BlockBodyLength b \<noteq> 0 \<and> bi_Epoch b = int e) bs"

lemma of_epoch_simps [simp]:
  "of_epoch e [] = []"
  "of_epoch e (b # bs) = (if bi_BlockBodyLength b \<noteq> 0 \<and> bi_Epoch b = int e then b # of_epoch e bs else of_epoch e bs)"
  "of_epoch e (bs @ cs) = of_epoch e bs @ of_epoch e cs"
  by (simp_all add: of_epoch_def)

locale epoch_measure =
  fixes upd :: "block_info \<Rightarrow> 'm \<Rightarrow> 'm go"
    and ok :: "'m \<Rightarrow> bool"
    and glob :: "'m \<Rightarrow> 'g"
    and row :: "'m \<Rightarrow> nat \<Rightarrow> 'd"
    and acc :: "block_info \<Rightarrow> 'g \<Rightarrow> 'd \<Rightarrow> 'd"
    and remember :: "block_info \<Rightarrow> 'g \<Rightarrow> 'g"
  assumes ignores_empty: "bi_BlockBodyLength b = 0 \<Longrightarrow> upd b m = Inr m"
    and adds: "ok m \<Longrightarrow> bi_BlockBodyLength b \<noteq> 0 \<Longrightarrow> 0 \<le> bi_Epoch b \<Longrightarrow>
      \<exists>m'. upd b m = Inr m' \<and> ok m' \<and> glob m' = remember b (glob m) \<and>
        (\<forall>e. row m' e = (if bi_Epoch b = int e then acc b (glob m) (row m e) else row m e))"
    and rejects: "ok m \<Longrightarrow> bi_BlockBodyLength b \<noteq> 0 \<Longrightarrow> bi_Epoch b < 0 \<Longrightarrow> is_panic (upd b m)"
begin

lemma upd_refines:
  assumes "ok m" and "0 \<le> bi_Epoch b"
  shows "\<exists>m'. upd b m = Inr m' \<and> ok m' \<and> (glob m', row m') = epoch_step acc remember b (glob m, row m)"
proof (cases "bi_BlockBodyLength b = 0")
  case True
  then show ?thesis using assms(1) ignores_empty [of b m] by (simp add: epoch_step_def)
next
  case False
  obtain m' where m': "upd b m = Inr m'" "ok m'" "glob m' = remember b (glob m)"
      "\<forall>e. row m' e = (if bi_Epoch b = int e then acc b (glob m) (row m e) else row m e)"
    using adds [OF assms(1) False assms(2)] by blast
  have "row m' = (row m)(nat (bi_Epoch b) := acc b (glob m) (row m (nat (bi_Epoch b))))"
    using m'(4) assms(2) by (auto simp: fun_eq_iff)
  then show ?thesis using m' False by (auto simp: epoch_step_def)
qed

lemma run_refines:
  assumes "ok m" and "reports_ok bs"
  shows "\<exists>m'. go_fold upd bs m = Inr m' \<and> ok m' \<and> (glob m', row m') = fold (epoch_step acc remember) bs (glob m, row m)"
  using assms
proof (induction bs arbitrary: m)
  case (Cons b bs)
  obtain m' where "upd b m = Inr m'" "ok m'" "(glob m', row m') = epoch_step acc remember b (glob m, row m)"
    using upd_refines [of m b] Cons.prems by (auto simp: reports_ok_def)
  with Cons.IH [of m'] Cons.prems(2) show ?case by (auto simp: reports_ok_def)
qed simp

text \<open>If the figures do not depend on what is remembered, the row of an epoch is a fold over its reports.\<close>

lemma run_rows:
  assumes "ok m" and "reports_ok bs" and "\<And>b g d. acc b g d = acc' b d"
  shows "\<exists>m'. go_fold upd bs m = Inr m' \<and> ok m' \<and> (\<forall>e. row m' e = fold acc' (of_epoch e bs) (row m e))"
proof -
  have "snd (fold (epoch_step acc remember) bs (g, rows)) e = fold acc' (of_epoch e bs) (rows e)" for g rows e
    using assms(2) by (induction bs arbitrary: g rows) (auto simp: reports_ok_def epoch_step_def assms(3))
  then show ?thesis using run_refines [OF assms(1,2)] by (metis snd_conv)
qed

end

section \<open>The modules meet the contract\<close>

definition nth_or :: "'a \<Rightarrow> 'a list \<Rightarrow> nat \<Rightarrow> 'a" where
  "nth_or z xs e = (if e < length xs then xs ! e else z)"

definition bumped :: "('a \<Rightarrow> 'a) \<Rightarrow> int \<Rightarrow> nat \<Rightarrow> 'a \<Rightarrow> 'a list \<Rightarrow> 'a list" where
  "bumped f i k z xs = (grow k z xs)[nat i := f (nth_or z xs (nat i))]"

lemma bump_grow:
  assumes "0 \<le> i" and "i < int (length xs + k)"
  shows "bump f i (grow k z xs) = Inr (bumped f i k z xs)"
  using assms by (auto simp: bump_def grow_def bumped_def nth_or_def nth_append)

lemma bumped_simps [simp]:
  "length (bumped f i k z xs) = length xs + k"
  "0 \<le> i \<Longrightarrow> i < int (length xs + k) \<Longrightarrow> nth_or z (bumped f i k z xs) e = (if i = int e then f (nth_or z xs e) else nth_or z xs e)"
  by (auto simp: bumped_def grow_def nth_or_def nth_list_update nth_append)

lemma bump_negative: "i < 0 \<Longrightarrow> bump f i xs = Inl IndexOutOfRange"
  by (simp add: bump_def)

definition slots :: "int \<Rightarrow> nat list \<Rightarrow> bool" where
  \<comment> \<open>all slices of a module have a slot for every epoch up to \<open>epochID\<close>\<close>
  "slots epochID lens \<longleftrightarrow> - 1 \<le> epochID \<and> list_all (\<lambda>n. int n = epochID + 1) lens"

lemma slots_turns:
  assumes "slots epochID lens" and "0 \<le> e"
  shows "\<forall>n \<in> set lens. e < int (n + turns epochID e)" "slots (epochID + int (turns epochID e)) (map (\<lambda>n. n + turns epochID e) lens)"
  using assms by (auto simp: slots_def turns_def list_all_iff)

type_synonym 'f tx_row = "int \<times> int \<times> int \<times> 'f"

definition tn_ok :: "'f tx_num \<Rightarrow> bool" where
  "tn_ok m \<longleftrightarrow> slots (tn_epochID m) [length (tn_normal m), length (tn_first m), length (tn_second m), length (tn_txNum m)]"

definition tn_row :: "'f f64 \<Rightarrow> 'f tx_num \<Rightarrow> nat \<Rightarrow> 'f tx_row" where
  "tn_row fl m e = (nth_or 0 (tn_normal m) e, nth_or 0 (tn_first m) e, nth_or 0 (tn_second m) e, nth_or (f_zero fl) (tn_txNum m) e)"

definition tn_acc :: "'f f64 \<Rightarrow> 'f \<Rightarrow> int \<Rightarrow> int \<Rightarrow> block_info \<Rightarrow> 'f tx_row \<Rightarrow> 'f tx_row" where
  "tn_acc fl w n1 n2 b = (\<lambda>(n, f, s, t). (n + int (length (bi_InnerShardTxs b)), f + n1, s + n2, f_add fl t w))"

lemma TxNum_record_ok:
  assumes "tn_ok m" and "bi_BlockBodyLength b \<noteq> 0" and "0 \<le> bi_Epoch b"
  shows "\<exists>m'. TxNum_record fl w n1 n2 b m = Inr m' \<and> tn_ok m' \<and>
    (\<forall>e. tn_row fl m' e = (if bi_Epoch b = int e then tn_acc fl w n1 n2 b (tn_row fl m e) else tn_row fl m e))"
  using slots_turns [OF assms(1) [unfolded tn_ok_def] assms(3)] assms(2,3)
  by (auto simp: TxNum_record_def bump_grow tn_ok_def tn_row_def tn_acc_def Let_def)

lemma TxNum_record_negative: "bi_BlockBodyLength b \<noteq> 0 \<Longrightarrow> bi_Epoch b < 0 \<Longrightarrow> is_panic (TxNum_record fl w n1 n2 b m)"
  by (simp add: TxNum_record_def Let_def bump_negative)

definition len1 :: "(block_info \<Rightarrow> transaction list) \<Rightarrow> block_info \<Rightarrow> int" where
  "len1 txs b = int (length (txs b))"

definition tn_relay_acc :: "'f f64 \<Rightarrow> block_info \<Rightarrow> 'f tx_row \<Rightarrow> 'f tx_row" where
  "tn_relay_acc fl b = tn_acc fl (f_add fl (f_of_int fl (len1 bi_InnerShardTxs b)) (f_half fl (f_of_int fl (len1 bi_Relay1Txs b + len1 bi_Relay2Txs b))))
     (len1 bi_Relay1Txs b) (len1 bi_Relay2Txs b) b"

definition tn_broker_acc :: "'f f64 \<Rightarrow> block_info \<Rightarrow> 'f tx_row \<Rightarrow> 'f tx_row" where
  "tn_broker_acc fl b = tn_acc fl (f_add fl (f_of_int fl (len1 bi_InnerShardTxs b))
       (f_half fl (f_add fl (f_of_int fl (len1 bi_Broker1Txs b)) (f_of_int fl (len1 bi_Broker2Txs b)))))
     (len1 bi_Broker1Txs b) (len1 bi_Broker2Txs b) b"

lemma TxNum_record_empty: "bi_BlockBodyLength b = 0 \<Longrightarrow> TxNum_record fl w n1 n2 b m = Inr m"
  by (simp add: TxNum_record_def)

lemmas TxNum_contract = TxNum_record_empty TxNum_record_ok TxNum_record_negative

interpretation txnum_relay: epoch_measure "TxNum_Relay_update fl" tn_ok "\<lambda>_. ()" "tn_row fl" "\<lambda>b _. tn_relay_acc fl b" "\<lambda>_ _. ()"
  for fl :: "'f f64"
  by unfold_locales (simp_all only: TxNum_Relay_update_def tn_relay_acc_def len1_def Let_def simp_thms TxNum_contract)

interpretation txnum_broker: epoch_measure "TxNum_Broker_update fl" tn_ok "\<lambda>_. ()" "tn_row fl" "\<lambda>b _. tn_broker_acc fl b" "\<lambda>_ _. ()"
  for fl :: "'f f64"
  by unfold_locales (simp_all only: TxNum_Broker_update_def tn_broker_acc_def len1_def Let_def simp_thms TxNum_contract)

type_synonym 'f cross_row = "int \<times> int \<times> int \<times> 'f \<times> 'f"

definition cx_ok :: "'f cross_rate \<Rightarrow> bool" where
  "cx_ok m \<longleftrightarrow> slots (cx_epochID m) [length (cx_normal m), length (cx_first m), length (cx_second m), length (cx_totCrossTxNum m), length (cx_totTxNum m)]"

definition cx_row :: "'f f64 \<Rightarrow> 'f cross_rate \<Rightarrow> nat \<Rightarrow> 'f cross_row" where
  "cx_row fl m e = (nth_or 0 (cx_normal m) e, nth_or 0 (cx_first m) e, nth_or 0 (cx_second m) e,
     nth_or (f_zero fl) (cx_totCrossTxNum m) e, nth_or (f_zero fl) (cx_totTxNum m) e)"

definition cx_acc :: "'f f64 \<Rightarrow> 'f \<Rightarrow> 'f \<Rightarrow> int \<Rightarrow> int \<Rightarrow> block_info \<Rightarrow> 'f cross_row \<Rightarrow> 'f cross_row" where
  "cx_acc fl c w n1 n2 b = (\<lambda>(n, f, s, x, t). (n + int (length (bi_InnerShardTxs b)), f + n1, s + n2, f_add fl x c, f_add fl t w))"

lemma CrossRate_contract:
  "bi_BlockBodyLength b = 0 \<Longrightarrow> CrossRate_record fl c w n1 n2 b m = Inr m"
  "cx_ok m \<Longrightarrow> bi_BlockBodyLength b \<noteq> 0 \<Longrightarrow> 0 \<le> bi_Epoch b \<Longrightarrow>
     \<exists>m'. CrossRate_record fl c w n1 n2 b m = Inr m' \<and> cx_ok m' \<and>
       (\<forall>e. cx_row fl m' e = (if bi_Epoch b = int e then cx_acc fl c w n1 n2 b (cx_row fl m e) else cx_row fl m e))"
  "bi_BlockBodyLength b \<noteq> 0 \<Longrightarrow> bi_Epoch b < 0 \<Longrightarrow> is_panic (CrossRate_record fl c w n1 n2 b m)"
proof -
  assume "cx_ok m" "bi_BlockBodyLength b \<noteq> 0" "0 \<le> bi_Epoch b"
  with slots_turns [OF \<open>cx_ok m\<close> [unfolded cx_ok_def] \<open>0 \<le> bi_Epoch b\<close>] show
    "\<exists>m'. CrossRate_record fl c w n1 n2 b m = Inr m' \<and> cx_ok m' \<and>
       (\<forall>e. cx_row fl m' e = (if bi_Epoch b = int e then cx_acc fl c w n1 n2 b (cx_row fl m e) else cx_row fl m e))"
    by (auto simp: CrossRate_record_def bump_grow cx_ok_def cx_row_def cx_acc_def Let_def)
qed (simp_all add: CrossRate_record_def Let_def bump_negative)

abbreviation cross_weight :: "'f f64 \<Rightarrow> int \<Rightarrow> int \<Rightarrow> 'f" where
  "cross_weight fl n1 n2 \<equiv> f_half fl (f_of_int fl (n1 + n2))"

definition cx_relay_acc :: "'f f64 \<Rightarrow> block_info \<Rightarrow> 'f cross_row \<Rightarrow> 'f cross_row" where
  "cx_relay_acc fl b =
     (let n1 = len1 bi_Relay1Txs b; n2 = len1 bi_Relay2Txs b; c = cross_weight fl n1 n2
      in cx_acc fl c (f_add fl c (f_of_int fl (len1 bi_InnerShardTxs b))) n1 n2 b)"

definition cx_broker_acc :: "'f f64 \<Rightarrow> block_info \<Rightarrow> 'f cross_row \<Rightarrow> 'f cross_row" where
  "cx_broker_acc fl b =
     (let n1 = len1 bi_Broker1Txs b; n2 = len1 bi_Broker2Txs b; c = cross_weight fl n1 n2
      in cx_acc fl c (f_add fl (f_of_int fl (len1 bi_InnerShardTxs b)) c) n1 n2 b)"

interpretation cross_relay: epoch_measure "CrossTxRate_Relay_update fl" cx_ok "\<lambda>_. ()" "cx_row fl" "\<lambda>b _. cx_relay_acc fl b" "\<lambda>_ _. ()"
  for fl :: "'f f64"
  by unfold_locales (simp_all only: CrossTxRate_Relay_update_def cx_relay_acc_def len1_def Let_def simp_thms CrossRate_contract)

interpretation cross_broker: epoch_measure "CrossTxRate_Broker_update fl" cx_ok "\<lambda>_. ()" "cx_row fl" "\<lambda>b _. cx_broker_acc fl b" "\<lambda>_ _. ()"
  for fl :: "'f f64"
  by unfold_locales (simp_all only: CrossTxRate_Broker_update_def cx_broker_acc_def len1_def Let_def simp_thms CrossRate_contract)

type_synonym 'f tps_row = "'f \<times> int \<times> int \<times> int \<times> gotime \<times> gotime"

definition tps_ok :: "'f avg_tps \<Rightarrow> bool" where
  "tps_ok m \<longleftrightarrow> slots (tps_epochID m) [length (tps_excutedTxNum m), length (tps_normal m), length (tps_first m), length (tps_second m),
     length (tps_startTime m), length (tps_endTime m)]"

definition tps_row :: "'f f64 \<Rightarrow> 'f avg_tps \<Rightarrow> nat \<Rightarrow> 'f tps_row" where
  "tps_row fl m e = (nth_or (f_zero fl) (tps_excutedTxNum m) e, nth_or 0 (tps_normal m) e, nth_or 0 (tps_first m) e, nth_or 0 (tps_second m) e,
     nth_or 0 (tps_startTime m) e, nth_or 0 (tps_endTime m) e)"

definition tps_acc :: "('f \<Rightarrow> 'f) \<Rightarrow> int \<Rightarrow> int \<Rightarrow> block_info \<Rightarrow> 'f tps_row \<Rightarrow> 'f tps_row" where
  "tps_acc add n1 n2 b = (\<lambda>(x, n, f, s, t, u). (add x, n + int (length (bi_InnerShardTxs b)), f + n1, s + n2,
     earlier (bi_ProposeTime b) t, later (bi_CommitTime b) u))"

lemma avgTPS_contract:
  "bi_BlockBodyLength b = 0 \<Longrightarrow> avgTPS_record add fl n1 n2 b m = Inr m"
  "tps_ok m \<Longrightarrow> bi_BlockBodyLength b \<noteq> 0 \<Longrightarrow> 0 \<le> bi_Epoch b \<Longrightarrow>
     \<exists>m'. avgTPS_record add fl n1 n2 b m = Inr m' \<and> tps_ok m' \<and>
       (\<forall>e. tps_row fl m' e = (if bi_Epoch b = int e then tps_acc add n1 n2 b (tps_row fl m e) else tps_row fl m e))"
  "bi_BlockBodyLength b \<noteq> 0 \<Longrightarrow> bi_Epoch b < 0 \<Longrightarrow> is_panic (avgTPS_record add fl n1 n2 b m)"
proof -
  assume "tps_ok m" "bi_BlockBodyLength b \<noteq> 0" "0 \<le> bi_Epoch b"
  with slots_turns [OF \<open>tps_ok m\<close> [unfolded tps_ok_def] \<open>0 \<le> bi_Epoch b\<close>] show
    "\<exists>m'. avgTPS_record add fl n1 n2 b m = Inr m' \<and> tps_ok m' \<and>
       (\<forall>e. tps_row fl m' e = (if bi_Epoch b = int e then tps_acc add n1 n2 b (tps_row fl m e) else tps_row fl m e))"
    by (auto simp: avgTPS_record_def bump_grow tps_ok_def tps_row_def tps_acc_def Let_def)
qed (simp_all add: avgTPS_record_def Let_def bump_negative)

definition tps_relay_acc :: "'f f64 \<Rightarrow> block_info \<Rightarrow> 'f tps_row \<Rightarrow> 'f tps_row" where
  "tps_relay_acc fl b =
     (let n1 = len1 bi_Relay1Txs b; n2 = len1 bi_Relay2Txs b
      in tps_acc (\<lambda>x. f_add fl (f_add fl x (cross_weight fl n1 n2)) (f_of_int fl (len1 bi_InnerShardTxs b))) n1 n2 b)"

definition tps_broker_acc :: "'f f64 \<Rightarrow> block_info \<Rightarrow> 'f tps_row \<Rightarrow> 'f tps_row" where
  "tps_broker_acc fl b =
     (let n1 = len1 bi_Broker1Txs b; n2 = len1 bi_Broker2Txs b
      in tps_acc (\<lambda>x. f_add fl x (f_add fl (f_of_int fl (len1 bi_InnerShardTxs b)) (cross_weight fl n1 n2))) n1 n2 b)"

interpretation tps_relay: epoch_measure "avgTPS_Relay_update fl" tps_ok "\<lambda>_. ()" "tps_row fl" "\<lambda>b _. tps_relay_acc fl b" "\<lambda>_ _. ()"
  for fl :: "'f f64"
  by unfold_locales (simp_all only: avgTPS_Relay_update_def tps_relay_acc_def len1_def Let_def simp_thms avgTPS_contract)

interpretation tps_broker: epoch_measure "avgTPS_Broker_update fl" tps_ok "\<lambda>_. ()" "tps_row fl" "\<lambda>b _. tps_broker_acc fl b" "\<lambda>_ _. ()"
  for fl :: "'f f64"
  by unfold_locales (simp_all only: avgTPS_Broker_update_def tps_broker_acc_def len1_def Let_def simp_thms avgTPS_contract)

type_synonym 'f tcl_row = "(int \<times> int \<times> int \<times> 'f) \<times> 'f \<times> int \<times> int \<times> int \<times> int"

definition tcl_ok :: "'f tcl \<Rightarrow> bool" where
  "tcl_ok m \<longleftrightarrow> slots (tcl_epochID m) [length (tcl_normal m), length (tcl_first m), length (tcl_second m), length (tcl_txNum m),
     length (tcl_totTxLatencyEpoch m), length (tcl_firstLatency m), length (tcl_secondLatency m), length (tcl_ctxLatency m), length (tcl_normalLatency m)]"

definition tcl_row :: "'f f64 \<Rightarrow> 'f tcl \<Rightarrow> nat \<Rightarrow> 'f tcl_row" where
  "tcl_row fl m e = ((nth_or 0 (tcl_normal m) e, nth_or 0 (tcl_first m) e, nth_or 0 (tcl_second m) e, nth_or (f_zero fl) (tcl_txNum m) e),
     nth_or (f_zero fl) (tcl_totTxLatencyEpoch m) e, nth_or 0 (tcl_firstLatency m) e, nth_or 0 (tcl_secondLatency m) e,
     nth_or 0 (tcl_ctxLatency m) e, nth_or 0 (tcl_normalLatency m) e)"

definition tcl_acc :: "'f f64 \<Rightarrow> int \<Rightarrow> int \<Rightarrow> 'f tcl_block \<Rightarrow> block_info \<Rightarrow> 'f tcl_row \<Rightarrow> 'f tcl_row" where
  "tcl_acc fl n1 n2 tb b = (\<lambda>(r, t, l1, l2, lc, ln).
     (tn_acc fl (f_add fl (f_of_int fl (int (length (bi_InnerShardTxs b)))) (cross_weight fl n1 n2)) n1 n2 b r,
      tb_tot tb t, l1 + tb_first tb, l2 + tb_second tb, lc + tb_ctx tb, ln + tb_normal tb))"

lemma TCL_record_ok:
  assumes "tcl_ok m" and "0 \<le> bi_Epoch b"
  shows "\<exists>m'. TCL_record fl n1 n2 ts tb b m = Inr m' \<and> tcl_ok m' \<and> tcl_times m' = ts \<and>
    (\<forall>e. tcl_row fl m' e = (if bi_Epoch b = int e then tcl_acc fl n1 n2 tb b (tcl_row fl m e) else tcl_row fl m e))"
  using slots_turns [OF assms(1) [unfolded tcl_ok_def] assms(2)] assms(2)
  by (auto simp: TCL_record_def bump_grow tcl_ok_def tcl_row_def tcl_acc_def tn_acc_def Let_def)

definition tcl_relay_acc :: "'f f64 \<Rightarrow> block_info \<Rightarrow> (bytes \<rightharpoonup> gotime) \<Rightarrow> 'f tcl_row \<Rightarrow> 'f tcl_row" where
  "tcl_relay_acc fl b ts = tcl_acc fl (int (length (bi_Relay1Txs b))) (int (length (bi_Relay2Txs b))) (relay_block fl b (relay1_times b ts)) b"

definition tcl_broker_acc :: "'f f64 \<Rightarrow> block_info \<Rightarrow> (bytes \<rightharpoonup> gotime) \<Rightarrow> 'f tcl_row \<Rightarrow> 'f tcl_row" where
  "tcl_broker_acc fl b ts = tcl_acc fl (int (length (bi_Broker1Txs b))) (int (length (bi_Broker2Txs b))) (broker_block fl b (broker1_times b ts)) b"

interpretation tcl_relay: epoch_measure "TCL_Relay_update fl" tcl_ok tcl_times "tcl_row fl" "tcl_relay_acc fl" relay1_times
  for fl :: "'f f64"
proof
  show "\<exists>m'. TCL_Relay_update fl b m = Inr m' \<and> tcl_ok m' \<and> tcl_times m' = relay1_times b (tcl_times m) \<and>
      (\<forall>e. tcl_row fl m' e = (if bi_Epoch b = int e then tcl_relay_acc fl b (tcl_times m) (tcl_row fl m e) else tcl_row fl m e))"
    if "tcl_ok m" "bi_BlockBodyLength b \<noteq> 0" "0 \<le> bi_Epoch b" for m b
    using TCL_record_ok [OF that(1,3)] that(2) unfolding TCL_Relay_update_def tcl_relay_acc_def Let_def by (simp only: if_False)
qed (simp_all add: TCL_Relay_update_def TCL_record_def Let_def bump_negative)

interpretation tcl_broker: epoch_measure "TCL_Broker_update fl" tcl_ok tcl_times "tcl_row fl" "tcl_broker_acc fl" broker1_times
  for fl :: "'f f64"
proof
  show "\<exists>m'. TCL_Broker_update fl b m = Inr m' \<and> tcl_ok m' \<and> tcl_times m' = broker1_times b (tcl_times m) \<and>
      (\<forall>e. tcl_row fl m' e = (if bi_Epoch b = int e then tcl_broker_acc fl b (tcl_times m) (tcl_row fl m e) else tcl_row fl m e))"
    if "tcl_ok m" "bi_BlockBodyLength b \<noteq> 0" "0 \<le> bi_Epoch b" for m b
    using TCL_record_ok [OF that(1,3)] that(2) unfolding TCL_Broker_update_def tcl_broker_acc_def Let_def by (simp only: if_False)
qed (simp_all add: TCL_Broker_update_def TCL_record_def Let_def bump_negative)

lemma new_modules_ok [simp]: "tn_ok NewTestTxNumCount" "cx_ok NewTestCrossTxRate" "tps_ok NewTestModule_avgTPS" "tcl_ok NewTestModule_TCL"
  by (simp_all add: tn_ok_def NewTestTxNumCount_def cx_ok_def NewTestCrossTxRate_def tps_ok_def NewTestModule_avgTPS_def
      tcl_ok_def NewTestModule_TCL_def slots_def)

lemma new_rows [simp]:
  "tn_row fl NewTestTxNumCount e = (0, 0, 0, f_zero fl)" "cx_row fl NewTestCrossTxRate e = (0, 0, 0, f_zero fl, f_zero fl)"
  "tps_row fl NewTestModule_avgTPS e = (f_zero fl, 0, 0, 0, 0, 0)" "tcl_row fl NewTestModule_TCL e = ((0, 0, 0, f_zero fl), f_zero fl, 0, 0, 0, 0)"
  "tcl_times NewTestModule_TCL = Map.empty"
  by (simp_all add: tn_row_def NewTestTxNumCount_def cx_row_def NewTestCrossTxRate_def tps_row_def NewTestModule_avgTPS_def
      tcl_row_def NewTestModule_TCL_def nth_or_def)

section \<open>All modules together\<close>

fun module_ok :: "'f measure_module \<Rightarrow> bool" where
  "module_ok (TPS_Relay m) = tps_ok m"
| "module_ok (TPS_Broker m) = tps_ok m"
| "module_ok (TCL_Relay m) = tcl_ok m"
| "module_ok (TCL_Broker m) = tcl_ok m"
| "module_ok (CrossTxRate_Relay m) = cx_ok m"
| "module_ok (CrossTxRate_Broker m) = cx_ok m"
| "module_ok (TxNumberCount_Relay m) = tn_ok m"
| "module_ok (TxNumberCount_Broker m) = tn_ok m"
| "module_ok (Tx_Details m) = True"

lemma new_measures_ok: "list_all module_ok (new_measures names)"
  by (induction names) (auto simp: new_measures_def new_measure_def List.map_filter_def)

lemma UpdateMeasureRecord_total:
  assumes "module_ok m" and "0 \<le> bi_Epoch b"
  shows "\<exists>m'. UpdateMeasureRecord fl b m = Inr m' \<and> module_ok m'"
  using assms tps_relay.upd_refines [of _ b fl] tps_broker.upd_refines [of _ b fl] tcl_relay.upd_refines [of _ b fl]
    tcl_broker.upd_refines [of _ b fl] cross_relay.upd_refines [of _ b fl] cross_broker.upd_refines [of _ b fl]
    txnum_relay.upd_refines [of _ b fl] txnum_broker.upd_refines [of _ b fl]
  by (cases m) fastforce+

lemma update_measures_total:
  assumes "list_all module_ok ms" and "0 \<le> bi_Epoch b"
  shows "\<exists>ms'. update_measures fl b ms = Inr ms' \<and> list_all module_ok ms' \<and> length ms' = length ms"
  using assms
proof (induction ms)
  case (Cons m ms)
  then show ?case using UpdateMeasureRecord_total [of m b fl] by auto
qed simp

lemma runs_total:
  assumes "list_all module_ok ms" and "reports_ok bs"
  shows "\<exists>ms'. go_fold (update_measures fl) bs ms = Inr ms' \<and> list_all module_ok ms' \<and> length ms' = length ms"
  using assms
proof (induction bs arbitrary: ms)
  case (Cons b bs)
  obtain ms' where "update_measures fl b ms = Inr ms'" "list_all module_ok ms'" "length ms' = length ms"
    using update_measures_total [of ms b fl] Cons.prems by (auto simp: reports_ok_def)
  with Cons.IH [of ms'] Cons.prems(2) show ?case by (auto simp: reports_ok_def)
qed simp

text \<open>Loops over one slice that read another at the same index do not panic.\<close>

lemma go_foldi_below:
  assumes "\<And>j x s. j < i + length xs \<Longrightarrow> P s \<Longrightarrow> \<exists>s'. f j x s = Inr s' \<and> P s'" and "P s"
  shows "\<exists>s'. go_foldi f i xs s = Inr s' \<and> P s'"
  using assms
proof (induction xs arbitrary: i s)
  case (Cons x xs)
  obtain s' where "f i x s = Inr s'" "P s'" using Cons.prems(1) [of i s x] Cons.prems(2) by auto
  with Cons.IH [of "Suc i" s'] Cons.prems(1) show ?case by auto
qed simp

lemma OutputRecord_total:
  assumes "module_ok m"
  shows "\<exists>r. OutputRecord fl now m = Inr r"
proof -
  have cx: "\<exists>r. CrossTxRate_output fl c = Inr r" if "cx_ok c" for c :: "'a cross_rate"
  proof -
    have "\<exists>s'. go_foldi (\<lambda>eid totTxN (per, tot, ctx). and_then (go_nth (cx_totCrossTxNum c) (int eid)) (\<lambda>x.
        Inr (per @ [f_div fl x totTxN], f_add fl tot totTxN, f_add fl ctx x))) 0 (cx_totTxNum c) ([], f_zero fl, f_zero fl) = Inr s' \<and> True"
      by (rule go_foldi_below) (use that in \<open>auto simp: cx_ok_def slots_def go_nth_def\<close>)
    then show ?thesis by (auto simp: CrossTxRate_output_def)
  qed
  have tcl: "\<exists>r. TCL_output fl c = Inr r" if "tcl_ok c" for c :: "'a tcl"
  proof -
    have "\<exists>s'. go_foldi (\<lambda>eid totLatency (per, latencySum, totTxNum). and_then (go_nth (tcl_txNum c) (int eid)) (\<lambda>n.
        Inr (per @ [f_div fl totLatency n], f_add fl latencySum totLatency, f_add fl totTxNum n))) 0 (tcl_totTxLatencyEpoch c) ([], f_zero fl, f_zero fl) = Inr s' \<and> True"
      by (rule go_foldi_below) (use that in \<open>auto simp: tcl_ok_def slots_def go_nth_def\<close>)
    then show ?thesis by (auto simp: TCL_output_def)
  qed
  have tps: "\<exists>r. avgTPS_output fl now c = Inr r" if "tps_ok c" for c :: "'a avg_tps"
  proof -
    have "\<exists>s'. go_foldi (\<lambda>eid exTxNum (per, total, eTime, lTime).
         and_then (go_nth (tps_startTime c) (int eid)) (\<lambda>start.
         and_then (go_nth (tps_endTime c) (int eid)) (\<lambda>end'.
         and_then (bump (\<lambda>_. f_div fl exTxNum (Seconds fl (go_sub end' start))) (int eid) per) (\<lambda>per.
           Inr (per, f_add fl total exTxNum, if eTime > start then start else eTime, if end' > lTime then end' else lTime)))))
       0 (tps_excutedTxNum c) (replicate (nat (tps_epochID c + 1)) (f_zero fl), f_zero fl, now, 0) = Inr s' \<and>
       length (fst s') = nat (tps_epochID c + 1)"
      by (rule go_foldi_below) (use that in \<open>auto simp: tps_ok_def slots_def go_nth_def bump_def\<close>)
    then show ?thesis by (auto simp: avgTPS_output_def)
  qed
  show ?thesis using assms cx tcl tps by (cases m) simp_all
qed

section \<open>Exact counts\<close>

text \<open>
  What \<open>float64\<close> guarantees for counts: integers, halves of integers and sums of such numbers are exact up
  to \<open>bnd\<close> (\<open>2 ^ 52\<close> for IEEE 754 double precision). \<open>val\<close> is the number a float denotes.
\<close>

definition f64_exact :: "'f f64 \<Rightarrow> ('f \<Rightarrow> rat) \<Rightarrow> int \<Rightarrow> bool" where
  "f64_exact fl val bnd \<longleftrightarrow>
     (\<forall>n. 0 \<le> n \<and> n \<le> bnd \<longrightarrow> val (f_of_int fl n) = of_int n \<and> val (f_half fl (f_of_int fl n)) = of_int n / 2) \<and>
     (\<forall>x y. 2 * val x \<in> \<int> \<and> 2 * val y \<in> \<int> \<and> 0 \<le> val x \<and> 0 \<le> val y \<and> val x + val y \<le> of_int bnd \<longrightarrow> val (f_add fl x y) = val x + val y)"

definition total :: "(block_info \<Rightarrow> transaction list) \<Rightarrow> block_info list \<Rightarrow> int" where
  "total txs bs = (\<Sum>b \<leftarrow> bs. len1 txs b)"

lemma total_simps [simp]: "total txs [] = 0" "total txs (b # bs) = len1 txs b + total txs bs"
  by (simp_all add: total_def)

lemma len1_nonneg [simp]: "0 \<le> len1 txs b"
  by (simp add: len1_def)

lemma total_nonneg [simp]: "0 \<le> total txs bs"
  by (induction bs) simp_all

lemma f64_exact_add:
  assumes "f64_exact fl val bnd" and "val x = of_int a / 2" and "val y = of_int b / 2" and "0 \<le> a" and "0 \<le> b" and "a + b \<le> 2 * bnd"
  shows "val (f_add fl x y) = of_int (a + b) / 2"
proof -
  have "(of_int (a + b) :: rat) \<le> of_int (2 * bnd)" using assms(6) by (simp only: of_int_le_iff)
  then have "val x + val y \<le> of_int bnd" using assms(2,3) by (simp add: field_simps)
  moreover have "2 * val x = of_int a" "2 * val y = of_int b" using assms(2,3) by simp_all
  then have "2 * val x \<in> \<int>" "2 * val y \<in> \<int>" by simp_all
  moreover have "0 \<le> val x" "0 \<le> val y" unfolding assms(2,3) using assms(4,5) by simp_all
  ultimately have "val (f_add fl x y) = val x + val y" using assms(1) by (simp add: f64_exact_def)
  then show ?thesis using assms(2,3) by (simp add: field_simps)
qed

lemma f64_exact_int:
  assumes "f64_exact fl val bnd" and "0 \<le> n" and "n \<le> bnd"
  shows "val (f_of_int fl n) = of_int n" "val (f_half fl (f_of_int fl n)) = of_int n / 2"
  using assms unfolding f64_exact_def by blast+

text \<open>One block: with exact values of the row and enough room, the row stays exact.\<close>

lemma cx_relay_acc_exact:
  assumes "f64_exact fl val bnd" and "val x = of_int (f + s) / 2" and "val t = of_int (2 * n + (f + s)) / 2" and "0 \<le> n" "0 \<le> f" "0 \<le> s"
    and "n + f + s + len1 bi_InnerShardTxs b + len1 bi_Relay1Txs b + len1 bi_Relay2Txs b \<le> bnd"
  shows "\<exists>x' t'. cx_relay_acc fl b (n, f, s, x, t) =
      (n + len1 bi_InnerShardTxs b, f + len1 bi_Relay1Txs b, s + len1 bi_Relay2Txs b, x', t') \<and>
    val x' = of_int (f + len1 bi_Relay1Txs b + (s + len1 bi_Relay2Txs b)) / 2 \<and>
    val t' = of_int (2 * (n + len1 bi_InnerShardTxs b) + (f + len1 bi_Relay1Txs b + (s + len1 bi_Relay2Txs b))) / 2"
proof -
  let ?i = "len1 bi_InnerShardTxs b" and ?a = "len1 bi_Relay1Txs b + len1 bi_Relay2Txs b"
  let ?c = "cross_weight fl (len1 bi_Relay1Txs b) (len1 bi_Relay2Txs b)"
  have nn: "0 \<le> ?i" "0 \<le> len1 bi_Relay1Txs b" "0 \<le> len1 bi_Relay2Txs b" by simp_all
  have c: "val ?c = of_int ?a / 2" by (rule f64_exact_int(2) [OF assms(1)]) (use assms(4-7) nn in linarith)+
  have "val (f_of_int fl ?i) = of_int ?i" by (rule f64_exact_int(1) [OF assms(1)]) (use assms(4-7) nn in linarith)+
  then have i: "val (f_of_int fl ?i) = of_int (2 * ?i) / 2" by simp
  have w: "val (f_add fl ?c (f_of_int fl ?i)) = of_int (?a + 2 * ?i) / 2"
    by (rule f64_exact_add [OF assms(1) c i]) (use assms(4-7) nn in linarith)+
  have x: "val (f_add fl x ?c) = of_int (f + s + ?a) / 2"
    by (rule f64_exact_add [OF assms(1,2) c]) (use assms(4-7) nn in linarith)+
  have t: "val (f_add fl t (f_add fl ?c (f_of_int fl ?i))) = of_int (2 * n + (f + s) + (?a + 2 * ?i)) / 2"
    by (rule f64_exact_add [OF assms(1,3) w]) (use assms(4-7) nn in linarith)+
  have "cx_relay_acc fl b (n, f, s, x, t) = (n + ?i, f + len1 bi_Relay1Txs b, s + len1 bi_Relay2Txs b,
      f_add fl x ?c, f_add fl t (f_add fl ?c (f_of_int fl ?i)))"
    by (simp add: cx_relay_acc_def cx_acc_def Let_def len1_def)
  moreover have "f + s + ?a = f + len1 bi_Relay1Txs b + (s + len1 bi_Relay2Txs b)"
    "2 * n + (f + s) + (?a + 2 * ?i) = 2 * (n + ?i) + (f + len1 bi_Relay1Txs b + (s + len1 bi_Relay2Txs b))" by simp_all
  ultimately show ?thesis using x t by (simp only:) blast
qed

lemma cx_relay_rows_exact:
  assumes "f64_exact fl val bnd" and "val x = of_int (f + s) / 2" and "val t = of_int (2 * n + (f + s)) / 2" and "0 \<le> n" "0 \<le> f" "0 \<le> s"
    and "n + f + s + total bi_InnerShardTxs bs + total bi_Relay1Txs bs + total bi_Relay2Txs bs \<le> bnd"
  shows "\<exists>x' t'. fold (cx_relay_acc fl) bs (n, f, s, x, t) =
      (n + total bi_InnerShardTxs bs, f + total bi_Relay1Txs bs, s + total bi_Relay2Txs bs, x', t') \<and>
    val x' = of_int (f + total bi_Relay1Txs bs + (s + total bi_Relay2Txs bs)) / 2 \<and>
    val t' = of_int (2 * (n + total bi_InnerShardTxs bs) + (f + total bi_Relay1Txs bs + (s + total bi_Relay2Txs bs))) / 2"
  using assms(2-)
proof (induction bs arbitrary: n f s x t)
  case (Cons b bs)
  have nn: "0 \<le> total bi_InnerShardTxs bs" "0 \<le> total bi_Relay1Txs bs" "0 \<le> total bi_Relay2Txs bs"
    "0 \<le> len1 bi_InnerShardTxs b" "0 \<le> len1 bi_Relay1Txs b" "0 \<le> len1 bi_Relay2Txs b" by simp_all
  have room: "n + f + s + len1 bi_InnerShardTxs b + len1 bi_Relay1Txs b + len1 bi_Relay2Txs b \<le> bnd"
    using Cons.prems(6) nn unfolding total_simps by linarith
  obtain x1 t1 where r: "cx_relay_acc fl b (n, f, s, x, t) =
        (n + len1 bi_InnerShardTxs b, f + len1 bi_Relay1Txs b, s + len1 bi_Relay2Txs b, x1, t1)"
      "val x1 = of_int (f + len1 bi_Relay1Txs b + (s + len1 bi_Relay2Txs b)) / 2"
      "val t1 = of_int (2 * (n + len1 bi_InnerShardTxs b) + (f + len1 bi_Relay1Txs b + (s + len1 bi_Relay2Txs b))) / 2"
    using cx_relay_acc_exact [OF assms(1) Cons.prems(1-5) room] by blast
  have "\<exists>x' t'. fold (cx_relay_acc fl) bs (n + len1 bi_InnerShardTxs b, f + len1 bi_Relay1Txs b, s + len1 bi_Relay2Txs b, x1, t1) =
      (n + len1 bi_InnerShardTxs b + total bi_InnerShardTxs bs, f + len1 bi_Relay1Txs b + total bi_Relay1Txs bs,
       s + len1 bi_Relay2Txs b + total bi_Relay2Txs bs, x', t') \<and>
    val x' = of_int (f + len1 bi_Relay1Txs b + total bi_Relay1Txs bs + (s + len1 bi_Relay2Txs b + total bi_Relay2Txs bs)) / 2 \<and>
    val t' = of_int (2 * (n + len1 bi_InnerShardTxs b + total bi_InnerShardTxs bs) +
      (f + len1 bi_Relay1Txs b + total bi_Relay1Txs bs + (s + len1 bi_Relay2Txs b + total bi_Relay2Txs bs))) / 2"
    by (rule Cons.IH [OF r(2,3)]) (use Cons.prems nn in \<open>simp_all add: algebra_simps\<close>)
  then show ?case using r(1) by (simp add: algebra_simps)
qed (use assms(2-) in simp)

section \<open>Time stamps\<close>

lemma start_fold:
  assumes "bs \<noteq> []" and "list_all (\<lambda>b. 0 < bi_ProposeTime b) bs"
  shows "fold (\<lambda>b. earlier (bi_ProposeTime b)) bs 0 = Min (bi_ProposeTime ` set bs)"
proof -
  have pos: "0 < t \<Longrightarrow> list_all (\<lambda>b. 0 < bi_ProposeTime b) bs \<Longrightarrow>
      fold (\<lambda>b. earlier (bi_ProposeTime b)) bs t = Min (insert t (bi_ProposeTime ` set bs))" for t bs
  proof (induction bs arbitrary: t)
    case (Cons b bs)
    have e: "earlier (bi_ProposeTime b) t = min t (bi_ProposeTime b)" using Cons.prems(1) by (auto simp: earlier_def)
    have "fold (\<lambda>b. earlier (bi_ProposeTime b)) bs (min t (bi_ProposeTime b)) = Min (insert (min t (bi_ProposeTime b)) (bi_ProposeTime ` set bs))"
      using Cons.IH [of "min t (bi_ProposeTime b)"] Cons.prems by simp
    also have "\<dots> = Min (insert t (bi_ProposeTime ` set (b # bs)))"
      by (cases "bs = []") (simp_all add: Min_insert2 min.assoc insert_commute)
    finally show ?case by (simp add: e)
  qed simp
  obtain b cs where "bs = b # cs" using assms(1) by (cases bs) auto
  then show ?thesis using pos [of "bi_ProposeTime b" cs] assms(2) by (simp add: earlier_def)
qed

lemma end_fold:
  assumes "bs \<noteq> []" and "list_all (\<lambda>b. 0 < bi_CommitTime b) bs"
  shows "fold (\<lambda>b. later (bi_CommitTime b)) bs 0 = Max (bi_CommitTime ` set bs)"
proof -
  have pos: "0 < t \<Longrightarrow> list_all (\<lambda>b. 0 < bi_CommitTime b) bs \<Longrightarrow>
      fold (\<lambda>b. later (bi_CommitTime b)) bs t = Max (insert t (bi_CommitTime ` set bs))" for t bs
  proof (induction bs arbitrary: t)
    case (Cons b bs)
    have e: "later (bi_CommitTime b) t = max t (bi_CommitTime b)" using Cons.prems(1) by (auto simp: later_def)
    have "fold (\<lambda>b. later (bi_CommitTime b)) bs (max t (bi_CommitTime b)) = Max (insert (max t (bi_CommitTime b)) (bi_CommitTime ` set bs))"
      using Cons.IH [of "max t (bi_CommitTime b)"] Cons.prems by simp
    also have "\<dots> = Max (insert t (bi_CommitTime ` set (b # bs)))"
      by (cases "bs = []") (simp_all add: max.assoc insert_commute)
    finally show ?case by (simp add: e)
  qed simp
  obtain b cs where "bs = b # cs" using assms(1) by (cases bs) auto
  then show ?thesis using pos [of "bi_CommitTime b" cs] assms(2) by (simp add: later_def)
qed

lemma tps_window:
  "\<exists>x n f s. fold (tps_relay_acc fl) bs (x0, n0, f0, s0, t, u) =
     (x, n, f, s, fold (\<lambda>b. earlier (bi_ProposeTime b)) bs t, fold (\<lambda>b. later (bi_CommitTime b)) bs u)"
  by (induction bs arbitrary: x0 n0 f0 s0 t u) (simp_all add: tps_relay_acc_def tps_acc_def Let_def)

lemma set_detail_simps [simp]:
  "set_detail key f [] m = m"
  "set_detail key f (tx # txs) m = set_detail key f txs (m(key tx \<mapsto> f tx (map_default no_detail m (key tx))))"
  by (simp_all add: set_detail_def)

lemma set_detail_other: "h \<notin> key ` set txs \<Longrightarrow> set_detail key f txs m h = m h"
  by (induction txs arbitrary: m) simp_all

lemma set_detail_hit:
  assumes "tx \<in> set txs" and "\<And>t. t \<in> set txs \<Longrightarrow> key t = key tx \<Longrightarrow> t = tx" and "\<And>d. f tx (f tx d) = f tx d"
  shows "set_detail key f txs m (key tx) = Some (f tx (map_default no_detail m (key tx)))"
proof -
  have seen: "set_detail key f txs m (key tx) = Some (f tx d)"
    if "\<And>t. t \<in> set txs \<Longrightarrow> key t = key tx \<Longrightarrow> t = tx" "m (key tx) = Some (f tx d)" for txs m d
    using that
  proof (induction txs arbitrary: m)
    case (Cons t txs)
    have "(m(key t \<mapsto> f t (map_default no_detail m (key t)))) (key tx) = Some (f tx d)"
      using Cons.prems assms(3) by (cases "key t = key tx") (auto simp: map_default_def)
    with Cons.IH [of "m(key t \<mapsto> f t (map_default no_detail m (key t)))"] Cons.prems(1) show ?case by (simp del: fun_upd_apply)
  qed simp
  show ?thesis using assms(1,2)
  proof (induction txs arbitrary: m)
    case (Cons t txs)
    let ?m = "m(key t \<mapsto> f t (map_default no_detail m (key t)))"
    show ?case
    proof (cases "key t = key tx")
      case True
      then have "t = tx" using Cons.prems(2) by simp
      moreover have "set_detail key f txs ?m (key tx) = Some (f tx (map_default no_detail m (key tx)))"
        by (rule seen) (use Cons.prems(2) \<open>t = tx\<close> in simp_all)
      ultimately show ?thesis by simp
    next
      case False
      then have "tx \<in> set txs" using Cons.prems(1) by auto
      moreover have "map_default no_detail ?m (key tx) = map_default no_detail m (key tx)" using False by simp
      ultimately show ?thesis using Cons.IH [of ?m] Cons.prems(2) by (simp del: fun_upd_apply map_default_upd)
    qed
  qed simp
qed

definition mentions :: "bytes \<Rightarrow> block_info \<Rightarrow> bool" where
  \<comment> \<open>a counted report that has an entry for the hash\<close>
  "mentions h b \<longleftrightarrow> bi_BlockBodyLength b \<noteq> 0 \<and>
     (h \<in> tx_TxHash ` set (bi_InnerShardTxs b @ bi_Relay1Txs b @ bi_Relay2Txs b) \<or> h \<in> raw_key ` set (bi_Broker1Txs b @ bi_Broker2Txs b))"

lemma TxDetail_unmentioned: "\<not> mentions h b \<Longrightarrow> TxDetail_update b m h = m h"
  by (cases "bi_BlockBodyLength b = 0") (simp_all add: mentions_def TxDetail_update_def Let_def set_detail_other image_Un)

lemma TxDetails_unmentioned: "list_all (\<lambda>b. \<not> mentions h b) bs \<Longrightarrow> fold TxDetail_update bs m h = m h"
  by (induction bs arbitrary: m) (simp_all add: TxDetail_unmentioned)

section \<open>Properties of the measures\<close>

text \<open>
  The measures cannot bring the supervisor down. Whatever modules are chosen by name, a sequence of
  reports with epochs that are not negative is recorded by all of them without a panic (no slice is
  indexed out of range), no module is lost, and afterwards every module outputs its record.
\<close>

theorem measures_never_panic:
  fixes fl :: "'f f64"
  assumes "reports_ok bs"
  shows "\<exists>ms. go_fold (update_measures fl) bs (new_measures names) = Inr ms \<and> length ms = length (new_measures names :: 'f measure_module list) \<and>
    list_all (\<lambda>m. \<not> is_panic (OutputRecord fl now m)) ms"
proof -
  obtain ms where ms: "go_fold (update_measures fl) bs (new_measures names) = Inr ms" "list_all module_ok ms"
      "length ms = length (new_measures names :: 'f measure_module list)"
    using runs_total [OF new_measures_ok assms] by blast
  have "\<not> is_panic (OutputRecord fl now m)" if "m \<in> set ms" for m
    using OutputRecord_total [of m fl now] ms(2) that by (auto simp: list_all_iff)
  with ms show ?thesis by (auto simp: list_all_iff)
qed

text \<open>
  The rate of cross-shard transactions is exact. While all counts stay within what floats represent
  exactly, the module records for every epoch the numbers of the reports of this epoch: inner, first
  and second halves, cross-shard transactions as half the number of halves, and in total the inner and
  the cross-shard ones. So an epoch that has seen both halves of its cross-shard transactions counts
  each of them once.
\<close>

theorem cross_rate_exact:
  assumes "f64_exact fl val bnd" and "0 \<le> bnd" and "reports_ok bs"
    and "\<forall>e. total bi_InnerShardTxs (of_epoch e bs) + total bi_Relay1Txs (of_epoch e bs) + total bi_Relay2Txs (of_epoch e bs) \<le> bnd"
  shows "\<exists>m. go_fold (CrossTxRate_Relay_update fl) bs NewTestCrossTxRate = Inr m \<and> (\<forall>e.
    nth_or 0 (cx_normal m) e = total bi_InnerShardTxs (of_epoch e bs) \<and>
    nth_or 0 (cx_first m) e = total bi_Relay1Txs (of_epoch e bs) \<and> nth_or 0 (cx_second m) e = total bi_Relay2Txs (of_epoch e bs) \<and>
    val (nth_or (f_zero fl) (cx_totCrossTxNum m) e) = of_int (total bi_Relay1Txs (of_epoch e bs) + total bi_Relay2Txs (of_epoch e bs)) / 2 \<and>
    val (nth_or (f_zero fl) (cx_totTxNum m) e) =
      of_int (total bi_InnerShardTxs (of_epoch e bs)) + val (nth_or (f_zero fl) (cx_totCrossTxNum m) e))"
proof -
  obtain m where m: "go_fold (CrossTxRate_Relay_update fl) bs NewTestCrossTxRate = Inr m"
      "\<forall>e. cx_row fl m e = fold (cx_relay_acc fl) (of_epoch e bs) (0, 0, 0, f_zero fl, f_zero fl)"
    using cross_relay.run_rows [where m = NewTestCrossTxRate and bs = bs and acc' = "cx_relay_acc fl" and fl = fl] assms(3) by auto
  have z: "val (f_zero fl) = of_int (0 + 0) / 2" "val (f_zero fl) = of_int (2 * 0 + (0 + 0)) / 2"
    using f64_exact_int(1) [OF assms(1), of 0] assms(2) by simp_all
  show ?thesis
  proof (intro exI [of _ m] conjI allI)
    fix e
    let ?i = "total bi_InnerShardTxs (of_epoch e bs)" and ?a = "total bi_Relay1Txs (of_epoch e bs)" and ?b = "total bi_Relay2Txs (of_epoch e bs)"
    have "0 + 0 + 0 + ?i + ?a + ?b \<le> bnd" using assms(4) by simp
    from cx_relay_rows_exact [OF assms(1) z _ _ _ this] obtain x t where
        "cx_row fl m e = (?i, ?a, ?b, x, t)" "val x = of_int (?a + ?b) / 2" "val t = of_int (2 * ?i + (?a + ?b)) / 2"
      using m(2) by auto
    then show "nth_or 0 (cx_normal m) e = ?i" "nth_or 0 (cx_first m) e = ?a" "nth_or 0 (cx_second m) e = ?b"
      "val (nth_or (f_zero fl) (cx_totCrossTxNum m) e) = of_int (?a + ?b) / 2"
      "val (nth_or (f_zero fl) (cx_totTxNum m) e) = of_int ?i + val (nth_or (f_zero fl) (cx_totCrossTxNum m) e)"
      by (simp_all add: cx_row_def field_simps)
  qed (rule m(1))
qed

text \<open>
  The window of an epoch. After any sequence of reports with proper times, the throughput module has,
  for every epoch with a counted report, as its start the earliest time at which a block of the epoch
  was proposed, and as its end the latest time at which one was committed.
\<close>

theorem throughput_window:
  assumes "reports_ok bs" and "\<forall>b \<in> set bs. 0 < bi_ProposeTime b \<and> 0 < bi_CommitTime b"
  shows "\<exists>m. go_fold (avgTPS_Relay_update fl) bs NewTestModule_avgTPS = Inr m \<and> (\<forall>e. of_epoch e bs \<noteq> [] \<longrightarrow>
    nth_or 0 (tps_startTime m) e = Min (bi_ProposeTime ` set (of_epoch e bs)) \<and>
    nth_or 0 (tps_endTime m) e = Max (bi_CommitTime ` set (of_epoch e bs)))"
proof -
  obtain m where m: "go_fold (avgTPS_Relay_update fl) bs NewTestModule_avgTPS = Inr m"
      "\<forall>e. tps_row fl m e = fold (tps_relay_acc fl) (of_epoch e bs) (f_zero fl, 0, 0, 0, 0, 0)"
    using tps_relay.run_rows [where m = NewTestModule_avgTPS and bs = bs and acc' = "tps_relay_acc fl" and fl = fl] assms(1) by auto
  show ?thesis
  proof (intro exI [of _ m] conjI allI impI)
    fix e assume e: "of_epoch e bs \<noteq> []"
    have sub: "set (of_epoch e bs) \<subseteq> set bs" by (auto simp: of_epoch_def)
    have p: "list_all (\<lambda>b. 0 < bi_ProposeTime b) (of_epoch e bs)" "list_all (\<lambda>b. 0 < bi_CommitTime b) (of_epoch e bs)"
      using assms(2) sub by (auto simp: list_all_iff)
    obtain x n f s where "fold (tps_relay_acc fl) (of_epoch e bs) (f_zero fl, 0, 0, 0, 0, 0) =
        (x, n, f, s, Min (bi_ProposeTime ` set (of_epoch e bs)), Max (bi_CommitTime ` set (of_epoch e bs)))"
      using tps_window [of fl "of_epoch e bs" "f_zero fl" 0 0 0 0 0] start_fold [OF e p(1)] end_fold [OF e p(2)] by auto
    then have "tps_row fl m e = (x, n, f, s, Min (bi_ProposeTime ` set (of_epoch e bs)), Max (bi_CommitTime ` set (of_epoch e bs)))"
      using m(2) by simp
    then show "nth_or 0 (tps_startTime m) e = Min (bi_ProposeTime ` set (of_epoch e bs))"
      "nth_or 0 (tps_endTime m) e = Max (bi_CommitTime ` set (of_epoch e bs))" by (simp_all add: tps_row_def)
  qed (rule m(1))
qed

text \<open>
  The life of a relayed transaction. Let its first half be reported by the shard of the sender and
  later its second half by the shard of the recipient, and let no other report mention it. Its entry then
  has the time it was proposed, the proposal and commit times of the block of the first half, and the
  commit time of the second half as the final one; its latency spans from proposal to final commit.
\<close>

theorem relayed_tx_details:
  assumes "bs = xs @ b # ys @ c # zs" and "list_all (\<lambda>x. \<not> mentions (tx_TxHash tx) x) (xs @ ys @ zs)"
    and "bi_BlockBodyLength b \<noteq> 0" and "bi_BlockBodyLength c \<noteq> 0"
    and "tx \<in> set (bi_Relay1Txs b)" and "\<forall>t \<in> set (bi_Relay1Txs b). tx_TxHash t = tx_TxHash tx \<longrightarrow> t = tx"
    and "tx_TxHash tx \<notin> tx_TxHash ` set (bi_InnerShardTxs b @ bi_Relay2Txs b)" and "tx_TxHash tx \<notin> raw_key ` set (bi_Broker1Txs b @ bi_Broker2Txs b)"
    and "tx \<in> set (bi_Relay2Txs c)" and "\<forall>t \<in> set (bi_Relay2Txs c). tx_TxHash t = tx_TxHash tx \<longrightarrow> t = tx"
    and "tx_TxHash tx \<notin> tx_TxHash ` set (bi_InnerShardTxs c @ bi_Relay1Txs c)" and "tx_TxHash tx \<notin> raw_key ` set (bi_Broker1Txs c @ bi_Broker2Txs c)"
  shows "\<exists>d. fold TxDetail_update bs Map.empty (tx_TxHash tx) = Some d \<and>
    d = \<lparr>td_TxPropose = tx_Time tx, td_BlockPropose = bi_ProposeTime b, td_TxCommit = bi_CommitTime c,
         td_Relay1Commit = bi_CommitTime b, td_Relay2Commit = bi_CommitTime c, td_Broker1Commit = 0, td_Broker2Commit = 0\<rparr> \<and>
    confirmed_latency d = Milliseconds (go_sub (bi_CommitTime c) (tx_Time tx))"
proof -
  let ?h = "tx_TxHash tx" and ?m = "fold TxDetail_update xs Map.empty"
  let ?d1 = "no_detail\<lparr>td_TxPropose := tx_Time tx, td_BlockPropose := bi_ProposeTime b, td_Relay1Commit := bi_CommitTime b\<rparr>"
  let ?d2 = "?d1\<lparr>td_Relay2Commit := bi_CommitTime c, td_TxCommit := bi_CommitTime c\<rparr>"
  have nb: "?h \<notin> tx_TxHash ` set (bi_InnerShardTxs b)" "?h \<notin> tx_TxHash ` set (bi_Relay2Txs b)"
    "?h \<notin> raw_key ` set (bi_Broker1Txs b)" "?h \<notin> raw_key ` set (bi_Broker2Txs b)"
    and nc: "?h \<notin> tx_TxHash ` set (bi_InnerShardTxs c)" "?h \<notin> tx_TxHash ` set (bi_Relay1Txs c)"
    "?h \<notin> raw_key ` set (bi_Broker1Txs c)" "?h \<notin> raw_key ` set (bi_Broker2Txs c)"
    using assms(7,8,11,12) by (simp_all add: image_Un)
  have u: "t \<in> set (bi_Relay1Txs b) \<Longrightarrow> tx_TxHash t = ?h \<Longrightarrow> t = tx" "t \<in> set (bi_Relay2Txs c) \<Longrightarrow> tx_TxHash t = ?h \<Longrightarrow> t = tx" for t
    using assms(6,10) by blast+
  have "?m ?h = None" using assms(2) by (simp add: TxDetails_unmentioned)
  then have 1: "TxDetail_update b ?m ?h = Some ?d1"
    using set_detail_hit [where key = tx_TxHash, OF assms(5) u(1)] assms(3) nb
    by (simp add: TxDetail_update_def Let_def set_detail_other map_default_def)
  have 2: "fold TxDetail_update ys (TxDetail_update b ?m) ?h = Some ?d1" using assms(2) 1 by (simp add: TxDetails_unmentioned)
  have 3: "TxDetail_update c (fold TxDetail_update ys (TxDetail_update b ?m)) ?h = Some ?d2"
    using set_detail_hit [where key = tx_TxHash, OF assms(9) u(2)] assms(4) nc 2
    by (simp add: TxDetail_update_def Let_def set_detail_other map_default_def)
  have "fold TxDetail_update bs Map.empty ?h = Some ?d2" using assms(2) 3 by (simp add: assms(1) TxDetails_unmentioned)
  then show ?thesis by (simp add: confirmed_latency_def no_detail_def)
qed

section \<open>Witnesses\<close>

definition rat_f64 :: "rat f64" where
  "rat_f64 = \<lparr>f_of_int = of_int, f_add = (+), f_div = (/)\<rparr>"

definition demo_relayed :: transaction where
  "demo_relayed = raw_transaction ''a0'' ''b1'' 5 0 10 1 0 1"

definition demo_first_half :: block_info where
  "demo_first_half = \<lparr>bi_BlockBodyLength = 1, bi_InnerShardTxs = [], bi_Epoch = 0, bi_ProposeTime = 20, bi_CommitTime = 30,
     bi_SenderShardID = 0, bi_Relay1Txs = [demo_relayed], bi_Relay2Txs = [], bi_Broker1Txs = [], bi_Broker2Txs = []\<rparr>"

definition demo_second_half :: block_info where
  "demo_second_half = \<lparr>bi_BlockBodyLength = 1, bi_InnerShardTxs = [], bi_Epoch = 0, bi_ProposeTime = 35, bi_CommitTime = 40,
     bi_SenderShardID = 1, bi_Relay1Txs = [], bi_Relay2Txs = [demo_relayed], bi_Broker1Txs = [], bi_Broker2Txs = []\<rparr>"

lemma demo_reports: "reports_ok [demo_first_half, demo_second_half]" "of_epoch 0 [demo_first_half, demo_second_half] = [demo_first_half, demo_second_half]"
  by (simp_all add: reports_ok_def demo_first_half_def demo_second_half_def)

theorem measures_never_panic_witness:
  "\<exists>ms. go_fold (update_measures rat_f64) [demo_first_half, demo_second_half] (new_measures [''TPS_Relay'', ''Unknown'', ''Tx_Details'']) = Inr ms \<and>
     length ms = 2 \<and> list_all (\<lambda>m. \<not> is_panic (OutputRecord rat_f64 50 m)) ms"
proof -
  have "length (new_measures [''TPS_Relay'', ''Unknown'', ''Tx_Details''] :: rat measure_module list) = 2"
    by (simp add: new_measures_def new_measure_def List.map_filter_def)
  with measures_never_panic [OF demo_reports(1), where fl = rat_f64 and now = 50 and names = "[''TPS_Relay'', ''Unknown'', ''Tx_Details'']"]
  show ?thesis by simp
qed

theorem cross_rate_exact_witness:
  "\<exists>m. go_fold (CrossTxRate_Relay_update rat_f64) [demo_first_half, demo_second_half] NewTestCrossTxRate = Inr m \<and>
     nth_or 0 (cx_totCrossTxNum m) 0 = 1"
proof -
  have ex: "f64_exact rat_f64 id 100" by (simp add: f64_exact_def rat_f64_def)
  have room: "\<forall>e. total bi_InnerShardTxs (of_epoch e [demo_first_half, demo_second_half]) + total bi_Relay1Txs (of_epoch e [demo_first_half, demo_second_half]) +
      total bi_Relay2Txs (of_epoch e [demo_first_half, demo_second_half]) \<le> 100"
    by (simp add: demo_first_half_def demo_second_half_def len1_def)
  have z: "f_zero rat_f64 = 0" by (simp add: rat_f64_def)
  obtain m where m: "go_fold (CrossTxRate_Relay_update rat_f64) [demo_first_half, demo_second_half] NewTestCrossTxRate = Inr m"
      "id (nth_or (f_zero rat_f64) (cx_totCrossTxNum m) 0) = of_int (total bi_Relay1Txs (of_epoch 0 [demo_first_half, demo_second_half]) +
         total bi_Relay2Txs (of_epoch 0 [demo_first_half, demo_second_half])) / 2"
    using cross_rate_exact [OF ex _ demo_reports(1) room] by auto
  from m(2) have "nth_or 0 (cx_totCrossTxNum m) 0 = 1"
    unfolding demo_reports(2) z by (simp add: demo_first_half_def demo_second_half_def len1_def)
  with m(1) show ?thesis by blast
qed

theorem throughput_window_witness:
  "\<exists>m. go_fold (avgTPS_Relay_update rat_f64) [demo_first_half, demo_second_half] NewTestModule_avgTPS = Inr m \<and>
     nth_or 0 (tps_startTime m) 0 = 20 \<and> nth_or 0 (tps_endTime m) 0 = 40"
proof -
  have t: "\<forall>b \<in> set [demo_first_half, demo_second_half]. 0 < bi_ProposeTime b \<and> 0 < bi_CommitTime b"
    by (simp add: demo_first_half_def demo_second_half_def)
  obtain m where m: "go_fold (avgTPS_Relay_update rat_f64) [demo_first_half, demo_second_half] NewTestModule_avgTPS = Inr m"
      "nth_or 0 (tps_startTime m) 0 = Min (bi_ProposeTime ` set (of_epoch 0 [demo_first_half, demo_second_half]))"
      "nth_or 0 (tps_endTime m) 0 = Max (bi_CommitTime ` set (of_epoch 0 [demo_first_half, demo_second_half]))"
    using throughput_window [OF demo_reports(1) t, of rat_f64] demo_reports(2) by auto
  then show ?thesis unfolding demo_reports(2) by (simp add: demo_first_half_def demo_second_half_def)
qed

theorem relayed_tx_details_witness:
  "\<exists>d. fold TxDetail_update [demo_first_half, demo_second_half] Map.empty (tx_TxHash demo_relayed) = Some d \<and>
     td_Relay1Commit d = 30 \<and> td_TxCommit d = 40"
proof -
  have "[demo_first_half, demo_second_half] = [] @ demo_first_half # [] @ demo_second_half # []" by simp
  from relayed_tx_details [OF this, of demo_relayed] show ?thesis by (simp add: demo_first_half_def demo_second_half_def)
qed

end
