(* ===== verification/Supervisor.thy ===== *)
theory Supervisor
  imports Committee_Broker Measures
begin

text \<open>
  The supervisor, \<open>supervisor/supervisor.go\<close>: it has one committee and a list of measures, hands every
  report of a leader to the stop signal, the committee and the measures, and stops all nodes when
  enough reports of empty blocks have come in a row. The stop signal is shared by pointer with the
  committee; here it is the one in the committee. \<open>tcpLock\<close> serialises messages. \<open>fl\<close>, \<open>dg\<close> and \<open>tm\<close> are the
  parameters of the measures and of the broker committees.
\<close>

section \<open>Committees\<close>

datatype 'f committee_module =
    Relay_Com relay_committee
  | CLPA_Com "'f clpa_committee"
  | Broker_Com broker_committee
  | CLPA_Broker_Com "'f clpa_broker_committee"

fun com_Ss :: "'f committee_module \<Rightarrow> stop_signal" where
  "com_Ss (Relay_Com c) = rc_Ss c"
| "com_Ss (CLPA_Com c) = ccm_Ss c"
| "com_Ss (Broker_Com c) = bcm_Ss c"
| "com_Ss (CLPA_Broker_Com c) = ccm_Ss (cbm_ccm c)"

fun set_Ss :: "stop_signal \<Rightarrow> 'f committee_module \<Rightarrow> 'f committee_module" where
  "set_Ss s (Relay_Com c) = Relay_Com (c\<lparr>rc_Ss := s\<rparr>)"
| "set_Ss s (CLPA_Com c) = CLPA_Com (c\<lparr>ccm_Ss := s\<rparr>)"
| "set_Ss s (Broker_Com c) = Broker_Com (c\<lparr>bcm_Ss := s\<rparr>)"
| "set_Ss s (CLPA_Broker_Com c) = CLPA_Broker_Com (c\<lparr>cbm_ccm := (cbm_ccm c)\<lparr>ccm_Ss := s\<rparr>\<rparr>)"

fun com_HandleBlockInfo ::
  "go_env \<Rightarrow> (raw_meg \<Rightarrow> bytes) \<Rightarrow> (nat \<Rightarrow> gotime) \<Rightarrow> block_info \<Rightarrow> 'f committee_module \<Rightarrow> 'f committee_module go" where
  "com_HandleBlockInfo E dg tm b (Relay_Com c) = Inr (Relay_Com c)"
| "com_HandleBlockInfo E dg tm b (CLPA_Com c) = and_then (HandleBlockInfo E b c) (\<lambda>c. Inr (CLPA_Com c))"
| "com_HandleBlockInfo E dg tm b (Broker_Com c) = and_then (bcm_HandleBlockInfo E dg tm b c) (\<lambda>c. Inr (Broker_Com c))"
| "com_HandleBlockInfo E dg tm b (CLPA_Broker_Com c) = and_then (cbm_HandleBlockInfo E dg tm b c) (\<lambda>c. Inr (CLPA_Broker_Com c))"

fun com_HandleOtherMessage ::
  "go_env \<Rightarrow> (raw_meg \<Rightarrow> bytes) \<Rightarrow> (nat \<Rightarrow> gotime) \<Rightarrow> message \<Rightarrow> 'f committee_module \<Rightarrow> 'f committee_module go" where
  "com_HandleOtherMessage E dg tm msg (CLPA_Broker_Com c) = and_then (cbm_HandleOtherMessage E dg tm msg c) (\<lambda>c. Inr (CLPA_Broker_Com c))"
| "com_HandleOtherMessage E dg tm msg c = Inr c"

section \<open>The supervisor\<close>

record sup_params =
  sp_TotalDataSize :: int
  sp_TxBatchSize :: int
  sp_ReconfigTimeGap :: int
  sp_BrokerNum :: int
  sp_broker_lines :: "string list"

record 'f supervisor =
  sv_ChainConfig :: chain_config
  sv_Ip_nodeTable :: ip_table
  sv_comMod :: "'f committee_module"
  sv_testMeasureMods :: "'f measure_module list"
  sv_listenStop :: bool
  sv_out :: out

definition NewSupervisor ::
  "go_env \<Rightarrow> 'f \<Rightarrow> 'f \<Rightarrow> sup_params \<Rightarrow> ip_table \<Rightarrow> chain_config \<Rightarrow> string \<Rightarrow> string list \<Rightarrow> 'f supervisor go" where
  "NewSupervisor E zero wp sp ips pcc committeeMethod measureModNames =
     (let Ss = NewStopSignal (3 * sint (cc_ShardNums pcc));
          dataNum = sp_TotalDataSize sp; batchNum = sp_TxBatchSize sp; freq = sp_ReconfigTimeGap sp
      in and_then
           (if committeeMethod = ''CLPA_Broker''
            then and_then (NewCLPACommitteeMod_Broker E zero wp (sp_BrokerNum sp) (sp_broker_lines sp) ips Ss dataNum batchNum freq) (\<lambda>c. Inr (CLPA_Broker_Com c))
            else if committeeMethod = ''CLPA''
            then and_then (NewCLPACommitteeModule E zero wp ips Ss dataNum batchNum freq) (\<lambda>c. Inr (CLPA_Com c))
            else if committeeMethod = ''Broker''
            then Inr (Broker_Com (NewBrokerCommitteeMod (sp_BrokerNum sp) (sp_broker_lines sp) ips Ss dataNum batchNum))
            else Inr (Relay_Com (NewRelayCommitteeModule ips Ss dataNum batchNum))) (\<lambda>com.
         Inr \<lparr>sv_ChainConfig = pcc, sv_Ip_nodeTable = ips, sv_comMod = com, sv_testMeasureMods = new_measures measureModNames,
              sv_listenStop = False, sv_out = []\<rparr>))"

definition sup_handleBlockInfos ::
  "go_env \<Rightarrow> 'f f64 \<Rightarrow> (raw_meg \<Rightarrow> bytes) \<Rightarrow> (nat \<Rightarrow> gotime) \<Rightarrow> block_info \<Rightarrow> 'f supervisor \<Rightarrow> 'f supervisor go" where
  "sup_handleBlockInfos E fl dg tm bim d =
     (let Ss = com_Ss (sv_comMod d);
          com = set_Ss (if bi_BlockBodyLength bim = 0 then StopGap_Inc Ss else StopGap_Reset Ss) (sv_comMod d)
      in and_then (com_HandleBlockInfo E dg tm bim com) (\<lambda>com.
         and_then (update_measures fl bim (sv_testMeasureMods d)) (\<lambda>ms.
           Inr (d\<lparr>sv_comMod := com, sv_testMeasureMods := ms\<rparr>))))"

definition handleMessage ::
  "go_env \<Rightarrow> 'f f64 \<Rightarrow> (raw_meg \<Rightarrow> bytes) \<Rightarrow> (nat \<Rightarrow> gotime) \<Rightarrow> message \<Rightarrow> 'f supervisor \<Rightarrow> 'f supervisor go" where
  "handleMessage E fl dg tm msg d = (case msg of
     BlockInfoMsg b \<Rightarrow> sup_handleBlockInfos E fl dg tm b d
   | _ \<Rightarrow> and_then (com_HandleOtherMessage E dg tm msg (sv_comMod d)) (\<lambda>com. Inr (d\<lparr>sv_comMod := com\<rparr>)))"

definition upto_u64 :: "u64 \<Rightarrow> u64 list" where
  "upto_u64 n = map of_nat [0 ..< unat n]"

definition SupervisorTxHandling :: "'f supervisor \<Rightarrow> 'f supervisor go" where
  \<comment> \<open>after \<open>MsgSendingControl\<close> has returned: wait for the stop signal, then stop every node\<close>
  "SupervisorTxHandling d =
     (if GapEnough (com_Ss (sv_comMod d))
      then Inr (d\<lparr>sv_out := sv_out d @ concat (map (\<lambda>sid. map (\<lambda>nid. (sv_Ip_nodeTable d sid nid, StopMsg)) (upto_u64 (cc_Nodes_perShard (sv_ChainConfig d))))
                       (upto_u64 (cc_ShardNums (sv_ChainConfig d)))), sv_listenStop := True\<rparr>)
      else Inl Blocked)"

fun CloseSupervisor_records :: "'f f64 \<Rightarrow> gotime \<Rightarrow> 'f measure_module list \<Rightarrow> ('f list \<times> 'f) list go" where
  \<comment> \<open>the records that \<open>CloseSupervisor\<close> prints\<close>
  "CloseSupervisor_records fl now [] = Inr []"
| "CloseSupervisor_records fl now (m # ms) =
     and_then (OutputRecord fl now m) (\<lambda>r. and_then (CloseSupervisor_records fl now ms) (\<lambda>rs. Inr (r # rs)))"

section \<open>The committee keeps the stop signal\<close>

lemma com_Ss_set [simp]: "com_Ss (set_Ss s c) = s"
  by (cases c) simp_all

lemma HandleBlockInfo_Ss: "HandleBlockInfo E b c = Inr c' \<Longrightarrow> ccm_Ss c' = ccm_Ss c"
  by (auto simp: HandleBlockInfo_def Let_def and_then_Inr split: if_splits)

lemma bcm_HandleBlockInfo_Ss: "bcm_HandleBlockInfo E dg tm b c = Inr c' \<Longrightarrow> bcm_Ss c' = bcm_Ss c"
  by (auto simp: bcm_HandleBlockInfo_def and_then_Inr split: if_splits)

lemma cbm_HandleBlockInfo_Ss: "cbm_HandleBlockInfo E dg tm b c = Inr c' \<Longrightarrow> ccm_Ss (cbm_ccm c') = ccm_Ss (cbm_ccm c)"
  by (auto simp: cbm_HandleBlockInfo_def cbm_createConfirm_eq cbm_put_def Let_def and_then_Inr split: if_splits)

lemma com_HandleBlockInfo_Ss: "com_HandleBlockInfo E dg tm b c = Inr c' \<Longrightarrow> com_Ss c' = com_Ss c"
  by (cases c) (auto simp: and_then_Inr dest: HandleBlockInfo_Ss bcm_HandleBlockInfo_Ss cbm_HandleBlockInfo_Ss)

lemma sup_handleBlockInfos_Ss:
  assumes "sup_handleBlockInfos E fl dg tm b d = Inr d'"
  shows "com_Ss (sv_comMod d') = (if bi_BlockBodyLength b = 0 then StopGap_Inc (com_Ss (sv_comMod d)) else StopGap_Reset (com_Ss (sv_comMod d)))"
    "sv_ChainConfig d' = sv_ChainConfig d" "sv_Ip_nodeTable d' = sv_Ip_nodeTable d" "sv_out d' = sv_out d"
  using assms by (auto simp: sup_handleBlockInfos_def Let_def and_then_Inr dest!: com_HandleBlockInfo_Ss)

abbreviation sup_reports ::
  "go_env \<Rightarrow> 'f f64 \<Rightarrow> (raw_meg \<Rightarrow> bytes) \<Rightarrow> ((nat \<Rightarrow> gotime) \<times> block_info) list \<Rightarrow> 'f supervisor \<Rightarrow> 'f supervisor go" where
  "sup_reports E fl dg \<equiv> go_fold (\<lambda>(tm, b). sup_handleBlockInfos E fl dg tm b)"

abbreviation empty_report :: "(nat \<Rightarrow> gotime) \<times> block_info \<Rightarrow> bool" where
  "empty_report r \<equiv> bi_BlockBodyLength (snd r) = 0"

lemma stop_gap_run:
  assumes "sup_reports E fl dg rs d = Inr d'" and "stopGap (com_Ss (sv_comMod d)) = 0"
  shows "stopGap (com_Ss (sv_comMod d')) = int (length (takeWhile empty_report (rev rs))) \<and>
    stopThreshold (com_Ss (sv_comMod d')) = stopThreshold (com_Ss (sv_comMod d)) \<and>
    sv_ChainConfig d' = sv_ChainConfig d \<and> sv_Ip_nodeTable d' = sv_Ip_nodeTable d \<and> sv_out d' = sv_out d"
  using assms
proof (induction rs arbitrary: d' rule: rev_induct)
  case (snoc r rs)
  obtain d1 where 1: "sup_reports E fl dg rs d = Inr d1" "sup_handleBlockInfos E fl dg (fst r) (snd r) d1 = Inr d'"
    using snoc.prems(1) by (auto simp: go_fold_append and_then_Inr split: prod.splits)
  show ?case using snoc.IH [OF 1(1) snoc.prems(2)] sup_handleBlockInfos_Ss [OF 1(2)] by (simp add: StopGap_Inc_def StopGap_Reset_def)
qed simp

lemma takeWhile_rev_ge: "n \<le> length (takeWhile P (rev xs)) \<longleftrightarrow> n \<le> length xs \<and> list_all P (drop (length xs - n) xs)"
proof -
  have "n \<le> length (takeWhile P ys) \<longleftrightarrow> n \<le> length ys \<and> list_all P (take n ys)" for ys
  proof (induction ys arbitrary: n)
    case (Cons y ys)
    then show ?case by (cases n) auto
  qed simp
  from this [of "rev xs"] show ?thesis by (simp add: take_rev)
qed

lemma NewSupervisor_Ss:
  assumes "NewSupervisor E zero wp sp ips pcc method names = Inr d"
  shows "com_Ss (sv_comMod d) = NewStopSignal (3 * sint (cc_ShardNums pcc))" "sv_ChainConfig d = pcc" "sv_Ip_nodeTable d = ips" "sv_out d = []"
  using assms by (auto simp: NewSupervisor_def Let_def and_then_Inr NewCLPACommitteeMod_Broker_def NewCLPACommitteeModule_def
      NewBrokerCommitteeMod_def NewRelayCommitteeModule_def split: if_splits)

lemma upto_u64_iff: "s \<in> set (upto_u64 n) \<longleftrightarrow> s < n"
proof
  assume "s < n"
  then have "s = of_nat (unat s)" "unat s < unat n" by (simp_all add: word_less_nat_alt)
  then show "s \<in> set (upto_u64 n)" unfolding upto_u64_def by (metis atLeastLessThan_iff image_eqI le0 set_map set_upt)
next
  assume "s \<in> set (upto_u64 n)"
  then obtain k where "k < unat n" "s = of_nat k" by (auto simp: upto_u64_def)
  moreover have "unat (of_nat k :: u64) \<le> k" by (simp add: unat_of_nat)
  ultimately show "s < n" by (simp add: word_less_nat_alt)
qed

lemma CloseSupervisor_total: "list_all module_ok ms \<Longrightarrow> \<exists>rs. CloseSupervisor_records fl now ms = Inr rs \<and> length rs = length ms"
proof (induction ms)
  case (Cons m ms)
  then show ?case using OutputRecord_total [of m fl now] by auto
qed simp

lemma relay_reports_total:
  assumes "sv_comMod d = Relay_Com c" and "list_all module_ok (sv_testMeasureMods d)" and "reports_ok (map snd rs)"
  shows "\<exists>d' c'. sup_reports E fl dg rs d = Inr d' \<and> sv_comMod d' = Relay_Com c' \<and> list_all module_ok (sv_testMeasureMods d')"
  using assms
proof (induction rs arbitrary: d c)
  case (Cons r rs)
  obtain ms where ms: "update_measures fl (snd r) (sv_testMeasureMods d) = Inr ms" "list_all module_ok ms"
    using update_measures_total [OF Cons.prems(2), of "snd r" fl] Cons.prems(3) by (auto simp: reports_ok_def)
  let ?Ss = "if bi_BlockBodyLength (snd r) = 0 then StopGap_Inc (rc_Ss c) else StopGap_Reset (rc_Ss c)"
  let ?d = "d\<lparr>sv_comMod := Relay_Com (c\<lparr>rc_Ss := ?Ss\<rparr>), sv_testMeasureMods := ms\<rparr>"
  have "sup_handleBlockInfos E fl dg (fst r) (snd r) d = Inr ?d" using Cons.prems(1) ms(1) by (simp add: sup_handleBlockInfos_def Let_def)
  then show ?case using Cons.IH [of ?d "c\<lparr>rc_Ss := ?Ss\<rparr>"] Cons.prems(3) ms(2) by (simp add: reports_ok_def case_prod_beta)
qed auto

section \<open>Properties of the supervisor\<close>


text \<open>
  A relay experiment cannot fail in the supervisor. With the relay committee and any measures, the
  supervisor is created, handles every sequence of reports with epochs that are not negative without a
  panic, and at the end every measure that was asked for yields its record.
\<close>

theorem relay_supervisor_completes:
  assumes "method \<notin> {''CLPA_Broker'', ''CLPA'', ''Broker''}" and "reports_ok (map snd rs)"
  shows "\<exists>d d' recs. NewSupervisor E zero wp sp ips pcc method names = Inr d \<and> sup_reports E fl dg rs d = Inr d' \<and>
    CloseSupervisor_records fl now (sv_testMeasureMods d') = Inr recs"
proof -
  obtain d where d: "NewSupervisor E zero wp sp ips pcc method names = Inr d" "list_all module_ok (sv_testMeasureMods d)"
      "\<exists>c. sv_comMod d = Relay_Com c"
    using assms(1) by (simp add: NewSupervisor_def Let_def new_measures_ok)
  then obtain d' where "sup_reports E fl dg rs d = Inr d'" "list_all module_ok (sv_testMeasureMods d')"
    using relay_reports_total [OF _ d(2) assms(2)] by blast
  with d(1) show ?thesis using CloseSupervisor_total [of "sv_testMeasureMods d'" fl now] by blast
qed

section \<open>Witnesses\<close>

definition demo_sup_params :: sup_params where
  "demo_sup_params = \<lparr>sp_TotalDataSize = 10, sp_TxBatchSize = 2, sp_ReconfigTimeGap = 50, sp_BrokerNum = 1, sp_broker_lines = [''c0'']\<rparr>"

definition demo_pcc :: chain_config where
  "demo_pcc = \<lparr>cc_ChainID = 123, cc_NodeID = 123, cc_ShardID = 123, cc_Nodes_perShard = 4, cc_ShardNums = 1, cc_BlockSize = 10,
     cc_BlockInterval = 5000, cc_InjectSpeed = 2, cc_MaxRelayBlockSize = 0\<rparr>"

definition demo_empty :: block_info where
  "demo_empty = \<lparr>bi_BlockBodyLength = 0, bi_InnerShardTxs = [], bi_Epoch = 0, bi_ProposeTime = 50, bi_CommitTime = 60,
     bi_SenderShardID = 0, bi_Relay1Txs = [], bi_Relay2Txs = [], bi_Broker1Txs = [], bi_Broker2Txs = []\<rparr>"

definition demo_log :: "((nat \<Rightarrow> gotime) \<times> block_info) list" where
  "demo_log = map (Pair (\<lambda>i. 1)) [demo_first_half, demo_empty, demo_empty, demo_empty]"

theorem relay_supervisor_completes_witness:
  "\<exists>d d' recs. NewSupervisor demo_env 0 1 demo_sup_params demo_ips demo_pcc ''Relay'' [''TPS_Relay'', ''Tx_Details''] = Inr d \<and>
     sup_reports demo_env rat_f64 demo_dg demo_log d = Inr d' \<and> CloseSupervisor_records rat_f64 70 (sv_testMeasureMods d') = Inr recs"
proof -
  have m: "''Relay'' \<notin> {''CLPA_Broker'', ''CLPA'', ''Broker''}" and r: "reports_ok (map snd demo_log)"
    by (simp_all add: demo_log_def reports_ok_def demo_empty_def demo_first_half_def)
  show ?thesis by (rule relay_supervisor_completes [OF m r])
qed


end
