(* ===== verification/Pbft_Node.thy ===== *)
theory Pbft_Node
  imports Messages
begin

text \<open>
  A PBFT consensus node: \<open>consensus_shard/pbft_all/pbft.go\<close>, \<open>messageHandle.go\<close>, \<open>view_change.go\<close>
  and the helpers of \<open>toolFuncs.go\<close>. The struct \<open>PbftConsensusNode\<close> is the record \<open>pbft_node\<close>; messages
  handed to the network are appended to \<open>p_out\<close>. A handler is the function from node to node that the
  code runs while it holds \<open>pbftLock\<close>; the wait loop in front of it is the predicate \<open>must_wait\<close>, and
  theory \<open>Pbft_Run\<close> lets a waiting handler run only when the predicate is false. \<open>sequenceLock\<close> and
  \<open>askForLock\<close> are held across handlers and are therefore part of the state; unlocking one that is not
  locked is a fatal error of the Go runtime.

  The operations that differ between the consensus variants (\<open>ExtraOpInConsensus\<close>) are the record
  \<open>extra_op\<close>; \<open>dg\<close> is the digest of a request (SHA-256 of its JSON).
\<close>

section \<open>State\<close>

record clpa_data =
  cd_ModifiedMap :: "(address \<rightharpoonup> u64) list"
  cd_AccountTransferRound :: u64
  cd_ReceivedNewAccountState :: "address \<rightharpoonup> account_state"
  cd_ReceivedNewTx :: "transaction list"
  cd_AccountStateTx :: "u64 \<rightharpoonup> account_state_and_tx"
  cd_PartitionOn :: bool
  cd_PartitionReady :: "u64 set"
  cd_ReadySeq :: "u64 \<rightharpoonup> u64"
  cd_CollectOver :: bool

definition NewCLPADataSupport :: clpa_data where
  "NewCLPADataSupport = \<lparr>cd_ModifiedMap = [], cd_AccountTransferRound = 0, cd_ReceivedNewAccountState = Map.empty,
     cd_ReceivedNewTx = [], cd_AccountStateTx = Map.empty, cd_PartitionOn = False, cd_PartitionReady = {},
     cd_ReadySeq = Map.empty, cd_CollectOver = False\<rparr>"

record pbft_node =
  p_RunningNode :: shard_node
  p_ShardID :: u64
  p_NodeID :: u64
  p_CurChain :: blockchain
  p_ChainConfig :: chain_config
  p_ip_nodeTable :: "u64 \<Rightarrow> (u64 \<times> string) list"
  p_node_nums :: u64
  p_malicious_nums :: u64
  p_view :: int
  p_lastCommitTime :: gotime
  p_viewChangeMap :: "int \<times> int \<rightharpoonup> u64 set"
  p_newViewMap :: "int \<times> int \<rightharpoonup> u64 set"
  p_sequenceID :: u64
  p_requestPool :: "bytes \<rightharpoonup> request"
  p_cntPrepareConfirm :: "bytes \<rightharpoonup> node_ptr set"
  p_cntCommitConfirm :: "bytes \<rightharpoonup> node_ptr set"
  p_isCommitBordcast :: "bytes set"
  p_isReply :: "bytes set"
  p_height2Digest :: "u64 \<rightharpoonup> bytes"
  p_pbftStage :: int
  p_sequenceLock :: bool
  p_askForLock :: bool
  p_commitBlocked :: "prepare_commit option"
  p_seqIDMap :: "u64 \<rightharpoonup> u64"
  p_cdm :: clpa_data
  p_stopSignal :: bool
  p_out :: "(string \<times> message) list"

definition leader_id :: "pbft_node \<Rightarrow> u64" where
  \<comment> \<open>\<open>uint64(p.view.Load())\<close>\<close>
  "leader_id p = word_of_int (p_view p)"

definition ip_of :: "pbft_node \<Rightarrow> u64 \<Rightarrow> u64 \<Rightarrow> string" where
  \<comment> \<open>\<open>p.ip_nodeTable[sid][nid]\<close>\<close>
  "ip_of p sid nid = map_default '''' (map_of (p_ip_nodeTable p sid)) nid"

definition NewPbftNode ::
  "go_env \<Rightarrow> (u64 \<Rightarrow> (u64 \<times> string) list) \<Rightarrow> gotime \<Rightarrow> u64 \<Rightarrow> u64 \<Rightarrow> chain_config \<Rightarrow> storage \<Rightarrow>
   (bytes \<rightharpoonup> state_trie) \<Rightarrow> pbft_node go" where
  "NewPbftNode E table now shardID nodeID pcc s db =
     and_then (NewBlockChain E pcc s db) (\<lambda>bc. Inr
       \<lparr>p_RunningNode = \<lparr>n_NodeID = nodeID, n_ShardID = shardID,
                         n_IPaddr = map_default '''' (map_of (table shardID)) nodeID\<rparr>,
        p_ShardID = shardID, p_NodeID = nodeID, p_CurChain = bc, p_ChainConfig = pcc, p_ip_nodeTable = table,
        p_node_nums = cc_Nodes_perShard pcc, p_malicious_nums = (cc_Nodes_perShard pcc - 1) div 3,
        p_view = 0, p_lastCommitTime = now + 5000, p_viewChangeMap = Map.empty, p_newViewMap = Map.empty,
        p_sequenceID = bh_Number (cur_header bc) + 1, p_requestPool = Map.empty,
        p_cntPrepareConfirm = Map.empty, p_cntCommitConfirm = Map.empty, p_isCommitBordcast = {}, p_isReply = {},
        p_height2Digest = Map.empty, p_pbftStage = 1, p_sequenceLock = False, p_askForLock = False,
        p_commitBlocked = None, p_seqIDMap = Map.empty, p_cdm = NewCLPADataSupport, p_stopSignal = False,
        p_out = []\<rparr>)"

record extra_op =
  HandleinPropose :: "pbft_node \<Rightarrow> (request \<times> pbft_node) go"
  HandleinPrePrepare :: "pre_prepare \<Rightarrow> pbft_node \<Rightarrow> (bool \<times> pbft_node) go"
  HandleinPrepare :: "prepare_commit \<Rightarrow> pbft_node \<Rightarrow> pbft_node go"
  HandleinCommit :: "prepare_commit \<Rightarrow> pbft_node \<Rightarrow> pbft_node go"
  HandleReqestforOldSeq :: "request_old \<Rightarrow> pbft_node \<Rightarrow> pbft_node go"
  HandleforSequentialRequest :: "send_old \<Rightarrow> pbft_node \<Rightarrow> pbft_node go"

type_synonym digester = "request \<Rightarrow> bytes"

section \<open>Sending\<close>

definition getNeighborNodes :: "pbft_node \<Rightarrow> string list" where
  "getNeighborNodes p = map snd (p_ip_nodeTable p (p_ShardID p))"

definition getNodeIpsWithinShard :: "u64 \<Rightarrow> pbft_node \<Rightarrow> string list" where
  "getNodeIpsWithinShard shardID p = map snd (p_ip_nodeTable p shardID)"

definition Broadcast :: "string \<Rightarrow> string list \<Rightarrow> message \<Rightarrow> (string \<times> message) list" where
  "Broadcast sender receivers msg = map (\<lambda>ip. (ip, msg)) (filter (\<lambda>ip. ip \<noteq> sender) receivers)"

definition TcpDial :: "message \<Rightarrow> string \<Rightarrow> pbft_node \<Rightarrow> pbft_node" where
  "TcpDial msg ip p = p\<lparr>p_out := p_out p @ [(ip, msg)]\<rparr>"

definition broadcast_neighbors :: "message \<Rightarrow> pbft_node \<Rightarrow> pbft_node" where
  "broadcast_neighbors msg p =
     p\<lparr>p_out := p_out p @ Broadcast (n_IPaddr (p_RunningNode p)) (getNeighborNodes p) msg\<rparr>"

definition broadcast_and_self :: "message \<Rightarrow> pbft_node \<Rightarrow> pbft_node" where
  "broadcast_and_self msg p = TcpDial msg (n_IPaddr (p_RunningNode p)) (broadcast_neighbors msg p)"

section \<open>Normal operation\<close>

definition may_propose :: "pbft_node \<Rightarrow> bool" where
  \<comment> \<open>what a propose goroutine checks before it waits for \<open>sequenceLock\<close>; the view may change while it waits\<close>
  "may_propose p \<longleftrightarrow> leader_id p = p_NodeID p"

definition Propose :: "extra_op \<Rightarrow> digester \<Rightarrow> pbft_node \<Rightarrow> pbft_node go" where
  \<comment> \<open>the rest of the goroutine, entered when \<open>sequenceLock\<close> is free\<close>
  "Propose ops dg p =
     and_then (HandleinPropose ops (p\<lparr>p_sequenceLock := True\<rparr>)) (\<lambda>(r, p).
       let digest = dg r;
           p = p\<lparr>p_requestPool := (p_requestPool p)(digest \<mapsto> r)\<rparr>;
           ppmsg = \<lparr>pp_RequestMsg = r, pp_Digest = digest, pp_SeqID = p_sequenceID p\<rparr>;
           p = p\<lparr>p_height2Digest := (p_height2Digest p)(p_sequenceID p \<mapsto> digest)\<rparr>;
           p = broadcast_and_self (PrePrepareMsg ppmsg) p
       in Inr (p\<lparr>p_pbftStage := 2\<rparr>))"

definition must_wait :: "int \<Rightarrow> u64 \<Rightarrow> int \<Rightarrow> pbft_node \<Rightarrow> bool" where
  "must_wait stage seqID curView p \<longleftrightarrow>
     p_pbftStage p < stage \<and> p_sequenceID p \<le> seqID \<and> p_view p = curView"

definition out_of_date :: "u64 \<Rightarrow> int \<Rightarrow> pbft_node \<Rightarrow> bool" where
  "out_of_date seqID curView p \<longleftrightarrow> seqID < p_sequenceID p \<or> p_view p \<noteq> curView"

definition pool_request :: "digester \<Rightarrow> pre_prepare \<Rightarrow> pbft_node \<Rightarrow> pbft_node" where
  "pool_request dg ppmsg p =
     p\<lparr>p_requestPool := (p_requestPool p)(dg (pp_RequestMsg ppmsg) \<mapsto> pp_RequestMsg ppmsg),
       p_height2Digest := (p_height2Digest p)(pp_SeqID ppmsg \<mapsto> dg (pp_RequestMsg ppmsg))\<rparr>"

definition handlePrePrepare :: "extra_op \<Rightarrow> digester \<Rightarrow> int \<Rightarrow> pre_prepare \<Rightarrow> pbft_node \<Rightarrow> pbft_node go" where
  "handlePrePrepare ops dg curView ppmsg p =
     (if out_of_date (pp_SeqID ppmsg) curView p then Inr p
      else and_then
        (if dg (pp_RequestMsg ppmsg) \<noteq> pp_Digest ppmsg then Inr (False, p)
         else if p_sequenceID p < pp_SeqID ppmsg then Inr (False, pool_request dg ppmsg p)
         else and_then (HandleinPrePrepare ops ppmsg p) (\<lambda>(flag, p). Inr (flag, pool_request dg ppmsg p)))
        (\<lambda>(flag, p).
          if flag then
            let p = broadcast_and_self (PrepareMsg (pp_Digest ppmsg) (pp_SeqID ppmsg) (p_RunningNode p)) p
            in Inr (p\<lparr>p_pbftStage := p_pbftStage p + 1\<rparr>)
          else Inr p))"

definition set2DMap :: "bool \<Rightarrow> bytes \<Rightarrow> node_ptr \<Rightarrow> pbft_node \<Rightarrow> pbft_node" where
  "set2DMap isPrePareConfirm key val p =
     (if isPrePareConfirm
      then p\<lparr>p_cntPrepareConfirm := (p_cntPrepareConfirm p)(key \<mapsto> insert val (map_default {} (p_cntPrepareConfirm p) key))\<rparr>
      else p\<lparr>p_cntCommitConfirm := (p_cntCommitConfirm p)(key \<mapsto> insert val (map_default {} (p_cntCommitConfirm p) key))\<rparr>)"

definition quorum :: "pbft_node \<Rightarrow> nat \<Rightarrow> bool" where
  "quorum p cnt \<longleftrightarrow> 2 * p_malicious_nums p + 1 \<le> u64_of_nat cnt"

definition handlePrepare :: "extra_op \<Rightarrow> int \<Rightarrow> prepare_commit \<Rightarrow> pbft_node \<Rightarrow> pbft_node go" where
  "handlePrepare ops curView pmsg p =
     (if out_of_date (pc_SeqID pmsg) curView p then Inr p
      else if p_requestPool p (pc_Digest pmsg) = None then Inr p
      else if p_sequenceID p < pc_SeqID pmsg then Inr p
      else and_then (HandleinPrepare ops pmsg p) (\<lambda>p.
        let p = set2DMap True (pc_Digest pmsg) (pc_SenderNode pmsg) p;
            cnt = card (map_default {} (p_cntPrepareConfirm p) (pc_Digest pmsg))
        in if quorum p cnt \<and> pc_Digest pmsg \<notin> p_isCommitBordcast p then
             let p = broadcast_and_self (CommitMsg (pc_Digest pmsg) (pc_SeqID pmsg) (p_RunningNode p)) p;
                 p = p\<lparr>p_isCommitBordcast := insert (pc_Digest pmsg) (p_isCommitBordcast p)\<rparr>
             in Inr (p\<lparr>p_pbftStage := p_pbftStage p + 1\<rparr>)
           else Inr p))"

definition end_round :: "gotime \<Rightarrow> pbft_node \<Rightarrow> pbft_node go" where
  "end_round now p =
     (let p = p\<lparr>p_pbftStage := 1, p_lastCommitTime := now\<rparr> in
      if p_NodeID p = leader_id p
      then if p_sequenceLock p then Inr (p\<lparr>p_sequenceLock := False\<rparr>) else Inl UnlockOfUnlocked
      else Inr p)"

definition ask_for_old :: "gotime \<Rightarrow> prepare_commit \<Rightarrow> pbft_node \<Rightarrow> pbft_node go" where
  \<comment> \<open>from \<open>p.askForLock.Lock()\<close> on; runs when \<open>askForLock\<close> is free\<close>
  "ask_for_old now cmsg p =
     (let p = p\<lparr>p_askForLock := True, p_commitBlocked := None\<rparr>;
          sn = \<lparr>n_NodeID = leader_id p, n_ShardID = p_ShardID p, n_IPaddr = ip_of p (p_ShardID p) (leader_id p)\<rparr>;
          orequest = \<lparr>ro_SeqStartHeight = p_sequenceID p + 1, ro_SeqEndHeight = pc_SeqID cmsg,
                      ro_ServerNode = sn, ro_SenderNode = p_RunningNode p\<rparr>
      in end_round now (TcpDial (RequestOldMsg orequest) (n_IPaddr sn) p))"

definition handleCommit :: "extra_op \<Rightarrow> gotime \<Rightarrow> int \<Rightarrow> prepare_commit \<Rightarrow> pbft_node \<Rightarrow> pbft_node go" where
  "handleCommit ops now curView cmsg p =
     (if out_of_date (pc_SeqID cmsg) curView p then Inr p
      else
        let p = set2DMap False (pc_Digest cmsg) (pc_SenderNode cmsg) p;
            cnt = card (map_default {} (p_cntCommitConfirm p) (pc_Digest cmsg))
        in if quorum p cnt \<and> pc_Digest cmsg \<notin> p_isReply p then
             if p_requestPool p (pc_Digest cmsg) = None then
               let p = p\<lparr>p_isReply := insert (pc_Digest cmsg) (p_isReply p)\<rparr>
               in if p_askForLock p then Inr (p\<lparr>p_commitBlocked := Some cmsg\<rparr>) else ask_for_old now cmsg p
             else
               and_then (HandleinCommit ops cmsg p) (\<lambda>p.
                 end_round now (p\<lparr>p_isReply := insert (pc_Digest cmsg) (p_isReply p),
                                  p_sequenceID := p_sequenceID p + 1\<rparr>))
           else Inr p)"

section \<open>Catching up\<close>

fun collect_old :: "pbft_node \<Rightarrow> u64 list \<Rightarrow> request list" where
  "collect_old p [] = []"
| "collect_old p (height # hs) =
     (case p_height2Digest p height of
        None \<Rightarrow> []
      | Some d \<Rightarrow> (case p_requestPool p d of None \<Rightarrow> [] | Some r \<Rightarrow> r # collect_old p hs))"

definition heights :: "u64 \<Rightarrow> u64 \<Rightarrow> u64 list" where
  \<comment> \<open>\<open>for height := s; height <= e; height++\<close> (below the largest \<open>uint64\<close>)\<close>
  "heights s e = map u64_of_nat [unat s ..< Suc (unat e)]"

definition handleRequestOldSeq :: "extra_op \<Rightarrow> request_old \<Rightarrow> pbft_node \<Rightarrow> pbft_node go" where
  "handleRequestOldSeq ops rom p =
     (if leader_id p \<noteq> p_NodeID p then Inr p
      else
        let oldR = collect_old p (heights (ro_SeqStartHeight rom) (ro_SeqEndHeight rom))
        in and_then (HandleReqestforOldSeq ops rom p) (\<lambda>p.
          let sb = \<lparr>so_SeqStartHeight = ro_SeqStartHeight rom, so_SeqEndHeight = ro_SeqEndHeight rom,
                    so_OldRequest = oldR, so_SenderNode = p_RunningNode p\<rparr>
          in Inr (TcpDial (SendOldMsg sb) (n_IPaddr (ro_SenderNode rom)) p)))"

definition record_old :: "digester \<Rightarrow> u64 \<Rightarrow> nat \<Rightarrow> request \<Rightarrow> pbft_node \<Rightarrow> pbft_node" where
  "record_old dg beginSeq idx r p =
     p\<lparr>p_requestPool := (p_requestPool p)(dg r \<mapsto> r),
       p_height2Digest := (p_height2Digest p)(u64_of_nat idx + beginSeq \<mapsto> dg r),
       p_isReply := insert (dg r) (p_isReply p)\<rparr>"

definition unlock_ask :: "pbft_node \<Rightarrow> pbft_node go" where
  "unlock_ask p = (if p_askForLock p then Inr (p\<lparr>p_askForLock := False\<rparr>) else Inl UnlockOfUnlocked)"

definition resume_prepare :: "extra_op \<Rightarrow> digester \<Rightarrow> pbft_node \<Rightarrow> pbft_node go" where
  \<comment> \<open>prepares the request already known for the new sequence number, if any\<close>
  "resume_prepare ops dg p =
     (case p_height2Digest p (p_sequenceID p) of
        None \<Rightarrow> Inr p
      | Some rDigest \<Rightarrow>
          (case p_requestPool p rDigest of
             None \<Rightarrow> Inr p
           | Some r \<Rightarrow>
               let ppmsg = \<lparr>pp_RequestMsg = r, pp_Digest = dg r, pp_SeqID = p_sequenceID p\<rparr>
               in and_then (HandleinPrePrepare ops ppmsg p) (\<lambda>(flag, p).
                    if flag then Inr (broadcast_neighbors (PrepareMsg (pp_Digest ppmsg) (pp_SeqID ppmsg) (p_RunningNode p)) p)
                    else Inr p)))"

definition handleSendOldSeq :: "extra_op \<Rightarrow> digester \<Rightarrow> send_old \<Rightarrow> pbft_node \<Rightarrow> pbft_node go" where
  "handleSendOldSeq ops dg som p =
     and_then (HandleforSequentialRequest ops som p) (\<lambda>p.
     and_then (go_foldi (\<lambda>idx r p. Inr (record_old dg (so_SeqStartHeight som) idx r p)) 0 (so_OldRequest som) p) (\<lambda>p.
     and_then (resume_prepare ops dg (p\<lparr>p_sequenceID := so_SeqEndHeight som + 1\<rparr>)) unlock_ask))"

section \<open>View change\<close>

definition next_view :: "pbft_node \<Rightarrow> int go" where
  "next_view p = go_mod (to_int32 (p_view p + 1)) (sint (p_node_nums p))"

definition viewChangePropose :: "pbft_node \<Rightarrow> pbft_node go" where
  "viewChangePropose p =
     (let p = p\<lparr>p_pbftStage := 5\<rparr> in
      and_then (next_view p) (\<lambda>nv.
        let vcmsg = \<lparr>vc_CurView = p_view p, vc_NextView = nv, vc_SeqID = sint (p_sequenceID p), vc_FromNode = p_NodeID p\<rparr>
        in Inr (broadcast_and_self (ViewChangeMsg vcmsg) p)))"

definition vote :: "(int \<times> int \<rightharpoonup> u64 set) \<Rightarrow> int \<times> int \<Rightarrow> u64 \<Rightarrow> (int \<times> int \<rightharpoonup> u64 set)" where
  "vote m vcData voter = m(vcData \<mapsto> insert voter (map_default {} m vcData))"

definition exact_quorum :: "pbft_node \<Rightarrow> u64 set \<Rightarrow> bool" where
  "exact_quorum p voters \<longleftrightarrow> int (card voters) = 2 * sint (p_malicious_nums p) + 1"

definition handleViewChangeMsg :: "view_change_msg \<Rightarrow> pbft_node \<Rightarrow> pbft_node go" where
  "handleViewChangeMsg vcmsg p =
     (let vcData = (vc_NextView vcmsg, vc_SeqID vcmsg);
          p = p\<lparr>p_viewChangeMap := vote (p_viewChangeMap p) vcData (vc_FromNode vcmsg)\<rparr>
      in if exact_quorum p (map_default {} (p_viewChangeMap p) vcData) then
           and_then (next_view p) (\<lambda>nv.
             let nvmsg = \<lparr>vc_CurView = p_view p, vc_NextView = nv, vc_SeqID = sint (p_sequenceID p), vc_FromNode = p_NodeID p\<rparr>
             in Inr (broadcast_and_self (NewViewMsg nvmsg) p))
         else Inr p)"

definition handleNewViewMsg :: "gotime \<Rightarrow> view_change_msg \<Rightarrow> pbft_node \<Rightarrow> pbft_node" where
  "handleNewViewMsg now nvmsg p =
     (let vcData = (vc_NextView nvmsg, vc_SeqID nvmsg);
          p = p\<lparr>p_newViewMap := vote (p_newViewMap p) vcData (vc_FromNode nvmsg)\<rparr>
      in if exact_quorum p (map_default {} (p_newViewMap p) vcData)
         then p\<lparr>p_view := to_int32 (fst vcData), p_sequenceID := word_of_int (vc_SeqID nvmsg),
                p_pbftStage := 1, p_lastCommitTime := now\<rparr>
         else p)"

definition WaitToStop :: "pbft_node \<Rightarrow> pbft_node" where
  "WaitToStop p = p\<lparr>p_stopSignal := True\<rparr>"

end
