(* ===== verification/Pbft_Run.thy ===== *)
theory Pbft_Run
  imports Pbft_Node
begin

text \<open>
  Runs of a PBFT node. Every delivered message starts a goroutine, which reads the view and waits until
  the stage is right; the step relation interleaves them with proposals, view changes, catching up and
  the messages from outside the shard, with no restriction on what is delivered. A proposal is two
  steps, as the goroutine checks the leader before it waits for \<open>sequenceLock\<close>: \<open>rs_proposing\<close> counts the
  goroutines between the two. \<open>rs_log\<close> records
  the digests whose request was executed by \<open>handleCommit\<close>.

  The interface \<open>consensus_module\<close> says what the protocol relies on in the operations of a consensus
  variant: they change the chain, the migration data, the relay bookkeeping and what is sent, and leave
  the protocol's own fields alone. The theorems on runs are proved once in it, and the theories of the
  variants interpret it.
\<close>

section \<open>The interface\<close>

definition same_protocol :: "pbft_node \<Rightarrow> pbft_node \<Rightarrow> bool" where
  "same_protocol p p' \<longleftrightarrow>
     p' = p\<lparr>p_CurChain := p_CurChain p', p_cdm := p_cdm p', p_seqIDMap := p_seqIDMap p', p_out := p_out p'\<rparr>"

locale consensus_module =
  fixes ops :: extra_op
  assumes propose_frame: "HandleinPropose ops p = Inr (r, p') \<Longrightarrow> same_protocol p p'"
    and preprepare_frame: "HandleinPrePrepare ops ppmsg p = Inr (flag, p') \<Longrightarrow>
      same_protocol (p\<lparr>p_requestPool := p_requestPool p'\<rparr>) p'"
    and prepare_frame: "HandleinPrepare ops m p = Inr p' \<Longrightarrow> same_protocol p p'"
    and commit_frame: "HandleinCommit ops m p = Inr p' \<Longrightarrow> same_protocol p p'"
    and oldseq_frame: "HandleReqestforOldSeq ops rom p = Inr p' \<Longrightarrow> same_protocol p p'"
    and sequential_frame: "HandleforSequentialRequest ops som p = Inr p' \<Longrightarrow>
      same_protocol (p\<lparr>p_sequenceID := p_sequenceID p'\<rparr>) p'"

section \<open>Runs\<close>

datatype task = TPrePrepare pre_prepare | TPrepare prepare_commit | TCommit prepare_commit

fun task_waits :: "int \<Rightarrow> task \<Rightarrow> pbft_node \<Rightarrow> bool" where
  "task_waits curView (TPrePrepare m) p = must_wait 1 (pp_SeqID m) curView p"
| "task_waits curView (TPrepare m) p = must_wait 2 (pc_SeqID m) curView p"
| "task_waits curView (TCommit m) p = must_wait 3 (pc_SeqID m) curView p"

fun run_task :: "extra_op \<Rightarrow> digester \<Rightarrow> gotime \<Rightarrow> int \<Rightarrow> task \<Rightarrow> pbft_node \<Rightarrow> pbft_node go" where
  "run_task ops dg now curView (TPrePrepare m) p = handlePrePrepare ops dg curView m p"
| "run_task ops dg now curView (TPrepare m) p = handlePrepare ops curView m p"
| "run_task ops dg now curView (TCommit m) p = handleCommit ops now curView m p"

definition commit_count :: "prepare_commit \<Rightarrow> pbft_node \<Rightarrow> nat" where
  \<comment> \<open>the number of confirmations once \<open>m\<close> is counted\<close>
  "commit_count m p = card (insert (pc_SenderNode m) (map_default {} (p_cntCommitConfirm p) (pc_Digest m)))"

fun executes :: "int \<Rightarrow> task \<Rightarrow> pbft_node \<Rightarrow> bytes list" where
  "executes curView (TCommit m) p =
     (if \<not> out_of_date (pc_SeqID m) curView p \<and> quorum p (commit_count m p) \<and>
         pc_Digest m \<notin> p_isReply p \<and> p_requestPool p (pc_Digest m) \<noteq> None
      then [pc_Digest m] else [])"
| "executes curView _ p = []"

record run_state =
  rs_node :: pbft_node
  rs_spawned :: "task list"
  rs_waiting :: "(int \<times> task) list"
  rs_proposing :: nat
  rs_next :: nat
  rs_log :: "bytes list"

text \<open>The index tells the steps that move \<open>sequenceID\<close> without executing a request.\<close>

inductive node_step :: "extra_op set \<Rightarrow> digester \<Rightarrow> bool \<Rightarrow> run_state \<Rightarrow> run_state \<Rightarrow> bool" for opss dg where
  deliver_preprepare: "node_step opss dg False S (S\<lparr>rs_spawned := TPrePrepare m # rs_spawned S\<rparr>)"
| deliver_prepare: "node_step opss dg False S (S\<lparr>rs_next := Suc (rs_next S),
    rs_spawned := TPrepare \<lparr>pc_Digest = d, pc_SeqID = q, pc_SenderNode = NodePtr (rs_next S) n\<rparr> # rs_spawned S\<rparr>)"
| deliver_commit: "node_step opss dg False S (S\<lparr>rs_next := Suc (rs_next S),
    rs_spawned := TCommit \<lparr>pc_Digest = d, pc_SeqID = q, pc_SenderNode = NodePtr (rs_next S) n\<rparr> # rs_spawned S\<rparr>)"
| start: "t \<in> set (rs_spawned S) \<Longrightarrow> node_step opss dg False S
    (S\<lparr>rs_spawned := remove1 t (rs_spawned S), rs_waiting := (p_view (rs_node S), t) # rs_waiting S\<rparr>)"
| run: "ops \<in> opss \<Longrightarrow> (v, t) \<in> set (rs_waiting S) \<Longrightarrow> \<not> task_waits v t (rs_node S) \<Longrightarrow> p_commitBlocked (rs_node S) = None \<Longrightarrow>
    run_task ops dg now v t (rs_node S) = Inr p' \<Longrightarrow> node_step opss dg False S
    (S\<lparr>rs_node := p', rs_waiting := remove1 (v, t) (rs_waiting S), rs_log := rs_log S @ executes v t (rs_node S)\<rparr>)"
| unblock: "p_commitBlocked (rs_node S) = Some m \<Longrightarrow> \<not> p_askForLock (rs_node S) \<Longrightarrow>
    ask_for_old now m (rs_node S) = Inr p' \<Longrightarrow> node_step opss dg False S (S\<lparr>rs_node := p'\<rparr>)"
| round: "may_propose (rs_node S) \<Longrightarrow> node_step opss dg False S (S\<lparr>rs_proposing := Suc (rs_proposing S)\<rparr>)"
| propose: "ops \<in> opss \<Longrightarrow> rs_proposing S = Suc n \<Longrightarrow> \<not> p_sequenceLock (rs_node S) \<Longrightarrow>
    Propose ops dg (rs_node S) = Inr p' \<Longrightarrow> node_step opss dg False S (S\<lparr>rs_node := p', rs_proposing := n\<rparr>)"
| outside: "same_protocol (rs_node S) p' \<Longrightarrow> node_step opss dg False S (S\<lparr>rs_node := p'\<rparr>)"
| request_old: "ops \<in> opss \<Longrightarrow> handleRequestOldSeq ops rom (rs_node S) = Inr p' \<Longrightarrow> node_step opss dg False S (S\<lparr>rs_node := p'\<rparr>)"
| send_old: "ops \<in> opss \<Longrightarrow> handleSendOldSeq ops dg som (rs_node S) = Inr p' \<Longrightarrow> node_step opss dg True S (S\<lparr>rs_node := p'\<rparr>)"
| view_propose: "viewChangePropose (rs_node S) = Inr p' \<Longrightarrow> node_step opss dg False S (S\<lparr>rs_node := p'\<rparr>)"
| view_change: "handleViewChangeMsg m (rs_node S) = Inr p' \<Longrightarrow> node_step opss dg False S (S\<lparr>rs_node := p'\<rparr>)"
| new_view: "node_step opss dg True S (S\<lparr>rs_node := handleNewViewMsg now m (rs_node S)\<rparr>)"
| timer: "node_step opss dg False S (S\<lparr>rs_node := (rs_node S)\<lparr>p_lastCommitTime := now\<rparr>\<rparr>)"
| stop: "node_step opss dg False S (S\<lparr>rs_node := WaitToStop (rs_node S)\<rparr>)"

inductive node_steps :: "extra_op set \<Rightarrow> digester \<Rightarrow> bool \<Rightarrow> run_state \<Rightarrow> run_state \<Rightarrow> bool" for opss dg where
  \<comment> \<open>the index is true if a step of the run has it\<close>
  refl: "node_steps opss dg False S S"
| step: "node_steps opss dg d S S' \<Longrightarrow> node_step opss dg d' S' S'' \<Longrightarrow> node_steps opss dg (d \<or> d') S S''"

section \<open>What the handlers change\<close>

lemma same_protocol_refl [simp]: "same_protocol p p"
  by (simp add: same_protocol_def)

lemma same_protocol_fields:
  assumes "same_protocol p p'"
  shows "p_sequenceID p' = p_sequenceID p" "p_isReply p' = p_isReply p" "p_requestPool p' = p_requestPool p"
    "p_cntPrepareConfirm p' = p_cntPrepareConfirm p" "p_cntCommitConfirm p' = p_cntCommitConfirm p"
    "p_malicious_nums p' = p_malicious_nums p" "p_view p' = p_view p" "p_NodeID p' = p_NodeID p"
    "p_sequenceLock p' = p_sequenceLock p" "p_askForLock p' = p_askForLock p" "p_pbftStage p' = p_pbftStage p"
    "p_isCommitBordcast p' = p_isCommitBordcast p" "p_height2Digest p' = p_height2Digest p"
    "p_commitBlocked p' = p_commitBlocked p" "p_RunningNode p' = p_RunningNode p" "p_ShardID p' = p_ShardID p"
  by (subst assms [unfolded same_protocol_def], simp)+

definition keeps :: "pbft_node \<Rightarrow> pbft_node \<Rightarrow> bool" where
  \<comment> \<open>nothing is executed: replies and confirmations only grow\<close>
  "keeps p p' \<longleftrightarrow> p_isReply p \<subseteq> p_isReply p' \<and> p_malicious_nums p' = p_malicious_nums p \<and>
     (\<forall>d. map_default {} (p_cntCommitConfirm p) d \<subseteq> map_default {} (p_cntCommitConfirm p') d \<and>
        (finite (map_default {} (p_cntCommitConfirm p) d) \<longrightarrow> finite (map_default {} (p_cntCommitConfirm p') d)))"

lemma keeps_refl [simp]: "keeps p p"
  by (simp add: keeps_def)

lemma keeps_trans: "keeps p q \<Longrightarrow> keeps q r \<Longrightarrow> keeps p r"
  unfolding keeps_def by (metis order_trans)

lemma keepsI:
  "p_isReply p \<subseteq> p_isReply p' \<Longrightarrow> p_malicious_nums p' = p_malicious_nums p \<Longrightarrow>
   p_cntCommitConfirm p' = p_cntCommitConfirm p \<Longrightarrow> keeps p p'"
  by (simp add: keeps_def)

lemma same_protocol_keeps: "same_protocol p p' \<Longrightarrow> keeps p p'"
  by (rule keepsI) (simp_all add: same_protocol_fields)

lemma sending_simps [simp]:
  "p_sequenceID (TcpDial m ip p) = p_sequenceID p" "p_isReply (TcpDial m ip p) = p_isReply p"
  "p_malicious_nums (TcpDial m ip p) = p_malicious_nums p" "p_cntCommitConfirm (TcpDial m ip p) = p_cntCommitConfirm p"
  "p_sequenceLock (TcpDial m ip p) = p_sequenceLock p" "p_view (TcpDial m ip p) = p_view p"
  "p_NodeID (TcpDial m ip p) = p_NodeID p" "p_askForLock (TcpDial m ip p) = p_askForLock p"
  "p_sequenceID (broadcast_neighbors m p) = p_sequenceID p" "p_isReply (broadcast_neighbors m p) = p_isReply p"
  "p_malicious_nums (broadcast_neighbors m p) = p_malicious_nums p"
  "p_cntCommitConfirm (broadcast_neighbors m p) = p_cntCommitConfirm p"
  "p_sequenceLock (broadcast_neighbors m p) = p_sequenceLock p" "p_view (broadcast_neighbors m p) = p_view p"
  "p_NodeID (broadcast_neighbors m p) = p_NodeID p" "p_askForLock (broadcast_neighbors m p) = p_askForLock p"
  "p_sequenceID (broadcast_and_self m p) = p_sequenceID p" "p_isReply (broadcast_and_self m p) = p_isReply p"
  "p_malicious_nums (broadcast_and_self m p) = p_malicious_nums p"
  "p_cntCommitConfirm (broadcast_and_self m p) = p_cntCommitConfirm p"
  "p_sequenceLock (broadcast_and_self m p) = p_sequenceLock p" "p_view (broadcast_and_self m p) = p_view p"
  "p_NodeID (broadcast_and_self m p) = p_NodeID p" "p_askForLock (broadcast_and_self m p) = p_askForLock p"
  by (simp_all add: TcpDial_def broadcast_neighbors_def broadcast_and_self_def)

definition calm :: "pbft_node \<Rightarrow> pbft_node \<Rightarrow> bool" where
  \<comment> \<open>as \<open>keeps\<close>, and the sequence number, the lock and the view stay\<close>
  "calm p p' \<longleftrightarrow> keeps p p' \<and> p_sequenceID p' = p_sequenceID p \<and> p_sequenceLock p' = p_sequenceLock p \<and>
     p_view p' = p_view p \<and> p_NodeID p' = p_NodeID p"

lemma calm_refl [simp]: "calm p p"
  by (simp add: calm_def)

lemma calm_trans: "calm p q \<Longrightarrow> calm q r \<Longrightarrow> calm p r"
  unfolding calm_def using keeps_trans by auto

lemma calmI:
  "p_isReply p \<subseteq> p_isReply p' \<Longrightarrow> p_malicious_nums p' = p_malicious_nums p \<Longrightarrow>
   p_cntCommitConfirm p' = p_cntCommitConfirm p \<Longrightarrow> p_sequenceID p' = p_sequenceID p \<Longrightarrow>
   p_sequenceLock p' = p_sequenceLock p \<Longrightarrow> p_view p' = p_view p \<Longrightarrow> p_NodeID p' = p_NodeID p \<Longrightarrow> calm p p'"
  by (simp add: calm_def keepsI)

lemma same_protocol_calm: "same_protocol p p' \<Longrightarrow> calm p p'"
  by (rule calmI) (simp_all add: same_protocol_fields)

lemma same_protocol_pool_calm:
  assumes "same_protocol (p\<lparr>p_requestPool := R\<rparr>) p'"
  shows "calm p p'"
  using same_protocol_fields [OF assms] by (intro calmI) simp_all

lemma calm_upd [simp]:
  "calm p (q\<lparr>p_requestPool := R\<rparr>) = calm p q" "calm p (q\<lparr>p_height2Digest := h\<rparr>) = calm p q"
  "calm p (q\<lparr>p_pbftStage := i\<rparr>) = calm p q" "calm p (q\<lparr>p_isCommitBordcast := b\<rparr>) = calm p q"
  "calm p (q\<lparr>p_commitBlocked := c\<rparr>) = calm p q"
  "calm p (TcpDial m ip q) = calm p q" "calm p (broadcast_neighbors m q) = calm p q"
  "calm p (broadcast_and_self m q) = calm p q" "calm p (pool_request dg pp q) = calm p q"
  by (simp_all add: calm_def keeps_def pool_request_def)

lemma set2DMap_calm: "calm p (set2DMap b d n p)"
  by (auto simp: set2DMap_def calm_def keeps_def)

lemma end_round_cases:
  assumes "end_round now p = Inr p'"
  shows "keeps p p' \<and> p_sequenceID p' = p_sequenceID p \<and> p_view p' = p_view p \<and> p_NodeID p' = p_NodeID p \<and>
    p_cntCommitConfirm p' = p_cntCommitConfirm p \<and> p_isReply p' = p_isReply p \<and>
    p_sequenceLock p' = (if p_NodeID p = leader_id p then False else p_sequenceLock p)"
  using assms by (auto simp: end_round_def Let_def leader_id_def keeps_def split: if_splits)

lemma ask_for_old_effect:
  assumes "ask_for_old now m p = Inr p'"
  shows "keeps p p' \<and> p_sequenceID p' = p_sequenceID p \<and> p_view p' = p_view p \<and> p_NodeID p' = p_NodeID p \<and>
    (p_NodeID p \<noteq> leader_id p \<longrightarrow> p_sequenceLock p' = p_sequenceLock p)"
  using end_round_cases [OF assms [unfolded ask_for_old_def Let_def]]
  by (auto simp: keeps_def leader_id_def)

lemma next_view_effects:
  "viewChangePropose p = Inr p' \<Longrightarrow> calm p p'" "handleViewChangeMsg m p = Inr p' \<Longrightarrow> calm p p'"
  by (auto simp: viewChangePropose_def handleViewChangeMsg_def Let_def and_then_Inr split: if_splits intro!: calmI)

lemma new_view_effect:
  "keeps p (handleNewViewMsg now m p)" "p_sequenceLock (handleNewViewMsg now m p) = p_sequenceLock p"
  "p_NodeID (handleNewViewMsg now m p) = p_NodeID p"
  by (auto simp: handleNewViewMsg_def Let_def intro!: keepsI)

context consensus_module
begin

lemma preprepare_calm:
  assumes "handlePrePrepare ops dg v m p = Inr p'"
  shows "calm p p'"
proof -
  have "calm p q" if "HandleinPrePrepare ops m p = Inr (flag, q)" for flag q
    using that by (rule same_protocol_pool_calm [OF preprepare_frame])
  then show ?thesis using assms
    by (auto simp: handlePrePrepare_def and_then_Inr Let_def split: if_splits)
qed

lemma prepare_calm:
  assumes "handlePrepare ops v m p = Inr p'"
  shows "calm p p'"
proof -
  have "calm p (set2DMap True d n q)" if "HandleinPrepare ops m p = Inr q" for q d n
    using calm_trans [OF same_protocol_calm [OF prepare_frame [OF that]] set2DMap_calm] .
  then show ?thesis using assms
    by (auto simp: handlePrepare_def and_then_Inr Let_def split: if_splits)
qed

lemma propose_effect:
  assumes "Propose ops dg p = Inr p'"
  shows "keeps p p' \<and> p_sequenceID p' = p_sequenceID p \<and> p_view p' = p_view p \<and> p_NodeID p' = p_NodeID p \<and>
    (p_sequenceLock p \<longrightarrow> p_sequenceLock p')"
proof -
  from assms obtain r q where q: "HandleinPropose ops (p\<lparr>p_sequenceLock := True\<rparr>) = Inr (r, q)"
    and p': "calm q p'"
    by (auto simp: Propose_def and_then_Inr Let_def)
  from calm_trans [OF same_protocol_calm [OF propose_frame [OF q]] p'] show ?thesis
    by (auto simp: calm_def keeps_def)
qed

lemma request_old_calm:
  assumes "handleRequestOldSeq ops rom p = Inr p'"
  shows "calm p p'"
proof (cases "leader_id p \<noteq> p_NodeID p")
  case False
  with assms obtain q where q: "HandleReqestforOldSeq ops rom p = Inr q" and "calm q p'"
    by (auto simp: handleRequestOldSeq_def and_then_Inr Let_def)
  then show ?thesis using calm_trans same_protocol_calm oldseq_frame by blast
qed (use assms in \<open>simp add: handleRequestOldSeq_def\<close>)

lemma commit_effect:
  assumes "handleCommit ops now v m p = Inr p'"
  shows "keeps p p' \<and> p_view p' = p_view p \<and> p_NodeID p' = p_NodeID p \<and>
    p_sequenceID p' = p_sequenceID p + of_nat (length (executes v (TCommit m) p)) \<and>
    (p_NodeID p \<noteq> leader_id p \<longrightarrow> p_sequenceLock p' = p_sequenceLock p) \<and>
    (executes v (TCommit m) p \<noteq> [] \<longrightarrow> pc_Digest m \<in> p_isReply p' \<and>
       map_default {} (p_cntCommitConfirm p') (pc_Digest m) =
         insert (pc_SenderNode m) (map_default {} (p_cntCommitConfirm p) (pc_Digest m)))"
proof (cases "out_of_date (pc_SeqID m) v p")
  case True
  with assms show ?thesis by (simp add: handleCommit_def)
next
  case False
  let ?q = "set2DMap False (pc_Digest m) (pc_SenderNode m) p"
  have q: "calm p ?q" by (rule set2DMap_calm)
  have cnt: "map_default {} (p_cntCommitConfirm ?q) (pc_Digest m) =
      insert (pc_SenderNode m) (map_default {} (p_cntCommitConfirm p) (pc_Digest m))" by (simp add: set2DMap_def)
  have same: "p_isReply ?q = p_isReply p" "p_requestPool ?q = p_requestPool p" "quorum ?q = quorum p"
    "p_askForLock ?q = p_askForLock p" "leader_id ?q = leader_id p"
    by (auto simp: set2DMap_def quorum_def leader_id_def)
  define fire where "fire \<longleftrightarrow> quorum p (commit_count m p) \<and> pc_Digest m \<notin> p_isReply p"
  show ?thesis
  proof (cases "fire \<and> p_requestPool p (pc_Digest m) \<noteq> None")
    case True
    then have ex: "executes v (TCommit m) p = [pc_Digest m]" using False by (simp add: fire_def)
    from assms False True obtain r where r: "HandleinCommit ops m ?q = Inr r"
      and e: "end_round now (r\<lparr>p_isReply := insert (pc_Digest m) (p_isReply r), p_sequenceID := p_sequenceID r + 1\<rparr>) = Inr p'"
      by (auto simp: handleCommit_def Let_def and_then_Inr same cnt fire_def commit_count_def)
    note f = same_protocol_fields [OF commit_frame [OF r]]
    have lead: "leader_id r = leader_id p" using f(7) same(5) by (simp add: leader_id_def)
    have "keeps ?q r" by (rule same_protocol_keeps [OF commit_frame [OF r]])
    moreover have "keeps r (r\<lparr>p_isReply := insert (pc_Digest m) (p_isReply r), p_sequenceID := p_sequenceID r + 1\<rparr>)"
      by (rule keepsI) auto
    ultimately have "keeps p p'"
      using q end_round_cases [OF e] keeps_trans unfolding calm_def by blast
    moreover have "p_view r = p_view p" "p_NodeID r = p_NodeID p" "p_sequenceID r = p_sequenceID p"
      "p_sequenceLock r = p_sequenceLock p" "p_cntCommitConfirm r = p_cntCommitConfirm ?q"
      using f(1,5,7,8,9) q by (simp_all add: calm_def)
    ultimately show ?thesis using end_round_cases [OF e] lead cnt
      unfolding ex by (simp add: leader_id_def)
  next
    case no: False
    then have ex: "executes v (TCommit m) p = []" by (auto simp: fire_def)
    let ?r = "?q\<lparr>p_isReply := insert (pc_Digest m) (p_isReply ?q)\<rparr>"
    have r: "calm p ?r" using q by (auto simp: calm_def keeps_def)
    have lr: "leader_id ?r = leader_id p" using same by (simp add: leader_id_def)
    have fire: "fire \<longleftrightarrow> quorum ?q (card (map_default {} (p_cntCommitConfirm ?q) (pc_Digest m))) \<and> pc_Digest m \<notin> p_isReply ?q"
      by (simp only: fire_def same cnt commit_count_def)
    have none: "p_requestPool ?q (pc_Digest m) = None" if fire using no that same(2) by simp
    have "handleCommit ops now v m p = (if fire then if p_askForLock ?r then Inr (?r\<lparr>p_commitBlocked := Some m\<rparr>)
        else ask_for_old now m ?r else Inr ?q)"
      using none False unfolding handleCommit_def Let_def fire by (cases fire) (simp_all only: if_False if_True simp_thms fire)
    with assms consider "p' = ?q" | "p' = ?r\<lparr>p_commitBlocked := Some m\<rparr>" | "ask_for_old now m ?r = Inr p'"
      by (metis sum.inject(2))
    then show ?thesis
    proof cases
      case 3
      have "keeps p ?r" using r by (simp add: calm_def)
      then have "keeps p p'" using ask_for_old_effect [OF 3] keeps_trans by blast
      with ask_for_old_effect [OF 3] r lr show ?thesis unfolding ex by (simp add: calm_def)
    next
      case 1
      with q ex show ?thesis by (simp add: calm_def)
    next
      case 2
      then have "calm p p'" using r by simp
      with ex show ?thesis by (simp add: calm_def)
    qed
  qed
qed

end

section \<open>Invariants of runs\<close>

definition run_ok :: "run_state \<Rightarrow> bool" where
  "run_ok S \<longleftrightarrow> distinct (rs_log S) \<and> set (rs_log S) \<subseteq> p_isReply (rs_node S) \<and>
     (\<forall>d \<in> set (rs_log S). \<exists>C. C \<subseteq> map_default {} (p_cntCommitConfirm (rs_node S)) d \<and> quorum (rs_node S) (card C))"

lemma run_ok_keeps:
  assumes "run_ok S" and "keeps (rs_node S) (rs_node S')" and "rs_log S' = rs_log S"
  shows "run_ok S'"
proof -
  have "quorum (rs_node S') = quorum (rs_node S)" using assms(2) by (auto simp: keeps_def quorum_def)
  then show ?thesis using assms unfolding run_ok_def keeps_def by (metis order_trans)
qed

lemma executes_le_one: "executes v t p = [] \<or> (\<exists>m. t = TCommit m \<and> executes v t p = [pc_Digest m])"
  by (cases t) auto

context consensus_module
begin

lemma resume_prepare_calm: "resume_prepare ops dg p = Inr p' \<Longrightarrow> calm p p'"
  using same_protocol_pool_calm [OF preprepare_frame]
  by (fastforce simp: resume_prepare_def and_then_Inr Let_def split: option.splits if_splits)

lemma send_old_keeps:
  assumes "handleSendOldSeq ops dg som p = Inr p'"
  shows "keeps p p' \<and> p_sequenceLock p' = p_sequenceLock p \<and> p_NodeID p' = p_NodeID p"
proof -
  let ?K = "\<lambda>q. keeps p q \<and> p_sequenceLock q = p_sequenceLock p \<and> p_NodeID q = p_NodeID p"
  let ?seq = "so_SeqEndHeight som + 1"
  from assms obtain q1 q2 q3 where q1: "HandleforSequentialRequest ops som p = Inr q1"
    and q2: "go_foldi (\<lambda>idx r p. Inr (record_old dg (so_SeqStartHeight som) idx r p)) 0 (so_OldRequest som) q1 = Inr q2"
    and q3: "resume_prepare ops dg (q2\<lparr>p_sequenceID := ?seq\<rparr>) = Inr q3" and u: "unlock_ask q3 = Inr p'"
    by (auto simp: handleSendOldSeq_def and_then_Inr)
  have "?K q1" using same_protocol_fields [OF sequential_frame [OF q1]] by (simp add: keepsI)
  moreover have "keeps q (record_old dg b i r q)" for b i r q by (rule keepsI) (auto simp: record_old_def)
  then have "?K (record_old dg b i r q)" if "?K q" for b i r q
    using that keeps_trans [of p q] by (auto simp: record_old_def)
  ultimately have "?K q2" using go_foldi_inv [OF q2, where P = ?K] by blast
  then have "?K (q2\<lparr>p_sequenceID := ?seq\<rparr>)" by (simp add: keeps_def)
  then have "?K q3" using resume_prepare_calm [OF q3] keeps_trans unfolding calm_def by auto
  moreover have "keeps q3 p'" "p_sequenceLock p' = p_sequenceLock q3" "p_NodeID p' = p_NodeID q3"
    using u by (auto simp: unlock_ask_def intro!: keepsI split: if_splits)
  ultimately show ?thesis using keeps_trans by auto
qed

lemma run_task_effect:
  assumes "run_task ops dg now v t p = Inr p'"
  shows "keeps p p' \<and> p_view p' = p_view p \<and> p_NodeID p' = p_NodeID p \<and>
    p_sequenceID p' = p_sequenceID p + of_nat (length (executes v t p)) \<and>
    (p_NodeID p \<noteq> leader_id p \<longrightarrow> p_sequenceLock p' = p_sequenceLock p)"
proof (cases t)
  case (TPrePrepare m)
  with assms have "calm p p'" using preprepare_calm by simp
  with TPrePrepare show ?thesis by (simp add: calm_def)
next
  case (TPrepare m)
  with assms have "calm p p'" using prepare_calm by simp
  with TPrepare show ?thesis by (simp add: calm_def)
next
  case (TCommit m)
  with assms have "handleCommit ops now v m p = Inr p'" by simp
  from commit_effect [OF this] show ?thesis unfolding TCommit by blast
qed

end

text \<open>
  A run may use another instance of the module in every step (another time, another order of
  iterating over maps): the runs of a variant are over a set of modules.
\<close>

locale consensus_variant =
  fixes opss :: "extra_op set"
  assumes module: "ops \<in> opss \<Longrightarrow> consensus_module ops"
begin

lemmas run_task_effect' = module [THEN consensus_module.run_task_effect]
lemmas commit_effect' = module [THEN consensus_module.commit_effect]
lemmas propose_effect' = module [THEN consensus_module.propose_effect]
lemmas request_old_calm' = module [THEN consensus_module.request_old_calm]
lemmas send_old_keeps' = module [THEN consensus_module.send_old_keeps]

lemma step_run_ok:
  assumes "node_step opss dg d S S'" and "run_ok S"
  shows "run_ok S'"
  using assms(1)
proof cases
  case (run ops v t now p')
  show ?thesis
  proof (cases "executes v t (rs_node S) = []")
    case True
    have "keeps (rs_node S) p'" using run_task_effect' [OF run(3,7)] by blast
    with True run(2) assms(2) show ?thesis by (intro run_ok_keeps [OF assms(2)]) simp_all
  next
    case False
    then obtain m where t: "t = TCommit m" and ex: "executes v t (rs_node S) = [pc_Digest m]"
      using executes_le_one by blast
    note eff = commit_effect' [OF run(3) run(7) [unfolded t run_task.simps]]
    have new: "pc_Digest m \<notin> p_isReply (rs_node S)" and q: "quorum (rs_node S) (commit_count m (rs_node S))"
      using ex by (auto simp: t split: if_splits)
    have k: "keeps (rs_node S) p'" using eff by blast
    then have "run_ok (S\<lparr>rs_node := p'\<rparr>)" by (intro run_ok_keeps [OF assms(2)]) simp_all
    moreover have "\<exists>C. C \<subseteq> map_default {} (p_cntCommitConfirm p') (pc_Digest m) \<and> quorum p' (card C)"
      using eff q k ex by (auto simp: t commit_count_def quorum_def keeps_def)
    moreover have "pc_Digest m \<in> p_isReply p'" using eff ex by (simp add: t)
    moreover have "pc_Digest m \<notin> set (rs_log S)" using new assms(2) by (auto simp: run_ok_def)
    ultimately show ?thesis by (auto simp: run(2) ex run_ok_def)
  qed
qed (use run_ok_keeps [OF assms(2)] ask_for_old_effect propose_effect' same_protocol_keeps request_old_calm'
    send_old_keeps' next_view_effects new_view_effect in \<open>auto simp: calm_def WaitToStop_def keeps_def\<close>)

lemma steps_run_ok:
  "node_steps opss dg d S S' \<Longrightarrow> run_ok S \<Longrightarrow> run_ok S'"
  by (induction rule: node_steps.induct) (auto intro: step_run_ok)

lemma step_sequence:
  assumes "node_step opss dg False S S'"
  shows "\<exists>xs. rs_log S' = rs_log S @ xs \<and> p_sequenceID (rs_node S') = p_sequenceID (rs_node S) + of_nat (length xs)"
  using assms
proof cases
  case (run ops v t now p')
  have "p_sequenceID p' = p_sequenceID (rs_node S) + of_nat (length (executes v t (rs_node S)))"
    using run_task_effect' [OF run(2,6)] by blast
  with run(1) show ?thesis by auto
qed (use ask_for_old_effect propose_effect' same_protocol_calm request_old_calm' next_view_effects
    in \<open>auto simp: calm_def WaitToStop_def\<close>)

lemma steps_sequence:
  "node_steps opss dg d S S' \<Longrightarrow> \<not> d \<Longrightarrow>
   \<exists>xs. rs_log S' = rs_log S @ xs \<and> p_sequenceID (rs_node S') = p_sequenceID (rs_node S) + of_nat (length xs)"
proof (induction rule: node_steps.induct)
  case (step d S S' d' S'')
  then obtain xs ys where "rs_log S' = rs_log S @ xs" "p_sequenceID (rs_node S') = p_sequenceID (rs_node S) + of_nat (length xs)"
    "rs_log S'' = rs_log S' @ ys" "p_sequenceID (rs_node S'') = p_sequenceID (rs_node S') + of_nat (length ys)"
    using step_sequence by (metis (full_types))
  then show ?case by (intro exI [of _ "xs @ ys"]) (simp add: algebra_simps)
qed simp

lemma step_stale_lock:
  assumes "node_step opss dg d S S'" and "p_sequenceLock (rs_node S)" and "p_NodeID (rs_node S) \<noteq> leader_id (rs_node S)"
  shows "p_sequenceLock (rs_node S') \<and> p_NodeID (rs_node S') = p_NodeID (rs_node S)"
  using assms(1)
proof cases
  case (run ops v t now p')
  with run_task_effect' [OF run(3,7)] assms(2,3) show ?thesis by simp
next
  case (unblock m now p')
  with ask_for_old_effect [OF unblock(5)] assms(2,3) show ?thesis by simp
next
  case (outside p')
  with same_protocol_fields [OF outside(3)] assms(2) show ?thesis by simp
next
  case (send_old ops som p')
  then show ?thesis using send_old_keeps' assms(2) by simp
qed (use assms(2) propose_effect' request_old_calm' next_view_effects new_view_effect in \<open>auto simp: calm_def WaitToStop_def\<close>)

end

end
