(* ===== verification/Relay_Module.thy ===== *)
theory Relay_Module
  imports Pbft_Run
begin

text \<open>
  The relay variant of the consensus: \<open>pbftInside_module.go\<close> (what a node does at each stage of PBFT),
  \<open>pbftOutside_module.go\<close> (messages from other shards) and the two senders of \<open>toolFuncs.go\<close>. After
  committing a block, the leader splits its transactions into those inside the shard, those that leave
  it (first half of a cross-shard transfer) and those that arrived from another shard (second half), sends
  the leaving ones to the leaders of their shards and reports the block to the supervisor.

  The flags set by \<open>tx.Relayed = true\<close> are set on the transactions of the decoded block; the body of
  the current block kept in memory, which no code reads, is not updated with them. Writing the
  metrics file is not modelled.
\<close>

section \<open>Definitions\<close>

definition decode_block :: "raw_content \<Rightarrow> block go" where
  "decode_block c = (case c of BlockContent b \<Rightarrow> Inr b | TransferContent _ \<Rightarrow> Inl (LogPanic ''gob''))"

definition SupervisorShard :: u64 where
  "SupervisorShard = 2147483647"

definition block_propose :: "epoch_orders \<Rightarrow> go_env \<Rightarrow> gotime \<Rightarrow> pbft_node \<Rightarrow> (request \<times> pbft_node) go" where
  "block_propose ords E now p =
     and_then (GenerateBlock ords E now (ucast (p_NodeID p)) (p_CurChain p)) (\<lambda>(b, bc).
       Inr (\<lparr>r_RequestType = BlockRequest, r_Content = BlockContent b, r_ReqTime = now\<rparr>, p\<lparr>p_CurChain := bc\<rparr>))"

definition block_preprepare :: "go_env \<Rightarrow> pre_prepare \<Rightarrow> pbft_node \<Rightarrow> (bool \<times> pbft_node) go" where
  "block_preprepare E ppmsg p =
     and_then (decode_block (r_Content (pp_RequestMsg ppmsg))) (\<lambda>b.
       if IsValidBlock E (p_CurChain p) b \<noteq> None then Inr (False, p)
       else Inr (True, p\<lparr>p_requestPool := (p_requestPool p)(pp_Digest ppmsg \<mapsto> pp_RequestMsg ppmsg)\<rparr>))"

record tx_split =
  sp_pool :: tx_pool
  sp_inner :: "transaction list"
  sp_relay1 :: "transaction list"
  sp_relay2 :: "transaction list"

definition split_tx :: "go_env \<Rightarrow> blockchain \<Rightarrow> u64 \<Rightarrow> transaction \<Rightarrow> tx_split \<Rightarrow> tx_split go" where
  "split_tx E bc shardID tx s =
     and_then (Get_PartitionMap E bc (tx_Sender tx)) (\<lambda>ssid.
     and_then (Get_PartitionMap E bc (tx_Recipient tx)) (\<lambda>rsid.
       if \<not> tx_Relayed tx \<and> ssid \<noteq> shardID then Inl (LogPanic ''incorrect tx'')
       else if tx_Relayed tx \<and> rsid \<noteq> shardID then Inl (LogPanic ''incorrect tx'')
       else if rsid \<noteq> shardID then
         let tx = tx\<lparr>tx_Relayed := True\<rparr>
         in and_then (AddRelayTx tx rsid (sp_pool s)) (\<lambda>pool.
              Inr (s\<lparr>sp_pool := pool, sp_relay1 := sp_relay1 s @ [tx]\<rparr>))
       else if tx_Relayed tx then Inr (s\<lparr>sp_relay2 := sp_relay2 s @ [tx]\<rparr>)
       else Inr (s\<lparr>sp_inner := sp_inner s @ [tx]\<rparr>)))"

definition split_block :: "go_env \<Rightarrow> blockchain \<Rightarrow> u64 \<Rightarrow> block \<Rightarrow> tx_split go" where
  \<comment> \<open>\<open>RelayPool\<close> is created anew before the loop\<close>
  "split_block E bc shardID b =
     go_fold (split_tx E bc shardID) (b_Body b)
       \<lparr>sp_pool = (bc_Txpool bc)\<lparr>RelayPool := Some Map.empty\<rparr>, sp_inner = [], sp_relay1 = [], sp_relay2 = []\<rparr>"

definition other_shards :: "pbft_node \<Rightarrow> u64 list" where
  "other_shards p = filter (\<lambda>sid. sid \<noteq> p_ShardID p) (map u64_of_nat [0 ..< unat (cc_ShardNums (p_ChainConfig p))])"

definition set_pool :: "tx_pool \<Rightarrow> pbft_node \<Rightarrow> pbft_node" where
  "set_pool pool p = p\<lparr>p_CurChain := (p_CurChain p)\<lparr>bc_Txpool := pool\<rparr>\<rparr>"

definition relay_to :: "u64 \<Rightarrow> pbft_node \<Rightarrow> pbft_node" where
  "relay_to sid p =
     TcpDial (RelayMsg \<lparr>rl_Txs = relay_of (bc_Txpool (p_CurChain p)) sid, rl_SenderShardID = p_ShardID p,
                        rl_SenderSeq = p_sequenceID p\<rparr>) (ip_of p sid 0) p"

definition RelayMsgSend :: "go_env \<Rightarrow> pbft_node \<Rightarrow> pbft_node go" where
  "RelayMsgSend E p =
     (if RelayWithMerkleProof E \<noteq> 0 then Inl (LogPanic ''RelayWithMerkleProof'')
      else let p = fold relay_to (other_shards p) p
           in Inr (set_pool (ClearRelayPool (bc_Txpool (p_CurChain p))) p))"

definition relay_proofs_to :: "prover \<Rightarrow> go_env \<Rightarrow> block \<Rightarrow> u64 \<Rightarrow> pbft_node \<Rightarrow> pbft_node" where
  "relay_proofs_to prove E b sid p =
     (let txs = relay_of (bc_Txpool (p_CurChain p)) sid;
          txProofs = TxProofBatchGenerateOnBlock prove E (map tx_TxHash txs) b
      in TcpDial (RelayProofMsg \<lparr>rp_Txs = txs, rp_TxProofs = txProofs, rp_SenderShardID = p_ShardID p,
                                 rp_SenderSeq = p_sequenceID p\<rparr>) (ip_of p sid 0) p)"

definition RelayWithProofSend :: "prover \<Rightarrow> go_env \<Rightarrow> block \<Rightarrow> pbft_node \<Rightarrow> pbft_node go" where
  "RelayWithProofSend prove E b p =
     (if RelayWithMerkleProof E \<noteq> 1 then Inl (LogPanic ''RelayWithMerkleProof'')
      else let p = fold (relay_proofs_to prove E b) (other_shards p) p
           in Inr (set_pool (ClearRelayPool (bc_Txpool (p_CurChain p))) p))"

definition relay_leader_commit ::
  "prover \<Rightarrow> go_env \<Rightarrow> gotime \<Rightarrow> int \<Rightarrow> request \<Rightarrow> block \<Rightarrow> pbft_node \<Rightarrow> pbft_node go" where
  \<comment> \<open>the part of \<open>HandleinCommit\<close> only the main node runs; shared by the CLPA variant\<close>
  "relay_leader_commit prove E now epoch r b p =
     and_then (split_block E (p_CurChain p) (p_ShardID p) b) (\<lambda>s.
     and_then (if RelayWithMerkleProof E = 1 then RelayWithProofSend prove E b (set_pool (sp_pool s) p)
               else RelayMsgSend E (set_pool (sp_pool s) p)) (\<lambda>p.
       let bim = \<lparr>bi_BlockBodyLength = length (b_Body b), bi_InnerShardTxs = sp_inner s, bi_Epoch = epoch,
                  bi_ProposeTime = r_ReqTime r, bi_CommitTime = now, bi_SenderShardID = p_ShardID p,
                  bi_Relay1Txs = sp_relay1 s, bi_Relay2Txs = sp_relay2 s, bi_Broker1Txs = [], bi_Broker2Txs = []\<rparr>
       in Inr (TcpDial (BlockInfoMsg bim) (ip_of p SupervisorShard 0) p)))"

definition relay_commit ::
  "prover \<Rightarrow> epoch_orders \<Rightarrow> go_env \<Rightarrow> gotime \<Rightarrow> prepare_commit \<Rightarrow> pbft_node \<Rightarrow> pbft_node go" where
  "relay_commit prove ords E now cmsg p =
     (case p_requestPool p (pc_Digest cmsg) of
        None \<Rightarrow> Inl NilDeref
      | Some r \<Rightarrow>
          and_then (decode_block (r_Content r)) (\<lambda>b.
          and_then (AddBlock ords E b (p_CurChain p)) (\<lambda>bc.
            let p = p\<lparr>p_CurChain := bc\<rparr>
            in if p_NodeID p = leader_id p then relay_leader_commit prove E now 0 r b p else Inr p)))"

definition add_old_block :: "epoch_orders \<Rightarrow> go_env \<Rightarrow> send_old \<Rightarrow> u64 \<Rightarrow> blockchain \<Rightarrow> blockchain go" where
  "add_old_block ords E som height bc =
     and_then (go_nth (so_OldRequest som) (int (unat (height - so_SeqStartHeight som)))) (\<lambda>r.
       if r_RequestType r = BlockRequest
       then and_then (decode_block (r_Content r)) (\<lambda>b. AddBlock ords E b bc)
       else Inr bc)"

definition relay_sequential :: "epoch_orders \<Rightarrow> go_env \<Rightarrow> send_old \<Rightarrow> pbft_node \<Rightarrow> pbft_node go" where
  "relay_sequential ords E som p =
     (if sint (so_SeqEndHeight som - so_SeqStartHeight som + 1) \<noteq> int (length (so_OldRequest som)) then Inr p
      else and_then (go_fold (add_old_block ords E som) (heights (so_SeqStartHeight som) (so_SeqEndHeight som)) (p_CurChain p))
        (\<lambda>bc. Inr (p\<lparr>p_CurChain := bc, p_sequenceID := so_SeqEndHeight som + 1\<rparr>)))"

definition RawRelayPbftExtraHandleMod :: "prover \<Rightarrow> epoch_orders \<Rightarrow> go_env \<Rightarrow> gotime \<Rightarrow> extra_op" where
  "RawRelayPbftExtraHandleMod prove ords E now =
     \<lparr>HandleinPropose = block_propose ords E now,
      HandleinPrePrepare = block_preprepare E,
      HandleinPrepare = (\<lambda>pmsg p. Inr p),
      HandleinCommit = relay_commit prove ords E now,
      HandleReqestforOldSeq = (\<lambda>rom p. Inr p),
      HandleforSequentialRequest = relay_sequential ords E\<rparr>"

subsection \<open>Messages from outside the shard\<close>

definition add_to_pool :: "(nat \<Rightarrow> gotime) \<Rightarrow> transaction list \<Rightarrow> pbft_node \<Rightarrow> pbft_node" where
  "add_to_pool now txs p = set_pool (AddTxs2Pool now txs (bc_Txpool (p_CurChain p))) p"

definition set_seq_of :: "u64 \<Rightarrow> u64 \<Rightarrow> pbft_node \<Rightarrow> pbft_node" where
  "set_seq_of sid seq p = p\<lparr>p_seqIDMap := (p_seqIDMap p)(sid \<mapsto> seq)\<rparr>"

definition handleRelay :: "(nat \<Rightarrow> gotime) \<Rightarrow> relay_msg \<Rightarrow> pbft_node \<Rightarrow> pbft_node" where
  "handleRelay now relay p = set_seq_of (rl_SenderShardID relay) (rl_SenderSeq relay) (add_to_pool now (rl_Txs relay) p)"

fun all_proofs_ok :: "verifier \<Rightarrow> tx_proof list \<Rightarrow> nat \<Rightarrow> transaction list \<Rightarrow> bool go" where
  \<comment> \<open>the validation loop, which stops at the first proof that fails\<close>
  "all_proofs_ok verify proofs i [] = Inr True"
| "all_proofs_ok verify proofs i (tx # txs) =
     and_then (go_nth proofs (int i)) (\<lambda>p.
     and_then (TxProofVerify verify (tx_TxHash tx) p) (\<lambda>ok.
       if ok then all_proofs_ok verify proofs (Suc i) txs else Inr False))"

definition handleRelayWithProof :: "verifier \<Rightarrow> (nat \<Rightarrow> gotime) \<Rightarrow> relay_proof_msg \<Rightarrow> pbft_node \<Rightarrow> pbft_node go" where
  "handleRelayWithProof verify now rwp p =
     and_then (all_proofs_ok verify (rp_TxProofs rwp) 0 (rp_Txs rwp)) (\<lambda>isAllCorrect.
       Inr (set_seq_of (rp_SenderShardID rwp) (rp_SenderSeq rwp)
              (if isAllCorrect then add_to_pool now (rp_Txs rwp) p else p)))"

definition handleInjectTx :: "(nat \<Rightarrow> gotime) \<Rightarrow> transaction list \<Rightarrow> pbft_node \<Rightarrow> pbft_node" where
  "handleInjectTx now txs p = add_to_pool now txs p"

definition RawRelayOutside :: "verifier \<Rightarrow> (nat \<Rightarrow> gotime) \<Rightarrow> message \<Rightarrow> pbft_node \<Rightarrow> pbft_node go" where
  "RawRelayOutside verify now msg p =
     (case msg of
        RelayMsg relay \<Rightarrow> Inr (handleRelay now relay p)
      | RelayProofMsg rwp \<Rightarrow> handleRelayWithProof verify now rwp p
      | InjectMsg txs \<Rightarrow> Inr (handleInjectTx now txs p)
      | _ \<Rightarrow> Inr p)"

section \<open>The module implements the interface\<close>

lemma same_protocol_trans:
  assumes "same_protocol p q" and "same_protocol q r"
  shows "same_protocol p r"
proof -
  have "q\<lparr>p_CurChain := c, p_cdm := d, p_seqIDMap := m, p_out := out\<rparr> =
      p\<lparr>p_CurChain := c, p_cdm := d, p_seqIDMap := m, p_out := out\<rparr>" for c d m out
    by (subst assms(1) [unfolded same_protocol_def]) simp
  with assms(2) show ?thesis unfolding same_protocol_def by simp
qed

lemma same_protocolI [simp]:
  "same_protocol p (p\<lparr>p_CurChain := c\<rparr>)" "same_protocol p (p\<lparr>p_out := out\<rparr>)"
  "same_protocol p (p\<lparr>p_cdm := d\<rparr>)" "same_protocol p (p\<lparr>p_seqIDMap := m\<rparr>)"
  "same_protocol p (TcpDial msg ip p)" "same_protocol p (set_pool pool p)" "same_protocol p (set_seq_of sid seq p)"
  "same_protocol p (add_to_pool now txs p)"
  by (simp_all add: same_protocol_def TcpDial_def set_pool_def set_seq_of_def add_to_pool_def)

lemma same_protocol_tables:
  assumes "same_protocol p p'"
  shows "p_ip_nodeTable p' = p_ip_nodeTable p" "p_ChainConfig p' = p_ChainConfig p"
  by (subst assms [unfolded same_protocol_def], simp)+

lemmas same_protocol_steps = same_protocolI [THEN same_protocol_trans [rotated]]

lemma same_protocol_fold:
  "(\<And>x q. same_protocol q (f x q)) \<Longrightarrow> same_protocol p (fold f xs p)"
  by (induction xs arbitrary: p) (auto intro: same_protocol_trans)

lemma relay_senders_frame:
  "RelayMsgSend E p = Inr p' \<Longrightarrow> same_protocol p p'" "RelayWithProofSend prove E b p = Inr p' \<Longrightarrow> same_protocol p p'"
proof -
  have "same_protocol q (relay_to x q)" "same_protocol q (relay_proofs_to prove E b x q)" for x q
    by (simp_all add: relay_to_def relay_proofs_to_def Let_def)
  note f = same_protocol_fold [of relay_to, OF this(1)] same_protocol_fold [of "relay_proofs_to prove E b", OF this(2)]
  show "RelayMsgSend E p = Inr p' \<Longrightarrow> same_protocol p p'"
    by (auto simp: RelayMsgSend_def Let_def f(1) intro: same_protocol_steps split: if_splits)
  show "RelayWithProofSend prove E b p = Inr p' \<Longrightarrow> same_protocol p p'"
    by (auto simp: RelayWithProofSend_def Let_def f(2) intro: same_protocol_steps split: if_splits)
qed

lemma relay_leader_commit_frame:
  assumes "relay_leader_commit prove E now ep r b p = Inr p'"
  shows "same_protocol p p'"
proof -
  from assms obtain s :: tx_split and q msg ip where q: "(if RelayWithMerkleProof E = 1 then RelayWithProofSend prove E b (set_pool (sp_pool s) p)
               else RelayMsgSend E (set_pool (sp_pool s) p)) = Inr q" and p': "TcpDial msg ip q = p'"
    unfolding relay_leader_commit_def and_then_Inr Let_def by (simp only: sum.inject) blast
  from q have "same_protocol (set_pool (sp_pool s) p) q" by (auto split: if_splits intro: relay_senders_frame)
  then have "same_protocol p q" by (rule same_protocol_trans [OF same_protocolI(6)])
  then show ?thesis unfolding p' [symmetric] by (rule same_protocol_steps)
qed

lemma relay_commit_frame:
  assumes "relay_commit prove ords E now m p = Inr p'"
  shows "same_protocol p p'"
proof -
  from assms obtain r b bc where "(let p = p\<lparr>p_CurChain := bc\<rparr> in
      if p_NodeID p = leader_id p then relay_leader_commit prove E now 0 r b p else Inr p) = Inr p'"
    by (auto simp: relay_commit_def and_then_Inr split: option.splits)
  then show ?thesis using same_protocol_trans [OF same_protocolI(1) relay_leader_commit_frame]
    by (auto simp: Let_def split: if_splits)
qed

lemma block_propose_frame: "block_propose ords E now p = Inr (r, p') \<Longrightarrow> same_protocol p p'"
  by (auto simp: block_propose_def and_then_Inr)

lemma block_preprepare_frame:
  "block_preprepare E m p = Inr (flag, p') \<Longrightarrow> same_protocol (p\<lparr>p_requestPool := p_requestPool p'\<rparr>) p'"
  by (auto simp: block_preprepare_def and_then_Inr split: if_splits)

lemma relay_sequential_frame:
  "relay_sequential ords E som p = Inr p' \<Longrightarrow> same_protocol (p\<lparr>p_sequenceID := p_sequenceID p'\<rparr>) p'"
  by (auto simp: relay_sequential_def and_then_Inr same_protocol_def split: if_splits)

interpretation relay: consensus_module "RawRelayPbftExtraHandleMod prove ords E now"
  by unfold_locales
    (simp_all add: RawRelayPbftExtraHandleMod_def block_propose_frame block_preprepare_frame relay_commit_frame
      relay_sequential_frame)

definition relay_modules :: "go_env \<Rightarrow> extra_op set" where
  "relay_modules E = {RawRelayPbftExtraHandleMod prove ords E now | prove ords now. True}"

interpretation relay_runs: consensus_variant "relay_modules E"
  by (rule consensus_variant.intro) (auto simp: relay_modules_def intro: relay.consensus_module_axioms)

lemma relay_outside_frame:
  "RawRelayOutside verify now msg p = Inr p' \<Longrightarrow> same_protocol p p'"
proof -
  have a: "same_protocol q (set_seq_of sid seq (add_to_pool now txs q))" for q sid seq txs
    by (rule same_protocol_trans [OF same_protocolI(8) same_protocolI(7)])
  show "RawRelayOutside verify now msg p = Inr p' \<Longrightarrow> same_protocol p p'"
    by (auto simp: RawRelayOutside_def handleRelay_def handleRelayWithProof_def handleInjectTx_def and_then_Inr a
        split: message.splits)
qed

section \<open>Splitting a block\<close>

definition mark :: "transaction \<Rightarrow> transaction" where
  "mark tx = tx\<lparr>tx_Relayed := True\<rparr>"

definition goes_to :: "go_env \<Rightarrow> blockchain \<Rightarrow> u64 \<Rightarrow> transaction \<Rightarrow> bool" where
  "goes_to E bc sid tx \<longleftrightarrow> Get_PartitionMap E bc (tx_Recipient tx) = Inr sid"

definition proper :: "go_env \<Rightarrow> blockchain \<Rightarrow> u64 \<Rightarrow> transaction \<Rightarrow> bool" where
  \<comment> \<open>what the loop demands of a transaction of a block of this shard\<close>
  "proper E bc sh tx \<longleftrightarrow>
     (\<exists>ssid rsid. Get_PartitionMap E bc (tx_Sender tx) = Inr ssid \<and> Get_PartitionMap E bc (tx_Recipient tx) = Inr rsid \<and>
        (if tx_Relayed tx then rsid = sh else ssid = sh))"

lemma split_tx_cases:
  assumes "split_tx E bc sh tx s = Inr s'" and "RelayPool (sp_pool s) \<noteq> None"
  shows "proper E bc sh tx \<and>
    (if \<not> goes_to E bc sh tx
     then \<exists>rsid pool. goes_to E bc rsid tx \<and> rsid \<noteq> sh \<and> \<not> tx_Relayed tx \<and>
        AddRelayTx (mark tx) rsid (sp_pool s) = Inr pool \<and> s' = s\<lparr>sp_pool := pool, sp_relay1 := sp_relay1 s @ [mark tx]\<rparr>
     else if tx_Relayed tx then s' = s\<lparr>sp_relay2 := sp_relay2 s @ [tx]\<rparr>
     else s' = s\<lparr>sp_inner := sp_inner s @ [tx]\<rparr>)"
  using assms
  by (auto simp: split_tx_def and_then_Inr Let_def goes_to_def proper_def mark_def split: if_splits)

lemma split_txs:
  assumes "go_fold (split_tx E bc sh) txs s = Inr s'" and "RelayPool (sp_pool s) \<noteq> None"
  shows "sp_inner s' = sp_inner s @ filter (\<lambda>tx. goes_to E bc sh tx \<and> \<not> tx_Relayed tx) txs \<and>
    sp_relay2 s' = sp_relay2 s @ filter (\<lambda>tx. goes_to E bc sh tx \<and> tx_Relayed tx) txs \<and>
    sp_relay1 s' = sp_relay1 s @ map mark (filter (\<lambda>tx. \<not> goes_to E bc sh tx) txs) \<and>
    (\<forall>sid. relay_of (sp_pool s') sid = relay_of (sp_pool s) sid @
       (if sid = sh then [] else map mark (filter (goes_to E bc sid) txs))) \<and>
    TxQueue (sp_pool s') = TxQueue (sp_pool s) \<and> list_all (proper E bc sh) txs"
  using assms
proof (induction txs arbitrary: s)
  case (Cons tx txs)
  then obtain t where t: "split_tx E bc sh tx s = Inr t" and rest: "go_fold (split_tx E bc sh) txs t = Inr s'"
    by (auto simp: and_then_Inr)
  note c = split_tx_cases [OF t Cons.prems(2)]
  show ?case
  proof (cases "goes_to E bc sh tx")
    case True
    then have g: "goes_to E bc sid tx \<longleftrightarrow> sid = sh" for sid by (auto simp: goes_to_def)
    have "RelayPool (sp_pool t) \<noteq> None" using c True Cons.prems(2) by (auto split: if_splits)
    from Cons.IH [OF rest this] c True show ?thesis by (cases "tx_Relayed tx") (simp_all add: g)
  next
    case False
    with c obtain rsid pool where r: "goes_to E bc rsid tx" "rsid \<noteq> sh" "AddRelayTx (mark tx) rsid (sp_pool s) = Inr pool"
      and t': "t = s\<lparr>sp_pool := pool, sp_relay1 := sp_relay1 s @ [mark tx]\<rparr>" by auto
    have g: "goes_to E bc sid tx \<longleftrightarrow> sid = rsid" for sid using r(1) by (auto simp: goes_to_def)
    have pool: "relay_of pool sid = (if sid = rsid then relay_of (sp_pool s) sid @ [mark tx] else relay_of (sp_pool s) sid)"
      "RelayPool pool \<noteq> None" "TxQueue pool = TxQueue (sp_pool s)" for sid
      using r(3) by (auto simp: AddRelayTx_def relay_of_def split: option.splits)
    have "RelayPool (sp_pool t) \<noteq> None" using pool by (simp add: t')
    from Cons.IH [OF rest this] c r(2) show ?thesis by (auto simp: t' pool g)
  qed
qed simp

section \<open>What the leader sends\<close>

lemma relay_fold_out:
  "p_out (fold relay_to sids p) = p_out p @ map (\<lambda>sid. (ip_of p sid 0,
     RelayMsg \<lparr>rl_Txs = relay_of (bc_Txpool (p_CurChain p)) sid, rl_SenderShardID = p_ShardID p,
               rl_SenderSeq = p_sequenceID p\<rparr>)) sids \<and>
   p_CurChain (fold relay_to sids p) = p_CurChain p"
proof (induction sids arbitrary: p)
  case (Cons sid sids)
  have "p_CurChain (relay_to sid p) = p_CurChain p" "p_ShardID (relay_to sid p) = p_ShardID p"
    "p_sequenceID (relay_to sid p) = p_sequenceID p" "ip_of (relay_to sid p) = ip_of p"
    by (intro ext | simp add: relay_to_def TcpDial_def ip_of_def)+
  then show ?case using Cons.IH [of "relay_to sid p"] by (simp add: relay_to_def TcpDial_def)
qed simp

lemma set_pool_simps [simp]:
  "p_out (set_pool pool p) = p_out p" "bc_Txpool (p_CurChain (set_pool pool p)) = pool"
  "ip_of (set_pool pool p) = ip_of p" "other_shards (set_pool pool p) = other_shards p"
  "p_ShardID (set_pool pool p) = p_ShardID p" "p_sequenceID (set_pool pool p) = p_sequenceID p"
  by (auto simp: set_pool_def ip_of_def other_shards_def fun_eq_iff)

lemma leader_relays:
  assumes "relay_leader_commit prove E now ep r b p = Inr p'" and "RelayWithMerkleProof E = 0"
  shows "p_out p' = p_out p @
     map (\<lambda>sid. (ip_of p sid 0, RelayMsg \<lparr>rl_Txs = map mark (filter (goes_to E (p_CurChain p) sid) (b_Body b)),
                   rl_SenderShardID = p_ShardID p, rl_SenderSeq = p_sequenceID p\<rparr>)) (other_shards p) @
     [(ip_of p SupervisorShard 0, BlockInfoMsg
        \<lparr>bi_BlockBodyLength = length (b_Body b),
         bi_InnerShardTxs = filter (\<lambda>tx. goes_to E (p_CurChain p) (p_ShardID p) tx \<and> \<not> tx_Relayed tx) (b_Body b),
         bi_Epoch = ep, bi_ProposeTime = r_ReqTime r, bi_CommitTime = now, bi_SenderShardID = p_ShardID p,
         bi_Relay1Txs = map mark (filter (\<lambda>tx. \<not> goes_to E (p_CurChain p) (p_ShardID p) tx) (b_Body b)),
         bi_Relay2Txs = filter (\<lambda>tx. goes_to E (p_CurChain p) (p_ShardID p) tx \<and> tx_Relayed tx) (b_Body b),
         bi_Broker1Txs = [], bi_Broker2Txs = []\<rparr>)] \<and>
    RelayPool (bc_Txpool (p_CurChain p')) = None \<and>
    TxQueue (bc_Txpool (p_CurChain p')) = TxQueue (bc_Txpool (p_CurChain p)) \<and>
    list_all (proper E (p_CurChain p) (p_ShardID p)) (b_Body b)"
proof -
  let ?bc = "p_CurChain p" and ?sh = "p_ShardID p"
  from assms obtain s :: tx_split and q where s: "split_block E ?bc ?sh b = Inr s"
    and q: "RelayMsgSend E (set_pool (sp_pool s) p) = Inr q"
    and p': "TcpDial (BlockInfoMsg \<lparr>bi_BlockBodyLength = length (b_Body b), bi_InnerShardTxs = sp_inner s, bi_Epoch = ep,
                  bi_ProposeTime = r_ReqTime r, bi_CommitTime = now, bi_SenderShardID = p_ShardID q,
                  bi_Relay1Txs = sp_relay1 s, bi_Relay2Txs = sp_relay2 s, bi_Broker1Txs = [], bi_Broker2Txs = []\<rparr>)
                (ip_of q SupervisorShard 0) q = p'"
    unfolding relay_leader_commit_def and_then_Inr Let_def by (simp only: sum.inject if_False zero_neq_one) blast
  have sp: "sp_inner s = filter (\<lambda>tx. goes_to E ?bc ?sh tx \<and> \<not> tx_Relayed tx) (b_Body b)"
    "sp_relay2 s = filter (\<lambda>tx. goes_to E ?bc ?sh tx \<and> tx_Relayed tx) (b_Body b)"
    "sp_relay1 s = map mark (filter (\<lambda>tx. \<not> goes_to E ?bc ?sh tx) (b_Body b))"
    "TxQueue (sp_pool s) = TxQueue (bc_Txpool ?bc)" "list_all (proper E ?bc ?sh) (b_Body b)"
    and rel: "relay_of (sp_pool s) sid = (if sid = ?sh then [] else map mark (filter (goes_to E ?bc sid) (b_Body b)))" for sid
    using split_txs [OF s [unfolded split_block_def]] by (simp_all add: relay_of_def)
  let ?p0 = "set_pool (sp_pool s) p" and ?p1 = "fold relay_to (other_shards p) (set_pool (sp_pool s) p)"
  have q': "q = set_pool (ClearRelayPool (sp_pool s)) ?p1"
    using q assms(2) relay_fold_out [of "other_shards p" ?p0] by (simp add: RelayMsgSend_def Let_def)
  have f: "same_protocol p q" by (rule same_protocol_trans [OF same_protocolI(6) relay_senders_frame(1) [OF q]])
  have ip: "ip_of q = ip_of p" "p_ShardID q = ?sh"
    using same_protocol_tables [OF f] same_protocol_fields(16) [OF f] by (simp_all add: ip_of_def fun_eq_iff)
  have "sid \<in> set (other_shards p) \<Longrightarrow> sid \<noteq> ?sh" for sid by (simp add: other_shards_def)
  then have "p_out q = p_out p @ map (\<lambda>sid. (ip_of p sid 0, RelayMsg \<lparr>rl_Txs = map mark (filter (goes_to E ?bc sid) (b_Body b)),
                   rl_SenderShardID = ?sh, rl_SenderSeq = p_sequenceID p\<rparr>)) (other_shards p)"
    using relay_fold_out [of "other_shards p" ?p0] by (auto simp: q' rel)
  then show ?thesis using sp ip by (auto simp flip: p' simp: TcpDial_def q' ClearRelayPool_def)
qed

text \<open>
  C20. Cross-shard transactions leave exactly once. When the leader's commit of a block returns (without
  Merkle proofs), it has sent one relay message to the leader of every other shard, holding exactly
  the block's transactions whose recipient is in that shard, in block order and marked as relayed, and one
  report to the supervisor that splits the block into transactions inside the shard, outgoing and
  incoming ones. The relay pool is the nil map afterwards, the queue is untouched, and every
  transaction of the block belongs to this shard.
\<close>

theorem leader_relays_block:
  assumes "relay_leader_commit prove E now ep r b p = Inr p'" and "RelayWithMerkleProof E = 0"
  shows "p_out p' = p_out p @
     map (\<lambda>sid. (ip_of p sid 0, RelayMsg \<lparr>rl_Txs = map mark (filter (goes_to E (p_CurChain p) sid) (b_Body b)),
                   rl_SenderShardID = p_ShardID p, rl_SenderSeq = p_sequenceID p\<rparr>)) (other_shards p) @
     [(ip_of p SupervisorShard 0, BlockInfoMsg
        \<lparr>bi_BlockBodyLength = length (b_Body b),
         bi_InnerShardTxs = filter (\<lambda>tx. goes_to E (p_CurChain p) (p_ShardID p) tx \<and> \<not> tx_Relayed tx) (b_Body b),
         bi_Epoch = ep, bi_ProposeTime = r_ReqTime r, bi_CommitTime = now, bi_SenderShardID = p_ShardID p,
         bi_Relay1Txs = map mark (filter (\<lambda>tx. \<not> goes_to E (p_CurChain p) (p_ShardID p) tx) (b_Body b)),
         bi_Relay2Txs = filter (\<lambda>tx. goes_to E (p_CurChain p) (p_ShardID p) tx \<and> tx_Relayed tx) (b_Body b),
         bi_Broker1Txs = [], bi_Broker2Txs = []\<rparr>)] \<and>
    RelayPool (bc_Txpool (p_CurChain p')) = None \<and>
    TxQueue (bc_Txpool (p_CurChain p')) = TxQueue (bc_Txpool (p_CurChain p)) \<and>
    list_all (proper E (p_CurChain p) (p_ShardID p)) (b_Body b)"
  using assms by (rule leader_relays)

end
