(* ===== verification/Consensus_Props.thy ===== *)
theory Consensus_Props
  imports Relay_Module
begin

text \<open>
  Properties of the handlers of the PBFT node in the relay variant: agreement of followers, quorum
  sizes, and the places where the protocol state can get out of step. The properties of runs are in
  theory \<open>Consensus_Runs\<close>.
\<close>

section \<open>A concrete node\<close>

definition demo_table :: "u64 \<Rightarrow> (u64 \<times> string) list" where
  "demo_table sid = (if sid = 0 then [(0, ''n0''), (1, ''n1''), (2, ''n2''), (3, ''n3'')]
     else if sid = 1 then [(0, ''m0'')] else [(0, ''sup'')])"

definition demo_node :: "blockchain \<Rightarrow> u64 \<Rightarrow> pbft_node" where
  \<comment> \<open>node \<open>nodeID\<close> of shard 0 with four nodes, on the given chain, in view 0\<close>
  "demo_node bc nodeID =
     \<lparr>p_RunningNode = \<lparr>n_NodeID = nodeID, n_ShardID = 0, n_IPaddr = ''n0''\<rparr>,
        p_ShardID = 0, p_NodeID = nodeID, p_CurChain = bc, p_ChainConfig = demo_cc, p_ip_nodeTable = demo_table,
        p_node_nums = 4, p_malicious_nums = 1, p_view = 0, p_lastCommitTime = 0,
        p_viewChangeMap = Map.empty, p_newViewMap = Map.empty,
        p_sequenceID = 5, p_requestPool = Map.empty,
        p_cntPrepareConfirm = Map.empty, p_cntCommitConfirm = Map.empty, p_isCommitBordcast = {}, p_isReply = {},
        p_height2Digest = Map.empty, p_pbftStage = 1, p_sequenceLock = False, p_askForLock = False,
        p_commitBlocked = None, p_seqIDMap = Map.empty, p_cdm = NewCLPADataSupport, p_stopSignal = False,
        p_out = []\<rparr>"

definition fresh_run :: "pbft_node \<Rightarrow> run_state" where
  "fresh_run p = \<lparr>rs_node = p, rs_spawned = [], rs_waiting = [], rs_proposing = 0, rs_next = 0, rs_log = []\<rparr>"

abbreviation demo_ops :: extra_op where
  "demo_ops \<equiv> RawRelayPbftExtraHandleMod demo_prove demo_ords demo_env 1"

section \<open>Handlers\<close>

lemma AddBlock_book_ok:
  assumes "AddBlock ords E b bc = Inr bc'" and "map_orders ords" and "book_ok (bc_G2EBook bc)"
    and "\<forall>tx \<in> set (b_Body b). 0 \<le> tx_Value tx"
  shows "book_ok (bc_G2EBook bc')"
  using assms(1)
proof (cases rule: AddBlock_cases)
  case added
  show ?thesis
  proof (cases "bc_triedb bc (bh_StateRoot (b_Header b)) = None")
    case True
    then obtain bc1 rt where g: "GetUpdateStatusTrie ords E (b_Body b) bc = Inr (bc1, rt)" "bc_G2EBook bc' = bc_G2EBook bc1"
      using added(6) by blast
    show ?thesis
    proof (cases "bc_triedb bc (bh_StateRoot (cur_header bc))")
      case None
      with g assms(3) show ?thesis by (auto simp: GetUpdateStatusTrie_def Let_def split: if_splits)
    next
      case (Some st)
      from g(1) Some show ?thesis
      proof (cases rule: GetUpdateStatusTrie_cases)
        case (run x y)
        have ok: "book_ok (ex_book x)" using apply_txs_inv [OF run(2)] assms(3,4) by simp
        from settle_epoch_total [OF run(4) ok assms(2), of "be_Player ` set_mset (bets_at (ex_book x) (bh_Number (cur_header bc) + 1))"]
        show ?thesis using run(5) g(2) by simp
      qed (use g(2) assms(3) in simp)
    qed
  qed (use added(5) assms(3) in simp)
qed (use assms(3) in simp)


section \<open>Counting confirmations\<close>

lemma u64_of_nat_unat: "n < 2 ^ 64 \<Longrightarrow> unat (u64_of_nat n) = n"
  by (simp add: u64_of_nat_def unat_of_nat take_bit_nat_eq_self)

lemma quorum_nat:
  assumes "2 * unat (p_malicious_nums p) + 1 < 2 ^ 64" and "n < 2 ^ 64"
  shows "quorum p n \<longleftrightarrow> 2 * unat (p_malicious_nums p) + 1 \<le> n"
proof -
  have "2 * p_malicious_nums p + 1 = u64_of_nat (2 * unat (p_malicious_nums p) + 1)"
    by (simp add: u64_of_nat_def)
  then have "unat (2 * p_malicious_nums p + 1) = 2 * unat (p_malicious_nums p) + 1"
    using u64_of_nat_unat [OF assms(1)] by simp
  then show ?thesis using u64_of_nat_unat [OF assms(2)] by (simp add: quorum_def word_le_nat_alt)
qed

definition prepare_copy :: "bytes \<Rightarrow> u64 \<Rightarrow> shard_node \<Rightarrow> nat \<Rightarrow> prepare_commit" where
  \<comment> \<open>the \<open>i\<close>-th decoded copy of one and the same prepare message of node \<open>n\<close>\<close>
  "prepare_copy dig q n i = \<lparr>pc_Digest = dig, pc_SeqID = q, pc_SenderNode = NodePtr i n\<rparr>"

lemma card_copies: "card ((\<lambda>i. NodePtr i n) ` {..< k}) = k"
  by (subst card_image) (auto simp: inj_on_def)

lemma prepare_copies_below:
  assumes "HandleinPrepare ops = (\<lambda>m p. Inr p)" and "p_view p = v" and "p_sequenceID p = q"
    and "p_requestPool p dig = Some r" and "p_cntPrepareConfirm p dig = None"
    and "2 * unat (p_malicious_nums p) + 1 < 2 ^ 64" and "k \<le> 2 * unat (p_malicious_nums p)"
  shows "\<exists>p'. go_fold (handlePrepare ops v) (map (prepare_copy dig q n) [0 ..< k]) p = Inr p' \<and>
    map_default {} (p_cntPrepareConfirm p') dig = (\<lambda>i. NodePtr i n) ` {..< k} \<and>
    p' = p\<lparr>p_cntPrepareConfirm := p_cntPrepareConfirm p'\<rparr>"
  using assms(7)
proof (induction k)
  case 0
  then show ?case using assms(5) by (simp add: map_default_def)
next
  case (Suc k)
  then obtain p1 where p1: "go_fold (handlePrepare ops v) (map (prepare_copy dig q n) [0 ..< k]) p = Inr p1"
    and cnt: "map_default {} (p_cntPrepareConfirm p1) dig = (\<lambda>i. NodePtr i n) ` {..< k}"
    and eq: "p1 = p\<lparr>p_cntPrepareConfirm := p_cntPrepareConfirm p1\<rparr>" by auto
  have f: "p_view p1 = v" "p_sequenceID p1 = q" "p_requestPool p1 dig = Some r" "p_malicious_nums p1 = p_malicious_nums p"
    by (subst eq, simp add: assms)+
  let ?p2 = "set2DMap True dig (NodePtr k n) p1"
  have cnt2: "map_default {} (p_cntPrepareConfirm ?p2) dig = (\<lambda>i. NodePtr i n) ` {..< Suc k}"
    by (simp add: set2DMap_def cnt lessThan_Suc)
  have "\<not> quorum ?p2 (Suc k)"
    using Suc.prems assms(6) f(4) by (subst quorum_nat) (auto simp: set2DMap_def)
  then have "handlePrepare ops v (prepare_copy dig q n k) p1 = Inr ?p2"
    using f assms(1) cnt2 card_copies [of n "Suc k"]
    by (simp add: handlePrepare_def prepare_copy_def out_of_date_def Let_def)
  moreover have "?p2 = p\<lparr>p_cntPrepareConfirm := p_cntPrepareConfirm ?p2\<rparr>"
    by (subst (1) eq) (simp add: set2DMap_def)
  ultimately show ?case using p1 cnt2 by (auto simp: go_fold_append)
qed

text \<open>
  Confirmations are counted per decoded message and not per node: the maps are keyed by the
  pointer to the decoded sender, so \<open>2f + 1\<close> copies of one prepare message of a single node are a
  quorum and make the receiver broadcast its commit.
\<close>

theorem single_sender_quorum:
  assumes "p_view p = v" and "p_sequenceID p = q" and "p_requestPool p dig = Some r"
    and "p_cntPrepareConfirm p dig = None" and "dig \<notin> p_isCommitBordcast p"
    and "2 * unat (p_malicious_nums p) + 1 < 2 ^ 64" and "k = 2 * unat (p_malicious_nums p) + 1"
  shows "\<exists>p'. go_fold (handlePrepare (RawRelayPbftExtraHandleMod prove ords E now) v)
       (map (prepare_copy dig q n) [0 ..< k]) p = Inr p' \<and>
     dig \<in> p_isCommitBordcast p' \<and> p_pbftStage p' = p_pbftStage p + 1 \<and>
     (n_IPaddr (p_RunningNode p), CommitMsg dig q (p_RunningNode p)) \<in> set (p_out p')"
proof -
  let ?ops = "RawRelayPbftExtraHandleMod prove ords E now" and ?k = "2 * unat (p_malicious_nums p)"
  have ops: "HandleinPrepare ?ops = (\<lambda>m p. Inr p)" by (simp add: RawRelayPbftExtraHandleMod_def)
  obtain p1 where p1: "go_fold (handlePrepare ?ops v) (map (prepare_copy dig q n) [0 ..< ?k]) p = Inr p1"
    and cnt: "map_default {} (p_cntPrepareConfirm p1) dig = (\<lambda>i. NodePtr i n) ` {..< ?k}"
    and eq: "p1 = p\<lparr>p_cntPrepareConfirm := p_cntPrepareConfirm p1\<rparr>"
    using prepare_copies_below [OF ops assms(1-4,6) order_refl] by blast
  have f: "p_view p1 = v" "p_sequenceID p1 = q" "p_requestPool p1 dig = Some r" "p_malicious_nums p1 = p_malicious_nums p"
    "dig \<notin> p_isCommitBordcast p1" "p_RunningNode p1 = p_RunningNode p" "p_pbftStage p1 = p_pbftStage p"
    by (subst eq, simp add: assms)+
  let ?p2 = "set2DMap True dig (NodePtr ?k n) p1"
  have cnt2: "map_default {} (p_cntPrepareConfirm ?p2) dig = (\<lambda>i. NodePtr i n) ` {..< Suc ?k}"
    by (simp add: set2DMap_def cnt lessThan_Suc)
  have "quorum ?p2 (card (map_default {} (p_cntPrepareConfirm ?p2) dig))"
    unfolding cnt2 card_copies using assms(6) f(4) by (subst quorum_nat) (auto simp: set2DMap_def)
  then have "\<exists>p'. handlePrepare ?ops v (prepare_copy dig q n ?k) p1 = Inr p' \<and> dig \<in> p_isCommitBordcast p' \<and>
      p_pbftStage p' = p_pbftStage p + 1 \<and>
      (n_IPaddr (p_RunningNode p), CommitMsg dig q (p_RunningNode p)) \<in> set (p_out p')"
    using f ops by (simp add: handlePrepare_def prepare_copy_def out_of_date_def Let_def set2DMap_def
        broadcast_and_self_def broadcast_neighbors_def TcpDial_def)
  then show ?thesis using p1 unfolding assms(7) by (auto simp: go_fold_append)
qed

text \<open>
  C30. Quorum sizes. A node computes \<open>f\<close> as \<open>(N - 1) / 3\<close> for \<open>N\<close> nodes. When \<open>N = 3f + 1\<close>, two
  sets of nodes that both pass the quorum check share at least \<open>f + 1\<close> nodes. With six nodes they
  need not share any: the quorum is three, and two disjoint sets of three nodes both pass.
\<close>

theorem quorum_intersection:
  assumes "NewPbftNode E table now sid nid pcc s db = Inr p"
  shows "(unat (cc_Nodes_perShard pcc) = 3 * k + 1 \<longrightarrow>
      (\<forall>Q1 Q2. Q1 \<subseteq> {..< 3 * k + 1} \<and> Q2 \<subseteq> {..< 3 * k + 1} \<and> quorum p (card Q1) \<and> quorum p (card Q2) \<longrightarrow>
         k + 1 \<le> card (Q1 \<inter> Q2))) \<and>
    (cc_Nodes_perShard pcc = 6 \<longrightarrow> quorum p (card {0, 1, 2 :: nat}) \<and> quorum p (card {3, 4, 5 :: nat}))"
proof (intro conjI impI allI)
  have f: "p_malicious_nums p = (cc_Nodes_perShard pcc - 1) div 3"
    using assms by (auto simp: NewPbftNode_def and_then_Inr)
  fix Q1 Q2 assume N: "unat (cc_Nodes_perShard pcc) = 3 * k + 1"
    and Q: "Q1 \<subseteq> {..< 3 * k + 1} \<and> Q2 \<subseteq> {..< 3 * k + 1} \<and> quorum p (card Q1) \<and> quorum p (card Q2)"
  have big: "3 * k + 1 < 2 ^ 64"
    using unsigned_less [of "cc_Nodes_perShard pcc", where ?'a = nat] by (simp add: N)
  have "cc_Nodes_perShard pcc = of_nat (unat (cc_Nodes_perShard pcc))" by simp
  then have "cc_Nodes_perShard pcc = of_nat (3 * k + 1)" unfolding N .
  then have "cc_Nodes_perShard pcc - 1 = of_nat (3 * k)" by simp
  then have "unat (p_malicious_nums p) = unat (of_nat (3 * k) :: u64) div unat (3 :: u64)"
    unfolding f by (simp add: unat_div)
  also have "unat (of_nat (3 * k) :: u64) = 3 * k" using big u64_of_nat_unat [of "3 * k"] unfolding u64_of_nat_def by linarith
  also have "3 * k div unat (3 :: u64) = k" by simp
  finally have m: "unat (p_malicious_nums p) = k" .
  have c: "card Q1 \<le> 3 * k + 1" "card Q2 \<le> 3 * k + 1" "card (Q1 \<union> Q2) \<le> 3 * k + 1"
    using Q card_mono [of "{..< 3 * k + 1}"] by (metis Un_least card_lessThan finite_lessThan)+
  have q: "2 * k + 1 \<le> card Q1" "2 * k + 1 \<le> card Q2"
    using Q c big quorum_nat [of p] m by auto
  have "finite Q1" "finite Q2" using Q finite_subset by blast+
  from card_Un_Int [OF this] c q show "k + 1 \<le> card (Q1 \<inter> Q2)" by linarith
next
  assume "cc_Nodes_perShard pcc = 6"
  then have "p_malicious_nums p = 1"
    using assms by (auto simp: NewPbftNode_def and_then_Inr)
  then show "quorum p (card {0, 1, 2 :: nat})" "quorum p (card {3, 4, 5 :: nat})"
    by (simp_all add: quorum_def u64_of_nat_def)
qed

section \<open>Protocol state and chain\<close>

text \<open>
  A new view is entered whenever the number of voters equals \<open>2f + 1\<close>, also when the message that
  triggers the check is a repetition: if a vote of a node that has already voted for the same view
  and sequence number arrives again while exactly \<open>2f + 1\<close> nodes have voted, the node goes back to that
  view and that sequence number, however far it has come since.
\<close>

theorem new_view_replay:
  assumes "p_newViewMap p (v, q) = Some V" and "vc_FromNode m \<in> V" and "exact_quorum p V"
    and "vc_NextView m = v" and "vc_SeqID m = q"
  shows "p_sequenceID (handleNewViewMsg now m p) = word_of_int q \<and> p_view (handleNewViewMsg now m p) = to_int32 v \<and>
    p_pbftStage (handleNewViewMsg now m p) = 1 \<and> p_newViewMap (handleNewViewMsg now m p) = p_newViewMap p \<and>
    p_sequenceLock (handleNewViewMsg now m p) = p_sequenceLock p"
proof -
  have "vote (p_newViewMap p) (v, q) (vc_FromNode m) = p_newViewMap p"
    using assms(1,2) by (auto simp: vote_def map_default_def insert_absorb)
  moreover have "exact_quorum (p\<lparr>p_newViewMap := p_newViewMap p\<rparr>) V" using assms(3) by (simp add: exact_quorum_def)
  ultimately show ?thesis using assms by (simp add: handleNewViewMsg_def Let_def map_default_def)
qed

text \<open>
  Committing consumes the sequence number whether or not the chain accepts the block. When a
  follower of the relay variant reaches the commit quorum for a pooled block, it returns normally with
  the sequence number increased; if the block does not extend the current block (wrong number or
  parent), its chain stays exactly as it was, otherwise the block is the new current block.
\<close>

theorem commit_without_block:
  assumes "p_requestPool p (pc_Digest m) = Some r" and "r_Content r = BlockContent b"
    and "\<not> out_of_date (pc_SeqID m) v p" and "quorum p (commit_count m p)" and "pc_Digest m \<notin> p_isReply p"
    and "p_NodeID p \<noteq> leader_id p"
    and "handleCommit (RawRelayPbftExtraHandleMod prove ords E now) now v m p = Inr p'"
  shows "p_sequenceID p' = p_sequenceID p + 1 \<and> p_pbftStage p' = 1 \<and>
    (if bh_Number (b_Header b) = bh_Number (cur_header (p_CurChain p)) + 1 \<and>
        bh_ParentBlockHash (b_Header b) = b_Hash (bc_CurrentBlock (p_CurChain p))
     then bc_CurrentBlock (p_CurChain p') = b else p_CurChain p' = p_CurChain p)"
proof -
  let ?q = "set2DMap False (pc_Digest m) (pc_SenderNode m) p"
  have q: "p_requestPool ?q = p_requestPool p" "p_CurChain ?q = p_CurChain p" "p_NodeID ?q = p_NodeID p"
    "leader_id ?q = leader_id p" "p_isReply ?q = p_isReply p" "p_sequenceID ?q = p_sequenceID p"
    "quorum ?q (card (map_default {} (p_cntCommitConfirm ?q) (pc_Digest m))) = quorum p (commit_count m p)"
    by (auto simp: set2DMap_def leader_id_def quorum_def commit_count_def)
  have l: "leader_id (?q\<lparr>p_CurChain := c\<rparr>) = leader_id p" for c by (simp add: set2DMap_def leader_id_def)
  from assms(7) obtain p1 where p1: "relay_commit prove ords E now m ?q = Inr p1"
    and e: "end_round now (p1\<lparr>p_isReply := insert (pc_Digest m) (p_isReply p1), p_sequenceID := p_sequenceID p1 + 1\<rparr>) = Inr p'"
    using assms(1,3,4,5) unfolding handleCommit_def Let_def
    by (auto simp: q and_then_Inr RawRelayPbftExtraHandleMod_def)
  from p1 obtain bc where bc: "AddBlock ords E b (p_CurChain p) = Inr bc" and p1': "p1 = ?q\<lparr>p_CurChain := bc\<rparr>"
    using assms(1,2,6) by (auto simp: relay_commit_def q l and_then_Inr decode_block_def Let_def split: if_splits)
  have lead: "leader_id p1 = leader_id p" using q(4) by (simp add: p1' leader_id_def)
  have e': "p_sequenceID p' = p_sequenceID p1 + 1 \<and> p_pbftStage p' = 1 \<and> p_CurChain p' = p_CurChain p1"
    using e by (auto simp: end_round_def Let_def split: if_splits)
  from bc show ?thesis by (cases rule: AddBlock_cases) (use e' p1' q(6) in auto)
qed

lemma refused_blocks:
  assumes "go_fold (add_old_block ords E som) hs bc = Inr bc'"
    and "\<forall>r \<in> set (so_OldRequest som). \<exists>b. r_Content r = BlockContent b \<and> bh_Number (b_Header b) \<noteq> bh_Number (cur_header bc) + 1"
  shows "bc' = bc"
proof (rule go_fold_inv [OF assms(1), where P = "\<lambda>c. c = bc"])
  fix h c c' assume c: "c = bc" and a: "add_old_block ords E som h c = Inr c'"
  then obtain r where r: "r \<in> set (so_OldRequest som)" and c': "c' = c \<or> and_then (decode_block (r_Content r)) (\<lambda>b. AddBlock ords E b c) = Inr c'"
    by (auto simp: add_old_block_def and_then_Inr dest: go_nth_in_set split: if_splits)
  obtain b where b: "r_Content r = BlockContent b" "bh_Number (b_Header b) \<noteq> bh_Number (cur_header bc) + 1"
    using assms(2) r by blast
  with c c' show "c' = bc" by (auto simp: decode_block_def AddBlock_def)
qed simp

text \<open>
  Catching up skips a block. A node that misses the request for its current sequence number asks
  for the requests from the next number on; when the answer arrives (blocks, none of which has the
  number the chain needs next), the chain refuses all of them, and the node nevertheless continues at
  the sequence number after the last one. The number of the chain and the sequence number are then out
  of step for good, since the missing block is never requested.
\<close>

theorem catch_up_skips_block:
  assumes "ask_for_old now m p = Inr p1"
    and "handleSendOldSeq (RawRelayPbftExtraHandleMod prove ords E now) dg som p = Inr p2"
    and "\<forall>r \<in> set (so_OldRequest som). \<exists>b. r_Content r = BlockContent b \<and>
           bh_Number (b_Header b) \<noteq> bh_Number (cur_header (p_CurChain p)) + 1"
  shows "(\<exists>rom. RequestOldMsg rom \<in> snd ` set (p_out p1) \<and> ro_SeqStartHeight rom = p_sequenceID p + 1 \<and>
           ro_SeqEndHeight rom = pc_SeqID m) \<and>
    p_CurChain p2 = p_CurChain p \<and> p_sequenceID p2 = so_SeqEndHeight som + 1"
proof -
  let ?rom = "\<lparr>ro_SeqStartHeight = p_sequenceID p + 1, ro_SeqEndHeight = pc_SeqID m,
      ro_ServerNode = \<lparr>n_NodeID = leader_id p, n_ShardID = p_ShardID p, n_IPaddr = ip_of p (p_ShardID p) (leader_id p)\<rparr>,
      ro_SenderNode = p_RunningNode p\<rparr>"
  have "p_out p1 = p_out p @ [(ip_of p (p_ShardID p) (leader_id p), RequestOldMsg ?rom)]"
    using assms(1) by (auto simp: ask_for_old_def end_round_def Let_def TcpDial_def ip_of_def leader_id_def split: if_splits)
  then have one: "\<exists>rom. RequestOldMsg rom \<in> snd ` set (p_out p1) \<and> ro_SeqStartHeight rom = p_sequenceID p + 1 \<and>
           ro_SeqEndHeight rom = pc_SeqID m" by (intro exI [of _ ?rom]) simp
  let ?ops = "RawRelayPbftExtraHandleMod prove ords E now" and ?seq = "so_SeqEndHeight som + 1"
  from assms(2) obtain q1 q2 q3 where q1: "relay_sequential ords E som p = Inr q1"
    and q2: "go_foldi (\<lambda>idx r p. Inr (record_old dg (so_SeqStartHeight som) idx r p)) 0 (so_OldRequest som) q1 = Inr q2"
    and q3: "resume_prepare ?ops dg (q2\<lparr>p_sequenceID := ?seq\<rparr>) = Inr q3" and u: "unlock_ask q3 = Inr p2"
    by (auto simp: handleSendOldSeq_def and_then_Inr RawRelayPbftExtraHandleMod_def)
  have c1: "p_CurChain q1 = p_CurChain p"
    using q1 refused_blocks [OF _ assms(3)] by (auto simp: relay_sequential_def and_then_Inr split: if_splits)
  have c2: "p_CurChain q2 = p_CurChain p"
    by (rule go_foldi_inv [OF q2, where P = "\<lambda>q. p_CurChain q = p_CurChain p"]) (auto simp: c1 record_old_def)
  have "p_CurChain q = p_CurChain q' \<and> p_sequenceID q = p_sequenceID q'"
    if "block_preprepare E pp q' = Inr (fl, q)" for pp q' fl q
    using that by (auto simp: block_preprepare_def and_then_Inr split: if_splits)
  then have "p_CurChain q3 = p_CurChain q2 \<and> p_sequenceID q3 = ?seq"
    using q3 by (fastforce simp: resume_prepare_def RawRelayPbftExtraHandleMod_def and_then_Inr Let_def
        broadcast_neighbors_def split: option.splits if_splits)
  then show ?thesis using one c2 u by (auto simp: unlock_ask_def split: if_splits)
qed

section \<open>Across shards\<close>

text \<open>
  C31. A cross-shard transaction is relayed whether or not it was paid for. Let a block contain a
  transaction of this shard whose sender cannot cover its value, to a recipient in another shard.
  Executing it changes nothing here; the leader's commit sends it to the other shard all the same,
  marked as relayed; and executing it there credits the recipient with the full value and changes
  no other balance.
\<close>

theorem unfunded_transfer_is_credited:
  assumes "tx \<in> set (b_Body b)" and "sender_here E (p_CurChain p) tx = Inr True"
    and "balance_of (ex_st x) (tx_Sender tx) < tx_Value tx"
    and "goes_to E (p_CurChain p) sid tx" and "sid \<in> set (other_shards p)"
    and "relay_leader_commit prove E now ep r b p = Inr p'" and "RelayWithMerkleProof E = 0"
    and "my_shard bc1 = sid" and "goes_to E bc1 sid tx"
  shows "apply_tx E (p_CurChain p) i tx x = Inr x \<and>
    (\<exists>rl. (ip_of p sid 0, RelayMsg rl) \<in> set (p_out p') \<and> mark tx \<in> set (rl_Txs rl)) \<and>
    (\<exists>y'. apply_tx E bc1 j (mark tx) y = Inr y' \<and> ex_book y' = ex_book y \<and>
       (\<forall>a. balance_of (ex_st y') a = balance_of (ex_st y) a + (if a = tx_Recipient tx then tx_Value tx else 0)))"
proof -
  have one: "apply_tx E (p_CurChain p) i tx x = Inr x" using assms(2,3) by (simp add: apply_tx_def Let_def)
  let ?rl = "\<lparr>rl_Txs = map mark (filter (goes_to E (p_CurChain p) sid) (b_Body b)),
      rl_SenderShardID = p_ShardID p, rl_SenderSeq = p_sequenceID p\<rparr>"
  have "(ip_of p sid 0, RelayMsg ?rl) \<in> set (p_out p')"
    using leader_relays [OF assms(6,7)] assms(5) by auto
  moreover have "mark tx \<in> set (rl_Txs ?rl)" using assms(1,4) by simp
  ultimately have two: "\<exists>rl. (ip_of p sid 0, RelayMsg rl) \<in> set (p_out p') \<and> mark tx \<in> set (rl_Txs rl)" by blast
  have "sender_here E bc1 (mark tx) = Inr False" by (simp add: sender_here_def mark_def)
  moreover have "recipient_here E bc1 (mark tx) = Inr True"
    using assms(8,9) by (simp add: recipient_here_def goes_to_def mark_def)
  ultimately have "\<exists>y'. apply_tx E bc1 j (mark tx) y = Inr y' \<and> ex_book y' = ex_book y \<and>
       (\<forall>a. balance_of (ex_st y') a = balance_of (ex_st y) a + (if a = tx_Recipient tx then tx_Value tx else 0))"
    by (simp add: apply_tx_def credit_recipient_def Let_def mark_def)
  with one two show ?thesis by blast
qed

section \<open>Witnesses\<close>

definition demo_sn :: shard_node where
  "demo_sn = \<lparr>n_NodeID = 2, n_ShardID = 0, n_IPaddr = ''n2''\<rparr>"

definition demo_req :: "block \<Rightarrow> request" where
  "demo_req b = \<lparr>r_RequestType = BlockRequest, r_Content = BlockContent b, r_ReqTime = 1\<rparr>"

definition demo_committing :: "block \<Rightarrow> pbft_node" where
  \<comment> \<open>a follower in the commit stage that holds the request and two confirmations\<close>
  "demo_committing b = (demo_node (demo_root_chain []) 1)\<lparr>p_requestPool := [[9] \<mapsto> demo_req b],
     p_cntCommitConfirm := [[9] \<mapsto> {NodePtr 7 demo_sn, NodePtr 8 demo_sn}], p_pbftStage := 3\<rparr>"

abbreviation demo_commit_msg :: prepare_commit where
  "demo_commit_msg \<equiv> \<lparr>pc_Digest = [9], pc_SeqID = 5, pc_SenderNode = NodePtr 9 demo_sn\<rparr>"

lemma demo_committing_simps [simp]:
  "p_requestPool (demo_committing b) = [[9] \<mapsto> demo_req b]" "p_sequenceID (demo_committing b) = 5" "p_view (demo_committing b) = 0"
  "p_pbftStage (demo_committing b) = 3" "p_isReply (demo_committing b) = {}" "p_NodeID (demo_committing b) = 1"
  "p_malicious_nums (demo_committing b) = 1" "p_CurChain (demo_committing b) = demo_root_chain []"
  "p_cntCommitConfirm (demo_committing b) = [[9] \<mapsto> {NodePtr 7 demo_sn, NodePtr 8 demo_sn}]"
  "p_commitBlocked (demo_committing b) = None" "leader_id (demo_committing b) = 0"
  by (simp_all add: demo_committing_def demo_node_def leader_id_def)

lemma demo_commit_quorum: "quorum (demo_committing b) (commit_count demo_commit_msg (demo_committing b))"
  by (simp add: quorum_def commit_count_def map_default_def u64_of_nat_def)

lemma demo_commit_runs:
  "\<exists>p'. handleCommit demo_ops 1 0 demo_commit_msg (demo_committing (demo_next rt [])) = Inr p'"
proof -
  have "\<exists>bc. AddBlock demo_ords demo_env (demo_next rt []) (demo_root_chain []) = Inr bc"
    by (simp add: AddBlock_def Storage_AddBlock_def bolt_put_def AddBlockHeader_def GetUpdateStatusTrie_def split: option.split)
  then obtain bc where bc: "AddBlock demo_ords demo_env (demo_next rt []) (demo_root_chain []) = Inr bc" by blast
  have l: "leader_id (set2DMap False d n p\<lparr>p_CurChain := c\<rparr>) = leader_id p" for d n p c
    by (simp add: set2DMap_def leader_id_def)
  have f: "p_requestPool (set2DMap False d n p) = p_requestPool p" "p_CurChain (set2DMap False d n p) = p_CurChain p"
    "p_NodeID (set2DMap False d n p) = p_NodeID p" "p_isReply (set2DMap False d n p) = p_isReply p" for d n p
    by (simp_all add: set2DMap_def)
  show ?thesis
    by (simp add: handleCommit_def out_of_date_def Let_def RawRelayPbftExtraHandleMod_def relay_commit_def demo_req_def
        decode_block_def bc l f end_round_def) (simp add: leader_id_def set2DMap_def demo_committing_def demo_node_def)
qed


theorem single_sender_quorum_witness:
  "\<exists>p'. go_fold (handlePrepare demo_ops 0) (map (prepare_copy [9] 5 demo_sn) [0 ..< 3])
       (demo_committing (demo_next [1] [])) = Inr p' \<and> [9] \<in> p_isCommitBordcast p'"
proof -
  let ?p = "demo_committing (demo_next [1] [])"
  have a: "p_view ?p = 0" "p_sequenceID ?p = 5" "p_requestPool ?p [9] = Some (demo_req (demo_next [1] []))"
    "p_cntPrepareConfirm ?p [9] = None" "[9] \<notin> p_isCommitBordcast ?p"
    "2 * unat (p_malicious_nums ?p) + 1 < 2 ^ 64" "3 = 2 * unat (p_malicious_nums ?p) + 1"
    by (simp_all add: demo_committing_def demo_node_def)
  show ?thesis using single_sender_quorum [OF a, of demo_prove demo_ords demo_env 1 demo_sn] by blast
qed

theorem quorum_intersection_witness:
  "\<exists>p. NewPbftNode demo_env demo_table 0 0 0 (demo_cc\<lparr>cc_Nodes_perShard := 6\<rparr>) NewStorage Map.empty = Inr p \<and>
     quorum p (card {0, 1, 2 :: nat}) \<and> quorum p (card {3, 4, 5 :: nat})"
proof -
  have "b_Hash (NewGenisisBlock demo_env) = [0, 0, 255, 255, 255]" by (rule demo_genesis)
  then obtain p where p: "NewPbftNode demo_env demo_table 0 0 0 (demo_cc\<lparr>cc_Nodes_perShard := 6\<rparr>) NewStorage Map.empty = Inr p"
    by (simp add: NewPbftNode_def NewBlockChain_def Let_def GetNewestBlockHash_def GetBlock_def NewStorage_def AddGenisisBlock_def
        Storage_AddBlock_def AddBlockHeader_def bolt_put_def UpdateNewestBlock_def)
  show ?thesis using p quorum_intersection [OF p] by auto
qed

theorem new_view_replay_witness:
  "p_sequenceID (handleNewViewMsg 1 \<lparr>vc_CurView = 0, vc_NextView = 1, vc_SeqID = 2, vc_FromNode = 2\<rparr>
      ((demo_node (demo_root_chain []) 1)\<lparr>p_newViewMap := [(1, 2) \<mapsto> {1, 2, 3}]\<rparr>)) = 2"
  using new_view_replay [of "(demo_node (demo_root_chain []) 1)\<lparr>p_newViewMap := [(1, 2) \<mapsto> {1, 2, 3}]\<rparr>" 1 2 "{1, 2, 3}"
      "\<lparr>vc_CurView = 0, vc_NextView = 1, vc_SeqID = 2, vc_FromNode = 2\<rparr>" 1]
  by (simp add: exact_quorum_def demo_node_def)

theorem commit_without_block_witness:
  "\<exists>p'. handleCommit demo_ops 1 0 demo_commit_msg (demo_committing (demo_next [50, 10, 255] [])) = Inr p' \<and>
     p_sequenceID p' = 6 \<and> bc_CurrentBlock (p_CurChain p') = demo_next [50, 10, 255] []"
proof -
  let ?p = "demo_committing (demo_next [50, 10, 255] [])"
  obtain p' where p': "handleCommit demo_ops 1 0 demo_commit_msg ?p = Inr p'" using demo_commit_runs by blast
  have "p_requestPool ?p (pc_Digest demo_commit_msg) = Some (demo_req (demo_next [50, 10, 255] []))" by simp
  from commit_without_block [OF this _ _ demo_commit_quorum _ _ p'] p' show ?thesis
    by (simp add: demo_req_def out_of_date_def)
qed

theorem catch_up_skips_block_witness:
  "\<exists>p1 p2. ask_for_old 1 (demo_commit_msg\<lparr>pc_SeqID := 6\<rparr>) ((demo_node (demo_root_chain []) 1)\<lparr>p_askForLock := True\<rparr>) = Inr p1 \<and>
     handleSendOldSeq demo_ops (\<lambda>r. [8]) \<lparr>so_SeqStartHeight = 6, so_SeqEndHeight = 6,
        so_OldRequest = [demo_req (demo_block 6)], so_SenderNode = demo_sn\<rparr>
        ((demo_node (demo_root_chain []) 1)\<lparr>p_askForLock := True\<rparr>) = Inr p2 \<and>
     p_CurChain p2 = demo_root_chain [] \<and> p_sequenceID p2 = 7"
proof -
  let ?p = "(demo_node (demo_root_chain []) 1)\<lparr>p_askForLock := True\<rparr>"
  let ?som = "\<lparr>so_SeqStartHeight = 6, so_SeqEndHeight = 6, so_OldRequest = [demo_req (demo_block 6)], so_SenderNode = demo_sn\<rparr>"
  have h: "\<forall>r \<in> set (so_OldRequest ?som). \<exists>b. r_Content r = BlockContent b \<and>
      bh_Number (b_Header b) \<noteq> bh_Number (cur_header (p_CurChain ?p)) + 1"
    by (simp add: demo_req_def demo_node_def demo_block_def demo_header_def)
  have hs: "heights 6 6 = [6]" by (simp add: heights_def u64_of_nat_def)
  obtain p1 where p1: "ask_for_old 1 (demo_commit_msg\<lparr>pc_SeqID := 6\<rparr>) ?p = Inr p1"
    by (simp add: ask_for_old_def end_round_def Let_def TcpDial_def leader_id_def demo_node_def)
  have add: "add_old_block demo_ords demo_env ?som 6 (demo_root_chain []) = Inr (demo_root_chain [])"
    by (simp add: add_old_block_def go_nth_def demo_req_def decode_block_def AddBlock_def demo_block_def demo_header_def)
  obtain p2 where p2: "handleSendOldSeq demo_ops (\<lambda>r. [8]) ?som ?p = Inr p2"
    by (simp add: handleSendOldSeq_def RawRelayPbftExtraHandleMod_def relay_sequential_def hs add [simplified] demo_node_def
        record_old_def resume_prepare_def unlock_ask_def u64_of_nat_def)
  show ?thesis using p1 p2 catch_up_skips_block [OF p1 p2 h] by (simp add: demo_node_def)
qed

abbreviation demo_poor_tx :: transaction where
  "demo_poor_tx \<equiv> demo_transfer ''a0'' ''c1'' 1000 1"

lemma demo_leader_commits:
  "\<exists>p'. relay_leader_commit demo_prove demo_env 1 0 (demo_req (demo_next [1] [demo_poor_tx])) (demo_next [1] [demo_poor_tx])
      (demo_node (demo_root_chain []) 0) = Inr p'"
  by (simp add: relay_leader_commit_def split_block_def split_tx_def Get_PartitionMap_def AddRelayTx_def demo_node_def
      RelayMsgSend_def Let_def demo_env_def [THEN arg_cong [of _ _ RelayWithMerkleProof]])

lemma demo_other_shards: "other_shards (demo_node bc 0) = [1]"
  by (simp add: other_shards_def demo_node_def demo_cc_def u64_of_nat_def upt_rec)

theorem leader_relays_block_witness:
  "\<exists>p'. relay_leader_commit demo_prove demo_env 1 0 (demo_req (demo_next [1] [demo_poor_tx])) (demo_next [1] [demo_poor_tx])
        (demo_node (demo_root_chain []) 0) = Inr p' \<and> RelayPool (bc_Txpool (p_CurChain p')) = None \<and>
     list_all (proper demo_env (demo_root_chain []) 0) [demo_poor_tx]"
proof -
  let ?p = "demo_node (demo_root_chain []) 0"
  obtain p' where p': "relay_leader_commit demo_prove demo_env 1 0 (demo_req (demo_next [1] [demo_poor_tx]))
      (demo_next [1] [demo_poor_tx]) ?p = Inr p'" using demo_leader_commits by blast
  have m: "RelayWithMerkleProof demo_env = 0" by (simp add: demo_env_def)
  have n: "p_CurChain ?p = demo_root_chain []" "p_ShardID ?p = 0" by (simp_all add: demo_node_def)
  from leader_relays_block [OF p' m] have "RelayPool (bc_Txpool (p_CurChain p')) = None"
    "list_all (proper demo_env (demo_root_chain []) 0) [demo_poor_tx]" unfolding n by simp_all
  with p' show ?thesis by blast
qed

theorem unfunded_transfer_witness:
  "\<exists>p' y'. relay_leader_commit demo_prove demo_env 1 0 (demo_req (demo_next [1] [demo_poor_tx])) (demo_next [1] [demo_poor_tx])
        (demo_node (demo_root_chain []) 0) = Inr p' \<and>
     apply_tx demo_env ((demo_root_chain [])\<lparr>bc_ChainConfig := demo_cc\<lparr>cc_ShardID := 1\<rparr>\<rparr>) 0 (mark demo_poor_tx)
        \<lparr>ex_st = [''c1'' \<mapsto> new_account 0 5], ex_book = NewG2EBook, ex_cnt = 0\<rparr> = Inr y' \<and>
     balance_of (ex_st y') ''c1'' = 1005"
proof -
  let ?p = "demo_node (demo_root_chain []) 0" and ?b = "demo_next [1] [demo_poor_tx]"
  let ?bc1 = "(demo_root_chain [])\<lparr>bc_ChainConfig := demo_cc\<lparr>cc_ShardID := 1\<rparr>\<rparr>"
  let ?x = "\<lparr>ex_st = demo_state, ex_book = NewG2EBook, ex_cnt = 0\<rparr>"
  let ?y = "\<lparr>ex_st = [''c1'' \<mapsto> new_account 0 5], ex_book = NewG2EBook, ex_cnt = 0\<rparr>"
  obtain p' where p': "relay_leader_commit demo_prove demo_env 1 0 (demo_req ?b) ?b ?p = Inr p'"
    using demo_leader_commits by blast
  have n: "p_CurChain ?p = demo_root_chain []" by (simp add: demo_node_def)
  have h: "demo_poor_tx \<in> set (b_Body ?b)" "sender_here demo_env (p_CurChain ?p) demo_poor_tx = Inr True"
    "balance_of (ex_st ?x) (tx_Sender demo_poor_tx) < tx_Value demo_poor_tx" "goes_to demo_env (p_CurChain ?p) 1 demo_poor_tx"
    "1 \<in> set (other_shards ?p)"
    by (simp_all add: n sender_here_def Get_PartitionMap_def balance_of_def account_or_new_def demo_state_def goes_to_def
        demo_other_shards)
  have h2: "RelayWithMerkleProof demo_env = 0" "my_shard ?bc1 = 1" "goes_to demo_env ?bc1 1 demo_poor_tx"
    by (simp_all add: demo_env_def [THEN arg_cong [of _ _ RelayWithMerkleProof]] goes_to_def Get_PartitionMap_def)
  have "balance_of (ex_st ?y) ''c1'' = 5" by (simp add: balance_of_def account_or_new_def)
  then show ?thesis using p' unfunded_transfer_is_credited [OF h p' h2, where j = 0 and y = ?y] by fastforce
qed

end
