(* ===== verification/Broker_Module.thy ===== *)
theory Broker_Module
  imports Consensus_Props
begin

text \<open>
  The broker variant of the consensus: \<open>pbftInside_moduleBroker.go\<close> and
  \<open>pbftOutside_moduleBroker.go\<close>. Cross-shard transfers have been split by the committee into two
  transactions through a broker account, so a shard relays nothing: the leader sends its sequence
  number to the other shards and reports the block to the supervisor, sorted into the halves of brokered
  transfers and the rest. Proposing and pre-preparing a block are the same code as in the relay
  variant (\<open>block_propose\<close>, \<open>block_preprepare\<close>).
\<close>

section \<open>Definitions\<close>

definition isBroker1Tx :: "transaction \<Rightarrow> bool" where
  "isBroker1Tx tx \<longleftrightarrow> tx_RawTxHash tx \<noteq> None \<and> tx_Sender tx = tx_OriginalSender tx"

definition isBroker2Tx :: "transaction \<Rightarrow> bool" where
  "isBroker2Tx tx \<longleftrightarrow> tx_RawTxHash tx \<noteq> None \<and> tx_Recipient tx = tx_FinalRecipient tx"

record broker_split =
  bs_inner :: "transaction list"
  bs_broker1 :: "transaction list"
  bs_broker2 :: "transaction list"

definition split_broker_tx :: "transaction \<Rightarrow> broker_split \<Rightarrow> broker_split" where
  "split_broker_tx tx s =
     (if isBroker2Tx tx then s\<lparr>bs_broker2 := bs_broker2 s @ [tx]\<rparr>
      else if isBroker1Tx tx then s\<lparr>bs_broker1 := bs_broker1 s @ [tx]\<rparr>
      else s\<lparr>bs_inner := bs_inner s @ [tx]\<rparr>)"

definition split_broker_block :: "block \<Rightarrow> broker_split" where
  "split_broker_block b = fold split_broker_tx (b_Body b) \<lparr>bs_inner = [], bs_broker1 = [], bs_broker2 = []\<rparr>"

definition send_seqID :: "u64 \<Rightarrow> pbft_node \<Rightarrow> pbft_node" where
  "send_seqID sid p = TcpDial (SeqIDInfoMsg (p_ShardID p) (p_sequenceID p)) (ip_of p sid 0) p"

definition broker_leader_commit :: "gotime \<Rightarrow> int \<Rightarrow> request \<Rightarrow> block \<Rightarrow> pbft_node \<Rightarrow> pbft_node" where
  "broker_leader_commit now epoch r b p =
     (let s = split_broker_block b;
          p = fold send_seqID (other_shards p) p;
          bim = \<lparr>bi_BlockBodyLength = length (b_Body b), bi_InnerShardTxs = bs_inner s, bi_Epoch = epoch,
                 bi_ProposeTime = r_ReqTime r, bi_CommitTime = now, bi_SenderShardID = p_ShardID p,
                 bi_Relay1Txs = [], bi_Relay2Txs = [], bi_Broker1Txs = bs_broker1 s, bi_Broker2Txs = bs_broker2 s\<rparr>
      in TcpDial (BlockInfoMsg bim) (ip_of p SupervisorShard 0) p)"

definition broker_commit ::
  "epoch_orders \<Rightarrow> go_env \<Rightarrow> gotime \<Rightarrow> prepare_commit \<Rightarrow> pbft_node \<Rightarrow> pbft_node go" where
  "broker_commit ords E now cmsg p =
     (case p_requestPool p (pc_Digest cmsg) of
        None \<Rightarrow> Inl NilDeref
      | Some r \<Rightarrow>
          and_then (decode_block (r_Content r)) (\<lambda>b.
          and_then (AddBlock ords E b (p_CurChain p)) (\<lambda>bc.
            let p = p\<lparr>p_CurChain := bc\<rparr>
            in if p_NodeID p = leader_id p then Inr (broker_leader_commit now 0 r b p) else Inr p)))"

definition broker_sequential :: "epoch_orders \<Rightarrow> go_env \<Rightarrow> send_old \<Rightarrow> pbft_node \<Rightarrow> pbft_node go" where
  \<comment> \<open>compares \<open>int(SeqStartHeight - SeqEndHeight)\<close> with the number of requests\<close>
  "broker_sequential ords E som p =
     (if sint (so_SeqStartHeight som - so_SeqEndHeight som) \<noteq> int (length (so_OldRequest som)) then Inr p
      else and_then (go_fold (add_old_block ords E som) (heights (so_SeqStartHeight som) (so_SeqEndHeight som)) (p_CurChain p))
        (\<lambda>bc. Inr (p\<lparr>p_CurChain := bc, p_sequenceID := so_SeqEndHeight som + 1\<rparr>)))"

definition RawBrokerPbftExtraHandleMod :: "epoch_orders \<Rightarrow> go_env \<Rightarrow> gotime \<Rightarrow> extra_op" where
  "RawBrokerPbftExtraHandleMod ords E now =
     \<lparr>HandleinPropose = block_propose ords E now,
      HandleinPrePrepare = block_preprepare E,
      HandleinPrepare = (\<lambda>pmsg p. Inr p),
      HandleinCommit = broker_commit ords E now,
      HandleReqestforOldSeq = (\<lambda>rom p. Inr p),
      HandleforSequentialRequest = broker_sequential ords E\<rparr>"

definition handleSeqIDinfos :: "u64 \<Rightarrow> u64 \<Rightarrow> pbft_node \<Rightarrow> pbft_node" where
  "handleSeqIDinfos senderShardID senderSeq p = set_seq_of senderShardID senderSeq p"

definition RawBrokerOutside :: "(nat \<Rightarrow> gotime) \<Rightarrow> message \<Rightarrow> pbft_node \<Rightarrow> pbft_node go" where
  "RawBrokerOutside now msg p =
     (case msg of
        SeqIDInfoMsg sid seq \<Rightarrow> Inr (handleSeqIDinfos sid seq p)
      | InjectMsg txs \<Rightarrow> Inr (handleInjectTx now txs p)
      | _ \<Rightarrow> Inr p)"

section \<open>The module implements the interface\<close>

lemma broker_leader_commit_frame: "same_protocol p (broker_leader_commit now ep r b p)"
proof -
  have "same_protocol p (fold send_seqID sids p)" for sids
    by (rule same_protocol_fold) (simp add: send_seqID_def)
  then show ?thesis unfolding broker_leader_commit_def Let_def by (rule same_protocol_steps(5))
qed

lemma broker_commit_frame:
  assumes "broker_commit ords E now m p = Inr p'"
  shows "same_protocol p p'"
proof -
  from assms obtain r b bc where "p' = broker_leader_commit now 0 r b (p\<lparr>p_CurChain := bc\<rparr>) \<or> p' = p\<lparr>p_CurChain := bc\<rparr>"
    by (auto simp: broker_commit_def and_then_Inr Let_def split: option.splits if_splits)
  then show ?thesis using same_protocol_trans [OF same_protocolI(1) broker_leader_commit_frame] by auto
qed

lemma broker_sequential_frame:
  "broker_sequential ords E som p = Inr p' \<Longrightarrow> same_protocol (p\<lparr>p_sequenceID := p_sequenceID p'\<rparr>) p'"
  by (auto simp: broker_sequential_def and_then_Inr same_protocol_def split: if_splits)

interpretation broker: consensus_module "RawBrokerPbftExtraHandleMod ords E now"
  by unfold_locales
    (simp_all add: RawBrokerPbftExtraHandleMod_def block_propose_frame block_preprepare_frame broker_commit_frame
      broker_sequential_frame)

definition broker_modules :: "go_env \<Rightarrow> extra_op set" where
  "broker_modules E = {RawBrokerPbftExtraHandleMod ords E now | ords now. True}"

interpretation broker_runs: consensus_variant "broker_modules E"
  by (rule consensus_variant.intro) (auto simp: broker_modules_def intro: broker.consensus_module_axioms)

lemma broker_outside_frame: "RawBrokerOutside now msg p = Inr p' \<Longrightarrow> same_protocol p p'"
  by (auto simp: RawBrokerOutside_def handleSeqIDinfos_def handleInjectTx_def split: message.splits)

section \<open>What the leader reports\<close>

lemma split_broker_fold:
  fixes s :: broker_split
  shows "fold split_broker_tx txs s =
     s\<lparr>bs_inner := bs_inner s @ filter (\<lambda>tx. \<not> isBroker1Tx tx \<and> \<not> isBroker2Tx tx) txs,
       bs_broker1 := bs_broker1 s @ filter (\<lambda>tx. isBroker1Tx tx \<and> \<not> isBroker2Tx tx) txs,
       bs_broker2 := bs_broker2 s @ filter isBroker2Tx txs\<rparr>"
  by (induction txs arbitrary: s) (auto simp: split_broker_tx_def)

lemma send_seqID_fold:
  "p_out (fold send_seqID sids p) = p_out p @ map (\<lambda>sid. (ip_of p sid 0, SeqIDInfoMsg (p_ShardID p) (p_sequenceID p))) sids \<and>
   p_CurChain (fold send_seqID sids p) = p_CurChain p \<and> p_ShardID (fold send_seqID sids p) = p_ShardID p \<and>
   ip_of (fold send_seqID sids p) = ip_of p"
proof (induction sids arbitrary: p)
  case (Cons sid sids)
  have "p_CurChain (send_seqID sid p) = p_CurChain p" "p_ShardID (send_seqID sid p) = p_ShardID p"
    "p_sequenceID (send_seqID sid p) = p_sequenceID p" "ip_of (send_seqID sid p) = ip_of p"
    by (intro ext | simp add: send_seqID_def TcpDial_def ip_of_def)+
  then show ?case using Cons.IH [of "send_seqID sid p"] by (simp add: send_seqID_def TcpDial_def)
qed simp

lemma broker_leader_sends:
  "p_out (broker_leader_commit now ep r b p) = p_out p @
     map (\<lambda>sid. (ip_of p sid 0, SeqIDInfoMsg (p_ShardID p) (p_sequenceID p))) (other_shards p) @
     [(ip_of p SupervisorShard 0, BlockInfoMsg
        \<lparr>bi_BlockBodyLength = length (b_Body b),
         bi_InnerShardTxs = filter (\<lambda>tx. \<not> isBroker1Tx tx \<and> \<not> isBroker2Tx tx) (b_Body b),
         bi_Epoch = ep, bi_ProposeTime = r_ReqTime r, bi_CommitTime = now, bi_SenderShardID = p_ShardID p,
         bi_Relay1Txs = [], bi_Relay2Txs = [],
         bi_Broker1Txs = filter (\<lambda>tx. isBroker1Tx tx \<and> \<not> isBroker2Tx tx) (b_Body b),
         bi_Broker2Txs = filter isBroker2Tx (b_Body b)\<rparr>)]"
  using send_seqID_fold [of "other_shards p" p]
  by (simp add: broker_leader_commit_def Let_def TcpDial_def split_broker_block_def split_broker_fold)

lemma broker_leader_chain: "p_CurChain (broker_leader_commit now ep r b p) = p_CurChain p"
  using send_seqID_fold [of "other_shards p" p] by (simp add: broker_leader_commit_def Let_def TcpDial_def)

lemma filter_three:
  "{#x \<in># M. \<not> P x \<and> \<not> Q x#} + {#x \<in># M. P x \<and> \<not> Q x#} + filter_mset Q M = M"
  by (induction M) auto

lemma AddBlock_frame:
  assumes "AddBlock ords E b bc = Inr bc'"
  shows "bc_Txpool bc' = bc_Txpool bc" "bc_PartitionMap bc' = bc_PartitionMap bc" "bc_ChainConfig bc' = bc_ChainConfig bc"
  using assms GetUpdateStatusTrie_frame [of ords E "b_Body b" bc]
  by (auto simp: AddBlock_def and_then_Inr split: if_splits option.splits)

lemma AddBlock_extends:
  assumes "AddBlock ords E b bc = Inr bc'" and "bh_Number (b_Header b) = bh_Number (cur_header bc) + 1"
    and "bh_ParentBlockHash (b_Header b) = b_Hash (bc_CurrentBlock bc)"
  shows "bc_CurrentBlock bc' = b"
  using assms(1) by (cases rule: AddBlock_cases) (use assms(2,3) in simp_all)

text \<open>
  The report of a broker leader. When the leader of the broker variant commits a pooled block that
  its chain accepts, the block is the new current block, every other shard is sent this shard's sequence
  number, and the supervisor one report, whose three lists contain every transaction of the block exactly
  once: second halves (the recipient is the final recipient), first halves among the rest (the
  sender is the original sender), and everything else. Nothing is relayed and the pool is untouched.
\<close>

theorem broker_leader_reports_block:
  assumes "p_requestPool p (pc_Digest m) = Some r" and "r_Content r = BlockContent b"
    and "p_NodeID p = leader_id p" and "broker_commit ords E now m p = Inr p'"
    and "bh_Number (b_Header b) = bh_Number (cur_header (p_CurChain p)) + 1"
    and "bh_ParentBlockHash (b_Header b) = b_Hash (bc_CurrentBlock (p_CurChain p))"
  shows "bc_CurrentBlock (p_CurChain p') = b \<and> bc_Txpool (p_CurChain p') = bc_Txpool (p_CurChain p) \<and>
    (\<exists>bim. p_out p' = p_out p @
        map (\<lambda>sid. (ip_of p sid 0, SeqIDInfoMsg (p_ShardID p) (p_sequenceID p))) (other_shards p) @
        [(ip_of p SupervisorShard 0, BlockInfoMsg bim)] \<and>
      mset (bi_InnerShardTxs bim) + mset (bi_Broker1Txs bim) + mset (bi_Broker2Txs bim) = mset (b_Body b) \<and>
      list_all isBroker1Tx (bi_Broker1Txs bim) \<and> bi_Broker2Txs bim = filter isBroker2Tx (b_Body b) \<and>
      list_all (\<lambda>tx. \<not> isBroker1Tx tx \<and> \<not> isBroker2Tx tx) (bi_InnerShardTxs bim) \<and>
      bi_Relay1Txs bim = [] \<and> bi_Relay2Txs bim = [])"
proof -
  from assms(1-4) obtain bc where bc: "AddBlock ords E b (p_CurChain p) = Inr bc"
    and p': "p' = broker_leader_commit now 0 r b (p\<lparr>p_CurChain := bc\<rparr>)"
    by (auto simp: broker_commit_def and_then_Inr Let_def decode_block_def leader_id_def)
  have "bc_CurrentBlock bc = b" "bc_Txpool bc = bc_Txpool (p_CurChain p)"
    using AddBlock_extends [OF bc assms(5,6)] AddBlock_frame [OF bc] by simp_all
  moreover have "other_shards (p\<lparr>p_CurChain := bc\<rparr>) = other_shards p" "ip_of (p\<lparr>p_CurChain := bc\<rparr>) = ip_of p"
    by (auto simp: other_shards_def ip_of_def fun_eq_iff)
  ultimately show ?thesis unfolding p' broker_leader_chain broker_leader_sends
    by (auto simp: filter_three list_all_iff)
qed

section \<open>Catching up\<close>

lemma handleSendOldSeq_skips:
  assumes "handleSendOldSeq ops dg som p = Inr p'" and "HandleforSequentialRequest ops som p = Inr p"
    and "\<And>m q f q'. HandleinPrePrepare ops m q = Inr (f, q') \<Longrightarrow> p_CurChain q' = p_CurChain q \<and> p_sequenceID q' = p_sequenceID q"
  shows "p_CurChain p' = p_CurChain p \<and> p_sequenceID p' = so_SeqEndHeight som + 1"
proof -
  let ?K = "\<lambda>q. p_CurChain q = p_CurChain p"
  from assms obtain q2 q3 where
    q2: "go_foldi (\<lambda>idx r p. Inr (record_old dg (so_SeqStartHeight som) idx r p)) 0 (so_OldRequest som) p = Inr q2"
    and q3: "resume_prepare ops dg (q2\<lparr>p_sequenceID := so_SeqEndHeight som + 1\<rparr>) = Inr q3" and u: "unlock_ask q3 = Inr p'"
    by (auto simp: handleSendOldSeq_def and_then_Inr)
  have "?K q2" by (rule go_foldi_inv [OF q2, where P = ?K]) (auto simp: record_old_def)
  moreover have "p_CurChain q3 = p_CurChain q2 \<and> p_sequenceID q3 = so_SeqEndHeight som + 1"
    using q3 assms(3)
    by (fastforce simp: resume_prepare_def and_then_Inr Let_def broadcast_neighbors_def split: option.splits if_splits)
  ultimately show ?thesis using u by (auto simp: unlock_ask_def split: if_splits)
qed

lemma neg_difference:
  fixes s e :: u64
  assumes "e - s < 2 ^ 63" and "s \<noteq> e"
  shows "sint (s - e) < 0"
proof -
  have k: "0 < uint (e - s)" "uint (e - s) < 2 ^ 63"
    using assms by (simp_all add: word_less_def uint_0_iff order_less_le)
  have "s - e = word_of_int (- uint (e - s))" by simp
  then have "sint (s - e) = signed_take_bit 63 (- uint (e - s))" by (simp only: sint_sbintrunc') simp
  also have "\<dots> = - uint (e - s)" using k by (intro signed_take_bit_int_eq_self) auto
  finally show ?thesis using k by simp
qed

text \<open>
  Catching up in the broker variant. The number of old requests is compared with start minus end
  instead of end minus start plus one. Hence for every answer to a request for a range of heights
  (fewer than \<open>2 ^ 63\<close> of them) no block is added, whatever the answer contains, and the node
  continues after the end of the range; the empty answer to a request for one height panics.
\<close>

theorem broker_catch_up_adds_nothing:
  assumes "so_SeqStartHeight som \<le> so_SeqEndHeight som" and "so_SeqEndHeight som - so_SeqStartHeight som < 2 ^ 63"
  shows "(if so_SeqStartHeight som = so_SeqEndHeight som \<and> so_OldRequest som = []
      then is_panic (handleSendOldSeq (RawBrokerPbftExtraHandleMod ords E now) dg som p)
      else \<forall>p'. handleSendOldSeq (RawBrokerPbftExtraHandleMod ords E now) dg som p = Inr p' \<longrightarrow>
        p_CurChain p' = p_CurChain p \<and> p_sequenceID p' = so_SeqEndHeight som + 1)"
proof (cases "so_SeqStartHeight som = so_SeqEndHeight som \<and> so_OldRequest som = []")
  case True
  then show ?thesis
    by (simp add: handleSendOldSeq_def RawBrokerPbftExtraHandleMod_def broker_sequential_def heights_def add_old_block_def go_nth_def)
next
  case False
  have "sint (so_SeqStartHeight som - so_SeqEndHeight som) \<noteq> int (length (so_OldRequest som))"
  proof (cases "so_SeqStartHeight som = so_SeqEndHeight som")
    case True
    with False show ?thesis by simp
  next
    case neq: False
    from neg_difference [OF assms(2)] neq have "sint (so_SeqStartHeight som - so_SeqEndHeight som) < 0" by simp
    then show ?thesis by simp
  qed
  then have "HandleforSequentialRequest (RawBrokerPbftExtraHandleMod ords E now) som p = Inr p"
    by (simp add: RawBrokerPbftExtraHandleMod_def broker_sequential_def)
  moreover have "p_CurChain q' = p_CurChain q \<and> p_sequenceID q' = p_sequenceID q"
    if "HandleinPrePrepare (RawBrokerPbftExtraHandleMod ords E now) m q = Inr (f, q')" for m q f q'
    using that by (auto simp: RawBrokerPbftExtraHandleMod_def block_preprepare_def and_then_Inr split: if_splits)
  ultimately have "p_CurChain p' = p_CurChain p \<and> p_sequenceID p' = so_SeqEndHeight som + 1"
    if "handleSendOldSeq (RawBrokerPbftExtraHandleMod ords E now) dg som p = Inr p'" for p'
    by (rule handleSendOldSeq_skips [OF that])
  with False show ?thesis by (simp only: if_False) simp
qed

section \<open>Witnesses\<close>

abbreviation demo_broker_ops :: extra_op where
  "demo_broker_ops \<equiv> RawBrokerPbftExtraHandleMod demo_ords demo_env 1"

theorem broker_catch_up_adds_nothing_witness:
  "\<exists>p'. handleSendOldSeq demo_broker_ops (\<lambda>r. [8]) \<lparr>so_SeqStartHeight = 6, so_SeqEndHeight = 6,
        so_OldRequest = [demo_req (demo_block 5)], so_SenderNode = demo_sn\<rparr>
        ((demo_node (demo_root_chain []) 1)\<lparr>p_askForLock := True\<rparr>) = Inr p' \<and>
     p_CurChain p' = demo_root_chain [] \<and> p_sequenceID p' = 7"
proof -
  let ?p = "(demo_node (demo_root_chain []) 1)\<lparr>p_askForLock := True\<rparr>"
  let ?som = "\<lparr>so_SeqStartHeight = 6, so_SeqEndHeight = 6, so_OldRequest = [demo_req (demo_block 5)], so_SenderNode = demo_sn\<rparr>"
  obtain p' where p': "handleSendOldSeq demo_broker_ops (\<lambda>r. [8]) ?som ?p = Inr p'"
    by (simp add: handleSendOldSeq_def RawBrokerPbftExtraHandleMod_def broker_sequential_def demo_node_def
        record_old_def resume_prepare_def unlock_ask_def u64_of_nat_def)
  from broker_catch_up_adds_nothing [of ?som demo_ords demo_env 1 "\<lambda>r. [8]" ?p] p' show ?thesis
    by (simp add: demo_node_def)
qed

theorem broker_leader_reports_block_witness:
  "\<exists>p'. broker_commit demo_ords demo_env 1 demo_commit_msg ((demo_committing (demo_next [50, 10, 255] []))\<lparr>p_NodeID := 0\<rparr>) = Inr p' \<and>
     bc_CurrentBlock (p_CurChain p') = demo_next [50, 10, 255] []"
proof -
  let ?p = "(demo_committing (demo_next [50, 10, 255] []))\<lparr>p_NodeID := 0\<rparr>" and ?b = "demo_next [50, 10, 255] []"
  have r: "p_requestPool ?p (pc_Digest demo_commit_msg) = Some (demo_req ?b)" "r_Content (demo_req ?b) = BlockContent ?b"
    "p_NodeID ?p = leader_id ?p" by (simp_all add: demo_req_def demo_committing_def demo_node_def leader_id_def)
  have h: "bh_Number (b_Header ?b) = bh_Number (cur_header (p_CurChain ?p)) + 1"
    "bh_ParentBlockHash (b_Header ?b) = b_Hash (bc_CurrentBlock (p_CurChain ?p))" by simp_all
  obtain bc where "AddBlock demo_ords demo_env ?b (demo_root_chain []) = Inr bc"
    by (simp add: AddBlock_def Storage_AddBlock_def bolt_put_def AddBlockHeader_def GetUpdateStatusTrie_def split: option.split)
  then obtain p' where p': "broker_commit demo_ords demo_env 1 demo_commit_msg ?p = Inr p'"
    by (simp add: broker_commit_def decode_block_def demo_req_def Let_def leader_id_def)
  from broker_leader_reports_block [OF r p' h] p' show ?thesis by blast
qed

end
