(* ===== verification/Clpa_Module.thy ===== *)
theory Clpa_Module
  imports Broker_Module
begin

text \<open>
  Re-sharding, the CLPA variant: \<open>accountTransfer_module.go\<close>, \<open>pbftInside_moduleCLPA.go\<close> and
  \<open>pbftOutside_moduleCLPA.go\<close>. The supervisor sends every leader a map from addresses to new shards.
  A leader that is about to propose then announces that it is ready, waits until all shards are,
  sends the states and queued transactions of the accounts that leave, waits for those that arrive,
  and proposes a partition request; committing it, every node of the shard updates its partition map
  and adds the accounts.

  While \<open>HandleinPropose\<close> waits, messages from other shards are handled: the lists \<open>ms1\<close> and \<open>ms2\<close>
  are those handled during the first and the second wait, and the result is \<open>Blocked\<close> when the awaited
  condition does not hold after them. The orders in which the Go maps are visited are the record
  \<open>clpa_orders\<close>.
\<close>

section \<open>Definitions\<close>

record clpa_orders =
  co_seq :: "(u64 \<rightharpoonup> u64) \<Rightarrow> u64 list"
  co_modified :: "(address \<rightharpoonup> u64) \<Rightarrow> address list"
  co_received :: "(u64 \<rightharpoonup> account_state_and_tx) \<Rightarrow> u64 list"
  co_accounts :: "(address \<rightharpoonup> account_state) \<Rightarrow> address list"

fun entries :: "'k list \<Rightarrow> ('k \<rightharpoonup> 'v) \<Rightarrow> ('k \<times> 'v) list" where
  \<comment> \<open>the pairs a \<open>range\<close> loop over the map visits, in the given order\<close>
  "entries [] m = []"
| "entries (k # ks) m = (case m k of None \<Rightarrow> entries ks m | Some v \<Rightarrow> (k, v) # entries ks m)"

definition upd_cdm :: "(clpa_data \<Rightarrow> clpa_data) \<Rightarrow> pbft_node \<Rightarrow> pbft_node" where
  "upd_cdm f p = p\<lparr>p_cdm := f (p_cdm p)\<rparr>"

subsection \<open>Readiness\<close>

definition sendPartitionReady :: "pbft_node \<Rightarrow> pbft_node" where
  "sendPartitionReady p =
     (let p = upd_cdm (\<lambda>c. c\<lparr>cd_PartitionReady := insert (p_ShardID p) (cd_PartitionReady c)\<rparr>) p
      in fold (\<lambda>sid p. TcpDial (PartitionReadyMsg (p_ShardID p) (p_sequenceID p)) (ip_of p sid 0) p) (other_shards p) p)"

definition getPartitionReady :: "clpa_orders \<Rightarrow> pbft_node \<Rightarrow> bool" where
  "getPartitionReady co p \<longleftrightarrow>
     int (card (cd_PartitionReady (p_cdm p))) = sint (cc_ShardNums (p_ChainConfig p)) \<and>
     list_all (\<lambda>sid. case cd_ReadySeq (p_cdm p) sid of
                 None \<Rightarrow> False | Some rval \<Rightarrow> rval - 1 = map_default 0 (p_seqIDMap p) sid) (co_seq co (p_seqIDMap p))"

subsection \<open>Sending accounts and transactions\<close>

definition to_fetch :: "go_env \<Rightarrow> pbft_node \<Rightarrow> (address \<rightharpoonup> u64) \<Rightarrow> address \<Rightarrow> address list \<Rightarrow> address list go" where
  "to_fetch E p mm key acc =
     (if map_default 0 mm key \<noteq> p_ShardID p then
        and_then (Get_PartitionMap E (p_CurChain p) key) (\<lambda>s. Inr (if s = p_ShardID p then acc @ [key] else acc))
      else Inr acc)"

definition belongs :: "address set \<Rightarrow> transaction \<Rightarrow> bool" where
  "belongs addrSet ptx \<longleftrightarrow> tx_Sender ptx \<in> addrSet \<and> \<not> tx_Relayed ptx \<or> tx_Recipient ptx \<in> addrSet \<and> tx_Relayed ptx"

fun extract_txs :: "address set \<Rightarrow> transaction list \<Rightarrow> transaction list \<times> transaction list \<Rightarrow> transaction list \<times> transaction list" where
  \<comment> \<open>the two-pointer loop: transactions to send, and the queue compacted in place\<close>
  "extract_txs addrSet [] acc = acc"
| "extract_txs addrSet (ptx # q) (txSend, kept) =
     (if belongs addrSet ptx then extract_txs addrSet q (txSend @ [ptx], kept)
      else extract_txs addrSet q (txSend, kept @ [ptx]))"

definition send_accounts_to ::
  "(address \<rightharpoonup> u64) \<Rightarrow> (address \<times> account_state) list \<Rightarrow> u64 \<Rightarrow> pbft_node \<Rightarrow> pbft_node" where
  "send_accounts_to mm fetched i p =
     (let sel = filter (\<lambda>(addr, s). map_default 0 mm addr = i) fetched;
          pool = bc_Txpool (p_CurChain p);
          (txSend, rest) = extract_txs (fst ` set sel) (TxQueue pool) ([], []);
          p = set_pool (pool\<lparr>TxQueue := rest\<rparr>) p;
          ast = \<lparr>ast_Addrs = map fst sel, ast_AccountState = map snd sel, ast_Txs = txSend, ast_FromShard = p_ShardID p\<rparr>
      in TcpDial (AccountStateTxMsg ast) (ip_of p i 0) p)"

definition sendAccounts_and_Txs :: "clpa_orders \<Rightarrow> go_env \<Rightarrow> pbft_node \<Rightarrow> pbft_node go" where
  "sendAccounts_and_Txs co E p =
     and_then (go_nth (cd_ModifiedMap (p_cdm p)) (int (length (cd_ModifiedMap (p_cdm p))) - 1)) (\<lambda>mm.
     and_then (go_fold (to_fetch E p mm) (co_modified co mm) []) (\<lambda>accountToFetch.
     and_then (FetchAccounts accountToFetch (p_CurChain p)) (\<lambda>asFetched.
       Inr (fold (send_accounts_to mm (zip accountToFetch asFetched)) (other_shards p) p))))"

definition getCollectOver :: "pbft_node \<Rightarrow> bool" where
  "getCollectOver p = cd_CollectOver (p_cdm p)"

subsection \<open>The partition request\<close>

definition put_account ::
  "account_state list \<Rightarrow> nat \<Rightarrow> address \<Rightarrow> (address \<rightharpoonup> account_state) \<Rightarrow> (address \<rightharpoonup> account_state) go" where
  "put_account as i addr m = and_then (go_nth as (int i)) (\<lambda>s. Inr (m(addr \<mapsto> s)))"

definition receive_accounts :: "account_state_and_tx \<Rightarrow> clpa_data \<Rightarrow> clpa_data go" where
  "receive_accounts at c =
     and_then (go_foldi (put_account (ast_AccountState at)) 0 (ast_Addrs at) (cd_ReceivedNewAccountState c)) (\<lambda>m.
       Inr (c\<lparr>cd_ReceivedNewAccountState := m, cd_ReceivedNewTx := cd_ReceivedNewTx c @ ast_Txs at\<rparr>))"

definition receive_from :: "u64 \<Rightarrow> clpa_data \<Rightarrow> clpa_data go" where
  "receive_from sid c =
     (case cd_AccountStateTx c sid of None \<Rightarrow> Inl NilDeref | Some at \<Rightarrow> receive_accounts at c)"

definition check_new_tx :: "pbft_node \<Rightarrow> transaction \<Rightarrow> unit \<Rightarrow> unit go" where
  "check_new_tx p tx u =
     and_then (go_nth (cd_ModifiedMap (p_cdm p)) (int (unat (cd_AccountTransferRound (p_cdm p))))) (\<lambda>mm.
       if map_default 0 mm (if tx_Relayed tx then tx_Recipient tx else tx_Sender tx) \<noteq> p_ShardID p
       then Inl (LogPanic ''error tx'') else Inr ())"

definition proposePartition ::
  "clpa_orders \<Rightarrow> (nat \<Rightarrow> gotime) \<Rightarrow> gotime \<Rightarrow> pbft_node \<Rightarrow> (request \<times> pbft_node) go" where
  "proposePartition co nows now p =
     and_then (go_fold receive_from (co_received co (cd_AccountStateTx (p_cdm p))) (p_cdm p)) (\<lambda>c.
     let p = p\<lparr>p_cdm := c\<rparr> in
     and_then (go_fold (check_new_tx p) (cd_ReceivedNewTx c) ()) (\<lambda>_.
     let p = add_to_pool nows (cd_ReceivedNewTx c) p;
         received = entries (co_accounts co (cd_ReceivedNewAccountState c)) (cd_ReceivedNewAccountState c) in
     and_then (go_nth (cd_ModifiedMap c) (int (unat (cd_AccountTransferRound c)))) (\<lambda>mm.
       let atm = \<lparr>atm_ModifiedMap = mm, atm_Addrs = map fst received, atm_AccountState = map snd received,
                  atm_ATid = u64_of_nat (length (cd_ModifiedMap c))\<rparr>
       in Inr (\<lparr>r_RequestType = PartitionReq, r_Content = TransferContent atm, r_ReqTime = now\<rparr>, p))))"

definition decode_transfer :: "raw_content \<Rightarrow> account_transfer_msg go" where
  "decode_transfer c = (case c of TransferContent atm \<Rightarrow> Inr atm | BlockContent _ \<Rightarrow> Inl (LogPanic ''gob''))"

definition accountTransfer_do :: "clpa_orders \<Rightarrow> go_env \<Rightarrow> account_transfer_msg \<Rightarrow> pbft_node \<Rightarrow> pbft_node go" where
  "accountTransfer_do co E atm p =
     (let bc = fold (\<lambda>key. Update_PartitionMap key (map_default 0 (atm_ModifiedMap atm) key))
                 (co_modified co (atm_ModifiedMap atm)) (p_CurChain p) in
      and_then (AddAccounts E (atm_Addrs atm) (atm_AccountState atm) bc) (\<lambda>bc.
        Inr (upd_cdm (\<lambda>c. c\<lparr>
          cd_ModifiedMap := cd_ModifiedMap c @
            (if u64_of_nat (length (cd_ModifiedMap c)) \<noteq> atm_ATid atm then [atm_ModifiedMap atm] else []),
          cd_AccountTransferRound := atm_ATid atm, cd_AccountStateTx := Map.empty,
          cd_ReceivedNewAccountState := Map.empty, cd_ReceivedNewTx := [], cd_PartitionOn := False,
          cd_CollectOver := False, cd_PartitionReady := {}\<rparr>) (p\<lparr>p_CurChain := bc\<rparr>))))"

subsection \<open>Messages from outside the shard\<close>

definition handlePartitionMsg :: "(address \<rightharpoonup> u64) \<Rightarrow> pbft_node \<Rightarrow> pbft_node" where
  "handlePartitionMsg pm = upd_cdm (\<lambda>c. c\<lparr>cd_ModifiedMap := cd_ModifiedMap c @ [pm], cd_PartitionOn := True\<rparr>)"

definition handlePartitionReady :: "u64 \<Rightarrow> u64 \<Rightarrow> pbft_node \<Rightarrow> pbft_node" where
  "handlePartitionReady fromShard nowSeqID =
     upd_cdm (\<lambda>c. c\<lparr>cd_PartitionReady := insert fromShard (cd_PartitionReady c),
                    cd_ReadySeq := (cd_ReadySeq c)(fromShard \<mapsto> nowSeqID)\<rparr>)"

definition handleAccountStateAndTxMsg :: "account_state_and_tx \<Rightarrow> pbft_node \<Rightarrow> pbft_node" where
  "handleAccountStateAndTxMsg at p =
     (let p = upd_cdm (\<lambda>c. c\<lparr>cd_AccountStateTx := (cd_AccountStateTx c)(ast_FromShard at \<mapsto> at)\<rparr>) p
      in if int (card (dom (cd_AccountStateTx (p_cdm p)))) = sint (cc_ShardNums (p_ChainConfig p)) - 1
         then upd_cdm (\<lambda>c. c\<lparr>cd_CollectOver := True\<rparr>) p else p)"

definition crom_handleRelay :: "(nat \<Rightarrow> gotime) \<Rightarrow> relay_msg \<Rightarrow> pbft_node \<Rightarrow> pbft_node" where
  "crom_handleRelay nows relay p =
     (let p = add_to_pool nows (rl_Txs relay) p in set_seq_of (rl_SenderShardID relay) (rl_SenderSeq relay) p)"

definition crom_handleRelayWithProof :: "verifier \<Rightarrow> (nat \<Rightarrow> gotime) \<Rightarrow> relay_proof_msg \<Rightarrow> pbft_node \<Rightarrow> pbft_node go" where
  "crom_handleRelayWithProof verify nows rwp p =
     and_then (all_proofs_ok verify (rp_TxProofs rwp) 0 (rp_Txs rwp)) (\<lambda>isAllCorrect.
       let p = (if isAllCorrect then add_to_pool nows (rp_Txs rwp) p else p)
       in Inr (set_seq_of (rp_SenderShardID rwp) (rp_SenderSeq rwp) p))"

definition crom_handleInjectTx :: "(nat \<Rightarrow> gotime) \<Rightarrow> transaction list \<Rightarrow> pbft_node \<Rightarrow> pbft_node" where
  "crom_handleInjectTx nows txs p = add_to_pool nows txs p"

definition CLPARelayOutside :: "verifier \<Rightarrow> (nat \<Rightarrow> gotime) \<Rightarrow> message \<Rightarrow> pbft_node \<Rightarrow> pbft_node go" where
  "CLPARelayOutside verify nows msg p =
     (case msg of
        RelayMsg relay \<Rightarrow> Inr (crom_handleRelay nows relay p)
      | RelayProofMsg rwp \<Rightarrow> crom_handleRelayWithProof verify nows rwp p
      | InjectMsg txs \<Rightarrow> Inr (crom_handleInjectTx nows txs p)
      | PartitionMsg pm \<Rightarrow> Inr (handlePartitionMsg pm p)
      | AccountStateTxMsg at \<Rightarrow> Inr (handleAccountStateAndTxMsg at p)
      | PartitionReadyMsg fromShard nowSeqID \<Rightarrow> Inr (handlePartitionReady fromShard nowSeqID p)
      | _ \<Rightarrow> Inr p)"

subsection \<open>The stages of consensus\<close>

definition partition_propose ::
  "(message \<Rightarrow> pbft_node \<Rightarrow> pbft_node go) \<Rightarrow> (pbft_node \<Rightarrow> pbft_node go) \<Rightarrow> (pbft_node \<Rightarrow> (request \<times> pbft_node) go) \<Rightarrow>
   message list \<Rightarrow> message list \<Rightarrow> clpa_orders \<Rightarrow> epoch_orders \<Rightarrow> go_env \<Rightarrow> gotime \<Rightarrow> pbft_node \<Rightarrow> (request \<times> pbft_node) go" where
  \<comment> \<open>\<open>HandleinPropose\<close>, for the given handlers of outside messages, sending and proposing\<close>
  "partition_propose outside send prop ms1 ms2 co ords E now p =
     (if cd_PartitionOn (p_cdm p) then
        and_then (go_fold outside ms1 (sendPartitionReady p)) (\<lambda>p.
        if \<not> getPartitionReady co p then Inl Blocked
        else and_then (send p) (\<lambda>p.
             and_then (go_fold outside ms2 p) (\<lambda>p.
             if \<not> getCollectOver p then Inl Blocked else prop p)))
      else block_propose ords E now p)"

definition clpa_propose ::
  "verifier \<Rightarrow> message list \<Rightarrow> message list \<Rightarrow> clpa_orders \<Rightarrow> epoch_orders \<Rightarrow> go_env \<Rightarrow>
   (nat \<Rightarrow> gotime) \<Rightarrow> gotime \<Rightarrow> pbft_node \<Rightarrow> (request \<times> pbft_node) go" where
  "clpa_propose verify ms1 ms2 co ords E nows now =
     partition_propose (CLPARelayOutside verify nows) (sendAccounts_and_Txs co E) (proposePartition co nows now) ms1 ms2 co ords E now"

definition clpa_preprepare :: "go_env \<Rightarrow> pre_prepare \<Rightarrow> pbft_node \<Rightarrow> (bool \<times> pbft_node) go" where
  "clpa_preprepare E ppmsg p =
     (if r_RequestType (pp_RequestMsg ppmsg) = PartitionReq
      then Inr (True, p\<lparr>p_requestPool := (p_requestPool p)(pp_Digest ppmsg \<mapsto> pp_RequestMsg ppmsg)\<rparr>)
      else block_preprepare E ppmsg p)"

definition clpa_commit ::
  "clpa_orders \<Rightarrow> prover \<Rightarrow> epoch_orders \<Rightarrow> go_env \<Rightarrow> gotime \<Rightarrow> prepare_commit \<Rightarrow> pbft_node \<Rightarrow> pbft_node go" where
  "clpa_commit co prove ords E now cmsg p =
     (case p_requestPool p (pc_Digest cmsg) of
        None \<Rightarrow> Inl NilDeref
      | Some r \<Rightarrow>
          if r_RequestType r = PartitionReq
          then and_then (decode_transfer (r_Content r)) (\<lambda>atm. accountTransfer_do co E atm p)
          else
            and_then (decode_block (r_Content r)) (\<lambda>b.
            and_then (AddBlock ords E b (p_CurChain p)) (\<lambda>bc.
              let p = p\<lparr>p_CurChain := bc\<rparr>
              in if p_NodeID p = leader_id p
                 then relay_leader_commit prove E now (sint (cd_AccountTransferRound (p_cdm p))) r b p
                 else Inr p)))"

definition redo_old :: "clpa_orders \<Rightarrow> epoch_orders \<Rightarrow> go_env \<Rightarrow> send_old \<Rightarrow> u64 \<Rightarrow> pbft_node \<Rightarrow> pbft_node go" where
  "redo_old co ords E som height p =
     and_then (go_nth (so_OldRequest som) (int (unat (height - so_SeqStartHeight som)))) (\<lambda>r.
       if r_RequestType r = BlockRequest
       then and_then (decode_block (r_Content r)) (\<lambda>b.
            and_then (AddBlock ords E b (p_CurChain p)) (\<lambda>bc. Inr (p\<lparr>p_CurChain := bc\<rparr>)))
       else and_then (decode_transfer (r_Content r)) (\<lambda>atm. accountTransfer_do co E atm p))"

definition clpa_sequential :: "clpa_orders \<Rightarrow> epoch_orders \<Rightarrow> go_env \<Rightarrow> send_old \<Rightarrow> pbft_node \<Rightarrow> pbft_node go" where
  "clpa_sequential co ords E som p =
     (if sint (so_SeqEndHeight som - so_SeqStartHeight som + 1) \<noteq> int (length (so_OldRequest som)) then Inr p
      else and_then (go_fold (redo_old co ords E som) (heights (so_SeqStartHeight som) (so_SeqEndHeight som)) p)
        (\<lambda>p. Inr (p\<lparr>p_sequenceID := so_SeqEndHeight som + 1\<rparr>)))"

definition CLPAPbftInsideExtraHandleMod ::
  "verifier \<Rightarrow> message list \<Rightarrow> message list \<Rightarrow> clpa_orders \<Rightarrow> prover \<Rightarrow> epoch_orders \<Rightarrow> go_env \<Rightarrow>
   (nat \<Rightarrow> gotime) \<Rightarrow> gotime \<Rightarrow> extra_op" where
  "CLPAPbftInsideExtraHandleMod verify ms1 ms2 co prove ords E nows now =
     \<lparr>HandleinPropose = clpa_propose verify ms1 ms2 co ords E nows now,
      HandleinPrePrepare = clpa_preprepare E,
      HandleinPrepare = (\<lambda>pmsg p. Inr p),
      HandleinCommit = clpa_commit co prove ords E now,
      HandleReqestforOldSeq = (\<lambda>rom p. Inr p),
      HandleforSequentialRequest = clpa_sequential co ords E\<rparr>"

section \<open>The module implements the interface\<close>

lemma upd_cdm_simps [simp]:
  "same_protocol p (upd_cdm f p)" "p_cdm (upd_cdm f p) = f (p_cdm p)" "p_CurChain (upd_cdm f p) = p_CurChain p"
  "p_ShardID (upd_cdm f p) = p_ShardID p" "p_out (upd_cdm f p) = p_out p" "ip_of (upd_cdm f p) = ip_of p"
  "other_shards (upd_cdm f p) = other_shards p" "p_ChainConfig (upd_cdm f p) = p_ChainConfig p"
  by (auto simp: upd_cdm_def ip_of_def other_shards_def fun_eq_iff)

lemma sendPartitionReady_frame: "same_protocol p (sendPartitionReady p)"
  unfolding sendPartitionReady_def Let_def
  by (rule same_protocol_trans [OF upd_cdm_simps(1) same_protocol_fold]) simp

text \<open>On the messages of the relay mechanism the CLPA module does what the relay module does.\<close>

lemma clpa_outside_relay:
  "CLPARelayOutside verify nows (RelayMsg relay) p = RawRelayOutside verify nows (RelayMsg relay) p"
  "CLPARelayOutside verify nows (RelayProofMsg rwp) p = RawRelayOutside verify nows (RelayProofMsg rwp) p"
  "CLPARelayOutside verify nows (InjectMsg txs) p = RawRelayOutside verify nows (InjectMsg txs) p"
  by (simp_all add: CLPARelayOutside_def RawRelayOutside_def crom_handleRelay_def crom_handleRelayWithProof_def
      crom_handleInjectTx_def handleRelay_def handleRelayWithProof_def handleInjectTx_def Let_def)

lemma clpa_outside_frame:
  assumes "CLPARelayOutside verify nows msg p = Inr p'"
  shows "same_protocol p p'"
proof -
  have a: "same_protocol q (set_seq_of sid seq (add_to_pool nows txs q))" for q sid seq txs
    by (rule same_protocol_trans [OF same_protocolI(8) same_protocolI(7)])
  have b: "same_protocol q (upd_cdm f (upd_cdm g q))" for q f g
    by (rule same_protocol_trans [OF upd_cdm_simps(1) upd_cdm_simps(1)])
  show ?thesis using assms
    by (auto simp: CLPARelayOutside_def crom_handleRelay_def crom_handleRelayWithProof_def crom_handleInjectTx_def and_then_Inr a b
        handlePartitionMsg_def handlePartitionReady_def handleAccountStateAndTxMsg_def Let_def split: message.splits if_splits)
qed

lemma same_protocol_go_fold:
  assumes "go_fold f xs p = Inr p'" and "\<And>x q q'. f x q = Inr q' \<Longrightarrow> same_protocol q q'"
  shows "same_protocol p p'"
  by (rule go_fold_inv [OF assms(1), where P = "same_protocol p"]) (auto intro: same_protocol_trans assms(2))

lemma send_accounts_to_frame: "same_protocol p (send_accounts_to mm fetched i p)"
  by (auto simp: send_accounts_to_def Let_def split: prod.split intro: same_protocol_steps(5))

lemma sendAccounts_and_Txs_frame: "sendAccounts_and_Txs co E p = Inr p' \<Longrightarrow> same_protocol p p'"
  by (auto simp: sendAccounts_and_Txs_def and_then_Inr intro!: same_protocol_fold send_accounts_to_frame)

lemma proposePartition_frame: "proposePartition co nows now p = Inr (r, p') \<Longrightarrow> same_protocol p p'"
  by (auto simp: proposePartition_def and_then_Inr Let_def intro: same_protocol_steps(8))

lemma accountTransfer_do_frame: "accountTransfer_do co E atm p = Inr p' \<Longrightarrow> same_protocol p p'"
  by (auto simp: accountTransfer_do_def and_then_Inr Let_def intro: same_protocol_trans [OF same_protocolI(1) upd_cdm_simps(1)])

lemma partition_propose_frame:
  assumes "partition_propose outside send prop ms1 ms2 co ords E now p = Inr (r, p')"
    and "\<And>m q q'. outside m q = Inr q' \<Longrightarrow> same_protocol q q'" and "\<And>q q'. send q = Inr q' \<Longrightarrow> same_protocol q q'"
    and "\<And>q r q'. prop q = Inr (r, q') \<Longrightarrow> same_protocol q q'"
  shows "same_protocol p p'"
proof (cases "cd_PartitionOn (p_cdm p)")
  case True
  with assms(1) obtain q1 q2 q3 where "go_fold outside ms1 (sendPartitionReady p) = Inr q1"
    "send q1 = Inr q2" "go_fold outside ms2 q2 = Inr q3" "prop q3 = Inr (r, p')"
    by (auto simp: partition_propose_def and_then_Inr split: if_splits)
  note q = same_protocol_go_fold [OF this(1) assms(2)] assms(3) [OF this(2)]
    same_protocol_go_fold [OF this(3) assms(2)] assms(4) [OF this(4)]
  from same_protocol_trans [OF sendPartitionReady_frame q(1)] show ?thesis
    by (rule same_protocol_trans [OF same_protocol_trans [OF same_protocol_trans [OF _ q(2)] q(3)] q(4)])
qed (use assms(1) block_propose_frame in \<open>auto simp: partition_propose_def\<close>)

lemma clpa_propose_frame: "clpa_propose verify ms1 ms2 co ords E nows now p = Inr (r, p') \<Longrightarrow> same_protocol p p'"
  unfolding clpa_propose_def
  by (erule partition_propose_frame) (auto dest: clpa_outside_frame sendAccounts_and_Txs_frame proposePartition_frame)

lemma clpa_preprepare_frame:
  "clpa_preprepare E m p = Inr (flag, p') \<Longrightarrow> same_protocol (p\<lparr>p_requestPool := p_requestPool p'\<rparr>) p'"
  by (auto simp: clpa_preprepare_def dest: block_preprepare_frame split: if_splits)

lemma clpa_commit_frame:
  assumes "clpa_commit co prove ords E now m p = Inr p'"
  shows "same_protocol p p'"
proof -
  from assms consider atm where "accountTransfer_do co E atm p = Inr p'"
    | bc where "p' = p\<lparr>p_CurChain := bc\<rparr>"
    | ep r b bc where "relay_leader_commit prove E now ep r b (p\<lparr>p_CurChain := bc\<rparr>) = Inr p'"
    by (auto simp: clpa_commit_def and_then_Inr Let_def split: option.splits if_splits)
  then show ?thesis
    using accountTransfer_do_frame same_protocol_trans [OF same_protocolI(1) relay_leader_commit_frame]
    by cases auto
qed

lemma redo_old_frame: "redo_old co ords E som h p = Inr p' \<Longrightarrow> same_protocol p p'"
  by (auto simp: redo_old_def and_then_Inr dest: accountTransfer_do_frame split: if_splits)

lemma clpa_sequential_frame:
  assumes "clpa_sequential co ords E som p = Inr p'"
  shows "same_protocol (p\<lparr>p_sequenceID := p_sequenceID p'\<rparr>) p'"
proof -
  from assms consider "p' = p" | q where "go_fold (redo_old co ords E som) (heights (so_SeqStartHeight som) (so_SeqEndHeight som)) p = Inr q"
    "p' = q\<lparr>p_sequenceID := so_SeqEndHeight som + 1\<rparr>"
    by (auto simp: clpa_sequential_def and_then_Inr split: if_splits)
  then show ?thesis
  proof cases
    case 2
    have "same_protocol p q" by (rule same_protocol_go_fold [OF 2(1) redo_old_frame])
    then have q: "q = p\<lparr>p_CurChain := p_CurChain q, p_cdm := p_cdm q, p_seqIDMap := p_seqIDMap q, p_out := p_out q\<rparr>"
      by (simp add: same_protocol_def)
    show ?thesis unfolding 2(2) same_protocol_def by (subst q) simp
  qed simp
qed

interpretation clpa: consensus_module "CLPAPbftInsideExtraHandleMod verify ms1 ms2 co prove ords E nows now"
  by unfold_locales
    (auto simp: CLPAPbftInsideExtraHandleMod_def clpa_preprepare_frame clpa_commit_frame clpa_sequential_frame
      intro: clpa_propose_frame)

definition clpa_modules :: "go_env \<Rightarrow> extra_op set" where
  "clpa_modules E = {CLPAPbftInsideExtraHandleMod verify ms1 ms2 co prove ords E nows now |
     verify ms1 ms2 co prove ords nows now. True}"

interpretation clpa_runs: consensus_variant "clpa_modules E"
  by (rule consensus_variant.intro) (auto simp: clpa_modules_def intro: clpa.consensus_module_axioms)

end
