(* ===== verification/Clpa_Props.thy ===== *)
theory Clpa_Props
  imports Clpa_Module "HOL-Library.List_Lexorder" "HOL-Library.Char_ord"
begin

text \<open>
  Properties of account migration: what a shard sends partitions its queue and hands over exactly the
  accounts that leave, an account and its queued transactions arrive in the new shard, and a partition
  map received while another one is pending is lost.
\<close>

section \<open>What is sent\<close>

definition clpa_orders_ok :: "clpa_orders \<Rightarrow> bool" where
  "clpa_orders_ok co \<longleftrightarrow>
     (\<forall>m. finite (dom m) \<longrightarrow> ranges_over (co_seq co m) m) \<and> (\<forall>m. finite (dom m) \<longrightarrow> ranges_over (co_modified co m) m) \<and>
     (\<forall>m. finite (dom m) \<longrightarrow> ranges_over (co_received co m) m) \<and> (\<forall>m. finite (dom m) \<longrightarrow> ranges_over (co_accounts co m) m)"

definition home_account :: "transaction \<Rightarrow> address" where
  \<comment> \<open>the account whose shard executes the transaction next\<close>
  "home_account tx = (if tx_Relayed tx then tx_Recipient tx else tx_Sender tx)"

definition leaves :: "go_env \<Rightarrow> pbft_node \<Rightarrow> (address \<rightharpoonup> u64) \<Rightarrow> address \<Rightarrow> bool" where
  "leaves E p mm a \<longleftrightarrow> map_default 0 mm a \<noteq> p_ShardID p \<and> Get_PartitionMap E (p_CurChain p) a = Inr (p_ShardID p)"

lemma belongs_home: "belongs S tx \<longleftrightarrow> home_account tx \<in> S"
  by (auto simp: belongs_def home_account_def)

lemma extract_txs_eq:
  "extract_txs S q (a, b) = (a @ filter (belongs S) q, b @ filter (\<lambda>tx. \<not> belongs S tx) q)"
  by (induction q arbitrary: a b) auto

lemma to_fetch_loop:
  "go_fold (to_fetch E p mm) keys acc = Inr res \<Longrightarrow> res = acc @ filter (leaves E p mm) keys"
proof (induction keys arbitrary: acc)
  case (Cons a keys)
  then obtain acc' where "to_fetch E p mm a acc = Inr acc'" "go_fold (to_fetch E p mm) keys acc' = Inr res"
    by (auto simp: and_then_Inr)
  moreover have "acc' = (if leaves E p mm a then acc @ [a] else acc)"
    using calculation(1) by (auto simp: to_fetch_def leaves_def and_then_Inr split: if_splits)
  ultimately show ?case using Cons.IH [of acc'] by simp
qed simp

lemma other_shards_distinct: "distinct (other_shards p)"
proof -
  have "inj_on u64_of_nat {0 ..< unat (cc_ShardNums (p_ChainConfig p))}"
  proof (rule inj_onI)
    fix x y
    assume "x \<in> {0 ..< unat (cc_ShardNums (p_ChainConfig p))}" "y \<in> {0 ..< unat (cc_ShardNums (p_ChainConfig p))}"
      and eq: "u64_of_nat x = u64_of_nat y"
    then have "x < 2 ^ 64" "y < 2 ^ 64"
      using unsigned_less [of "cc_ShardNums (p_ChainConfig p)", where ?'a = nat] by auto
    then show "x = y" using arg_cong [OF eq, of unat] by (simp add: u64_of_nat_def unat_of_nat take_bit_nat_eq_self)
  qed
  then show ?thesis by (simp add: other_shards_def distinct_map)
qed

definition addrs_to :: "(address \<rightharpoonup> u64) \<Rightarrow> (address \<times> account_state) list \<Rightarrow> u64 \<Rightarrow> address list" where
  "addrs_to mm fetched i = map fst (filter (\<lambda>(addr, s). map_default 0 mm addr = i) fetched)"

definition package :: "(address \<rightharpoonup> u64) \<Rightarrow> (address \<times> account_state) list \<Rightarrow> u64 \<Rightarrow> transaction list \<Rightarrow> u64 \<Rightarrow> account_state_and_tx" where
  "package mm fetched sh q i =
     \<lparr>ast_Addrs = addrs_to mm fetched i, ast_AccountState = map snd (filter (\<lambda>(addr, s). map_default 0 mm addr = i) fetched),
      ast_Txs = filter (\<lambda>tx. home_account tx \<in> set (addrs_to mm fetched i)) q, ast_FromShard = sh\<rparr>"

abbreviation queue_of :: "pbft_node \<Rightarrow> transaction list" where
  "queue_of p \<equiv> TxQueue (bc_Txpool (p_CurChain p))"

lemma send_accounts_to_eq:
  "send_accounts_to mm fetched i p =
     p\<lparr>p_CurChain := (p_CurChain p)\<lparr>bc_Txpool := (bc_Txpool (p_CurChain p))\<lparr>TxQueue :=
           filter (\<lambda>tx. home_account tx \<notin> set (addrs_to mm fetched i)) (queue_of p)\<rparr>\<rparr>,
       p_out := p_out p @ [(ip_of p i 0, AccountStateTxMsg (package mm fetched (p_ShardID p) (queue_of p) i))]\<rparr>"
  by (simp add: send_accounts_to_def Let_def extract_txs_eq belongs_home [abs_def] TcpDial_def set_pool_def package_def ip_of_def addrs_to_def)

lemma addrs_to_disjoint: "i \<noteq> j \<Longrightarrow> set (addrs_to mm fetched i) \<inter> set (addrs_to mm fetched j) = {}"
  by (auto simp: addrs_to_def)

lemma package_filter:
  assumes "\<And>tx. tx \<in> set q \<Longrightarrow> home_account tx \<in> set (addrs_to mm fetched i) \<Longrightarrow> P tx"
  shows "package mm fetched sh (filter P q) i = package mm fetched sh q i"
proof -
  have "filter (\<lambda>tx. home_account tx \<in> set (addrs_to mm fetched i)) (filter P q) =
      filter (\<lambda>tx. home_account tx \<in> set (addrs_to mm fetched i)) q"
    unfolding filter_filter using assms by (intro filter_cong) auto
  then show ?thesis by (simp add: package_def)
qed

lemma send_accounts_fold:
  assumes "distinct sids"
  shows "let p' = fold (send_accounts_to mm fetched) sids p; pkg = package mm fetched (p_ShardID p) (queue_of p) in
    p_out p' = p_out p @ map (\<lambda>i. (ip_of p i 0, AccountStateTxMsg (pkg i))) sids \<and>
    p_CurChain p' = (p_CurChain p)\<lparr>bc_Txpool := (bc_Txpool (p_CurChain p))\<lparr>TxQueue :=
       filter (\<lambda>tx. list_all (\<lambda>i. home_account tx \<notin> set (addrs_to mm fetched i)) sids) (queue_of p)\<rparr>\<rparr>"
  using assms
proof (induction sids arbitrary: p)
  case (Cons j sids)
  let ?pkg = "package mm fetched (p_ShardID p) (queue_of p)"
  let ?p = "send_accounts_to mm fetched j p"
  have e: "?p = p\<lparr>p_CurChain := (p_CurChain p)\<lparr>bc_Txpool := (bc_Txpool (p_CurChain p))\<lparr>TxQueue :=
           filter (\<lambda>tx. home_account tx \<notin> set (addrs_to mm fetched j)) (queue_of p)\<rparr>\<rparr>,
       p_out := p_out p @ [(ip_of p j 0, AccountStateTxMsg (?pkg j))]\<rparr>" by (rule send_accounts_to_eq)
  have f: "p_ShardID ?p = p_ShardID p" "ip_of ?p = ip_of p"
    "queue_of ?p = filter (\<lambda>tx. home_account tx \<notin> set (addrs_to mm fetched j)) (queue_of p)"
    by (auto simp: e ip_of_def fun_eq_iff)
  have pkg: "package mm fetched (p_ShardID p) (queue_of ?p) i = ?pkg i" if "i \<in> set sids" for i
  proof -
    have "i \<noteq> j" using that Cons.prems by auto
    from addrs_to_disjoint [OF this, of mm fetched] show ?thesis
      unfolding f by (intro package_filter) blast
  qed
  have IH: "p_out (fold (send_accounts_to mm fetched) sids ?p) = p_out ?p @ map (\<lambda>i. (ip_of p i 0, AccountStateTxMsg (?pkg i))) sids"
    "p_CurChain (fold (send_accounts_to mm fetched) sids ?p) = (p_CurChain ?p)\<lparr>bc_Txpool := (bc_Txpool (p_CurChain ?p))\<lparr>TxQueue :=
       filter (\<lambda>tx. list_all (\<lambda>i. home_account tx \<notin> set (addrs_to mm fetched i)) sids) (queue_of ?p)\<rparr>\<rparr>"
    using Cons.IH [of ?p] Cons.prems pkg by (simp_all add: Let_def f(1,2))
  have "p_CurChain ?p = (p_CurChain p)\<lparr>bc_Txpool := (bc_Txpool (p_CurChain p))\<lparr>TxQueue := queue_of ?p\<rparr>\<rparr>"
    "p_out ?p = p_out p @ [(ip_of p j 0, AccountStateTxMsg (?pkg j))]" by (simp_all add: e)
  with IH show ?case by (simp add: Let_def f(3) conj_commute)
qed simp

lemma sent_packages:
  assumes "sendAccounts_and_Txs co E p = Inr p'" and "cd_ModifiedMap (p_cdm p) = ms @ [mm]"
  obtains st where "bc_triedb (p_CurChain p) (bh_StateRoot (cur_header (p_CurChain p))) = Some st"
    and "p' = fold (send_accounts_to mm (map (\<lambda>a. (a, account_or_new 0 st a)) (filter (leaves E p mm) (co_modified co mm)))) (other_shards p) p"
proof -
  from assms obtain ac as where ac: "go_fold (to_fetch E p mm) (co_modified co mm) [] = Inr ac"
    and as: "FetchAccounts ac (p_CurChain p) = Inr as" and p': "p' = fold (send_accounts_to mm (zip ac as)) (other_shards p) p"
    by (auto simp: sendAccounts_and_Txs_def and_then_Inr go_nth_def)
  from to_fetch_loop [OF ac] have "ac = filter (leaves E p mm) (co_modified co mm)" by simp
  moreover obtain st where "bc_triedb (p_CurChain p) (bh_StateRoot (cur_header (p_CurChain p))) = Some st" "as = map (account_or_new 0 st) ac"
    using as by (auto simp: FetchAccounts_def split: option.splits)
  ultimately show thesis using p' that [of st] by (simp add: zip_map2 zip_same_conv_map comp_def)
qed

lemma mset_partition_disjoint:
  assumes "distinct is" and "\<And>i j. i \<noteq> j \<Longrightarrow> S i \<inter> S j = {}"
  shows "mset (filter (\<lambda>x. list_all (\<lambda>i. f x \<notin> S i) is) q) + (\<Sum>i\<leftarrow>is. mset (filter (\<lambda>x. f x \<in> S i) q)) = mset q"
  using assms(1)
proof (induction "is" arbitrary: q)
  case (Cons i "is")
  let ?q = "filter (\<lambda>x. f x \<notin> S i) q"
  have "filter (\<lambda>x. f x \<in> S j) ?q = filter (\<lambda>x. f x \<in> S j) q" if "j \<in> set is" for j
    unfolding filter_filter using assms(2) [of j i] that Cons.prems by (intro filter_cong) auto
  then have "(\<Sum>j\<leftarrow>is. mset (filter (\<lambda>x. f x \<in> S j) q)) = (\<Sum>j\<leftarrow>is. mset (filter (\<lambda>x. f x \<in> S j) ?q))"
    by (intro arg_cong [of _ _ sum_list] map_cong) auto
  moreover have "filter (\<lambda>x. list_all (\<lambda>i. f x \<notin> S i) (i # is)) q = filter (\<lambda>x. list_all (\<lambda>i. f x \<notin> S i) is) ?q"
    by (simp add: conj_commute)
  moreover have "mset ?q + mset (filter (\<lambda>x. f x \<in> S i) q) = mset q"
    by (induction q) auto
  ultimately show ?case using Cons.IH [of ?q] Cons.prems by (simp add: ac_simps)
qed simp

lemma migration_packages:
  assumes "sendAccounts_and_Txs co E p = Inr p'" and "cd_ModifiedMap (p_cdm p) = ms @ [mm]"
    and "clpa_orders_ok co" and "finite (dom mm)"
  shows "\<exists>pkg. p_out p' = p_out p @ map (\<lambda>i. (ip_of p i 0, AccountStateTxMsg (pkg i))) (other_shards p) \<and>
    (\<forall>i \<in> set (other_shards p). distinct (ast_Addrs (pkg i)) \<and>
       set (ast_Addrs (pkg i)) = {a. mm a = Some i \<and> Get_PartitionMap E (p_CurChain p) a = Inr (p_ShardID p)} \<and>
       FetchAccounts (ast_Addrs (pkg i)) (p_CurChain p) = Inr (ast_AccountState (pkg i)) \<and>
       ast_Txs (pkg i) = filter (\<lambda>tx. home_account tx \<in> set (ast_Addrs (pkg i))) (queue_of p) \<and>
       ast_FromShard (pkg i) = p_ShardID p) \<and>
    queue_of p' = filter (\<lambda>tx. list_all (\<lambda>i. home_account tx \<notin> set (ast_Addrs (pkg i))) (other_shards p)) (queue_of p) \<and>
    mset (queue_of p') + (\<Sum>i\<leftarrow>other_shards p. mset (ast_Txs (pkg i))) = mset (queue_of p) \<and>
    p_CurChain p' = with_pool (bc_Txpool (p_CurChain p')) (p_CurChain p)"
proof -
  obtain st where st: "bc_triedb (p_CurChain p) (bh_StateRoot (cur_header (p_CurChain p))) = Some st"
    and p': "p' = fold (send_accounts_to mm (map (\<lambda>a. (a, account_or_new 0 st a)) (filter (leaves E p mm) (co_modified co mm)))) (other_shards p) p"
    by (rule sent_packages [OF assms(1,2)])
  define fetched where "fetched = map (\<lambda>a. (a, account_or_new 0 st a)) (filter (leaves E p mm) (co_modified co mm))"
  let ?pkg = "package mm fetched (p_ShardID p) (queue_of p)"
  have ord: "distinct (co_modified co mm)" "set (co_modified co mm) = dom mm"
    using assms(3,4) by (auto simp: clpa_orders_ok_def ranges_over_def)
  have addrs: "addrs_to mm fetched i = filter (\<lambda>a. map_default 0 mm a = i) (filter (leaves E p mm) (co_modified co mm))"
    and states: "map snd (filter (\<lambda>(addr, s). map_default 0 mm addr = i) fetched) = map (account_or_new 0 st) (addrs_to mm fetched i)" for i
    by (simp_all add: addrs_to_def fetched_def filter_map comp_def)
  have set_addrs: "set (addrs_to mm fetched i) = {a. mm a = Some i \<and> Get_PartitionMap E (p_CurChain p) a = Inr (p_ShardID p)}"
    if "i \<in> set (other_shards p)" for i
    using that by (auto simp: addrs ord leaves_def other_shards_def map_default_def split: option.splits)
  have fold: "p_out p' = p_out p @ map (\<lambda>i. (ip_of p i 0, AccountStateTxMsg (?pkg i))) (other_shards p)"
    "p_CurChain p' = (p_CurChain p)\<lparr>bc_Txpool := (bc_Txpool (p_CurChain p))\<lparr>TxQueue :=
       filter (\<lambda>tx. list_all (\<lambda>i. home_account tx \<notin> set (addrs_to mm fetched i)) (other_shards p)) (queue_of p)\<rparr>\<rparr>"
    using send_accounts_fold [OF other_shards_distinct, of mm fetched p] unfolding p' fetched_def Let_def by blast+
  have "mset (queue_of p') + (\<Sum>i\<leftarrow>other_shards p. mset (ast_Txs (?pkg i))) = mset (queue_of p)"
    using mset_partition_disjoint [OF other_shards_distinct, where S = "\<lambda>i. set (addrs_to mm fetched i)" and f = home_account
        and q = "queue_of p" and p1 = p, OF addrs_to_disjoint]
    by (simp add: fold(2) package_def)
  then show ?thesis
    using fold set_addrs ord(1) by (intro exI [of _ ?pkg])
      (auto simp: package_def addrs states st FetchAccounts_def with_pool_def)
qed

text \<open>
  C34. Migration out of a shard. When \<open>sendAccounts_and_Txs\<close> returns, the leader has sent one package to the
  leader of every other shard: the accounts of this shard that the newest partition map assigns to that
  shard, without repetition, their states as the trie has them, and exactly the queued transactions
  that these accounts have to execute next, in queue order. What stays in the queue are the
  transactions of no account that was sent; queue and packages together are the old queue, so no
  transaction is lost or duplicated. Nothing else of the chain changes.
\<close>

theorem migration_sends:
  assumes "sendAccounts_and_Txs co E p = Inr p'" and "cd_ModifiedMap (p_cdm p) = ms @ [mm]"
    and "clpa_orders_ok co" and "finite (dom mm)"
  shows "\<exists>pkg. p_out p' = p_out p @ map (\<lambda>i. (ip_of p i 0, AccountStateTxMsg (pkg i))) (other_shards p) \<and>
    (\<forall>i \<in> set (other_shards p). distinct (ast_Addrs (pkg i)) \<and>
       set (ast_Addrs (pkg i)) = {a. mm a = Some i \<and> Get_PartitionMap E (p_CurChain p) a = Inr (p_ShardID p)} \<and>
       FetchAccounts (ast_Addrs (pkg i)) (p_CurChain p) = Inr (ast_AccountState (pkg i)) \<and>
       ast_Txs (pkg i) = filter (\<lambda>tx. home_account tx \<in> set (ast_Addrs (pkg i))) (queue_of p) \<and>
       ast_FromShard (pkg i) = p_ShardID p) \<and>
    queue_of p' = filter (\<lambda>tx. list_all (\<lambda>i. home_account tx \<notin> set (ast_Addrs (pkg i))) (other_shards p)) (queue_of p) \<and>
    mset (queue_of p') + (\<Sum>i\<leftarrow>other_shards p. mset (ast_Txs (pkg i))) = mset (queue_of p) \<and>
    p_CurChain p' = with_pool (bc_Txpool (p_CurChain p')) (p_CurChain p)"
  using assms by (rule migration_packages)

section \<open>What arrives\<close>

lemma entries_range:
  assumes "ranges_over ord m"
  shows "map fst (entries ord m) = ord" "map snd (entries ord m) = map (the \<circ> m) ord"
proof -
  have "map fst (entries ks m) = ks \<and> map snd (entries ks m) = map (the \<circ> m) ks" if "set ks \<subseteq> dom m" for ks
    using that by (induction ks) (auto split: option.splits)
  from this [of ord] assms show "map fst (entries ord m) = ord" "map snd (entries ord m) = map (the \<circ> m) ord"
    by (auto simp: ranges_over_def)
qed

lemma received_states:
  assumes "go_foldi (put_account as) i addrs m = Inr m'"
  shows "(\<forall>a. a \<notin> set addrs \<longrightarrow> m' a = m a) \<and> (finite (dom m) \<longrightarrow> finite (dom m')) \<and>
    (distinct addrs \<longrightarrow> (\<forall>k < length addrs. i + k < length as \<and> m' (addrs ! k) = Some (as ! (i + k))))"
  using assms
proof (induction addrs arbitrary: i m)
  case (Cons a addrs)
  then obtain m1 where m1: "put_account as i a m = Inr m1" and m1_rest: "go_foldi (put_account as) (Suc i) addrs m1 = Inr m'"
    by (auto simp: and_then_Inr)
  then have i: "i < length as" and m1': "m1 = m(a \<mapsto> as ! i)" by (auto simp: put_account_def and_then_Inr go_nth_Inr)
  note rest = m1_rest [unfolded m1']
  note IH = Cons.IH [OF rest]
  have "i + k < length as \<and> m' ((a # addrs) ! k) = Some (as ! (i + k))"
    if "distinct (a # addrs)" "k < length (a # addrs)" for k
  proof (cases k)
    case 0
    have "m' a = (m(a \<mapsto> as ! i)) a" using IH that(1) by (metis distinct.simps(2))
    with 0 i show ?thesis by simp
  next
    case (Suc l)
    then have "Suc i + l < length as \<and> m' (addrs ! l) = Some (as ! (Suc i + l))" using IH that by auto
    with Suc show ?thesis by simp
  qed
  moreover have "m' x = m x" if "x \<notin> set (a # addrs)" for x using IH that by simp
  moreover have "finite (dom m')" if "finite (dom m)"
  proof -
    have "finite (dom (m(a \<mapsto> as ! i)))" by (subst dom_fun_upd) (use that in simp)
    with IH show ?thesis by blast
  qed
  ultimately show ?case by blast
qed simp

lemma receive_from_cases:
  assumes "receive_from sid c = Inr c'"
  obtains at m where "cd_AccountStateTx c sid = Some at"
    and "go_foldi (put_account (ast_AccountState at)) 0 (ast_Addrs at) (cd_ReceivedNewAccountState c) = Inr m"
    and "c' = c\<lparr>cd_ReceivedNewAccountState := m, cd_ReceivedNewTx := cd_ReceivedNewTx c @ ast_Txs at\<rparr>"
  using assms by (auto simp: receive_from_def receive_accounts_def and_then_Inr split: option.splits)

lemma receive_others:
  assumes "go_fold receive_from sids c = Inr c'"
    and "\<forall>sid \<in> set sids. \<forall>at. cd_AccountStateTx c sid = Some at \<longrightarrow> a \<notin> set (ast_Addrs at)"
  shows "cd_ReceivedNewAccountState c' a = cd_ReceivedNewAccountState c a \<and> cd_AccountStateTx c' = cd_AccountStateTx c \<and>
    set (cd_ReceivedNewTx c) \<subseteq> set (cd_ReceivedNewTx c')"
proof -
  let ?P = "\<lambda>d. cd_ReceivedNewAccountState d a = cd_ReceivedNewAccountState c a \<and> cd_AccountStateTx d = cd_AccountStateTx c \<and>
    set (cd_ReceivedNewTx c) \<subseteq> set (cd_ReceivedNewTx d)"
  show ?thesis
  proof (rule go_fold_inv [OF assms(1), where P = ?P])
    fix sid t t' assume "sid \<in> set sids" "?P t" and "receive_from sid t = Inr t'"
    then show "?P t'" using assms(2) by (elim receive_from_cases) (auto dest: received_states)
  qed simp
qed

lemma receive_frame:
  assumes "go_fold receive_from sids c = Inr c'"
  shows "cd_ModifiedMap c' = cd_ModifiedMap c \<and> cd_AccountTransferRound c' = cd_AccountTransferRound c \<and>
    (finite (dom (cd_ReceivedNewAccountState c)) \<longrightarrow> finite (dom (cd_ReceivedNewAccountState c')))"
  by (rule go_fold_inv [OF assms, where P = "\<lambda>d. cd_ModifiedMap d = cd_ModifiedMap c \<and>
        cd_AccountTransferRound d = cd_AccountTransferRound c \<and>
        (finite (dom (cd_ReceivedNewAccountState c)) \<longrightarrow> finite (dom (cd_ReceivedNewAccountState d)))"])
    (auto elim!: receive_from_cases dest: received_states)

text \<open>One sender holds the account: its state is received, whatever the order of the packages.\<close>

lemma receive_one:
  assumes "go_fold receive_from sids c = Inr c'" and "sA \<in> set sids" and "distinct sids"
    and "cd_AccountStateTx c sA = Some at" and "distinct (ast_Addrs at)" and "k < length (ast_Addrs at)" and "a = ast_Addrs at ! k"
    and others: "\<forall>sid at'. sid \<noteq> sA \<and> cd_AccountStateTx c sid = Some at' \<longrightarrow> a \<notin> set (ast_Addrs at')"
  shows "cd_ReceivedNewAccountState c' a = Some (ast_AccountState at ! k) \<and> set (ast_Txs at) \<subseteq> set (cd_ReceivedNewTx c')"
proof -
  obtain xs ys where sids: "sids = xs @ sA # ys" using assms(2) by (auto simp: in_set_conv_decomp)
  from assms(1) obtain c1 c2 where c1: "go_fold receive_from xs c = Inr c1" and c2: "receive_from sA c1 = Inr c2"
    and c3: "go_fold receive_from ys c2 = Inr c'"
    by (auto simp: sids go_fold_append and_then_Inr)
  have no: "sA \<notin> set xs" "sA \<notin> set ys" using assms(3) by (auto simp: sids)
  have "cd_AccountStateTx c1 = cd_AccountStateTx c" using receive_others [OF c1, of a] no others by metis
  with c2 assms(4) obtain m where m: "go_foldi (put_account (ast_AccountState at)) 0 (ast_Addrs at) (cd_ReceivedNewAccountState c1) = Inr m"
    and c2': "c2 = c1\<lparr>cd_ReceivedNewAccountState := m, cd_ReceivedNewTx := cd_ReceivedNewTx c1 @ ast_Txs at\<rparr>"
    by (auto elim!: receive_from_cases)
  have "m a = Some (ast_AccountState at ! k)" using received_states [OF m] assms(5-7) by simp
  moreover have "cd_ReceivedNewAccountState c' a = cd_ReceivedNewAccountState c2 a \<and> set (cd_ReceivedNewTx c2) \<subseteq> set (cd_ReceivedNewTx c')"
    using receive_others [OF c3, of a] no others \<open>cd_AccountStateTx c1 = cd_AccountStateTx c\<close> by (simp add: c2') (metis)
  ultimately show ?thesis by (auto simp: c2')
qed

lemma update_partition_fold:
  "let bc' = fold (\<lambda>key. Update_PartitionMap key (map_default 0 mm key)) keys bc in
     bc' = bc\<lparr>bc_PartitionMap := bc_PartitionMap bc'\<rparr> \<and>
     bc_PartitionMap bc' a = (if a \<in> set keys then Some (map_default 0 mm a) else bc_PartitionMap bc a)"
proof (induction keys arbitrary: bc)
  case (Cons k keys)
  show ?case using Cons.IH [of "Update_PartitionMap k (map_default 0 mm k) bc"]
    by (auto simp: Let_def Update_PartitionMap_def)
qed simp

lemma proposePartition_cases:
  assumes "proposePartition co nows now p = Inr (r, p')"
  obtains c mm where "go_fold receive_from (co_received co (cd_AccountStateTx (p_cdm p))) (p_cdm p) = Inr c"
    and "go_nth (cd_ModifiedMap c) (int (unat (cd_AccountTransferRound c))) = Inr mm"
    and "r_Content r = TransferContent \<lparr>atm_ModifiedMap = mm,
          atm_Addrs = map fst (entries (co_accounts co (cd_ReceivedNewAccountState c)) (cd_ReceivedNewAccountState c)),
          atm_AccountState = map snd (entries (co_accounts co (cd_ReceivedNewAccountState c)) (cd_ReceivedNewAccountState c)),
          atm_ATid = u64_of_nat (length (cd_ModifiedMap c))\<rparr>"
    and "r_RequestType r = PartitionReq" and "p' = add_to_pool nows (cd_ReceivedNewTx c) (p\<lparr>p_cdm := c\<rparr>)"
proof -
  from assms obtain c mm where "go_fold receive_from (co_received co (cd_AccountStateTx (p_cdm p))) (p_cdm p) = Inr c"
    "go_nth (cd_ModifiedMap c) (int (unat (cd_AccountTransferRound c))) = Inr mm"
    and rp: "(r, p') = (\<lparr>r_RequestType = PartitionReq, r_Content = TransferContent \<lparr>atm_ModifiedMap = mm,
          atm_Addrs = map fst (entries (co_accounts co (cd_ReceivedNewAccountState c)) (cd_ReceivedNewAccountState c)),
          atm_AccountState = map snd (entries (co_accounts co (cd_ReceivedNewAccountState c)) (cd_ReceivedNewAccountState c)),
          atm_ATid = u64_of_nat (length (cd_ModifiedMap c))\<rparr>, r_ReqTime = now\<rparr>,
          add_to_pool nows (cd_ReceivedNewTx c) (p\<lparr>p_cdm := c\<rparr>))"
    unfolding proposePartition_def Let_def and_then_Inr by (metis sum.inject(2))
  with that show thesis by simp
qed

lemma AddAccounts_state:
  assumes "AddAccounts E ac as bc = Inr bc'" and "ac \<noteq> []"
  obtains st st' where "go_foldi (add_account E bc as) 0 ac st = Inr st'"
    and "bc_triedb bc' (bh_StateRoot (cur_header bc')) = Some st'" and "bc_PartitionMap bc' = bc_PartitionMap bc"
  using assms by (auto simp: AddAccounts_def and_then_Inr Let_def NewBlock_def split: option.splits)

lemma accountTransfer_state:
  assumes "accountTransfer_do co E atm q = Inr q'" and "clpa_orders_ok co" and "finite (dom (atm_ModifiedMap atm))"
    and "atm_ModifiedMap atm a = Some (my_shard (p_CurChain q))" and "distinct (atm_Addrs atm)"
    and "k < length (atm_Addrs atm)" and "a = atm_Addrs atm ! k"
  shows "k < length (atm_AccountState atm) \<and> FetchAccounts [a] (p_CurChain q') =
      Inr [new_account (as_Nonce (atm_AccountState atm ! k)) (as_Balance (atm_AccountState atm ! k))] \<and>
    Get_PartitionMap E (p_CurChain q') a = Inr (my_shard (p_CurChain q))"
proof -
  define bc where "bc = fold (\<lambda>key. Update_PartitionMap key (map_default 0 (atm_ModifiedMap atm) key))
      (co_modified co (atm_ModifiedMap atm)) (p_CurChain q)"
  from assms(1) have add: "AddAccounts E (atm_Addrs atm) (atm_AccountState atm) bc = Inr (p_CurChain q')"
    by (auto simp: accountTransfer_do_def and_then_Inr Let_def bc_def upd_cdm_def)
  have "a \<in> set (co_modified co (atm_ModifiedMap atm))"
    using assms(2-4) by (auto simp: clpa_orders_ok_def ranges_over_def)
  then have bc: "bc = (p_CurChain q)\<lparr>bc_PartitionMap := bc_PartitionMap bc\<rparr>"
      "bc_PartitionMap bc a = Some (map_default 0 (atm_ModifiedMap atm) a)"
    using update_partition_fold [of "atm_ModifiedMap atm" "co_modified co (atm_ModifiedMap atm)" "p_CurChain q" a]
    by (simp_all add: bc_def Let_def)
  then have here: "bc_PartitionMap bc a = Some (my_shard (p_CurChain q))" using assms(4) by (simp add: map_default_def)
  have "my_shard bc = my_shard (p_CurChain q)" by (subst bc(1)) simp
  with here have loc: "Get_PartitionMap E bc a = Inr (my_shard bc)" by (simp add: Get_PartitionMap_def)
  have "atm_Addrs atm \<noteq> []" using assms(6) by auto
  with add obtain st st' where loop: "go_foldi (add_account E bc (atm_AccountState atm)) 0 (atm_Addrs atm) st = Inr st'"
    and q': "bc_triedb (p_CurChain q') (bh_StateRoot (cur_header (p_CurChain q'))) = Some st'"
      "bc_PartitionMap (p_CurChain q') = bc_PartitionMap bc"
    by (rule AddAccounts_state)
  from add_accounts_loop [OF loop assms(5)] assms(6,7) loc show ?thesis
    using here q' by (simp add: FetchAccounts_def account_or_new_def Get_PartitionMap_def)
qed

lemma in_package:
  assumes "FetchAccounts addrs bc = Inr as" and "a \<in> set addrs" and "FetchAccounts [a] bc = Inr [s]"
  obtains k where "k < length addrs" and "a = addrs ! k" and "as ! k = s" and "length as = length addrs"
proof -
  obtain k where k: "k < length addrs" "a = addrs ! k" using assms(2) by (metis in_set_conv_nth)
  moreover have "as ! k = s" "length as = length addrs" using assms(1,3) k by (auto simp: FetchAccounts_def split: option.splits)
  ultimately show thesis using that by blast
qed

lemma stamp_all_keeps: "tx \<in> set txs \<Longrightarrow> tx_Time tx \<noteq> 0 \<Longrightarrow> tx \<in> set (stamp_all nows txs)"
  by (force simp: stamp_all_def stamp_def in_set_conv_nth enumerate_eq_zip)

lemma requested_state:
  assumes "proposePartition co nows now p = Inr (r, p')" and "r_Content r = TransferContent atm"
    and "clpa_orders_ok co" and "finite (dom (cd_AccountStateTx (p_cdm p)))"
    and "finite (dom (cd_ReceivedNewAccountState (p_cdm p)))"
    and "cd_AccountStateTx (p_cdm p) sA = Some at" and "distinct (ast_Addrs at)" and "i < length (ast_Addrs at)"
    and "\<forall>sid at'. sid \<noteq> sA \<and> cd_AccountStateTx (p_cdm p) sid = Some at' \<longrightarrow> ast_Addrs at ! i \<notin> set (ast_Addrs at')"
    and "cd_ModifiedMap (p_cdm p) = ms @ [mm]" and "unat (cd_AccountTransferRound (p_cdm p)) = length ms"
  shows "atm_ModifiedMap atm = mm \<and> distinct (atm_Addrs atm) \<and>
    (\<exists>k < length (atm_Addrs atm). atm_Addrs atm ! k = ast_Addrs at ! i \<and> atm_AccountState atm ! k = ast_AccountState at ! i) \<and>
    (\<forall>tx \<in> set (ast_Txs at). tx_Time tx \<noteq> 0 \<longrightarrow> tx \<in> set (queue_of p'))"
proof -
  from assms(1) obtain c mm' where c: "go_fold receive_from (co_received co (cd_AccountStateTx (p_cdm p))) (p_cdm p) = Inr c"
    and mm': "go_nth (cd_ModifiedMap c) (int (unat (cd_AccountTransferRound c))) = Inr mm'"
    and r: "r_Content r = TransferContent \<lparr>atm_ModifiedMap = mm',
          atm_Addrs = map fst (entries (co_accounts co (cd_ReceivedNewAccountState c)) (cd_ReceivedNewAccountState c)),
          atm_AccountState = map snd (entries (co_accounts co (cd_ReceivedNewAccountState c)) (cd_ReceivedNewAccountState c)),
          atm_ATid = u64_of_nat (length (cd_ModifiedMap c))\<rparr>"
    and p': "p' = add_to_pool nows (cd_ReceivedNewTx c) (p\<lparr>p_cdm := c\<rparr>)" by (rule proposePartition_cases)
  let ?R = "cd_ReceivedNewAccountState c"
  have fr: "cd_ModifiedMap c = ms @ [mm]" "unat (cd_AccountTransferRound c) = length ms" "finite (dom ?R)"
    using receive_frame [OF c] assms(5,10,11) by simp_all
  have rcv: "ranges_over (co_received co (cd_AccountStateTx (p_cdm p))) (cd_AccountStateTx (p_cdm p))"
    and acc: "ranges_over (co_accounts co ?R) ?R" using assms(3,4) fr(3) by (simp_all add: clpa_orders_ok_def)
  have one: "?R (ast_Addrs at ! i) = Some (ast_AccountState at ! i) \<and> set (ast_Txs at) \<subseteq> set (cd_ReceivedNewTx c)"
    using rcv assms(6-9) by (intro receive_one [OF c]) (auto simp: ranges_over_def)
  then obtain k where k: "k < length (co_accounts co ?R)" "co_accounts co ?R ! k = ast_Addrs at ! i"
    using acc by (metis domI in_set_conv_nth ranges_over_def)
  have atm: "atm_Addrs atm = co_accounts co ?R" "atm_AccountState atm = map (the \<circ> ?R) (co_accounts co ?R)" "atm_ModifiedMap atm = mm'"
    using assms(2) r entries_range [OF acc] by (auto simp: account_transfer_msg.defs)
  moreover have "mm' = mm" using mm' fr by (simp add: go_nth_Inr)
  moreover have "tx \<in> set (queue_of p')" if "tx \<in> set (ast_Txs at)" "tx_Time tx \<noteq> 0" for tx
    using one that stamp_all_keeps [of tx "cd_ReceivedNewTx c" nows]
    by (auto simp: p' add_to_pool_def set_pool_def AddTxs2Pool_def)
  ultimately show ?thesis using k one acc by (auto simp: ranges_over_def)
qed

text \<open>
  C11. A migrated account arrives. Shard A sends its packages, the package for shard B reaches the leader
  of B, no other package carries account \<open>a\<close>, and A and B have the same newest partition map, which
  moves \<open>a\<close> from A to B. When the leader of B proposes the partition request and a node of B executes
  it, that node's chain has \<open>a\<close> with the nonce and balance it had in A, and maps it to B; every
  transaction queued in A that \<open>a\<close> has to execute next is in the queue of B's leader. All of this
  holds whatever order the nodes visit their maps in.
\<close>

theorem migrated_account_arrives:
  assumes "sendAccounts_and_Txs coA E pA = Inr pA'" and "cd_ModifiedMap (p_cdm pA) = msA @ [mm]"
    and "clpa_orders_ok coA" and "clpa_orders_ok coB" and "clpa_orders_ok co" and "finite (dom mm)"
    and "mm a = Some (p_ShardID pB)" and "Get_PartitionMap E (p_CurChain pA) a = Inr (p_ShardID pA)"
    and "p_ShardID pB \<in> set (other_shards pA)" and "inj_on (\<lambda>i. ip_of pA i 0) (set (other_shards pA))"
    and "(ip_of pA (p_ShardID pB) 0, AccountStateTxMsg at) \<in> set (drop (length (p_out pA)) (p_out pA'))"
    and "cd_AccountStateTx (p_cdm pB) (p_ShardID pA) = Some at" and "finite (dom (cd_AccountStateTx (p_cdm pB)))"
    and "\<forall>sid at'. sid \<noteq> p_ShardID pA \<and> cd_AccountStateTx (p_cdm pB) sid = Some at' \<longrightarrow> a \<notin> set (ast_Addrs at')"
    and "finite (dom (cd_ReceivedNewAccountState (p_cdm pB)))"
    and "cd_ModifiedMap (p_cdm pB) = msB @ [mm]" and "unat (cd_AccountTransferRound (p_cdm pB)) = length msB"
    and "proposePartition coB nows now pB = Inr (r, pB')" and "r_Content r = TransferContent atm"
    and "accountTransfer_do co E atm q = Inr q'" and "my_shard (p_CurChain q) = p_ShardID pB"
    and "FetchAccounts [a] (p_CurChain pA) = Inr [s]"
  shows "FetchAccounts [a] (p_CurChain q') = Inr [new_account (as_Nonce s) (as_Balance s)] \<and>
    Get_PartitionMap E (p_CurChain q') a = Inr (p_ShardID pB) \<and>
    (\<forall>tx \<in> set (queue_of pA). home_account tx = a \<and> tx_Time tx \<noteq> 0 \<longrightarrow> tx \<in> set (queue_of pB'))"
proof -
  obtain pkg where out: "p_out pA' = p_out pA @ map (\<lambda>i. (ip_of pA i 0, AccountStateTxMsg (pkg i))) (other_shards pA)"
    and pkgs: "\<forall>i \<in> set (other_shards pA). distinct (ast_Addrs (pkg i)) \<and>
       set (ast_Addrs (pkg i)) = {a. mm a = Some i \<and> Get_PartitionMap E (p_CurChain pA) a = Inr (p_ShardID pA)} \<and>
       FetchAccounts (ast_Addrs (pkg i)) (p_CurChain pA) = Inr (ast_AccountState (pkg i)) \<and>
       ast_Txs (pkg i) = filter (\<lambda>tx. home_account tx \<in> set (ast_Addrs (pkg i))) (queue_of pA) \<and>
       ast_FromShard (pkg i) = p_ShardID pA"
    using migration_packages [OF assms(1-3,6)] by blast
  have at: "at = pkg (p_ShardID pB)" using assms(9-11) by (auto simp: out dest: inj_onD)
  have pk: "distinct (ast_Addrs at)" "a \<in> set (ast_Addrs at)" "FetchAccounts (ast_Addrs at) (p_CurChain pA) = Inr (ast_AccountState at)"
    "ast_Txs at = filter (\<lambda>tx. home_account tx \<in> set (ast_Addrs at)) (queue_of pA)"
    using pkgs assms(7-9) by (simp_all add: at)
  obtain i where i: "i < length (ast_Addrs at)" "a = ast_Addrs at ! i" "ast_AccountState at ! i = s"
    by (rule in_package [OF pk(3,2) assms(22)])
  note req = requested_state [OF assms(18,19,4,13,15,12) pk(1) i(1) _ assms(16,17)]
  have req: "atm_ModifiedMap atm = mm \<and> distinct (atm_Addrs atm) \<and>
    (\<exists>k < length (atm_Addrs atm). atm_Addrs atm ! k = ast_Addrs at ! i \<and> atm_AccountState atm ! k = ast_AccountState at ! i) \<and>
    (\<forall>tx \<in> set (ast_Txs at). tx_Time tx \<noteq> 0 \<longrightarrow> tx \<in> set (queue_of pB'))"
    by (rule req) (use assms(14) i(2) in simp)
  then obtain k where k: "k < length (atm_Addrs atm)" "a = atm_Addrs atm ! k" "atm_AccountState atm ! k = s" using i by auto
  have "finite (dom (atm_ModifiedMap atm))" "atm_ModifiedMap atm a = Some (my_shard (p_CurChain q))"
    "distinct (atm_Addrs atm)" using req assms(6,7,21) by simp_all
  from accountTransfer_state [OF assms(20,5) this k(1,2)] k(3) assms(21) req pk(2,4) show ?thesis by auto
qed

text \<open>
  A partition map that arrives while another one is pending is lost. If a leader that has carried out
  all its maps receives \<open>m1\<close> and \<open>m2\<close> before it proposes, the request it proposes carries \<open>m1\<close> with
  the number of the round after \<open>m2\<close>: executing it updates the partition map by \<open>m1\<close> only, counts
  both rounds as done and switches partitioning off, so \<open>m2\<close> is never applied (although the packages
  of accounts were chosen by \<open>m2\<close>).
\<close>

theorem pending_map_lost:
  assumes "unat (cd_AccountTransferRound (p_cdm p)) = length (cd_ModifiedMap (p_cdm p))"
    and "length (cd_ModifiedMap (p_cdm p)) + 2 < 2 ^ 64"
    and "proposePartition co nows now (handlePartitionMsg m2 (handlePartitionMsg m1 p)) = Inr (r, p')"
    and "r_Content r = TransferContent atm" and "accountTransfer_do co E atm p' = Inr p''"
    and "clpa_orders_ok co" and "finite (dom m1)"
  shows "bc_PartitionMap (p_CurChain p'') = bc_PartitionMap (p_CurChain p) ++ m1 \<and>
    unat (cd_AccountTransferRound (p_cdm p'')) = length (cd_ModifiedMap (p_cdm p'')) \<and>
    cd_ModifiedMap (p_cdm p'') = cd_ModifiedMap (p_cdm p) @ [m1, m2] \<and> \<not> cd_PartitionOn (p_cdm p'')"
proof -
  let ?q = "handlePartitionMsg m2 (handlePartitionMsg m1 p)" and ?ms = "cd_ModifiedMap (p_cdm p)"
  have q: "cd_ModifiedMap (p_cdm ?q) = ?ms @ [m1, m2]" "cd_AccountTransferRound (p_cdm ?q) = cd_AccountTransferRound (p_cdm p)"
    "p_CurChain ?q = p_CurChain p" by (simp_all add: handlePartitionMsg_def)
  from assms(3) obtain c mm' where c: "go_fold receive_from (co_received co (cd_AccountStateTx (p_cdm ?q))) (p_cdm ?q) = Inr c"
    and mm': "go_nth (cd_ModifiedMap c) (int (unat (cd_AccountTransferRound c))) = Inr mm'"
    and r: "r_Content r = TransferContent \<lparr>atm_ModifiedMap = mm',
          atm_Addrs = map fst (entries (co_accounts co (cd_ReceivedNewAccountState c)) (cd_ReceivedNewAccountState c)),
          atm_AccountState = map snd (entries (co_accounts co (cd_ReceivedNewAccountState c)) (cd_ReceivedNewAccountState c)),
          atm_ATid = u64_of_nat (length (cd_ModifiedMap c))\<rparr>"
    and p': "p' = add_to_pool nows (cd_ReceivedNewTx c) (?q\<lparr>p_cdm := c\<rparr>)" by (rule proposePartition_cases)
  have cm: "cd_ModifiedMap c = ?ms @ [m1, m2]" "cd_AccountTransferRound c = cd_AccountTransferRound (p_cdm p)"
    using receive_frame [OF c] q by simp_all
  have "mm' = m1" using mm' by (simp add: cm assms(1) go_nth_Inr nth_append)
  then have atm: "atm_ModifiedMap atm = m1" "atm_ATid atm = u64_of_nat (length ?ms + 2)"
    using r assms(4) by (auto simp: cm)
  have p'c: "p_cdm p' = c" "bc_PartitionMap (p_CurChain p') = bc_PartitionMap (p_CurChain p)"
    by (simp_all add: p' add_to_pool_def set_pool_def q)
  define bc where "bc = fold (\<lambda>key. Update_PartitionMap key (map_default 0 m1 key)) (co_modified co m1) (p_CurChain p')"
  from assms(5) obtain bc' where add: "AddAccounts E (atm_Addrs atm) (atm_AccountState atm) bc = Inr bc'"
    and p'': "p_CurChain p'' = bc'" "cd_ModifiedMap (p_cdm p'') = ?ms @ [m1, m2]"
      "cd_AccountTransferRound (p_cdm p'') = u64_of_nat (length ?ms + 2)" "\<not> cd_PartitionOn (p_cdm p'')"
    by (auto simp: accountTransfer_do_def and_then_Inr Let_def atm bc_def p'c cm)
  have "bc_PartitionMap bc' = bc_PartitionMap bc"
    using add by (auto simp: AddAccounts_def and_then_Inr Let_def split: prod.splits)
  moreover have "set (co_modified co m1) = dom m1" using assms(6,7) by (auto simp: clpa_orders_ok_def ranges_over_def)
  then have "bc_PartitionMap bc a = (bc_PartitionMap (p_CurChain p) ++ m1) a" for a
    using update_partition_fold [of m1 "co_modified co m1" "p_CurChain p'" a]
    by (auto simp: bc_def Let_def p'c map_default_def map_add_def split: option.splits)
  moreover have "unat (u64_of_nat (length ?ms + 2)) = length ?ms + 2"
    using assms(2) by (simp only: u64_of_nat_def unat_of_nat) (simp add: take_bit_nat_eq_self)
  ultimately show ?thesis using p'' by auto
qed

section \<open>Witnesses\<close>

definition demo_co :: clpa_orders where
  "demo_co = \<lparr>co_seq = (\<lambda>m. sorted_list_of_set (dom m)), co_modified = (\<lambda>m. sorted_list_of_set (dom m)),
     co_received = (\<lambda>m. sorted_list_of_set (dom m)), co_accounts = (\<lambda>m. sorted_list_of_set (dom m))\<rparr>"

lemma demo_co_ok [simp]: "clpa_orders_ok demo_co"
  by (simp add: clpa_orders_ok_def demo_co_def ranges_over_def)

abbreviation demo_mm :: "address \<rightharpoonup> u64" where
  "demo_mm \<equiv> [''a0'' \<mapsto> 1]"

abbreviation demo_moving_tx :: transaction where
  "demo_moving_tx \<equiv> demo_transfer ''a0'' ''b0'' 5 1"

definition demo_pA :: pbft_node where
  "demo_pA = (demo_node (demo_root_chain [demo_moving_tx, demo_transfer ''b0'' ''a0'' 1 1]) 0)
     \<lparr>p_cdm := NewCLPADataSupport\<lparr>cd_ModifiedMap := [demo_mm]\<rparr>\<rparr>"

definition demo_at :: account_state_and_tx where
  "demo_at = \<lparr>ast_Addrs = [''a0''], ast_AccountState = [new_account 0 50], ast_Txs = [demo_moving_tx], ast_FromShard = 0\<rparr>"

definition demo_pB :: "(address \<rightharpoonup> u64) list \<Rightarrow> pbft_node" where
  "demo_pB mms = (demo_node ((demo_root_chain [])\<lparr>bc_ChainConfig := demo_cc\<lparr>cc_ShardID := 1\<rparr>\<rparr>) 0)
     \<lparr>p_ShardID := 1, p_cdm := NewCLPADataSupport\<lparr>cd_ModifiedMap := mms, cd_AccountStateTx := [0 \<mapsto> demo_at]\<rparr>\<rparr>"

lemma demo_send:
  "\<exists>pA'. sendAccounts_and_Txs demo_co demo_env demo_pA = Inr pA' \<and> p_out pA' = [(''m0'', AccountStateTxMsg demo_at)]"
proof -
  have o: "other_shards demo_pA = [1]" using demo_other_shards by (simp add: demo_pA_def other_shards_def demo_node_def)
  show ?thesis
    by (simp add: sendAccounts_and_Txs_def o) (simp add: demo_pA_def demo_node_def go_nth_def demo_co_def to_fetch_def
        Get_PartitionMap_def FetchAccounts_def send_accounts_to_def extract_txs.simps belongs_def set_pool_def TcpDial_def
        ip_of_def demo_table_def map_default_def demo_at_def account_or_new_def demo_state_def NewTxPool_def Let_def; force)
qed

theorem migration_sends_witness:
  "\<exists>pA'. sendAccounts_and_Txs demo_co demo_env demo_pA = Inr pA' \<and>
     mset (queue_of pA') + mset (ast_Txs demo_at) = mset (queue_of demo_pA)"
proof -
  obtain pA' where A: "sendAccounts_and_Txs demo_co demo_env demo_pA = Inr pA'" "p_out pA' = [(''m0'', AccountStateTxMsg demo_at)]"
    using demo_send by blast
  have o: "other_shards demo_pA = [1]" "p_out demo_pA = []"
    using demo_other_shards by (simp_all add: demo_pA_def other_shards_def demo_node_def)
  have m: "cd_ModifiedMap (p_cdm demo_pA) = [] @ [demo_mm]" by (simp add: demo_pA_def)
  obtain pkg where "p_out pA' = p_out demo_pA @ map (\<lambda>i. (ip_of demo_pA i 0, AccountStateTxMsg (pkg i))) (other_shards demo_pA)"
    "mset (queue_of pA') + (\<Sum>i\<leftarrow>other_shards demo_pA. mset (ast_Txs (pkg i))) = mset (queue_of demo_pA)"
    using migration_sends [OF A(1) m demo_co_ok] by auto
  with A show ?thesis by (auto simp: o)
qed

lemma demo_propose:
  "\<exists>r p'. proposePartition demo_co (\<lambda>i. 1) 1 (demo_pB (demo_mm # mms)) = Inr (r, p') \<and> r_Content r = TransferContent
     \<lparr>atm_ModifiedMap = demo_mm, atm_Addrs = [''a0''], atm_AccountState = [new_account 0 50], atm_ATid = u64_of_nat (Suc (length mms))\<rparr>"
  by (simp add: proposePartition_def demo_pB_def demo_node_def demo_co_def receive_from_def receive_accounts_def demo_at_def
      put_account_def go_nth_def check_new_tx_def map_default_def NewCLPADataSupport_def)

lemma demo_transfer_done:
  assumes "with_pool tp (p_CurChain p) = with_pool tp ((demo_root_chain [])\<lparr>bc_ChainConfig := demo_cc\<lparr>cc_ShardID := 1\<rparr>\<rparr>)"
  shows "\<exists>q'. accountTransfer_do demo_co demo_env
     \<lparr>atm_ModifiedMap = demo_mm, atm_Addrs = [''a0''], atm_AccountState = [new_account 0 50], atm_ATid = k\<rparr> p = Inr q'"
proof -
  have r: "state_root demo_env demo_state = [50, 10, 255]" "demo_state(''a0'' \<mapsto> new_account 0 50) = demo_state"
    by (simp add: demo_root) (simp add: demo_state_def fun_eq_iff)
  have "p_CurChain p = with_pool (bc_Txpool (p_CurChain p)) (with_pool tp (p_CurChain p))" by (simp add: with_pool_def)
  then have "p_CurChain p = (demo_root_chain [])\<lparr>bc_ChainConfig := demo_cc\<lparr>cc_ShardID := 1\<rparr>, bc_Txpool := bc_Txpool (p_CurChain p)\<rparr>"
    unfolding assms by (simp add: with_pool_def)
  then obtain tp' where bc: "p_CurChain p = (demo_root_chain [])\<lparr>bc_ChainConfig := demo_cc\<lparr>cc_ShardID := 1\<rparr>, bc_Txpool := tp'\<rparr>" by blast
  show ?thesis
    by (simp add: accountTransfer_do_def bc demo_co_def Update_PartitionMap_def AddAccounts_def
        add_account_def Get_PartitionMap_def go_nth_def Let_def Storage_AddBlock_def bolt_put_def AddBlockHeader_def
        NewBlock_def r map_default_def demo_env_def [THEN arg_cong [of _ _ hash_header]])
qed

theorem migrated_account_arrives_witness:
  "\<exists>r pB' atm q'. proposePartition demo_co (\<lambda>i. 1) 1 (demo_pB [demo_mm]) = Inr (r, pB') \<and>
     r_Content r = TransferContent atm \<and> accountTransfer_do demo_co demo_env atm (demo_pB [demo_mm]) = Inr q' \<and>
     FetchAccounts [''a0''] (p_CurChain q') = Inr [new_account 0 50] \<and>
     Get_PartitionMap demo_env (p_CurChain q') ''a0'' = Inr 1"
proof -
  obtain pA' where A: "sendAccounts_and_Txs demo_co demo_env demo_pA = Inr pA'" "p_out pA' = [(''m0'', AccountStateTxMsg demo_at)]"
    using demo_send by blast
  obtain r pB' where B: "proposePartition demo_co (\<lambda>i. 1) 1 (demo_pB [demo_mm]) = Inr (r, pB')"
    and atm: "r_Content r = TransferContent \<lparr>atm_ModifiedMap = demo_mm, atm_Addrs = [''a0''],
       atm_AccountState = [new_account 0 50], atm_ATid = u64_of_nat 1\<rparr>" using demo_propose [of "[]"] by auto
  have pB: "with_pool NewTxPool (p_CurChain (demo_pB [demo_mm])) = with_pool NewTxPool ((demo_root_chain [])\<lparr>bc_ChainConfig := demo_cc\<lparr>cc_ShardID := 1\<rparr>\<rparr>)"
    by (simp add: demo_pB_def demo_node_def)
  obtain q' where q: "accountTransfer_do demo_co demo_env \<lparr>atm_ModifiedMap = demo_mm, atm_Addrs = [''a0''],
       atm_AccountState = [new_account 0 50], atm_ATid = u64_of_nat 1\<rparr> (demo_pB [demo_mm]) = Inr q'"
    using demo_transfer_done [of NewTxPool "demo_pB [demo_mm]"] pB by blast
  have sh: "p_ShardID (demo_pB [demo_mm]) = 1" "p_ShardID demo_pA = 0" "p_out demo_pA = []"
    "other_shards demo_pA = [1]" "ip_of demo_pA 1 0 = ''m0''" "my_shard (p_CurChain (demo_pB [demo_mm])) = 1"
    using demo_other_shards
    by (simp_all add: demo_pB_def demo_pA_def demo_node_def other_shards_def ip_of_def demo_table_def map_default_def)
  have cd: "cd_ModifiedMap (p_cdm demo_pA) = [] @ [demo_mm]" "cd_ModifiedMap (p_cdm (demo_pB [demo_mm])) = [] @ [demo_mm]"
    "cd_AccountStateTx (p_cdm (demo_pB [demo_mm])) = [0 \<mapsto> demo_at]"
    "cd_ReceivedNewAccountState (p_cdm (demo_pB [demo_mm])) = Map.empty" "cd_AccountTransferRound (p_cdm (demo_pB [demo_mm])) = 0"
    by (simp_all add: demo_pB_def demo_pA_def NewCLPADataSupport_def)
  have st: "FetchAccounts [''a0''] (p_CurChain demo_pA) = Inr [new_account 0 50]"
    "Get_PartitionMap demo_env (p_CurChain demo_pA) ''a0'' = Inr 0"
    by (simp_all add: demo_pA_def demo_node_def FetchAccounts_def account_or_new_def demo_state_def Get_PartitionMap_def)
  have "FetchAccounts [''a0''] (p_CurChain q') = Inr [new_account 0 50] \<and> Get_PartitionMap demo_env (p_CurChain q') ''a0'' = Inr 1"
    using migrated_account_arrives [OF A(1) cd(1) demo_co_ok demo_co_ok demo_co_ok _ _ _ _ _ _ _ _ _ _ cd(2) _ B atm q,
        of "''a0''" demo_at "new_account 0 50"] by (simp add: sh cd st A(2))
  with B atm q show ?thesis by blast
qed

theorem pending_map_lost_witness:
  "\<exists>r p' atm p''. proposePartition demo_co (\<lambda>i. 1) 1 (handlePartitionMsg [''b0'' \<mapsto> 1] (handlePartitionMsg demo_mm (demo_pB []))) = Inr (r, p') \<and>
     r_Content r = TransferContent atm \<and> accountTransfer_do demo_co demo_env atm p' = Inr p'' \<and>
     bc_PartitionMap (p_CurChain p'') ''b0'' = None"
proof -
  have pp: "handlePartitionMsg [''b0'' \<mapsto> 1] (handlePartitionMsg demo_mm (demo_pB [])) =
      (demo_pB [demo_mm, [''b0'' \<mapsto> 1]])\<lparr>p_cdm := (p_cdm (demo_pB [demo_mm, [''b0'' \<mapsto> 1]]))\<lparr>cd_PartitionOn := True\<rparr>\<rparr>"
    by (simp add: handlePartitionMsg_def upd_cdm_def demo_pB_def)
  obtain r p' where B: "proposePartition demo_co (\<lambda>i. 1) 1 (handlePartitionMsg [''b0'' \<mapsto> 1] (handlePartitionMsg demo_mm (demo_pB []))) = Inr (r, p')"
    and atm: "r_Content r = TransferContent \<lparr>atm_ModifiedMap = demo_mm, atm_Addrs = [''a0''],
       atm_AccountState = [new_account 0 50], atm_ATid = u64_of_nat (Suc (Suc 0))\<rparr>"
    and bc: "with_pool NewTxPool (p_CurChain p') = with_pool NewTxPool ((demo_root_chain [])\<lparr>bc_ChainConfig := demo_cc\<lparr>cc_ShardID := 1\<rparr>\<rparr>)"
    unfolding pp
    by (simp add: proposePartition_def demo_pB_def demo_node_def demo_co_def receive_from_def receive_accounts_def demo_at_def
      put_account_def go_nth_def check_new_tx_def map_default_def NewCLPADataSupport_def add_to_pool_def set_pool_def with_pool_def)
  obtain p'' where T: "accountTransfer_do demo_co demo_env \<lparr>atm_ModifiedMap = demo_mm, atm_Addrs = [''a0''],
       atm_AccountState = [new_account 0 50], atm_ATid = u64_of_nat (Suc (Suc 0))\<rparr> p' = Inr p''" using demo_transfer_done [OF bc] by blast
  have c: "unat (cd_AccountTransferRound (p_cdm (demo_pB []))) = length (cd_ModifiedMap (p_cdm (demo_pB [])))"
    "length (cd_ModifiedMap (p_cdm (demo_pB []))) + 2 < 2 ^ 64" "bc_PartitionMap (p_CurChain (demo_pB [])) = Map.empty"
    by (simp_all add: demo_pB_def NewCLPADataSupport_def demo_node_def)
  have "bc_PartitionMap (p_CurChain p'') = bc_PartitionMap (p_CurChain (demo_pB [])) ++ demo_mm"
    using pending_map_lost [OF c(1,2) B atm T demo_co_ok] by simp
  with B atm T c(3) show ?thesis by auto
qed

end
