(* ===== verification/Clpa_Broker.thy ===== *)
theory Clpa_Broker
  imports Clpa_Props
begin

text \<open>
  Re-sharding in the broker variant: \<open>accountTransfermod_Broker.go\<close>, \<open>pbftInside_modCLPABroker.go\<close> and
  \<open>pbftOutside_modCLPABroker.go\<close>. The protocol of migration is that of theory \<open>Clpa_Module\<close>; the functions
  whose code is a copy are proved equal to it (\<open>clpa_broker_same\<close>). What differs is which queued transactions leave (those with
  a broker follow their account, those without one that would become cross-shard go back to the
  supervisor), the check of the partition request (none) and the checks and report of a commit.
\<close>

section \<open>Definitions\<close>

definition sendPartitionReady_broker :: "pbft_node \<Rightarrow> pbft_node" where
  "sendPartitionReady_broker p =
     (let p = upd_cdm (\<lambda>c. c\<lparr>cd_PartitionReady := insert (p_ShardID p) (cd_PartitionReady c)\<rparr>) p
      in fold (\<lambda>sid p. TcpDial (PartitionReadyMsg (p_ShardID p) (p_sequenceID p)) (ip_of p sid 0) p) (other_shards p) p)"

definition getPartitionReady_broker :: "clpa_orders \<Rightarrow> pbft_node \<Rightarrow> bool" where
  "getPartitionReady_broker co p \<longleftrightarrow>
     int (card (cd_PartitionReady (p_cdm p))) = sint (cc_ShardNums (p_ChainConfig p)) \<and>
     list_all (\<lambda>sid. case cd_ReadySeq (p_cdm p) sid of
                 None \<Rightarrow> False | Some rval \<Rightarrow> rval - 1 = map_default 0 (p_seqIDMap p) sid) (co_seq co (p_seqIDMap p))"

datatype verdict = Keep | Send | Remove_cross

definition judge :: "address set \<Rightarrow> transaction \<Rightarrow> verdict" where
  \<comment> \<open>\<open>beSend\<close>, \<open>beRemoved\<close> and the addition to \<open>txsBeCross\<close>\<close>
  "judge addrSet ptx =
     (let ok1 = tx_Sender ptx \<in> addrSet; ok2 = tx_Recipient ptx \<in> addrSet in
      if tx_RawTxHash ptx = None then
        if tx_HasBroker ptx then
          if tx_SenderIsBroker ptx then (if ok2 then Send else Keep) else (if ok1 then Send else Keep)
        else if ok1 \<or> ok2 then Remove_cross
        else Keep
      else if tx_FinalRecipient ptx = tx_Recipient ptx then (if ok2 then Send else Keep)
      else if tx_OriginalSender ptx = tx_Sender ptx then (if ok1 then Send else Keep)
      else Keep)"

record extraction =
  x_send :: "transaction list"
  x_cross :: "transaction list"
  x_kept :: "transaction list"

definition extract_broker_tx :: "address set \<Rightarrow> transaction \<Rightarrow> extraction \<Rightarrow> extraction" where
  "extract_broker_tx addrSet ptx x =
     (case judge addrSet ptx of
        Send \<Rightarrow> x\<lparr>x_send := x_send x @ [ptx]\<rparr>
      | Remove_cross \<Rightarrow> x\<lparr>x_cross := x_cross x @ [ptx]\<rparr>
      | Keep \<Rightarrow> x\<lparr>x_kept := x_kept x @ [ptx]\<rparr>)"

definition send_broker_accounts_to ::
  "(address \<rightharpoonup> u64) \<Rightarrow> (address \<times> account_state) list \<Rightarrow> u64 \<Rightarrow> pbft_node \<times> transaction list \<Rightarrow> pbft_node \<times> transaction list" where
  "send_broker_accounts_to mm fetched i = (\<lambda>(p, txsBeCross).
     let sel = filter (\<lambda>(addr, s). map_default 0 mm addr = i) fetched;
         pool = bc_Txpool (p_CurChain p);
         x = fold (extract_broker_tx (fst ` set sel)) (TxQueue pool) \<lparr>x_send = [], x_cross = txsBeCross, x_kept = []\<rparr>;
         p = set_pool (pool\<lparr>TxQueue := x_kept x\<rparr>) p;
         ast = \<lparr>ast_Addrs = map fst sel, ast_AccountState = map snd sel, ast_Txs = x_send x, ast_FromShard = p_ShardID p\<rparr>
     in (TcpDial (AccountTransferBrokerMsg ast) (ip_of p i 0) p, x_cross x))"

definition sendAccounts_and_Txs_broker :: "clpa_orders \<Rightarrow> go_env \<Rightarrow> pbft_node \<Rightarrow> pbft_node go" where
  "sendAccounts_and_Txs_broker co E p =
     and_then (go_nth (cd_ModifiedMap (p_cdm p)) (int (length (cd_ModifiedMap (p_cdm p))) - 1)) (\<lambda>mm.
     and_then (go_fold (to_fetch E p mm) (co_modified co mm) []) (\<lambda>accountToFetch.
     and_then (FetchAccounts accountToFetch (p_CurChain p)) (\<lambda>asFetched.
       let (p, txsBeCross) = fold (send_broker_accounts_to mm (zip accountToFetch asFetched)) (other_shards p) (p, [])
       in Inr (TcpDial (Inner2CrossMsg txsBeCross) (ip_of p SupervisorShard 0) p))))"

definition getCollectOver_broker :: "pbft_node \<Rightarrow> bool" where
  "getCollectOver_broker p = cd_CollectOver (p_cdm p)"

definition proposePartition_broker ::
  "clpa_orders \<Rightarrow> (nat \<Rightarrow> gotime) \<Rightarrow> gotime \<Rightarrow> pbft_node \<Rightarrow> (request \<times> pbft_node) go" where
  "proposePartition_broker co nows now p =
     and_then (go_fold receive_from (co_received co (cd_AccountStateTx (p_cdm p))) (p_cdm p)) (\<lambda>c.
     let p = add_to_pool nows (cd_ReceivedNewTx c) (p\<lparr>p_cdm := c\<rparr>);
         received = entries (co_accounts co (cd_ReceivedNewAccountState c)) (cd_ReceivedNewAccountState c) in
     and_then (go_nth (cd_ModifiedMap c) (int (unat (cd_AccountTransferRound c)))) (\<lambda>mm.
       let atm = \<lparr>atm_ModifiedMap = mm, atm_Addrs = map fst received, atm_AccountState = map snd received,
                  atm_ATid = u64_of_nat (length (cd_ModifiedMap c))\<rparr>
       in Inr (\<lparr>r_RequestType = PartitionReq, r_Content = TransferContent atm, r_ReqTime = now\<rparr>, p)))"

definition accountTransfer_do_broker :: "clpa_orders \<Rightarrow> go_env \<Rightarrow> account_transfer_msg \<Rightarrow> pbft_node \<Rightarrow> pbft_node go" where
  "accountTransfer_do_broker co E atm p =
     (let bc = fold (\<lambda>key. Update_PartitionMap key (map_default 0 (atm_ModifiedMap atm) key))
                 (co_modified co (atm_ModifiedMap atm)) (p_CurChain p) in
      and_then (AddAccounts E (atm_Addrs atm) (atm_AccountState atm) bc) (\<lambda>bc.
        Inr (upd_cdm (\<lambda>c. c\<lparr>
          cd_ModifiedMap := cd_ModifiedMap c @
            (if u64_of_nat (length (cd_ModifiedMap c)) \<noteq> atm_ATid atm then [atm_ModifiedMap atm] else []),
          cd_AccountTransferRound := atm_ATid atm, cd_AccountStateTx := Map.empty,
          cd_ReceivedNewAccountState := Map.empty, cd_ReceivedNewTx := [], cd_PartitionOn := False,
          cd_CollectOver := False, cd_PartitionReady := {}\<rparr>) (p\<lparr>p_CurChain := bc\<rparr>))))"

subsection \<open>Messages from outside the shard\<close>

definition cbom_handleSeqIDinfos :: "u64 \<Rightarrow> u64 \<Rightarrow> pbft_node \<Rightarrow> pbft_node" where
  "cbom_handleSeqIDinfos senderShardID senderSeq p = set_seq_of senderShardID senderSeq p"

definition cbom_handleInjectTx :: "(nat \<Rightarrow> gotime) \<Rightarrow> transaction list \<Rightarrow> pbft_node \<Rightarrow> pbft_node" where
  "cbom_handleInjectTx nows txs p = add_to_pool nows txs p"

definition cbom_handlePartitionMsg :: "(address \<rightharpoonup> u64) \<Rightarrow> pbft_node \<Rightarrow> pbft_node" where
  "cbom_handlePartitionMsg pm p =
     upd_cdm (\<lambda>c. c\<lparr>cd_ModifiedMap := cd_ModifiedMap c @ [pm], cd_PartitionOn := True\<rparr>) p"

definition cbom_handlePartitionReady :: "u64 \<Rightarrow> u64 \<Rightarrow> pbft_node \<Rightarrow> pbft_node" where
  "cbom_handlePartitionReady fromShard nowSeqID p =
     upd_cdm (\<lambda>c. c\<lparr>cd_PartitionReady := insert fromShard (cd_PartitionReady c),
                    cd_ReadySeq := (cd_ReadySeq c)(fromShard \<mapsto> nowSeqID)\<rparr>) p"

definition cbom_handleAccountStateAndTxMsg :: "account_state_and_tx \<Rightarrow> pbft_node \<Rightarrow> pbft_node" where
  "cbom_handleAccountStateAndTxMsg at p =
     (let p = upd_cdm (\<lambda>c. c\<lparr>cd_AccountStateTx := (cd_AccountStateTx c)(ast_FromShard at \<mapsto> at)\<rparr>) p
      in if int (card (dom (cd_AccountStateTx (p_cdm p)))) = sint (cc_ShardNums (p_ChainConfig p)) - 1
         then upd_cdm (\<lambda>c. c\<lparr>cd_CollectOver := True\<rparr>) p else p)"

definition CLPABrokerOutside :: "(nat \<Rightarrow> gotime) \<Rightarrow> message \<Rightarrow> pbft_node \<Rightarrow> pbft_node go" where
  "CLPABrokerOutside nows msg p =
     (case msg of
        SeqIDInfoMsg sid seq \<Rightarrow> Inr (cbom_handleSeqIDinfos sid seq p)
      | InjectMsg txs \<Rightarrow> Inr (cbom_handleInjectTx nows txs p)
      | PartitionMsg pm \<Rightarrow> Inr (cbom_handlePartitionMsg pm p)
      | AccountTransferBrokerMsg at \<Rightarrow> Inr (cbom_handleAccountStateAndTxMsg at p)
      | PartitionReadyMsg fromShard nowSeqID \<Rightarrow> Inr (cbom_handlePartitionReady fromShard nowSeqID p)
      | _ \<Rightarrow> Inr p)"

subsection \<open>The stages of consensus\<close>

definition clpa_broker_propose ::
  "message list \<Rightarrow> message list \<Rightarrow> clpa_orders \<Rightarrow> epoch_orders \<Rightarrow> go_env \<Rightarrow> (nat \<Rightarrow> gotime) \<Rightarrow> gotime \<Rightarrow>
   pbft_node \<Rightarrow> (request \<times> pbft_node) go" where
  \<comment> \<open>\<open>ms1\<close> and \<open>ms2\<close> are the messages from outside that are handled while it waits\<close>
  "clpa_broker_propose ms1 ms2 co ords E nows now p =
     (if cd_PartitionOn (p_cdm p) then
        and_then (go_fold (CLPABrokerOutside nows) ms1 (sendPartitionReady_broker p)) (\<lambda>p.
        if \<not> getPartitionReady_broker co p then Inl Blocked
        else and_then (sendAccounts_and_Txs_broker co E p) (\<lambda>p.
             and_then (go_fold (CLPABrokerOutside nows) ms2 p) (\<lambda>p.
             if \<not> getCollectOver_broker p then Inl Blocked else proposePartition_broker co nows now p)))
      else
        and_then (GenerateBlock ords E now (ucast (p_NodeID p)) (p_CurChain p)) (\<lambda>(block, bc).
          Inr (\<lparr>r_RequestType = BlockRequest, r_Content = BlockContent block, r_ReqTime = now\<rparr>, p\<lparr>p_CurChain := bc\<rparr>)))"

definition clpa_broker_preprepare :: "go_env \<Rightarrow> pre_prepare \<Rightarrow> pbft_node \<Rightarrow> (bool \<times> pbft_node) go" where
  "clpa_broker_preprepare E ppmsg p =
     and_then
       (if r_RequestType (pp_RequestMsg ppmsg) = PartitionReq then Inr True
        else and_then (decode_block (r_Content (pp_RequestMsg ppmsg))) (\<lambda>b. Inr (IsValidBlock E (p_CurChain p) b = None)))
       (\<lambda>ok. if ok then Inr (True, p\<lparr>p_requestPool := (p_requestPool p)(pp_Digest ppmsg \<mapsto> pp_RequestMsg ppmsg)\<rparr>)
             else Inr (False, p))"

definition split_clpa_broker_tx :: "go_env \<Rightarrow> blockchain \<Rightarrow> u64 \<Rightarrow> transaction \<Rightarrow> broker_split \<Rightarrow> broker_split go" where
  "split_clpa_broker_tx E bc shardID tx s =
     (let isBroker1 = tx_Sender tx = tx_OriginalSender tx; isBroker2 = tx_Recipient tx = tx_FinalRecipient tx in
      and_then (Get_PartitionMap E bc (tx_Sender tx)) (\<lambda>ssid.
      and_then (Get_PartitionMap E bc (tx_Recipient tx)) (\<lambda>rsid.
      let senderIsInshard = ssid = shardID; recipientIsInshard = rsid = shardID in
      if isBroker1 \<and> \<not> senderIsInshard then Inl (LogPanic ''Err tx1'')
      else if isBroker2 \<and> \<not> recipientIsInshard then Inl (LogPanic ''Err tx2'')
      else if tx_RawTxHash tx = None \<and> tx_HasBroker tx \<and> tx_SenderIsBroker tx \<and> \<not> recipientIsInshard
        then Inl (LogPanic ''err tx 1 - recipient'')
      else if tx_RawTxHash tx = None \<and> tx_HasBroker tx \<and> \<not> tx_SenderIsBroker tx \<and> \<not> senderIsInshard
        then Inl (LogPanic ''err tx 1 - sender'')
      else if tx_RawTxHash tx = None \<and> \<not> tx_HasBroker tx \<and> (\<not> senderIsInshard \<or> \<not> recipientIsInshard)
        then Inl (LogPanic ''err tx - without broker'')
      else if isBroker2 then Inr (s\<lparr>bs_broker2 := bs_broker2 s @ [tx]\<rparr>)
      else if isBroker1 then Inr (s\<lparr>bs_broker1 := bs_broker1 s @ [tx]\<rparr>)
      else Inr (s\<lparr>bs_inner := bs_inner s @ [tx]\<rparr>))))"

definition clpa_broker_leader_commit :: "go_env \<Rightarrow> gotime \<Rightarrow> request \<Rightarrow> block \<Rightarrow> pbft_node \<Rightarrow> pbft_node go" where
  "clpa_broker_leader_commit E now r b p =
     and_then (go_fold (split_clpa_broker_tx E (p_CurChain p) (p_ShardID p)) (b_Body b)
                 \<lparr>bs_inner = [], bs_broker1 = [], bs_broker2 = []\<rparr>) (\<lambda>s.
       let p = fold send_seqID (other_shards p) p;
           bim = \<lparr>bi_BlockBodyLength = length (b_Body b), bi_InnerShardTxs = bs_inner s,
                  bi_Epoch = sint (cd_AccountTransferRound (p_cdm p)),
                  bi_ProposeTime = r_ReqTime r, bi_CommitTime = now, bi_SenderShardID = p_ShardID p,
                  bi_Relay1Txs = [], bi_Relay2Txs = [], bi_Broker1Txs = bs_broker1 s, bi_Broker2Txs = bs_broker2 s\<rparr>
       in Inr (TcpDial (BlockInfoMsg bim) (ip_of p SupervisorShard 0) p))"

definition clpa_broker_commit ::
  "clpa_orders \<Rightarrow> epoch_orders \<Rightarrow> go_env \<Rightarrow> gotime \<Rightarrow> prepare_commit \<Rightarrow> pbft_node \<Rightarrow> pbft_node go" where
  "clpa_broker_commit co ords E now cmsg p =
     (case p_requestPool p (pc_Digest cmsg) of
        None \<Rightarrow> Inl NilDeref
      | Some r \<Rightarrow>
          if r_RequestType r = PartitionReq
          then and_then (decode_transfer (r_Content r)) (\<lambda>atm. accountTransfer_do_broker co E atm p)
          else
            and_then (decode_block (r_Content r)) (\<lambda>b.
            and_then (AddBlock ords E b (p_CurChain p)) (\<lambda>bc.
              let p = p\<lparr>p_CurChain := bc\<rparr>
              in if p_NodeID p = leader_id p then clpa_broker_leader_commit E now r b p else Inr p)))"

definition clpa_broker_redo :: "clpa_orders \<Rightarrow> epoch_orders \<Rightarrow> go_env \<Rightarrow> send_old \<Rightarrow> u64 \<Rightarrow> pbft_node \<Rightarrow> pbft_node go" where
  "clpa_broker_redo co ords E som height p =
     and_then (go_nth (so_OldRequest som) (int (unat (height - so_SeqStartHeight som)))) (\<lambda>r.
       if r_RequestType r = BlockRequest
       then and_then (decode_block (r_Content r)) (\<lambda>b.
            and_then (AddBlock ords E b (p_CurChain p)) (\<lambda>bc. Inr (p\<lparr>p_CurChain := bc\<rparr>)))
       else and_then (decode_transfer (r_Content r)) (\<lambda>atm. accountTransfer_do_broker co E atm p))"

definition clpa_broker_sequential :: "clpa_orders \<Rightarrow> epoch_orders \<Rightarrow> go_env \<Rightarrow> send_old \<Rightarrow> pbft_node \<Rightarrow> pbft_node go" where
  "clpa_broker_sequential co ords E som p =
     (if sint (so_SeqEndHeight som - so_SeqStartHeight som + 1) \<noteq> int (length (so_OldRequest som)) then Inr p
      else and_then (go_fold (clpa_broker_redo co ords E som) (heights (so_SeqStartHeight som) (so_SeqEndHeight som)) p)
        (\<lambda>p. Inr (p\<lparr>p_sequenceID := so_SeqEndHeight som + 1\<rparr>)))"

definition CLPAPbftInsideExtraHandleMod_forBroker ::
  "message list \<Rightarrow> message list \<Rightarrow> clpa_orders \<Rightarrow> epoch_orders \<Rightarrow> go_env \<Rightarrow> (nat \<Rightarrow> gotime) \<Rightarrow> gotime \<Rightarrow> extra_op" where
  "CLPAPbftInsideExtraHandleMod_forBroker ms1 ms2 co ords E nows now =
     \<lparr>HandleinPropose = clpa_broker_propose ms1 ms2 co ords E nows now,
      HandleinPrePrepare = clpa_broker_preprepare E,
      HandleinPrepare = (\<lambda>pmsg p. Inr p),
      HandleinCommit = clpa_broker_commit co ords E now,
      HandleReqestforOldSeq = (\<lambda>rom p. Inr p),
      HandleforSequentialRequest = clpa_broker_sequential co ords E\<rparr>"

section \<open>The module implements the interface\<close>

text \<open>The functions whose code is a copy of the CLPA variant's do the same as those.\<close>

lemma clpa_broker_same:
  "sendPartitionReady_broker = sendPartitionReady" "getPartitionReady_broker = getPartitionReady"
  "getCollectOver_broker = getCollectOver" "accountTransfer_do_broker = accountTransfer_do"
  by (auto simp: fun_eq_iff sendPartitionReady_broker_def sendPartitionReady_def getPartitionReady_broker_def getPartitionReady_def
      getCollectOver_broker_def getCollectOver_def accountTransfer_do_broker_def accountTransfer_do_def)

lemma clpa_broker_preprepare_eq: "clpa_broker_preprepare = clpa_preprepare"
  by (auto simp: fun_eq_iff clpa_broker_preprepare_def clpa_preprepare_def block_preprepare_def and_then_def split: sum.splits)

lemma clpa_broker_propose_eq:
  "clpa_broker_propose ms1 ms2 co ords E nows now =
     partition_propose (CLPABrokerOutside nows) (sendAccounts_and_Txs_broker co E) (proposePartition_broker co nows now)
       ms1 ms2 co ords E now"
  unfolding fun_eq_iff clpa_broker_propose_def partition_propose_def clpa_broker_same block_propose_def by simp

lemma clpa_broker_sequential_eq: "clpa_broker_sequential = clpa_sequential"
proof -
  have r: "clpa_broker_redo = redo_old"
    unfolding fun_eq_iff clpa_broker_redo_def redo_old_def clpa_broker_same by simp
  show ?thesis by (intro ext) (simp add: clpa_broker_sequential_def clpa_sequential_def r)
qed

lemma clpa_broker_outside_frame:
  assumes "CLPABrokerOutside nows msg p = Inr p'"
  shows "same_protocol p p'"
proof -
  have b: "same_protocol q (upd_cdm f (upd_cdm g q))" for q f g
    by (rule same_protocol_trans [OF upd_cdm_simps(1) upd_cdm_simps(1)])
  show ?thesis using assms
    by (auto simp: CLPABrokerOutside_def cbom_handleSeqIDinfos_def cbom_handleInjectTx_def b
        cbom_handlePartitionMsg_def cbom_handlePartitionReady_def cbom_handleAccountStateAndTxMsg_def Let_def
        split: message.splits if_splits)
qed

text \<open>
  The module is put together from the other two: messages of the broker mechanism are handled as by the broker module,
  those of the migration as by the CLPA module, which receives accounts in a message of another type.
\<close>

lemma clpa_broker_outside_cases:
  "CLPABrokerOutside nows (SeqIDInfoMsg sid seq) p = RawBrokerOutside nows (SeqIDInfoMsg sid seq) p"
  "CLPABrokerOutside nows (InjectMsg txs) p = RawBrokerOutside nows (InjectMsg txs) p"
  "CLPABrokerOutside nows (PartitionMsg pm) p = CLPARelayOutside verify nows (PartitionMsg pm) p"
  "CLPABrokerOutside nows (PartitionReadyMsg s q) p = CLPARelayOutside verify nows (PartitionReadyMsg s q) p"
  "CLPABrokerOutside nows (AccountTransferBrokerMsg at) p = CLPARelayOutside verify nows (AccountStateTxMsg at) p"
  by (simp_all add: CLPABrokerOutside_def CLPARelayOutside_def RawBrokerOutside_def cbom_handleSeqIDinfos_def handleSeqIDinfos_def
      cbom_handleInjectTx_def handleInjectTx_def cbom_handlePartitionMsg_def handlePartitionMsg_def cbom_handlePartitionReady_def
      handlePartitionReady_def cbom_handleAccountStateAndTxMsg_def handleAccountStateAndTxMsg_def)

lemma send_broker_accounts_to_frame: "same_protocol p (fst (send_broker_accounts_to mm fetched i (p, c)))"
  by (auto simp: send_broker_accounts_to_def Let_def intro: same_protocol_steps(5))

lemma send_broker_fold_frame: "same_protocol p (fst (fold (send_broker_accounts_to mm fetched) sids (p, c)))"
proof (induction sids arbitrary: p c)
  case (Cons i sids)
  obtain q d where q: "send_broker_accounts_to mm fetched i (p, c) = (q, d)" by (metis surj_pair)
  then have "same_protocol p q" using send_broker_accounts_to_frame [of p mm fetched i c] by simp
  from same_protocol_trans [OF this Cons.IH [of q d]] show ?case by (simp add: q)
qed simp

lemma sendAccounts_broker_frame:
  assumes "sendAccounts_and_Txs_broker co E p = Inr p'"
  shows "same_protocol p p'"
proof -
  from assms obtain mm fetched ip where
    "p' = TcpDial (Inner2CrossMsg (snd (fold (send_broker_accounts_to mm fetched) (other_shards p) (p, [])))) ip
       (fst (fold (send_broker_accounts_to mm fetched) (other_shards p) (p, [])))"
    by (auto simp: sendAccounts_and_Txs_broker_def and_then_Inr case_prod_beta Let_def)
  then show ?thesis using same_protocol_steps(5) [OF send_broker_fold_frame] by simp
qed

lemma proposePartition_broker_frame: "proposePartition_broker co nows now p = Inr (r, p') \<Longrightarrow> same_protocol p p'"
  by (auto simp: proposePartition_broker_def and_then_Inr Let_def intro: same_protocol_steps(8))

lemma clpa_broker_propose_frame: "clpa_broker_propose ms1 ms2 co ords E nows now p = Inr (r, p') \<Longrightarrow> same_protocol p p'"
  unfolding clpa_broker_propose_eq
  by (erule partition_propose_frame)
    (auto dest: clpa_broker_outside_frame sendAccounts_broker_frame proposePartition_broker_frame)

lemma clpa_broker_leader_commit_frame:
  assumes "clpa_broker_leader_commit E now r b p = Inr p'"
  shows "same_protocol p p'"
proof -
  have "same_protocol p (fold send_seqID sids p)" for sids
    by (rule same_protocol_fold) (simp add: send_seqID_def)
  with assms show ?thesis
    by (auto simp: clpa_broker_leader_commit_def and_then_Inr Let_def intro: same_protocol_steps(5))
qed

lemma clpa_broker_commit_frame:
  assumes "clpa_broker_commit co ords E now m p = Inr p'"
  shows "same_protocol p p'"
proof -
  from assms consider atm where "accountTransfer_do co E atm p = Inr p'"
    | bc where "p' = p\<lparr>p_CurChain := bc\<rparr>"
    | r b bc where "clpa_broker_leader_commit E now r b (p\<lparr>p_CurChain := bc\<rparr>) = Inr p'"
    by (auto simp: clpa_broker_commit_def clpa_broker_same and_then_Inr Let_def split: option.splits if_splits)
  then show ?thesis
    using accountTransfer_do_frame same_protocol_trans [OF same_protocolI(1) clpa_broker_leader_commit_frame]
    by cases auto
qed

interpretation clpa_broker: consensus_module "CLPAPbftInsideExtraHandleMod_forBroker ms1 ms2 co ords E nows now"
  by unfold_locales
    (auto simp: CLPAPbftInsideExtraHandleMod_forBroker_def clpa_broker_preprepare_eq clpa_broker_sequential_eq
      clpa_preprepare_frame clpa_broker_commit_frame clpa_sequential_frame intro: clpa_broker_propose_frame)

definition clpa_broker_modules :: "go_env \<Rightarrow> extra_op set" where
  "clpa_broker_modules E = {CLPAPbftInsideExtraHandleMod_forBroker ms1 ms2 co ords E nows now | ms1 ms2 co ords nows now. True}"

interpretation clpa_broker_runs: consensus_variant "clpa_broker_modules E"
  by (rule consensus_variant.intro) (auto simp: clpa_broker_modules_def intro: clpa_broker.consensus_module_axioms)

section \<open>What is sent\<close>

lemma extract_broker_fold:
  fixes x :: extraction
  shows "fold (extract_broker_tx S) q x =
     x\<lparr>x_send := x_send x @ filter (\<lambda>tx. judge S tx = Send) q, x_cross := x_cross x @ filter (\<lambda>tx. judge S tx = Remove_cross) q,
       x_kept := x_kept x @ filter (\<lambda>tx. judge S tx = Keep) q\<rparr>"
proof (induction q arbitrary: x)
  case (Cons tx q)
  then show ?case by (cases "judge S tx") (simp_all add: extract_broker_tx_def)
qed simp

definition broker_package :: "(address \<rightharpoonup> u64) \<Rightarrow> (address \<times> account_state) list \<Rightarrow> u64 \<Rightarrow> transaction list \<Rightarrow> u64 \<Rightarrow> account_state_and_tx" where
  "broker_package mm fetched sh q i =
     \<lparr>ast_Addrs = addrs_to mm fetched i, ast_AccountState = map snd (filter (\<lambda>(addr, s). map_default 0 mm addr = i) fetched),
      ast_Txs = filter (\<lambda>tx. judge (set (addrs_to mm fetched i)) tx = Send) q, ast_FromShard = sh\<rparr>"

lemma send_broker_accounts_to_eq:
  "send_broker_accounts_to mm fetched i (p, c) =
     (p\<lparr>p_CurChain := (p_CurChain p)\<lparr>bc_Txpool := (bc_Txpool (p_CurChain p))\<lparr>TxQueue :=
           filter (\<lambda>tx. judge (set (addrs_to mm fetched i)) tx = Keep) (queue_of p)\<rparr>\<rparr>,
        p_out := p_out p @ [(ip_of p i 0, AccountTransferBrokerMsg (broker_package mm fetched (p_ShardID p) (queue_of p) i))]\<rparr>,
      c @ filter (\<lambda>tx. judge (set (addrs_to mm fetched i)) tx = Remove_cross) (queue_of p))"
  by (simp add: send_broker_accounts_to_def Let_def extract_broker_fold TcpDial_def set_pool_def broker_package_def
      ip_of_def addrs_to_def)

lemma judge_cross:
  assumes "judge S tx = Remove_cross"
  shows "tx_RawTxHash tx = None \<and> \<not> tx_HasBroker tx \<and> (tx_Sender tx \<in> S \<or> tx_Recipient tx \<in> S)"
  using assms by (auto simp: judge_def Let_def split: if_splits)

lemma mset_three_verdicts:
  "{#x \<in># M. f x = Keep#} + {#x \<in># M. f x = Send#} + {#x \<in># M. f x = Remove_cross#} = M"
proof (induction M)
  case (add x M)
  then show ?case by (cases "f x") auto
qed simp

text \<open>The messages of one round of sending, and what they and the kept queue contain.\<close>

definition conserving :: "transaction list \<Rightarrow> account_state_and_tx list \<Rightarrow> transaction list \<Rightarrow> transaction list \<Rightarrow> bool" where
  "conserving q pkgs cross q' \<longleftrightarrow> mset q' + (\<Sum>m\<leftarrow>pkgs. mset (ast_Txs m)) + mset cross = mset q"

lemma send_broker_fold:
  assumes "fold (send_broker_accounts_to mm fetched) sids (p, c) = (p', c')"
  shows "\<exists>pkgs cross. p_out p' = p_out p @ map (\<lambda>(i, m). (ip_of p i 0, AccountTransferBrokerMsg m)) (zip sids pkgs) \<and>
    length pkgs = length sids \<and> c' = c @ cross \<and> conserving (queue_of p) pkgs cross (queue_of p') \<and>
    list_all2 (\<lambda>i m. ast_Addrs m = addrs_to mm fetched i \<and> ast_FromShard m = p_ShardID p \<and>
        list_all (\<lambda>tx. judge (set (ast_Addrs m)) tx = Send) (ast_Txs m)) sids pkgs \<and>
    list_all (\<lambda>tx. \<exists>i \<in> set sids. judge (set (addrs_to mm fetched i)) tx = Remove_cross) cross \<and>
    list_all (\<lambda>tx. list_all (\<lambda>i. judge (set (addrs_to mm fetched i)) tx = Keep) sids) (queue_of p') \<and>
    p_CurChain p' = with_pool (bc_Txpool (p_CurChain p')) (p_CurChain p)"
  using assms
proof (induction sids arbitrary: p c)
  case Nil
  then show ?case by (auto simp: conserving_def with_pool_def list_all_iff)
next
  case (Cons i sids)
  let ?S = "set (addrs_to mm fetched i)"
  let ?m = "broker_package mm fetched (p_ShardID p) (queue_of p) i"
  define q where "q = p\<lparr>p_CurChain := (p_CurChain p)\<lparr>bc_Txpool := (bc_Txpool (p_CurChain p))\<lparr>TxQueue :=
      filter (\<lambda>tx. judge ?S tx = Keep) (queue_of p)\<rparr>\<rparr>, p_out := p_out p @ [(ip_of p i 0, AccountTransferBrokerMsg ?m)]\<rparr>"
  have f: "p_ShardID q = p_ShardID p" "ip_of q = ip_of p" "queue_of q = filter (\<lambda>tx. judge ?S tx = Keep) (queue_of p)"
    "p_out q = p_out p @ [(ip_of p i 0, AccountTransferBrokerMsg ?m)]" "with_pool x (p_CurChain q) = with_pool x (p_CurChain p)" for x
    by (auto simp: q_def ip_of_def fun_eq_iff with_pool_def)
  from Cons.prems have "fold (send_broker_accounts_to mm fetched) sids
      (q, c @ filter (\<lambda>tx. judge ?S tx = Remove_cross) (queue_of p)) = (p', c')"
    by (simp add: send_broker_accounts_to_eq q_def)
  from Cons.IH [OF this] obtain pkgs cross where IH:
    "p_out p' = p_out q @ map (\<lambda>(i, m). (ip_of p i 0, AccountTransferBrokerMsg m)) (zip sids pkgs)" "length pkgs = length sids"
    "c' = c @ filter (\<lambda>tx. judge ?S tx = Remove_cross) (queue_of p) @ cross" "conserving (queue_of q) pkgs cross (queue_of p')"
    "list_all2 (\<lambda>i m. ast_Addrs m = addrs_to mm fetched i \<and> ast_FromShard m = p_ShardID p \<and>
        list_all (\<lambda>tx. judge (set (ast_Addrs m)) tx = Send) (ast_Txs m)) sids pkgs"
    "list_all (\<lambda>tx. \<exists>i \<in> set sids. judge (set (addrs_to mm fetched i)) tx = Remove_cross) cross"
    "list_all (\<lambda>tx. list_all (\<lambda>i. judge (set (addrs_to mm fetched i)) tx = Keep) sids) (queue_of p')"
    "p_CurChain p' = with_pool (bc_Txpool (p_CurChain p')) (p_CurChain p)" unfolding f(1,2,5) by auto
  have cons: "conserving (queue_of p) (?m # pkgs) (filter (\<lambda>tx. judge ?S tx = Remove_cross) (queue_of p) @ cross) (queue_of p')"
  proof -
    let ?keep = "{#x \<in># mset (queue_of p). judge ?S x = Keep#}" and ?send = "{#x \<in># mset (queue_of p). judge ?S x = Send#}"
      and ?rem = "{#x \<in># mset (queue_of p). judge ?S x = Remove_cross#}"
    have "mset (queue_of p') + (?send + (\<Sum>m\<leftarrow>pkgs. mset (ast_Txs m))) + (?rem + mset cross) =
        (mset (queue_of p') + (\<Sum>m\<leftarrow>pkgs. mset (ast_Txs m)) + mset cross) + ?send + ?rem" by (simp add: ac_simps)
    also have "\<dots> = ?keep + ?send + ?rem" using IH(4) by (simp add: conserving_def f(3))
    also have "\<dots> = mset (queue_of p)" by (rule mset_three_verdicts)
    finally show ?thesis by (simp add: conserving_def broker_package_def)
  qed
  have "set (queue_of p') \<subseteq> set (queue_of q)"
    using IH(4) by (metis conserving_def mset_subset_eq_add_left set_mset_mono set_mset_mset add.assoc)
  then have "list_all (\<lambda>tx. judge ?S tx = Keep) (queue_of p')" by (auto simp: f(3) list_all_iff)
  then show ?case using IH cons f(4)
    by (intro exI [of _ "?m # pkgs"] exI [of _ "filter (\<lambda>tx. judge ?S tx = Remove_cross) (queue_of p) @ cross"])
      (auto simp: list_all_iff broker_package_def)
qed

text \<open>
  C35. Migration out of a shard in the broker variant loses no transaction. When
  \<open>sendAccounts_and_Txs\<close> returns, one package has gone to the leader of every other shard, with the
  leaving accounts of that shard, and a list of transactions to the supervisor; the packages, that
  list and the remaining queue together are the old queue. The supervisor gets back only transactions
  without broker one of whose two accounts leaves, a package contains only transactions that follow
  one of its accounts, and no transaction that has to leave remains.
\<close>

theorem broker_migration_conserves:
  assumes "sendAccounts_and_Txs_broker co E p = Inr p'" and "cd_ModifiedMap (p_cdm p) = ms @ [mm]"
    and "clpa_orders_ok co" and "finite (dom mm)"
  shows "\<exists>pkgs cross. p_out p' = p_out p @
       map (\<lambda>(i, m). (ip_of p i 0, AccountTransferBrokerMsg m)) (zip (other_shards p) pkgs) @
       [(ip_of p SupervisorShard 0, Inner2CrossMsg cross)] \<and>
     list_all2 (\<lambda>i m. set (ast_Addrs m) = {a. mm a = Some i \<and> Get_PartitionMap E (p_CurChain p) a = Inr (p_ShardID p)} \<and>
        list_all (\<lambda>tx. judge (set (ast_Addrs m)) tx = Send) (ast_Txs m)) (other_shards p) pkgs \<and>
     mset (queue_of p') + (\<Sum>m\<leftarrow>pkgs. mset (ast_Txs m)) + mset cross = mset (queue_of p) \<and>
     list_all (\<lambda>tx. tx_RawTxHash tx = None \<and> \<not> tx_HasBroker tx \<and> (leaves E p mm (tx_Sender tx) \<or> leaves E p mm (tx_Recipient tx))) cross \<and>
     list_all (\<lambda>tx. list_all (\<lambda>m. judge (set (ast_Addrs m)) tx = Keep) pkgs) (queue_of p')"
proof -
  from assms obtain ac as where ac: "go_fold (to_fetch E p mm) (co_modified co mm) [] = Inr ac"
    and as: "FetchAccounts ac (p_CurChain p) = Inr as"
    and p': "p' = (let (p, c) = fold (send_broker_accounts_to mm (zip ac as)) (other_shards p) (p, [])
                   in TcpDial (Inner2CrossMsg c) (ip_of p SupervisorShard 0) p)"
    by (auto simp: sendAccounts_and_Txs_broker_def and_then_Inr go_nth_def case_prod_beta Let_def)
  obtain q c where q: "fold (send_broker_accounts_to mm (zip ac as)) (other_shards p) (p, []) = (q, c)" by fastforce
  note ac' = to_fetch_loop [OF ac, simplified]
  have len: "length as = length ac" using as by (auto simp: FetchAccounts_def split: option.splits)
  have ord: "set (co_modified co mm) = dom mm" using assms(3,4) by (auto simp: clpa_orders_ok_def ranges_over_def)
  have "fst ` {x \<in> set (zip ac as). map_default 0 mm (fst x) = i} = {a \<in> set ac. map_default 0 mm a = i}" for i
    using len by (auto simp: set_zip in_set_conv_nth image_iff)
  then have addrs: "set (addrs_to mm (zip ac as) i) = {a. a \<in> dom mm \<and> leaves E p mm a \<and> map_default 0 mm a = i}" for i
    by (auto simp: addrs_to_def case_prod_beta ac' ord)
  have set_addrs: "set (addrs_to mm (zip ac as) i) = {a. mm a = Some i \<and> Get_PartitionMap E (p_CurChain p) a = Inr (p_ShardID p)}"
    if "i \<in> set (other_shards p)" for i
    using that by (auto simp: addrs leaves_def other_shards_def map_default_def split: option.splits)
  from send_broker_fold [OF q] obtain pkgs cross where r:
    "p_out q = p_out p @ map (\<lambda>(i, m). (ip_of p i 0, AccountTransferBrokerMsg m)) (zip (other_shards p) pkgs)"
    "length pkgs = length (other_shards p)" "c = cross" "conserving (queue_of p) pkgs cross (queue_of q)"
    and pk: "list_all2 (\<lambda>i m. ast_Addrs m = addrs_to mm (zip ac as) i \<and> ast_FromShard m = p_ShardID p \<and>
        list_all (\<lambda>tx. judge (set (ast_Addrs m)) tx = Send) (ast_Txs m)) (other_shards p) pkgs"
    and cr: "list_all (\<lambda>tx. \<exists>i \<in> set (other_shards p). judge (set (addrs_to mm (zip ac as) i)) tx = Remove_cross) cross"
    and kp: "list_all (\<lambda>tx. list_all (\<lambda>i. judge (set (addrs_to mm (zip ac as) i)) tx = Keep) (other_shards p)) (queue_of q)"
    by auto
  have fr: "same_protocol p q" using send_broker_fold_frame [of p mm "zip ac as" "other_shards p" "[]"] by (simp add: q)
  have "ip_of q = ip_of p" using same_protocol_tables [OF fr] by (simp add: ip_of_def fun_eq_iff)
  then have out: "p_out p' = p_out q @ [(ip_of p SupervisorShard 0, Inner2CrossMsg cross)]" "queue_of p' = queue_of q"
    by (simp_all add: p' q TcpDial_def r(3))
  have pk': "list_all2 (\<lambda>i m. set (ast_Addrs m) = {a. mm a = Some i \<and> Get_PartitionMap E (p_CurChain p) a = Inr (p_ShardID p)} \<and>
        list_all (\<lambda>tx. judge (set (ast_Addrs m)) tx = Send) (ast_Txs m)) (other_shards p) pkgs"
    using pk by (auto simp: list_all2_conv_all_nth set_addrs)
  have "tx_RawTxHash tx = None \<and> \<not> tx_HasBroker tx \<and> (leaves E p mm (tx_Sender tx) \<or> leaves E p mm (tx_Recipient tx))"
    if "tx \<in> set cross" for tx
  proof -
    obtain i where "judge (set (addrs_to mm (zip ac as) i)) tx = Remove_cross" using cr \<open>tx \<in> set cross\<close> by (auto simp: list_all_iff)
    from judge_cross [OF this] show ?thesis unfolding addrs by blast
  qed
  moreover have "judge (set (ast_Addrs m)) tx = Keep" if tx: "tx \<in> set (queue_of q)" and m: "m \<in> set pkgs" for tx m
  proof -
    obtain j where j: "j < length pkgs" "m = pkgs ! j" using m by (metis in_set_conv_nth)
    then have "ast_Addrs m = addrs_to mm (zip ac as) (other_shards p ! j)" "other_shards p ! j \<in> set (other_shards p)"
      using pk r(2) by (simp_all add: list_all2_conv_all_nth)
    with kp tx show ?thesis by (simp add: list_all_iff)
  qed
  ultimately show ?thesis using r pk' out
    by (intro exI [of _ pkgs] exI [of _ cross]) (auto simp: list_all_iff conserving_def)
qed

lemma demo_transfer_raw [simp]: "tx_RawTxHash (demo_transfer s r v n) = None"
  by (simp add: demo_transfer_def NewTransaction_def raw_transaction_def Let_def)

theorem broker_migration_conserves_witness:
  "\<exists>p' (pkgs :: account_state_and_tx list) cross. sendAccounts_and_Txs_broker demo_co demo_env demo_pA = Inr p' \<and>
     (ip_of demo_pA SupervisorShard 0, Inner2CrossMsg cross) \<in> set (p_out p') \<and>
     mset (queue_of p') + (\<Sum>m\<leftarrow>pkgs. mset (ast_Txs m)) + mset cross = mset (queue_of demo_pA) \<and> queue_of p' = []"
proof -
  have o: "other_shards demo_pA = [1]" using demo_other_shards by (simp add: demo_pA_def other_shards_def demo_node_def)
  have m: "cd_ModifiedMap (p_cdm demo_pA) = [] @ [demo_mm]" by (simp add: demo_pA_def)
  have "\<exists>p'. sendAccounts_and_Txs_broker demo_co demo_env demo_pA = Inr p' \<and> queue_of p' = []"
    by (simp add: sendAccounts_and_Txs_broker_def o) (simp add: demo_pA_def demo_node_def go_nth_def demo_co_def to_fetch_def
        Get_PartitionMap_def FetchAccounts_def send_broker_accounts_to_eq addrs_to_def judge_def TcpDial_def map_default_def Let_def; force)
  then obtain p' where p': "sendAccounts_and_Txs_broker demo_co demo_env demo_pA = Inr p'" "queue_of p' = []" by blast
  obtain pkgs :: "account_state_and_tx list" and cross where "p_out p' = p_out demo_pA @
       map (\<lambda>(i, m). (ip_of demo_pA i 0, AccountTransferBrokerMsg m)) (zip (other_shards demo_pA) pkgs) @
       [(ip_of demo_pA SupervisorShard 0, Inner2CrossMsg cross)]"
    and c: "mset (queue_of p') + (\<Sum>m\<leftarrow>pkgs. mset (ast_Txs m)) + mset cross = mset (queue_of demo_pA)"
    using broker_migration_conserves [OF p'(1) m demo_co_ok] by auto
  then have "(ip_of demo_pA SupervisorShard 0, Inner2CrossMsg cross) \<in> set (p_out p')" by simp
  with p' c show ?thesis by blast
qed

end
