(* ===== verification/Consensus_Runs.thy ===== *)
theory Consensus_Runs
  imports Clpa_Broker
begin

text \<open>
  Runs of a node, for every consensus variant. \<open>NewPbftNode\<close> chooses the operations by the name of the
  variant; each variant interprets the interface \<open>consensus_variant\<close>, so the theorems on runs, proved
  once in theory \<open>Pbft_Run\<close>, hold for whatever name a node was started with.
\<close>

section \<open>The variants\<close>

definition modules_of :: "string \<Rightarrow> go_env \<Rightarrow> extra_op set" where
  \<comment> \<open>the \<open>switch\<close> over \<open>messageHandleType\<close>\<close>
  "modules_of messageHandleType E =
     (if messageHandleType = ''CLPA_Broker'' then clpa_broker_modules E
      else if messageHandleType = ''CLPA'' then clpa_modules E
      else if messageHandleType = ''Broker'' then broker_modules E
      else relay_modules E)"

interpretation node_runs: consensus_variant "modules_of kind E"
  by (rule consensus_variant.intro)
    (auto simp: modules_of_def intro: relay_runs.module broker_runs.module clpa_runs.module clpa_broker_runs.module
      split: if_splits)

section \<open>Runs\<close>


text \<open>
  The sequence number counts executed requests: in every run without a completed view change and
  without catching up, \<open>sequenceID\<close> has grown by exactly the number of requests executed.
\<close>

theorem sequence_counts_executions:
  assumes "node_steps (modules_of kind E) dg False S S'" and "rs_log S = []"
  shows "p_sequenceID (rs_node S') = p_sequenceID (rs_node S) + of_nat (length (rs_log S'))"
  using node_runs.steps_sequence [OF assms(1)] assms(2) by auto

text \<open>
  A lock taken for a proposal survives losing the leadership: while a node holds \<open>sequenceLock\<close> and
  is not the leader, no step of any kind releases it; and as long as it is held, no proposal step
  is possible, also after a view change has made the node leader again.
\<close>

theorem stale_sequence_lock:
  assumes "p_sequenceLock (rs_node S)" and "p_NodeID (rs_node S) \<noteq> leader_id (rs_node S)"
    and "node_step (modules_of kind E) dg d S S'"
  shows "p_sequenceLock (rs_node S') \<and> p_NodeID (rs_node S') = p_NodeID (rs_node S)"
  using node_runs.step_stale_lock [OF assms(3,1,2)] .

section \<open>Witnesses\<close>

text \<open>Delivering the third confirmation, starting its goroutine and running it executes the request.\<close>

lemma demo_run:
  obtains S where "node_steps (modules_of ''Relay'' demo_env) dg False
      ((fresh_run (demo_committing (demo_next [50, 10, 255] [])))\<lparr>rs_next := 9\<rparr>) S" and "rs_log S = [[9]]"
proof -
  let ?p = "demo_committing (demo_next [50, 10, 255] [])"
  let ?S0 = "(fresh_run ?p)\<lparr>rs_next := 9\<rparr>" and ?t = "TCommit demo_commit_msg"
  let ?S1 = "?S0\<lparr>rs_next := Suc (rs_next ?S0), rs_spawned := ?t # rs_spawned ?S0\<rparr>"
  let ?S2 = "?S1\<lparr>rs_spawned := remove1 ?t (rs_spawned ?S1), rs_waiting := (p_view (rs_node ?S1), ?t) # rs_waiting ?S1\<rparr>"
  obtain p' where p': "handleCommit demo_ops 1 0 demo_commit_msg ?p = Inr p'" using demo_commit_runs by blast
  let ?S3 = "?S2\<lparr>rs_node := p', rs_waiting := remove1 (0, ?t) (rs_waiting ?S2),
      rs_log := rs_log ?S2 @ executes 0 ?t (rs_node ?S2)\<rparr>"
  have n: "rs_next ?S0 = 9" by (simp add: fresh_run_def)
  have s1: "node_step (modules_of ''Relay'' demo_env) dg False ?S0 ?S1"
    using node_step.deliver_commit [of "modules_of ''Relay'' demo_env" dg ?S0 "[9]" 5 demo_sn] unfolding n .
  have s2: "node_step (modules_of ''Relay'' demo_env) dg False ?S1 ?S2" by (rule node_step.start) (simp add: fresh_run_def)
  have s3: "node_step (modules_of ''Relay'' demo_env) dg False ?S2 ?S3"
    by (rule node_step.run [where now = 1 and ops = demo_ops]) (auto simp: fresh_run_def must_wait_def p' modules_of_def relay_modules_def)
  have "node_steps (modules_of ''Relay'' demo_env) dg (((False \<or> False) \<or> False) \<or> False) ?S0 ?S3"
    by (intro node_steps.step [OF _ s3] node_steps.step [OF _ s2] node_steps.step [OF _ s1] node_steps.refl)
  moreover have "rs_log ?S3 = [[9]]"
    using demo_commit_quorum by (simp add: fresh_run_def out_of_date_def)
  ultimately show thesis by (intro that [of ?S3]) simp_all
qed


theorem sequence_counts_executions_witness:
  "\<exists>S. node_steps (modules_of ''Relay'' demo_env) (\<lambda>r. [9]) False ((fresh_run (demo_committing (demo_next [50, 10, 255] [])))\<lparr>rs_next := 9\<rparr>) S \<and>
     p_sequenceID (rs_node S) = 6"
proof -
  obtain S where S: "node_steps (modules_of ''Relay'' demo_env) (\<lambda>r. [9]) False
      ((fresh_run (demo_committing (demo_next [50, 10, 255] [])))\<lparr>rs_next := 9\<rparr>) S" "rs_log S = [[9]]"
    by (rule demo_run)
  with sequence_counts_executions [OF S(1)] show ?thesis by (auto simp: fresh_run_def)
qed

theorem stale_sequence_lock_witness:
  "p_sequenceLock (rs_node ((fresh_run ((demo_node (demo_root_chain []) 1)\<lparr>p_sequenceLock := True\<rparr>))
     \<lparr>rs_node := handleNewViewMsg 1 \<lparr>vc_CurView = 0, vc_NextView = 1, vc_SeqID = 5, vc_FromNode = 2\<rparr>
        ((demo_node (demo_root_chain []) 1)\<lparr>p_sequenceLock := True\<rparr>)\<rparr>))"
proof -
  let ?S = "fresh_run ((demo_node (demo_root_chain []) 1)\<lparr>p_sequenceLock := True\<rparr>)"
  have l: "p_sequenceLock (rs_node ?S)" "p_NodeID (rs_node ?S) \<noteq> leader_id (rs_node ?S)"
    by (simp_all add: fresh_run_def demo_node_def leader_id_def)
  have n: "rs_node ?S = (demo_node (demo_root_chain []) 1)\<lparr>p_sequenceLock := True\<rparr>" by (simp add: fresh_run_def)
  show ?thesis
    using stale_sequence_lock [OF l node_step.new_view [of "modules_of ''Relay'' demo_env" "\<lambda>r. []" ?S 1
        "\<lparr>vc_CurView = 0, vc_NextView = 1, vc_SeqID = 5, vc_FromNode = 2\<rparr>"]] unfolding n by blast
qed

end
