(* ===== verification/Launch.thy ===== *)
theory Launch
  imports Network Supervisor Consensus_Runs
begin

text \<open>
  Configuration and start-up: \<open>params/global_config.go\<close>, \<open>params/static_config.go\<close>, \<open>build/\<close> and \<open>main.go\<close>. The
  variables of package \<open>params\<close> are the record \<open>globals\<close>. Files enter as what \<open>json.Unmarshal\<close> leaves in the
  variable (none after an error), the flags as what \<open>pflag\<close> leaves in them; what the operating system answers to
  file operations is the argument \<open>os\<close>. \<open>log.Fatalf\<close> ends the process like a panic.
\<close>

section \<open>Parameters\<close>

type_synonym ip_map = "(u64 \<times> (u64 \<times> string) list) list"

record global_config =
  gc_ConsensusMethod :: int
  gc_PbftViewChangeTimeOut :: int
  gc_ExpDataRootDir :: string
  gc_BlockInterval :: int
  gc_BlocksizeInBytes :: int
  gc_MaxBlockSizeGlobal :: int
  gc_UseBlocksizeInBytes :: int
  gc_InjectSpeed :: int
  gc_TotalDataSize :: int
  gc_TxBatchSize :: int
  gc_BrokerNum :: int
  gc_RelayWithMerkleProof :: int
  gc_DatasetFile :: string
  gc_ReconfigTimeGap :: int
  gc_Delay :: int
  gc_JitterRange :: int
  gc_Bandwidth :: int

record globals =
  g_NodesInShard :: int
  g_ShardNum :: int
  g_ConsensusMethod :: int
  g_PbftViewChangeTimeOut :: int
  g_Block_Interval :: int
  g_MaxBlockSize_global :: int
  g_BlocksizeInBytes :: int
  g_UseBlocksizeInBytes :: int
  g_InjectSpeed :: int
  g_TotalDataSize :: int
  g_TxBatchSize :: int
  g_BrokerNum :: int
  g_RelayWithMerkleProof :: int
  g_ExpDataRootDir :: string
  g_DataWrite_path :: string
  g_LogWrite_path :: string
  g_DatabaseWrite_path :: string
  g_SupervisorAddr :: string
  g_DatasetFile :: string
  g_ReconfigTimeGap :: int
  g_net :: net_params
  g_IPmap_nodeTable :: ip_map

definition default_globals :: globals where
  "default_globals =
     \<lparr>g_NodesInShard = 4, g_ShardNum = 4, g_ConsensusMethod = 0, g_PbftViewChangeTimeOut = 10000, g_Block_Interval = 5000,
      g_MaxBlockSize_global = 2000, g_BlocksizeInBytes = 20000, g_UseBlocksizeInBytes = 0, g_InjectSpeed = 2000,
      g_TotalDataSize = 160000, g_TxBatchSize = 16000, g_BrokerNum = 10, g_RelayWithMerkleProof = 0,
      g_ExpDataRootDir = ''expTest'', g_DataWrite_path = ''expTest'' @ ''/result/'', g_LogWrite_path = ''expTest'' @ ''/log'',
      g_DatabaseWrite_path = ''expTest'' @ ''/database/'', g_SupervisorAddr = ''127.0.0.1:18800'',
      g_DatasetFile = ''./selectedTxs_300K.csv'', g_ReconfigTimeGap = 50,
      g_net = \<lparr>np_Delay = 0, np_JitterRange = 0, np_Bandwidth = 0\<rparr>, g_IPmap_nodeTable = []\<rparr>"

definition ReadConfigFile :: "global_config option \<Rightarrow> globals \<Rightarrow> globals go" where
  "ReadConfigFile file g = (case file of
     None \<Rightarrow> Inl (LogPanic ''Error reading file'')
   | Some config \<Rightarrow> Inr (g
       \<lparr>g_ConsensusMethod := gc_ConsensusMethod config,
        g_PbftViewChangeTimeOut := gc_PbftViewChangeTimeOut config,
        g_ExpDataRootDir := gc_ExpDataRootDir config,
        g_DataWrite_path := gc_ExpDataRootDir config @ ''/result/'',
        g_LogWrite_path := gc_ExpDataRootDir config @ ''/log'',
        g_DatabaseWrite_path := gc_ExpDataRootDir config @ ''/database/'',
        g_Block_Interval := gc_BlockInterval config,
        g_MaxBlockSize_global := gc_MaxBlockSizeGlobal config,
        g_BlocksizeInBytes := gc_BlocksizeInBytes config,
        g_UseBlocksizeInBytes := gc_UseBlocksizeInBytes config,
        g_InjectSpeed := gc_InjectSpeed config,
        g_TotalDataSize := gc_TotalDataSize config,
        g_TxBatchSize := gc_TxBatchSize config,
        g_BrokerNum := gc_BrokerNum config,
        g_RelayWithMerkleProof := gc_RelayWithMerkleProof config,
        g_DatasetFile := gc_DatasetFile config,
        g_ReconfigTimeGap := gc_ReconfigTimeGap config,
        g_net := \<lparr>np_Delay = gc_Delay config, np_JitterRange = gc_JitterRange config, np_Bandwidth = gc_Bandwidth config\<rparr>\<rparr>))"



definition CommitteeMethod :: "string list" where
  "CommitteeMethod = [''CLPA_Broker'', ''CLPA'', ''Broker'', ''Relay'']"

definition MeasureBrokerMod :: "string list" where
  "MeasureBrokerMod = [''TPS_Broker'', ''TCL_Broker'', ''CrossTxRate_Broker'', ''TxNumberCount_Broker'']"

definition MeasureRelayMod :: "string list" where
  "MeasureRelayMod = [''TPS_Relay'', ''TCL_Relay'', ''CrossTxRate_Relay'', ''TxNumberCount_Relay'']"

definition env_of :: "globals \<Rightarrow> go_env \<Rightarrow> go_env" where
  \<comment> \<open>the variables of \<open>params\<close> that the rest of the program reads\<close>
  "env_of g E = E\<lparr>ShardNum := g_ShardNum g, UseBlocksizeInBytes := g_UseBlocksizeInBytes g,
     BlocksizeInBytes := g_BlocksizeInBytes g, RelayWithMerkleProof := g_RelayWithMerkleProof g, InjectSpeed := g_InjectSpeed g\<rparr>"

section \<open>The table of addresses\<close>

definition readIpTable :: "ip_map option \<Rightarrow> ip_map" where
  "readIpTable file = (case file of None \<Rightarrow> [] | Some ipMap \<Rightarrow> ipMap)"

definition shard_of_table :: "ip_map \<Rightarrow> u64 \<Rightarrow> (u64 \<times> string) list" where
  \<comment> \<open>\<open>ipMap[sid]\<close>\<close>
  "shard_of_table ipMap sid = map_default [] (map_of ipMap) sid"

definition node_addr :: "ip_map \<Rightarrow> u64 \<Rightarrow> u64 \<Rightarrow> string" where
  \<comment> \<open>\<open>ipMap[sid][nid]\<close>\<close>
  "node_addr ipMap sid nid = map_default '''' (map_of (shard_of_table ipMap sid)) nid"

definition initConfig :: "ip_map option \<Rightarrow> u64 \<Rightarrow> u64 \<Rightarrow> u64 \<Rightarrow> u64 \<Rightarrow> globals \<Rightarrow> (chain_config \<times> globals) go" where
  "initConfig file nid nnm sid snm g =
     (let ipMap = readIpTable file;
          g = g\<lparr>g_IPmap_nodeTable := ipMap, g_SupervisorAddr := node_addr ipMap SupervisorShard 0\<rparr>
      in if int (length ipMap) - 1 < sint snm then Inl (LogPanic ''Input ShardNumber'')
         else if \<exists>shardID \<in> set [0 ..< length ipMap - 1]. int (length (shard_of_table ipMap (of_nat shardID))) < sint nnm
         then Inl (LogPanic ''Input NodeNumber'')
         else let g = g\<lparr>g_NodesInShard := sint nnm, g_ShardNum := sint snm, g_net := InitNetworkTools (g_net g)\<rparr>
              in Inr (\<lparr>cc_ChainID = sid, cc_NodeID = nid, cc_ShardID = sid, cc_Nodes_perShard = word_of_int (g_NodesInShard g),
                       cc_ShardNums = snm, cc_BlockSize = word_of_int (g_MaxBlockSize_global g),
                       cc_BlockInterval = word_of_int (g_Block_Interval g), cc_InjectSpeed = word_of_int (g_InjectSpeed g),
                       cc_MaxRelayBlockSize = 0\<rparr>, g))"

section \<open>Starting a node and the supervisor\<close>

definition BuildSupervisor ::
  "bool \<Rightarrow> go_env \<Rightarrow> 'f \<Rightarrow> 'f \<Rightarrow> string list \<Rightarrow> ip_map option \<Rightarrow> u64 \<Rightarrow> u64 \<Rightarrow> globals \<Rightarrow> (string \<times> 'f supervisor) go" where
  \<comment> \<open>up to \<open>TcpListen\<close>, with the address it listens at. Go does not say whether the argument \<open>params.SupervisorAddr\<close>
    is read before or after the call of \<open>initConfig\<close>, which sets it (\<open>before\<close>)\<close>
  "BuildSupervisor before E zero wp broker_lines file nnm snm g =
     (let methodID = g_ConsensusMethod g;
          measureMod = (if methodID = 0 \<or> methodID = 2 then MeasureBrokerMod else MeasureRelayMod) @ [''Tx_Details'']
      in and_then (initConfig file 123 nnm 123 snm g) (\<lambda>(pcc, g').
         and_then (go_nth CommitteeMethod methodID) (\<lambda>meth.
         and_then (NewSupervisor (env_of g' E) zero wp
             \<lparr>sp_TotalDataSize = g_TotalDataSize g', sp_TxBatchSize = g_TxBatchSize g', sp_ReconfigTimeGap = g_ReconfigTimeGap g',
              sp_BrokerNum = g_BrokerNum g', sp_broker_lines = broker_lines\<rparr>
             (node_addr (g_IPmap_nodeTable g')) pcc meth measureMod) (\<lambda>lsn.
           Inr (if before then g_SupervisorAddr g else g_SupervisorAddr g', lsn)))))"

definition BuildNewPbftNode ::
  "go_env \<Rightarrow> gotime \<Rightarrow> storage \<Rightarrow> (bytes \<rightharpoonup> state_trie) \<Rightarrow> ip_map option \<Rightarrow> u64 \<Rightarrow> u64 \<Rightarrow> u64 \<Rightarrow> u64 \<Rightarrow> globals \<Rightarrow>
   (string \<times> pbft_node) go" where
  \<comment> \<open>the node, with the name by which it chooses its modules (\<open>modules_of\<close>)\<close>
  "BuildNewPbftNode E now s db file nid nnm sid snm g =
     and_then (initConfig file nid nnm sid snm g) (\<lambda>(pcc, g').
     and_then (go_nth CommitteeMethod (g_ConsensusMethod g)) (\<lambda>meth.
     and_then (NewPbftNode (env_of g' E) (shard_of_table (g_IPmap_nodeTable g')) now sid nid pcc s db) (\<lambda>worker.
       Inr (meth, worker))))"

section \<open>Generating the scripts\<close>

fun decimal :: "nat \<Rightarrow> string" where
  "decimal n = (if n < 10 then [char_of (48 + n)] else decimal (n div 10) @ [char_of (48 + n mod 10)])"

declare decimal.simps [simp del]

definition fmt_d :: "int \<Rightarrow> string" where
  \<comment> \<open>\<open>%d\<close>\<close>
  "fmt_d k = (if k < 0 then ''-'' @ decimal (nat (- k)) else decimal (nat k))"

record os =
  os_remove :: "string \<Rightarrow> bool" \<comment> \<open>no error, or the file does not exist\<close>
  os_open :: "string \<Rightarrow> bool"
  os_write :: "string \<Rightarrow> bool"

record file_sys =
  fs_files :: "string \<rightharpoonup> string"
  fileUpToDataSet :: "string set"

type_synonym file_op = "file_sys \<Rightarrow> (string option \<times> file_sys) go"

definition attachLineToFile :: "os \<Rightarrow> string \<Rightarrow> string \<Rightarrow> file_op" where
  "attachLineToFile os filePath line fs =
     (if filePath \<notin> fileUpToDataSet fs \<and> \<not> os_remove os filePath then Inl (LogPanic ''remove'')
      else let fs = (if filePath \<in> fileUpToDataSet fs then fs
                     else fs\<lparr>fs_files := (fs_files fs)(filePath := None), fileUpToDataSet := insert filePath (fileUpToDataSet fs)\<rparr>)
           in if \<not> os_open os filePath then Inr (Some ''open'', fs)
              else let old = map_default '''' (fs_files fs) filePath
                   in if \<not> os_write os filePath then Inr (Some ''write'', fs\<lparr>fs_files := (fs_files fs)(filePath \<mapsto> old)\<rparr>)
                      else Inr (None, fs\<lparr>fs_files := (fs_files fs)(filePath \<mapsto> old @ line @ ''\<newline>'')\<rparr>))"

definition op_seq :: "file_op \<Rightarrow> file_op \<Rightarrow> file_op" where
  \<comment> \<open>an error is returned at once\<close>
  "op_seq f k fs = and_then (f fs) (\<lambda>(err, fs). if err = None then k fs else Inr (err, fs))"

primrec op_each :: "('a \<Rightarrow> file_op) \<Rightarrow> 'a list \<Rightarrow> file_op" where
  "op_each f [] = (\<lambda>fs. Inr (None, fs))"
| "op_each f (x # xs) = op_seq (f x) (op_each f xs)"

definition file_name :: "string \<Rightarrow> string \<Rightarrow> string \<Rightarrow> string" where
  \<comment> \<open>the host part of an address, with \<open>_\<close> for \<open>.\<close>, between prefix and suffix of the format\<close>
  "file_name prefix suffix nodeIp =
     prefix @ map (\<lambda>c. if c = CHR ''.'' then CHR ''_'' else c) (takeWhile (\<lambda>c. c \<noteq> CHR '':'') nodeIp) @ suffix"

definition node_command :: "string \<Rightarrow> int \<Rightarrow> int \<Rightarrow> int \<Rightarrow> int \<Rightarrow> string" where
  "node_command commandFormat j nodenum i shardnum =
     commandFormat @ '' -n '' @ fmt_d j @ '' -N '' @ fmt_d nodenum @ '' -s '' @ fmt_d i @ '' -S '' @ fmt_d shardnum @ '' & \<newline>''"

definition supervisor_command :: "string \<Rightarrow> int \<Rightarrow> int \<Rightarrow> string" where
  "supervisor_command commandFormat nodenum shardnum =
     commandFormat @ '' -c -N '' @ fmt_d nodenum @ '' -S '' @ fmt_d shardnum @ '' & \<newline>''"

definition generate :: "os \<Rightarrow> string \<Rightarrow> string \<Rightarrow> string \<Rightarrow> ip_map \<Rightarrow> int \<Rightarrow> int \<Rightarrow> file_op" where
  \<comment> \<open>the common body of the two generators\<close>
  "generate os prefix suffix commandFormat ipMap nodenum shardnum =
     op_seq
       (op_each (\<lambda>i. case map_of ipMap (word_of_int i) of
           None \<Rightarrow> (\<lambda>fs. Inr (Some (''the shard (shardID = '' @ fmt_d i @ '') is not existed in the IP Table file''), fs))
         | Some shard \<Rightarrow> op_each (\<lambda>j. case map_of shard (word_of_int j) of
               Some nodeIp \<Rightarrow> attachLineToFile os (file_name prefix suffix nodeIp) (node_command commandFormat j nodenum i shardnum)
             | None \<Rightarrow> (\<lambda>fs. Inr (Some (''the node (shardID = '' @ fmt_d i @ '', nodeID = '' @ fmt_d j @ '') is not existed in the IP Table file''), fs)))
             [0 .. nodenum - 1])
          [0 .. shardnum - 1])
       (case map_of ipMap 2147483647 of
          Some supervisorShard \<Rightarrow>
            (case map_of supervisorShard 0 of
               Some nodeIp \<Rightarrow> attachLineToFile os (file_name prefix suffix nodeIp) (supervisor_command commandFormat nodenum shardnum)
             | None \<Rightarrow> (\<lambda>fs. Inr (Some ''the supervisor (shardID = 2147483647, nodeID = 0) is not existed in the IP Table file'', fs)))
        | None \<Rightarrow> (\<lambda>fs. Inr (Some ''the supervisor (shardID = 2147483647, nodeID = 0) is not existed in the IP Table file'', fs)))"

definition GenerateBatchByIpTable :: "string \<Rightarrow> os \<Rightarrow> ip_map option \<Rightarrow> int \<Rightarrow> int \<Rightarrow> file_op" where
  "GenerateBatchByIpTable goos os file =
     (if goos = ''windows'' then generate os ''complie_run_IpAddr='' ''.bat'' ''start cmd /k go run main.go'' (readIpTable file)
      else generate os ''complie_run_IpAddr='' ''.sh'' ''go run main.go'' (readIpTable file))"

definition GenerateExeBatchByIpTable :: "string \<Rightarrow> os \<Rightarrow> ip_map option \<Rightarrow> int \<Rightarrow> int \<Rightarrow> file_op" where
  "GenerateExeBatchByIpTable goos os file =
     (if goos = ''windows''
      then generate os (goos @ ''_exe_run_IpAddr='') ''.bat'' ''start cmd /k blockEmulator_Windows_Precompile.exe'' (readIpTable file)
      else generate os (goos @ ''_exe_run_IpAddr='') ''.sh'' (''./blockEmulator_'' @ goos @ ''_Precompile'') (readIpTable file))"

section \<open>The program\<close>

record flags =
  fl_gen :: bool
  fl_shellForExe :: bool
  fl_shardNum :: "int option" \<comment> \<open>none if the flag is not given\<close>
  fl_nodeNum :: "int option"
  fl_shardID :: "int option"
  fl_nodeID :: "int option"
  fl_supervisor :: bool

datatype 'f started =
    Generated "string option" file_sys
  | Started_Supervisor string "'f supervisor"
  | Started_Node string pbft_node

record 'f machine =
  \<comment> \<open>what the process finds: the parameters of the supervisor and of the nodes, the files, the clock\<close>
  ma_before :: bool
  ma_env :: go_env
  ma_zero :: 'f
  ma_wp :: 'f
  ma_broker_lines :: "string list"
  ma_goos :: string
  ma_os :: os
  ma_fs :: file_sys
  ma_config :: "global_config option"
  ma_ipTable :: "ip_map option"
  ma_now :: gotime
  ma_storage :: storage
  ma_db :: "bytes \<rightharpoonup> state_trie"

definition flag_default :: "'a \<Rightarrow> 'a option \<Rightarrow> 'a" where
  "flag_default d o' = (case o' of None \<Rightarrow> d | Some x \<Rightarrow> x)"

definition main_go :: "'f machine \<Rightarrow> flags \<Rightarrow> 'f started go" where
  "main_go M fl =
     and_then (ReadConfigFile (ma_config M) default_globals) (\<lambda>g.
     let shardNum = flag_default (g_ShardNum g) (fl_shardNum fl);
         nodeNum = flag_default (g_NodesInShard g) (fl_nodeNum fl);
         shardID = flag_default (- 1) (fl_shardID fl);
         nodeID = flag_default (- 1) (fl_nodeID fl);
         g = g\<lparr>g_ShardNum := shardNum, g_NodesInShard := nodeNum\<rparr>
     in if fl_gen fl
        then and_then ((if fl_shellForExe fl then GenerateExeBatchByIpTable else GenerateBatchByIpTable)
               (ma_goos M) (ma_os M) (ma_ipTable M) nodeNum shardNum (ma_fs M)) (\<lambda>(err, fs). Inr (Generated err fs))
        else if fl_supervisor fl
        then and_then (BuildSupervisor (ma_before M) (ma_env M) (ma_zero M) (ma_wp M) (ma_broker_lines M) (ma_ipTable M)
               (word_of_int nodeNum) (word_of_int shardNum) g) (\<lambda>(addr, lsn). Inr (Started_Supervisor addr lsn))
        else if shardID \<ge> shardNum \<or> shardID < 0 then Inl (LogPanic ''Wrong ShardID'')
        else if nodeID \<ge> nodeNum \<or> nodeID < 0 then Inl (LogPanic ''Wrong NodeID'')
        else and_then (BuildNewPbftNode (ma_env M) (ma_now M) (ma_storage M) (ma_db M) (ma_ipTable M)
               (word_of_int nodeID) (word_of_int nodeNum) (word_of_int shardID) (word_of_int shardNum) g)
               (\<lambda>(meth, worker). Inr (Started_Node meth worker)))"

section \<open>What is started\<close>

definition hash_stored :: "go_env \<Rightarrow> bool" where
  \<comment> \<open>the hash of the genesis block is a key that the database takes\<close>
  "hash_stored E \<longleftrightarrow> b_Hash (NewGenisisBlock E) \<noteq> [] \<and> length (b_Hash (NewGenisisBlock E)) \<le> 32768"

lemma hash_stored_env_of [simp]: "hash_stored (env_of g E) = hash_stored E"
  by (simp add: hash_stored_def NewGenisisBlock_def GetTxTreeRoot_def env_of_def)

lemma NewPbftNode_fresh:
  assumes "hash_stored E"
  shows "\<exists>p. NewPbftNode E table now sid nid pcc NewStorage db = Inr p"
  using assms
  by (simp add: NewPbftNode_def NewBlockChain_def Let_def GetNewestBlockHash_def GetBlock_def NewStorage_def AddGenisisBlock_def
      Storage_AddBlock_def AddBlockHeader_def bolt_put_def UpdateNewestBlock_def hash_stored_def)

definition deployable :: "ip_map \<Rightarrow> int \<Rightarrow> int \<Rightarrow> bool" where
  \<comment> \<open>the checks of \<open>initConfig\<close>\<close>
  "deployable ipMap N S \<longleftrightarrow> S \<le> int (length ipMap) - 1 \<and>
     (\<forall>k < length ipMap - 1. N \<le> int (length (shard_of_table ipMap (of_nat k))))"

lemma sint_int_small: "0 \<le> N \<Longrightarrow> N < 2 ^ 63 \<Longrightarrow> sint (word_of_int N :: u64) = N"
  by (simp add: sint_sbintrunc' signed_take_bit_int_eq_self)

lemma initConfig_iff:
  assumes "sint nnm = N" and "sint snm = S"
  shows "is_panic (initConfig file nid nnm sid snm g) \<longleftrightarrow> \<not> deployable (readIpTable file) N S"
    and "initConfig file nid nnm sid snm g = Inr (pcc, g') \<Longrightarrow>
      g_IPmap_nodeTable g' = readIpTable file \<and> g_ShardNum g' = S \<and> g_NodesInShard g' = N \<and>
      g_SupervisorAddr g' = node_addr (readIpTable file) SupervisorShard 0 \<and>
      g_net g' = InitNetworkTools (g_net g) \<and> g_ConsensusMethod g' = g_ConsensusMethod g \<and>
      cc_Nodes_perShard pcc = nnm \<and> cc_ShardNums pcc = snm \<and> cc_ShardID pcc = sid \<and> cc_NodeID pcc = nid"
  using assms by (auto simp: initConfig_def deployable_def Let_def not_less split: if_splits)

lemma CommitteeMethod_nth: "(\<exists>m. go_nth CommitteeMethod k = Inr m) \<longleftrightarrow> 0 \<le> k \<and> k < 4"
  by (auto simp: CommitteeMethod_def go_nth_Inr)

lemma BuildNewPbftNode_iff:
  assumes "sint nnm = N" and "sint snm = S" and "hash_stored E"
  shows "(\<exists>meth p. BuildNewPbftNode E now NewStorage db file nid nnm sid snm g = Inr (meth, p)) \<longleftrightarrow>
      deployable (readIpTable file) N S \<and> 0 \<le> g_ConsensusMethod g \<and> g_ConsensusMethod g < 4"
proof (cases "initConfig file nid nnm sid snm g")
  case (Inl e)
  then show ?thesis using initConfig_iff(1) [OF assms(1,2), of "file" nid sid g] by (simp add: BuildNewPbftNode_def)
next
  case (Inr r)
  then obtain pcc g' where r: "initConfig file nid nnm sid snm g = Inr (pcc, g')" by (cases r) auto
  have "deployable (readIpTable file) N S" using initConfig_iff(1) [OF assms(1,2), of "file" nid sid g] r by simp
  moreover obtain p where "NewPbftNode (env_of g' E) (shard_of_table (g_IPmap_nodeTable g')) now sid nid pcc NewStorage db = Inr p"
    using NewPbftNode_fresh assms(3) by (metis hash_stored_env_of)
  ultimately show ?thesis using r CommitteeMethod_nth [of "g_ConsensusMethod g"]
    by (auto simp: BuildNewPbftNode_def and_then_Inr)
qed

lemma BuildNewPbftNode_node:
  assumes "sint nnm = N" and "sint snm = S"
    and "BuildNewPbftNode E now s db file nid nnm sid snm g = Inr (meth, p)"
  shows "p_ShardID p = sid \<and> p_NodeID p = nid \<and> p_node_nums p = nnm \<and> p_malicious_nums p = (nnm - 1) div 3 \<and>
    n_IPaddr (p_RunningNode p) = node_addr (readIpTable file) sid nid \<and> meth = CommitteeMethod ! nat (g_ConsensusMethod g)"
  using assms(3) initConfig_iff(2) [OF assms(1,2), of "file" nid sid g]
  by (auto simp: BuildNewPbftNode_def and_then_Inr NewPbftNode_def node_addr_def go_nth_Inr)

definition flag_values :: "flags \<Rightarrow> int \<times> int \<times> int \<times> int" where
  \<comment> \<open>node, nodes, shard, shards after parsing; the defaults of \<open>-N\<close> and \<open>-S\<close> are not in the configuration file\<close>
  "flag_values fl = (flag_default (- 1) (fl_nodeID fl), flag_default 4 (fl_nodeNum fl),
     flag_default (- 1) (fl_shardID fl), flag_default 4 (fl_shardNum fl))"

lemma ReadConfigFile_Some:
  "\<exists>g. ReadConfigFile (Some config) default_globals = Inr g \<and> g_ConsensusMethod g = gc_ConsensusMethod config \<and>
     g_ShardNum g = 4 \<and> g_NodesInShard g = 4"
  by (simp add: ReadConfigFile_def default_globals_def)

lemma main_go_node:
  assumes "ma_config M = Some config" and "\<not> fl_gen fl" and "\<not> fl_supervisor fl" and "flag_values fl = (n, N, s, S)"
  shows "\<exists>g. g_ConsensusMethod g = gc_ConsensusMethod config \<and>
    main_go M fl = (if s \<ge> S \<or> s < 0 then Inl (LogPanic ''Wrong ShardID'') else if n \<ge> N \<or> n < 0 then Inl (LogPanic ''Wrong NodeID'')
      else and_then (BuildNewPbftNode (ma_env M) (ma_now M) (ma_storage M) (ma_db M) (ma_ipTable M)
               (word_of_int n) (word_of_int N) (word_of_int s) (word_of_int S) g) (\<lambda>(meth, worker). Inr (Started_Node meth worker)))"
proof -
  obtain g where g: "ReadConfigFile (Some config) default_globals = Inr g" "g_ConsensusMethod g = gc_ConsensusMethod config"
    "g_ShardNum g = 4" "g_NodesInShard g = 4" using ReadConfigFile_Some by blast
  show ?thesis using assms g
    by (intro exI [of _ "g\<lparr>g_ShardNum := S, g_NodesInShard := N\<rparr>"]) (auto simp: main_go_def flag_values_def Let_def)
qed

lemma main_go_starts:
  assumes "ma_config M = Some config" and "ma_storage M = NewStorage" and "hash_stored (ma_env M)"
    and "\<not> fl_gen fl" and "\<not> fl_supervisor fl" and "flag_values fl = (n, N, s, S)"
    and "0 \<le> N" "N < 2 ^ 63" "0 \<le> S" "S < 2 ^ 63"
  shows "(\<not> is_panic (main_go M fl) \<longleftrightarrow> 0 \<le> s \<and> s < S \<and> 0 \<le> n \<and> n < N \<and> deployable (readIpTable (ma_ipTable M)) N S \<and>
            0 \<le> gc_ConsensusMethod config \<and> gc_ConsensusMethod config < 4) \<and>
         (\<forall>r. main_go M fl = Inr r \<longrightarrow> (\<exists>meth p. r = Started_Node meth p \<and> meth = CommitteeMethod ! nat (gc_ConsensusMethod config) \<and>
            p_ShardID p = word_of_int s \<and> p_NodeID p = word_of_int n \<and> p_node_nums p = word_of_int N \<and>
            p_malicious_nums p = (word_of_int N - 1) div 3 \<and>
            n_IPaddr (p_RunningNode p) = node_addr (readIpTable (ma_ipTable M)) (word_of_int s) (word_of_int n)))"
proof -
  obtain g where g: "g_ConsensusMethod g = gc_ConsensusMethod config"
    "main_go M fl = (if s \<ge> S \<or> s < 0 then Inl (LogPanic ''Wrong ShardID'') else if n \<ge> N \<or> n < 0 then Inl (LogPanic ''Wrong NodeID'')
      else and_then (BuildNewPbftNode (ma_env M) (ma_now M) NewStorage (ma_db M) (ma_ipTable M)
               (word_of_int n) (word_of_int N) (word_of_int s) (word_of_int S) g) (\<lambda>(meth, worker). Inr (Started_Node meth worker)))"
    using main_go_node [OF assms(1,4-6)] assms(2) by auto
  note N = sint_int_small [OF assms(7,8)] and S = sint_int_small [OF assms(9,10)]
  show ?thesis
  proof (cases "s \<ge> S \<or> s < 0 \<or> n \<ge> N \<or> n < 0")
    case True
    then show ?thesis using g(2) by auto
  next
    case False
    then have m: "main_go M fl = and_then (BuildNewPbftNode (ma_env M) (ma_now M) NewStorage (ma_db M) (ma_ipTable M)
        (word_of_int n) (word_of_int N) (word_of_int s) (word_of_int S) g) (\<lambda>(meth, worker). Inr (Started_Node meth worker))"
      using g(2) by simp
    have "\<not> is_panic (main_go M fl) \<longleftrightarrow> (\<exists>meth p. BuildNewPbftNode (ma_env M) (ma_now M) NewStorage (ma_db M) (ma_ipTable M)
        (word_of_int n) (word_of_int N) (word_of_int s) (word_of_int S) g = Inr (meth, p))"
      unfolding m by (auto simp: not_panic_iff and_then_Inr)
    then have iff: "\<not> is_panic (main_go M fl) \<longleftrightarrow> deployable (readIpTable (ma_ipTable M)) N S \<and>
        0 \<le> gc_ConsensusMethod config \<and> gc_ConsensusMethod config < 4"
      using BuildNewPbftNode_iff [OF N S assms(3)] g(1) by simp
    have "\<exists>meth p. r = Started_Node meth p \<and> meth = CommitteeMethod ! nat (gc_ConsensusMethod config) \<and>
        p_ShardID p = word_of_int s \<and> p_NodeID p = word_of_int n \<and> p_node_nums p = word_of_int N \<and>
        p_malicious_nums p = (word_of_int N - 1) div 3 \<and>
        n_IPaddr (p_RunningNode p) = node_addr (readIpTable (ma_ipTable M)) (word_of_int s) (word_of_int n)"
      if r: "main_go M fl = Inr r" for r
    proof -
      obtain meth p where p: "r = Started_Node meth p" "BuildNewPbftNode (ma_env M) (ma_now M) NewStorage (ma_db M) (ma_ipTable M)
          (word_of_int n) (word_of_int N) (word_of_int s) (word_of_int S) g = Inr (meth, p)"
        using r unfolding m by (auto simp: and_then_Inr)
      from BuildNewPbftNode_node [OF N S p(2)] g(1) p(1) show ?thesis by simp
    qed
    with iff False show ?thesis by auto
  qed
qed

text \<open>
  C40. Start of a node, with every error: on a machine with a fresh database, the program started without \<open>-g\<close>
  and \<open>-c\<close> gives a node exactly if the identifiers lie below the numbers of shards and nodes, the table of addresses is large enough
  and the method is one of the four; in every other case it panics. The node has the identifiers and the number of nodes it was
  started with, tolerates \<open>(N - 1) / 3\<close> faults and listens at its address in the table.
\<close>

theorem node_starts_iff:
  assumes "ma_config M = Some config" and "ma_storage M = NewStorage" and "hash_stored (ma_env M)"
    and "\<not> fl_gen fl" and "\<not> fl_supervisor fl" and "flag_values fl = (n, N, s, S)"
    and "0 \<le> N" "N < 2 ^ 63" "0 \<le> S" "S < 2 ^ 63"
  shows "(\<not> is_panic (main_go M fl) \<longleftrightarrow> 0 \<le> s \<and> s < S \<and> 0 \<le> n \<and> n < N \<and> deployable (readIpTable (ma_ipTable M)) N S \<and>
            0 \<le> gc_ConsensusMethod config \<and> gc_ConsensusMethod config < 4) \<and>
         (\<forall>r. main_go M fl = Inr r \<longrightarrow> (\<exists>meth p. r = Started_Node meth p \<and> meth = CommitteeMethod ! nat (gc_ConsensusMethod config) \<and>
            p_ShardID p = word_of_int s \<and> p_NodeID p = word_of_int n \<and> p_node_nums p = word_of_int N \<and>
            p_malicious_nums p = (word_of_int N - 1) div 3 \<and>
            n_IPaddr (p_RunningNode p) = node_addr (readIpTable (ma_ipTable M)) (word_of_int s) (word_of_int n)))"
  using main_go_starts [OF assms] .

section \<open>What the scripts contain\<close>

definition put_line :: "string \<times> string \<Rightarrow> file_sys \<Rightarrow> file_sys" where
  \<comment> \<open>a line attached without an error\<close>
  "put_line l fs = (let path = fst l in fs
     \<lparr>fs_files := (fs_files fs)(path \<mapsto> (if path \<in> fileUpToDataSet fs then map_default '''' (fs_files fs) path else '''') @ snd l @ ''\<newline>''),
      fileUpToDataSet := insert path (fileUpToDataSet fs)\<rparr>)"

lemma attachLineToFile_None:
  "attachLineToFile os path line fs = Inr (None, fs') \<Longrightarrow> fs' = put_line (path, line) fs"
  by (auto simp: attachLineToFile_def put_line_def Let_def map_default_def insert_absorb split: if_splits)

lemma op_seq_None:
  "op_seq f k fs = Inr (None, fs') \<longleftrightarrow> (\<exists>fs1. f fs = Inr (None, fs1) \<and> k fs1 = Inr (None, fs'))"
  by (auto simp: op_seq_def and_then_Inr split: if_splits)

lemma op_each_None:
  assumes "op_each f xs fs = Inr (None, fs')"
    and "\<And>x fs fs'. x \<in> set xs \<Longrightarrow> f x fs = Inr (None, fs') \<Longrightarrow> P x \<and> fs' = fold put_line (l x) fs"
  shows "(\<forall>x \<in> set xs. P x) \<and> fs' = fold put_line (concat (map l xs)) fs"
  using assms
proof (induction xs arbitrary: fs)
  case (Cons x xs)
  from Cons.prems(1) obtain fs1 where "f x fs = Inr (None, fs1)" and r: "op_each f xs fs1 = Inr (None, fs')"
    by (auto simp: op_seq_None)
  then have "P x" "fs1 = fold put_line (l x) fs" using Cons.prems(2) [of x fs fs1] by simp_all
  moreover have "(\<forall>x \<in> set xs. P x) \<and> fs' = fold put_line (concat (map l xs)) fs1"
    using Cons.IH [OF r] Cons.prems(2) by simp
  ultimately show ?case by simp
qed simp

definition node_line :: "string \<times> string \<times> string \<Rightarrow> ip_map \<Rightarrow> int \<Rightarrow> int \<Rightarrow> int \<Rightarrow> int \<Rightarrow> string \<times> string" where
  "node_line fmt ipMap nodenum shardnum i j = (case fmt of (prefix, suffix, commandFormat) \<Rightarrow>
     (file_name prefix suffix (node_addr ipMap (word_of_int i) (word_of_int j)), node_command commandFormat j nodenum i shardnum))"

definition supervisor_line :: "string \<times> string \<times> string \<Rightarrow> ip_map \<Rightarrow> int \<Rightarrow> int \<Rightarrow> string \<times> string" where
  "supervisor_line fmt ipMap nodenum shardnum = (case fmt of (prefix, suffix, commandFormat) \<Rightarrow>
     (file_name prefix suffix (node_addr ipMap SupervisorShard 0), supervisor_command commandFormat nodenum shardnum))"

definition script :: "string \<times> string \<times> string \<Rightarrow> ip_map \<Rightarrow> int \<Rightarrow> int \<Rightarrow> (string \<times> string) list" where
  \<comment> \<open>the specification: one line for each node, in order, then one for the supervisor\<close>
  "script fmt ipMap nodenum shardnum =
     concat (map (\<lambda>i. map (node_line fmt ipMap nodenum shardnum i) [0 .. nodenum - 1]) [0 .. shardnum - 1]) @
     [supervisor_line fmt ipMap nodenum shardnum]"

definition in_table :: "ip_map \<Rightarrow> u64 \<Rightarrow> u64 \<Rightarrow> bool" where
  "in_table ipMap sid nid \<longleftrightarrow> map_of ipMap sid \<noteq> None \<and> map_of (shard_of_table ipMap sid) nid \<noteq> None"

lemma node_line_in_script:
  assumes "i \<in> {0 ..< S}" and "j \<in> {0 ..< N}"
  shows "node_line fmt ipMap N S i j \<in> set (script fmt ipMap N S)"
proof -
  have "i \<in> set [0 .. S - 1]" "node_line fmt ipMap N S i j \<in> set (map (node_line fmt ipMap N S i) [0 .. N - 1])" using assms by auto
  then show ?thesis by (auto simp: script_def)
qed

lemma generate_None:
  assumes "generate os prefix suffix cf ipMap N S fs = Inr (None, fs')"
  shows "fs' = fold put_line (script (prefix, suffix, cf) ipMap N S) fs \<and>
    (\<forall>i \<in> {0 ..< S}. map_of ipMap (word_of_int i) \<noteq> None \<and> (\<forall>j \<in> {0 ..< N}. in_table ipMap (word_of_int i) (word_of_int j))) \<and>
    in_table ipMap SupervisorShard 0"
proof -
  let ?fmt = "(prefix, suffix, cf)"
  let ?node = "\<lambda>i shard j. case map_of shard (word_of_int j) of
       Some nodeIp \<Rightarrow> attachLineToFile os (file_name prefix suffix nodeIp) (node_command cf j N i S)
     | None \<Rightarrow> (\<lambda>fs. Inr (Some (''the node (shardID = '' @ fmt_d i @ '', nodeID = '' @ fmt_d j @ '') is not existed in the IP Table file''), fs))"
  let ?shard = "\<lambda>i. case map_of ipMap (word_of_int i) of
       None \<Rightarrow> (\<lambda>fs. Inr (Some (''the shard (shardID = '' @ fmt_d i @ '') is not existed in the IP Table file''), fs))
     | Some shard \<Rightarrow> op_each (?node i shard) [0 .. N - 1]"
  obtain fs1 where 1: "op_each ?shard [0 .. S - 1] fs = Inr (None, fs1)"
    and 2: "(case map_of ipMap 2147483647 of
          Some supervisorShard \<Rightarrow>
            (case map_of supervisorShard 0 of
               Some nodeIp \<Rightarrow> attachLineToFile os (file_name prefix suffix nodeIp) (supervisor_command cf N S)
             | None \<Rightarrow> (\<lambda>fs. Inr (Some ''the supervisor (shardID = 2147483647, nodeID = 0) is not existed in the IP Table file'', fs)))
        | None \<Rightarrow> (\<lambda>fs. Inr (Some ''the supervisor (shardID = 2147483647, nodeID = 0) is not existed in the IP Table file'', fs))) fs1
      = Inr (None, fs')"
    using assms unfolding generate_def op_seq_None by blast
  have node: "in_table ipMap (word_of_int i) (word_of_int j) \<and> h' = fold put_line [node_line ?fmt ipMap N S i j] h"
    if "map_of ipMap (word_of_int i) = Some shard" "?node i shard j h = Inr (None, h')" for i j shard h h'
    using that by (auto simp: in_table_def shard_of_table_def map_default_def node_line_def node_addr_def
        dest: attachLineToFile_None split: option.splits)
  have shard: "(map_of ipMap (word_of_int i) \<noteq> None \<and> (\<forall>j \<in> {0 ..< N}. in_table ipMap (word_of_int i) (word_of_int j))) \<and>
      h' = fold put_line (map (node_line ?fmt ipMap N S i) [0 .. N - 1]) h" if i: "?shard i h = Inr (None, h')" for i h h'
  proof -
    obtain shard where s: "map_of ipMap (word_of_int i) = Some shard" and e: "op_each (?node i shard) [0 .. N - 1] h = Inr (None, h')"
      using i by (auto split: option.splits)
    from op_each_None [OF e, of "\<lambda>j. in_table ipMap (word_of_int i) (word_of_int j)" "\<lambda>j. [node_line ?fmt ipMap N S i j]", OF node [OF s]]
    show ?thesis using s by (auto simp: concat_map_singleton)
  qed
  have "in_table ipMap SupervisorShard 0 \<and> fs' = put_line (supervisor_line ?fmt ipMap N S) fs1"
    using 2 by (auto simp: in_table_def SupervisorShard_def shard_of_table_def map_default_def supervisor_line_def node_addr_def
        dest: attachLineToFile_None split: option.splits)
  with op_each_None [OF 1, where P = "\<lambda>i. map_of ipMap (word_of_int i) \<noteq> None \<and> (\<forall>j \<in> {0 ..< N}. in_table ipMap (word_of_int i) (word_of_int j))"
      and l = "\<lambda>i. map (node_line ?fmt ipMap N S i) [0 .. N - 1]", OF shard]
  show ?thesis by (auto simp: script_def)
qed

definition lines_of :: "string \<Rightarrow> (string \<times> string) list \<Rightarrow> string" where
  "lines_of path ls = concat (map (\<lambda>l. snd l @ ''\<newline>'') (filter (\<lambda>l. fst l = path) ls))"

lemma lines_of_simps:
  "lines_of path (l # ls) = (if fst l = path then snd l @ ''\<newline>'' else '''') @ lines_of path ls"
  "path \<notin> fst ` set ls \<Longrightarrow> lines_of path ls = ''''"
  by (auto simp: lines_of_def filter_empty_conv image_iff)

lemma fold_put_line:
  "fs_files (fold put_line ls fs) path =
     (if path \<in> fst ` set ls
      then Some ((if path \<in> fileUpToDataSet fs then map_default '''' (fs_files fs) path else '''') @ lines_of path ls)
      else fs_files fs path)"
proof (induction ls arbitrary: fs)
  case (Cons l ls)
  have "fs_files (put_line l fs) path = (if path = fst l
      then Some ((if path \<in> fileUpToDataSet fs then map_default '''' (fs_files fs) path else '''') @ snd l @ ''\<newline>'')
      else fs_files fs path)" "fileUpToDataSet (put_line l fs) = insert (fst l) (fileUpToDataSet fs)"
    by (simp_all add: put_line_def Let_def)
  then show ?case using Cons.IH [of "put_line l fs"] lines_of_simps(2) [of path ls]
    by (cases "path \<in> fst ` set ls") (auto simp: lines_of_simps(1) map_default_def)
qed simp

definition script_format :: "bool \<Rightarrow> string \<Rightarrow> string \<times> string \<times> string" where
  "script_format exe goos =
     (if exe then if goos = ''windows'' then (''windows_exe_run_IpAddr='', ''.bat'', ''start cmd /k blockEmulator_Windows_Precompile.exe'')
                  else (goos @ ''_exe_run_IpAddr='', ''.sh'', ''./blockEmulator_'' @ goos @ ''_Precompile'')
      else if goos = ''windows'' then (''complie_run_IpAddr='', ''.bat'', ''start cmd /k go run main.go'')
      else (''complie_run_IpAddr='', ''.sh'', ''go run main.go''))"

lemma generators:
  "(if exe then GenerateExeBatchByIpTable else GenerateBatchByIpTable) goos os f =
     (case script_format exe goos of (prefix, suffix, cf) \<Rightarrow> generate os prefix suffix cf (readIpTable f))"
  by (simp add: GenerateExeBatchByIpTable_def GenerateBatchByIpTable_def script_format_def)

lemma generated:
  assumes "ma_config M = Some config" and "fl_gen fl" and "flag_values fl = (n, N, s, S)" and "main_go M fl = Inr (Generated None fs')"
  shows "fs' = fold put_line (script (script_format (fl_shellForExe fl) (ma_goos M)) (readIpTable (ma_ipTable M)) N S) (ma_fs M) \<and>
    (\<forall>i \<in> {0 ..< S}. map_of (readIpTable (ma_ipTable M)) (word_of_int i) \<noteq> None \<and>
       (\<forall>j \<in> {0 ..< N}. in_table (readIpTable (ma_ipTable M)) (word_of_int i) (word_of_int j))) \<and>
    in_table (readIpTable (ma_ipTable M)) SupervisorShard 0"
proof -
  obtain g where g: "ReadConfigFile (Some config) default_globals = Inr g" "g_ShardNum g = 4" "g_NodesInShard g = 4"
    using ReadConfigFile_Some by blast
  have "(if fl_shellForExe fl then GenerateExeBatchByIpTable else GenerateBatchByIpTable)
      (ma_goos M) (ma_os M) (ma_ipTable M) N S (ma_fs M) = Inr (None, fs')"
    using assms g by (auto simp: main_go_def flag_values_def Let_def and_then_Inr split: if_splits)
  then show ?thesis unfolding generators by (auto split: prod.splits dest!: generate_None)
qed

text \<open>
  Scripts: started with \<open>-g\<close>, when it reports no error, the program has written for every host one script
  with exactly the commands of the nodes on that host, in order, and the command of the supervisor on the
  supervisor's host; what was in such a file before is gone, and no other file is touched. Every address it used is in the table.
\<close>

theorem scripts_complete:
  assumes "ma_config M = Some config" and "fl_gen fl" and "flag_values fl = (n, N, s, S)"
    and "main_go M fl = Inr (Generated None fs')" and "fileUpToDataSet (ma_fs M) = {}"
  defines "ls \<equiv> script (script_format (fl_shellForExe fl) (ma_goos M)) (readIpTable (ma_ipTable M)) N S"
  shows "fs_files fs' = (\<lambda>path. if path \<in> fst ` set ls then Some (lines_of path ls) else fs_files (ma_fs M) path) \<and>
    length ls = nat N * nat S + 1 \<and>
    (\<forall>i j. 0 \<le> i \<and> i < S \<and> 0 \<le> j \<and> j < N \<longrightarrow> in_table (readIpTable (ma_ipTable M)) (word_of_int i) (word_of_int j))"
proof -
  note g = generated [OF assms(1-4), folded ls_def]
  have "fs_files fs' path = (if path \<in> fst ` set ls then Some (lines_of path ls) else fs_files (ma_fs M) path)" for path
    using g assms(5) fold_put_line [of ls "ma_fs M" path] by simp
  moreover have "length ls = nat N * nat S + 1"
    by (simp add: ls_def script_def length_concat comp_def sum_list_triv)
  ultimately show ?thesis using g by auto
qed

section \<open>From the scripts to a running cluster\<close>

definition node_flags :: "int \<Rightarrow> int \<Rightarrow> int \<Rightarrow> int \<Rightarrow> flags" where
  "node_flags j nodenum i shardnum = \<lparr>fl_gen = False, fl_shellForExe = False, fl_shardNum = Some shardnum, fl_nodeNum = Some nodenum,
     fl_shardID = Some i, fl_nodeID = Some j, fl_supervisor = False\<rparr>"

definition supervisor_flags :: "int \<Rightarrow> int \<Rightarrow> flags" where
  "supervisor_flags nodenum shardnum = \<lparr>fl_gen = False, fl_shellForExe = False, fl_shardNum = Some shardnum, fl_nodeNum = Some nodenum,
     fl_shardID = None, fl_nodeID = None, fl_supervisor = True\<rparr>"

lemma keys_length:
  assumes "\<forall>k \<in> K. map_of xs k \<noteq> None"
  shows "card K \<le> length xs"
proof -
  have "K \<subseteq> fst ` set xs" using assms by (force simp: map_of_eq_None_iff)
  then have "card K \<le> card (fst ` set xs)" by (intro card_mono) auto
  also have "\<dots> \<le> length xs" by (metis card_length length_map set_map)
  finally show ?thesis .
qed

lemma u64_of_int_inj: "inj_on (word_of_int :: int \<Rightarrow> u64) {0 ..< 2 ^ 64}"
  by (rule inj_on_inverseI [where g = uint]) (simp add: unsigned_of_int take_bit_int_eq_self)

lemma card_u64: "0 \<le> n \<Longrightarrow> n \<le> 2 ^ 64 \<Longrightarrow> card ((word_of_int :: int \<Rightarrow> u64) ` {0 ..< n}) = nat n"
  using inj_on_subset [OF u64_of_int_inj, of "{0 ..< n}"] by (simp add: card_image)

lemma generated_deployable:
  assumes "\<forall>i \<in> {0 ..< S}. map_of ipMap (word_of_int i) \<noteq> None \<and> (\<forall>j \<in> {0 ..< N}. in_table ipMap (word_of_int i) (word_of_int j))"
    and "in_table ipMap SupervisorShard 0" and "0 \<le> N" "N < 2 ^ 63" "0 \<le> S" "S \<le> 2147483647"
    and "\<forall>k. nat S \<le> k \<and> k < length ipMap - 1 \<longrightarrow> N \<le> int (length (shard_of_table ipMap (of_nat k)))"
  shows "deployable ipMap N S"
proof -
  have sup: "SupervisorShard \<notin> word_of_int ` {0 ..< S}"
  proof
    assume "SupervisorShard \<in> word_of_int ` {0 ..< S}"
    then obtain i where i: "0 \<le> i" "i < S" "word_of_int 2147483647 = (word_of_int i :: u64)" by (auto simp: SupervisorShard_def)
    with inj_onD [OF u64_of_int_inj i(3)] assms(6) show False by simp
  qed
  have "card (insert SupervisorShard (word_of_int ` {0 ..< S})) \<le> length ipMap"
    using assms(1,2) by (intro keys_length) (auto simp: in_table_def)
  then have "nat S + 1 \<le> length ipMap" using sup card_u64 [of S] assms(5,6) by simp
  moreover have "N \<le> int (length (shard_of_table ipMap (of_nat k)))" if k: "k < nat S" for k
  proof -
    have "card ((word_of_int :: int \<Rightarrow> u64) ` {0 ..< N}) \<le> length (shard_of_table ipMap (of_nat k))"
      using bspec [OF assms(1), of "int k"] k by (intro keys_length) (auto simp: in_table_def)
    then show ?thesis using card_u64 [of N] assms(3,4) by simp
  qed
  ultimately show ?thesis using assms(5,7) by (auto simp: deployable_def not_less) (meson not_le_imp_less)
qed

lemma BuildSupervisor_starts:
  assumes "sint nnm = N" and "sint snm = S" and "deployable (readIpTable file) N S" and "g_ConsensusMethod g \<in> {2, 3}"
  shows "\<exists>d. BuildSupervisor before E zero wp lines file nnm snm g =
    Inr (if before then g_SupervisorAddr g else node_addr (readIpTable file) SupervisorShard 0, d)"
proof -
  obtain pcc g' where r: "initConfig file 123 nnm 123 snm g = Inr (pcc, g')"
    using initConfig_iff(1) [OF assms(1,2), of "file" 123 123 g] assms(3) by (auto simp: not_panic_iff)
  obtain m where m: "go_nth CommitteeMethod (g_ConsensusMethod g) = Inr m" "m \<notin> {''CLPA_Broker'', ''CLPA''}"
    using assms(4) by (auto simp: go_nth_Inr CommitteeMethod_def)
  have "\<exists>d. NewSupervisor E' zero wp sp ips pcc m ms = Inr d" for E' sp ips ms
    using m(2) by (simp add: NewSupervisor_def Let_def)
  then obtain D where "\<And>E' sp ips ms. NewSupervisor E' zero wp sp ips pcc m ms = Inr (D E' sp ips ms)" by metis
  then show ?thesis using r m(1) initConfig_iff(2) [OF assms(1,2) r] by (auto simp: BuildSupervisor_def Let_def)
qed

lemma main_go_supervisor:
  assumes "ma_config M = Some config" and "sint (word_of_int N :: u64) = N" and "sint (word_of_int S :: u64) = S"
    and "gc_ConsensusMethod config \<in> {2, 3}" and "deployable (readIpTable (ma_ipTable M)) N S"
  shows "\<exists>d. main_go M (supervisor_flags N S) = Inr (Started_Supervisor
    (if ma_before M then ''127.0.0.1:18800'' else node_addr (readIpTable (ma_ipTable M)) SupervisorShard 0) d)"
proof -
  obtain g where g: "ReadConfigFile (Some config) default_globals = Inr g" "g_ConsensusMethod g = gc_ConsensusMethod config"
      "g_SupervisorAddr g = ''127.0.0.1:18800''"
    by (simp add: ReadConfigFile_def default_globals_def)
  have m: "g_ConsensusMethod (g\<lparr>g_ShardNum := S, g_NodesInShard := N\<rparr>) \<in> {2, 3}" using g(2) assms(4) by simp
  obtain d where "BuildSupervisor (ma_before M) (ma_env M) (ma_zero M) (ma_wp M) (ma_broker_lines M) (ma_ipTable M)
      (word_of_int N) (word_of_int S) (g\<lparr>g_ShardNum := S, g_NodesInShard := N\<rparr>) =
      Inr (if ma_before M then ''127.0.0.1:18800'' else node_addr (readIpTable (ma_ipTable M)) SupervisorShard 0, d)"
    using BuildSupervisor_starts [OF assms(2,3,5) m, of "ma_before M" "ma_env M" "ma_zero M" "ma_wp M" "ma_broker_lines M"] g(3) by auto
  then show ?thesis using assms(1) g(1) by (simp add: main_go_def supervisor_flags_def flag_default_def Let_def)
qed


section \<open>Witnesses\<close>

definition demo_config :: global_config where
  "demo_config = \<lparr>gc_ConsensusMethod = 3, gc_PbftViewChangeTimeOut = 10000, gc_ExpDataRootDir = ''expTest'', gc_BlockInterval = 5000,
     gc_BlocksizeInBytes = 20000, gc_MaxBlockSizeGlobal = 2000, gc_UseBlocksizeInBytes = 0, gc_InjectSpeed = 2000, gc_TotalDataSize = 160000,
     gc_TxBatchSize = 16000, gc_BrokerNum = 10, gc_RelayWithMerkleProof = 0, gc_DatasetFile = ''txs.csv'', gc_ReconfigTimeGap = 50,
     gc_Delay = -1, gc_JitterRange = -1, gc_Bandwidth = 10000000\<rparr>"

definition demo_ip_map :: ip_map where
  "demo_ip_map = [(0, [(0, ''10.0.0.1:1''), (1, ''10.0.0.1:2'')]), (2147483647, [(0, ''10.0.0.2:3'')])]"

definition demo_machine :: "int machine" where
  "demo_machine = \<lparr>ma_before = False, ma_env = demo_env, ma_zero = 0, ma_wp = 1, ma_broker_lines = [], ma_goos = ''linux'',
     ma_os = \<lparr>os_remove = (\<lambda>_. True), os_open = (\<lambda>_. True), os_write = (\<lambda>_. True)\<rparr>,
     ma_fs = \<lparr>fs_files = Map.empty, fileUpToDataSet = {}\<rparr>, ma_config = Some demo_config, ma_ipTable = Some demo_ip_map,
     ma_now = 0, ma_storage = NewStorage, ma_db = Map.empty\<rparr>"

definition demo_gen :: flags where
  "demo_gen = \<lparr>fl_gen = True, fl_shellForExe = False, fl_shardNum = Some 1, fl_nodeNum = Some 2, fl_shardID = None, fl_nodeID = None,
     fl_supervisor = False\<rparr>"

lemma demo_hash_stored: "hash_stored demo_env"
  by (simp add: hash_stored_def NewGenisisBlock_def Let_def NewBlock_def demo_env_def)

theorem node_starts_iff_witness:
  "\<exists>p. main_go demo_machine (node_flags 1 2 0 1) = Inr (Started_Node ''Relay'' p) \<and> p_NodeID p = 1 \<and>
     n_IPaddr (p_RunningNode p) = ''10.0.0.1:2''"
proof -
  have 1: "ma_config demo_machine = Some demo_config" "ma_storage demo_machine = NewStorage" "hash_stored (ma_env demo_machine)"
    using demo_hash_stored by (simp_all add: demo_machine_def)
  have 2: "\<not> fl_gen (node_flags 1 2 0 1)" "\<not> fl_supervisor (node_flags 1 2 0 1)" "flag_values (node_flags 1 2 0 1) = (1, 2, 0, 1)"
    by (simp_all add: node_flags_def flag_values_def flag_default_def)
  have 3: "(0 :: int) \<le> 2" "(2 :: int) < 2 ^ 63" "(0 :: int) \<le> 1" "(1 :: int) < 2 ^ 63" by simp_all
  note st = node_starts_iff [OF 1 2 3]
  have "deployable (readIpTable (ma_ipTable demo_machine)) 2 1"
    by (simp add: deployable_def demo_machine_def readIpTable_def demo_ip_map_def shard_of_table_def map_default_def)
  then have "\<not> is_panic (main_go demo_machine (node_flags 1 2 0 1))" using st by (simp add: demo_config_def)
  then obtain r where r: "main_go demo_machine (node_flags 1 2 0 1) = Inr r" by (auto simp: not_panic_iff)
  moreover have "node_addr (readIpTable (ma_ipTable demo_machine)) 0 1 = ''10.0.0.1:2''"
    by (simp add: demo_machine_def readIpTable_def demo_ip_map_def node_addr_def shard_of_table_def map_default_def)
  ultimately show ?thesis using st by (auto simp: demo_config_def CommitteeMethod_def)
qed

lemma demo_scripts: "\<exists>fs'. main_go demo_machine demo_gen = Inr (Generated None fs')"
proof -
  have "[0 .. 1 :: int] = [0, 1]" "[0 .. 0 :: int] = [0]" by (simp_all add: upto_rec1)
  then show ?thesis
    by (simp add: main_go_def demo_machine_def ReadConfigFile_def demo_gen_def flag_default_def Let_def GenerateBatchByIpTable_def
        generate_def op_seq_def readIpTable_def demo_ip_map_def attachLineToFile_def default_globals_def)
qed

theorem scripts_complete_witness:
  "\<exists>fs'. main_go demo_machine demo_gen = Inr (Generated None fs') \<and>
     fs_files fs' ''complie_run_IpAddr=10_0_0_1.sh'' =
       Some (''go run main.go -n 0 -N 2 -s 0 -S 1 & \<newline>\<newline>'' @ ''go run main.go -n 1 -N 2 -s 0 -S 1 & \<newline>\<newline>'')"
proof -
  obtain fs' where fs': "main_go demo_machine demo_gen = Inr (Generated None fs')" using demo_scripts by blast
  have 1: "ma_config demo_machine = Some demo_config" "fl_gen demo_gen" "flag_values demo_gen = (- 1, 2, - 1, 1)"
    "fileUpToDataSet (ma_fs demo_machine) = {}"
    by (simp_all add: demo_machine_def demo_gen_def flag_values_def flag_default_def)
  have u: "[0 .. 1 :: int] = [0, 1]" "[0 .. 0 :: int] = [0]" by (simp_all add: upto_rec1)
  have s: "script (script_format (fl_shellForExe demo_gen) (ma_goos demo_machine)) (readIpTable (ma_ipTable demo_machine)) 2 1 =
      [(''complie_run_IpAddr=10_0_0_1.sh'', ''go run main.go -n 0 -N 2 -s 0 -S 1 & \<newline>''),
       (''complie_run_IpAddr=10_0_0_1.sh'', ''go run main.go -n 1 -N 2 -s 0 -S 1 & \<newline>''),
       (''complie_run_IpAddr=10_0_0_2.sh'', ''go run main.go -c -N 2 -S 1 & \<newline>'')]"
    by (simp add: script_def script_format_def demo_gen_def demo_machine_def readIpTable_def demo_ip_map_def u node_line_def
        supervisor_line_def file_name_def node_addr_def shard_of_table_def map_default_def node_command_def supervisor_command_def
        fmt_d_def decimal.simps SupervisorShard_def) (simp add: char_of_def bit_Suc_0_iff)
  from scripts_complete [OF 1(1-3) fs' 1(4)] fs' show ?thesis unfolding s by (simp add: lines_of_def)
qed

definition demo_parse :: "string \<Rightarrow> flags" where
  \<comment> \<open>the options of the three commands of the example, told apart by a character\<close>
  "demo_parse cmd =
     (if cmd ! 16 = CHR ''c'' then supervisor_flags 2 1 else if cmd ! 18 = CHR ''0'' then node_flags 0 2 0 1 else node_flags 1 2 0 1)"


end
