(* ===== verification/Node_Metrics.thy ===== *)
theory Node_Metrics
  imports Launch
begin

text \<open>
  What a leader records of a block: the row of metrics that every \<open>HandleinCommit\<close> writes after its report
  (the CLPA variants write the same two kinds of rows), \<open>computeTCL\<close>, \<open>writeCSVline\<close> and \<open>DeleteElementsInList\<close> of
  \<open>toolFuncs.go\<close>, and \<open>WriteMetricsToCSV\<close> of the supervisor's measures. A CSV file is the list of its records; sums of
  latencies are 64-bit integers.
\<close>

section \<open>Rows\<close>

definition tcl_word :: "transaction list \<Rightarrow> gotime \<Rightarrow> u64" where
  "tcl_word txs commitTS = foldl (\<lambda>ret tx. ret + word_of_int (Milliseconds (go_sub commitTS (tx_Time tx)))) 0 txs"

definition computeTCL :: "transaction list \<Rightarrow> gotime \<Rightarrow> int" where
  "computeTCL txs commitTS = sint (tcl_word txs commitTS)"

definition UnixMilli :: "gotime \<Rightarrow> int" where
  \<comment> \<open>times are in nanoseconds from Go's zero time, the start of the year 1\<close>
  "UnixMilli t = t div 1000000 - 62135596800000"

definition relay_metricName :: "string list" where
  "relay_metricName =
     [''Block Height'', ''EpochID of this block'', ''TxPool Size'', ''# of all Txs in this block'',
      ''# of Relay1 Txs in this block'', ''# of Relay2 Txs in this block'',
      ''TimeStamp - Propose (unixMill)'', ''TimeStamp - Commit (unixMill)'',
      ''SUM of confirm latency (ms, All Txs)'',
      ''SUM of confirm latency (ms, Relay1 Txs) (Duration: Relay1 proposed -> Relay1 Commit)'',
      ''SUM of confirm latency (ms, Relay2 Txs) (Duration: Relay1 proposed -> Relay2 Commit)'']"

definition broker_metricName :: "string list" where
  "broker_metricName =
     [''Block Height'', ''EpochID of this block'', ''TxPool Size'', ''# of all Txs in this block'',
      ''# of Broker1 Txs in this block'', ''# of Broker2 Txs in this block'',
      ''TimeStamp - Propose (unixMill)'', ''TimeStamp - Commit (unixMill)'',
      ''SUM of confirm latency (ms, All Txs)'',
      ''SUM of confirm latency (ms, Broker1 Txs) (Duration: Broker1 proposed -> Broker1 Commit)'',
      ''SUM of confirm latency (ms, Broker2 Txs) (Duration: Broker2 proposed -> Broker2 Commit)'']"

definition relay_metricVal :: "block \<Rightarrow> block_info \<Rightarrow> pbft_node \<Rightarrow> int list" where
  \<comment> \<open>before \<open>strconv\<close>; \<open>p\<close> is the node after its report \<open>bim\<close>\<close>
  "relay_metricVal block bim p =
     [sint (bh_Number (b_Header block)), bi_Epoch bim, int (length (TxQueue (bc_Txpool (p_CurChain p)))), int (length (b_Body block)),
      int (length (bi_Relay1Txs bim)), int (length (bi_Relay2Txs bim)), UnixMilli (bi_ProposeTime bim), UnixMilli (bi_CommitTime bim),
      computeTCL (b_Body block) (bi_CommitTime bim), computeTCL (bi_Relay1Txs bim) (bi_CommitTime bim),
      computeTCL (bi_Relay2Txs bim) (bi_CommitTime bim)]"

definition broker_metricVal :: "block \<Rightarrow> block_info \<Rightarrow> pbft_node \<Rightarrow> int list" where
  "broker_metricVal block bim p =
     [sint (bh_Number (b_Header block)), bi_Epoch bim, int (length (TxQueue (bc_Txpool (p_CurChain p)))), int (length (b_Body block)),
      int (length (bi_Broker1Txs bim)), int (length (bi_Broker2Txs bim)), UnixMilli (bi_ProposeTime bim), UnixMilli (bi_CommitTime bim),
      computeTCL (b_Body block) (bi_CommitTime bim), computeTCL (bi_Broker1Txs bim) (bi_CommitTime bim),
      computeTCL (bi_Broker2Txs bim) (bi_CommitTime bim)]"

section \<open>Files\<close>

type_synonym csv_files = "string \<rightharpoonup> string list list"

definition write_csv :: "bool \<Rightarrow> string \<Rightarrow> string list \<Rightarrow> string list list \<Rightarrow> csv_files \<Rightarrow> csv_files go" where
  \<comment> \<open>\<open>ok\<close>: the operating system makes the directory and opens the file\<close>
  "write_csv ok targetPath colName colVals files =
     (if \<not> ok then Inl (LogPanic '''')
      else let old = map_default [] (files) targetPath
           in Inr (files(targetPath \<mapsto> (if old = [] then [colName] else old) @ colVals)))"

definition writeCSVline :: "bool \<Rightarrow> string \<Rightarrow> string list \<Rightarrow> string list \<Rightarrow> pbft_node \<Rightarrow> csv_files \<Rightarrow> csv_files go" where
  "writeCSVline ok DataWrite_path metricName metricVal p =
     (let dirpath = DataWrite_path @ ''pbft_shardNum='' @ fmt_d (sint (cc_ShardNums (p_ChainConfig p)));
          targetPath = dirpath @ ''/Shard'' @ fmt_d (uint (p_ShardID p)) @ fmt_d (uint (cc_ShardNums (p_ChainConfig p))) @ ''.csv''
      in write_csv ok targetPath metricName [metricVal])"

definition WriteMetricsToCSV :: "bool \<Rightarrow> string \<Rightarrow> string \<Rightarrow> string list \<Rightarrow> string list list \<Rightarrow> csv_files \<Rightarrow> csv_files go" where
  "WriteMetricsToCSV ok DataWrite_path fileName =
     (let dirpath = DataWrite_path @ ''supervisor_measureOutput/'' in write_csv ok (dirpath @ fileName @ ''.csv''))"

text \<open>The rows of the two CLPA variants, which repeat the columns of the variants they extend.\<close>

definition clpa_write_metrics :: "bool \<Rightarrow> string \<Rightarrow> block \<Rightarrow> block_info \<Rightarrow> pbft_node \<Rightarrow> csv_files \<Rightarrow> csv_files go" where
  "clpa_write_metrics ok DataWrite_path block bim p =
     writeCSVline ok DataWrite_path
       [''Block Height'', ''EpochID of this block'', ''TxPool Size'', ''# of all Txs in this block'',
        ''# of Relay1 Txs in this block'', ''# of Relay2 Txs in this block'',
        ''TimeStamp - Propose (unixMill)'', ''TimeStamp - Commit (unixMill)'',
        ''SUM of confirm latency (ms, All Txs)'',
        ''SUM of confirm latency (ms, Relay1 Txs) (Duration: Relay1 proposed -> Relay1 Commit)'',
        ''SUM of confirm latency (ms, Relay2 Txs) (Duration: Relay1 proposed -> Relay2 Commit)'']
       [fmt_d (sint (bh_Number (b_Header block))), fmt_d (bi_Epoch bim), fmt_d (int (length (TxQueue (bc_Txpool (p_CurChain p))))),
        fmt_d (int (length (b_Body block))), fmt_d (int (length (bi_Relay1Txs bim))), fmt_d (int (length (bi_Relay2Txs bim))),
        fmt_d (UnixMilli (bi_ProposeTime bim)), fmt_d (UnixMilli (bi_CommitTime bim)),
        fmt_d (computeTCL (b_Body block) (bi_CommitTime bim)), fmt_d (computeTCL (bi_Relay1Txs bim) (bi_CommitTime bim)),
        fmt_d (computeTCL (bi_Relay2Txs bim) (bi_CommitTime bim))] p"

definition clpa_broker_write_metrics :: "bool \<Rightarrow> string \<Rightarrow> block \<Rightarrow> block_info \<Rightarrow> pbft_node \<Rightarrow> csv_files \<Rightarrow> csv_files go" where
  "clpa_broker_write_metrics ok DataWrite_path block bim p =
     writeCSVline ok DataWrite_path
       [''Block Height'', ''EpochID of this block'', ''TxPool Size'', ''# of all Txs in this block'',
        ''# of Broker1 Txs in this block'', ''# of Broker2 Txs in this block'',
        ''TimeStamp - Propose (unixMill)'', ''TimeStamp - Commit (unixMill)'',
        ''SUM of confirm latency (ms, All Txs)'',
        ''SUM of confirm latency (ms, Broker1 Txs) (Duration: Broker1 proposed -> Broker1 Commit)'',
        ''SUM of confirm latency (ms, Broker2 Txs) (Duration: Broker2 proposed -> Broker2 Commit)'']
       [fmt_d (sint (bh_Number (b_Header block))), fmt_d (bi_Epoch bim), fmt_d (int (length (TxQueue (bc_Txpool (p_CurChain p))))),
        fmt_d (int (length (b_Body block))), fmt_d (int (length (bi_Broker1Txs bim))), fmt_d (int (length (bi_Broker2Txs bim))),
        fmt_d (UnixMilli (bi_ProposeTime bim)), fmt_d (UnixMilli (bi_CommitTime bim)),
        fmt_d (computeTCL (b_Body block) (bi_CommitTime bim)), fmt_d (computeTCL (bi_Broker1Txs bim) (bi_CommitTime bim)),
        fmt_d (computeTCL (bi_Broker2Txs bim) (bi_CommitTime bim))] p"

lemma clpa_metrics_same:
  "clpa_write_metrics ok path block bim p = writeCSVline ok path relay_metricName (map fmt_d (relay_metricVal block bim p)) p"
  "clpa_broker_write_metrics ok path block bim p = writeCSVline ok path broker_metricName (map fmt_d (broker_metricVal block bim p)) p"
  by (simp_all only: clpa_write_metrics_def clpa_broker_write_metrics_def relay_metricName_def relay_metricVal_def broker_metricName_def
      broker_metricVal_def list.map)

section \<open>Deleting from a list\<close>

definition DeleteElementsInList :: "transaction list \<Rightarrow> transaction list \<Rightarrow> transaction list go" where
  \<comment> \<open>the loop moves the kept elements to the front; \<open>list[:-removedCnt]\<close> panics for a negative bound\<close>
  "DeleteElementsInList list elements =
     (let elementHashMap = set (map tx_TxHash elements);
          removed = (\<lambda>tx. tx_TxHash tx \<in> elementHashMap);
          kept = filter (\<lambda>tx. \<not> removed tx) list;
          list' = kept @ drop (length kept) list;
          bound = - int (length (filter removed list))
      in if bound < 0 then Inl IndexOutOfRange else Inr (take (nat bound) list'))"

section \<open>Properties\<close>

text \<open>
  \<open>DeleteElementsInList\<close> never deletes just the elements: it panics if there is one to delete, and returns the empty list if
  there is none.
\<close>

theorem DeleteElementsInList_wrong:
  "DeleteElementsInList list elements =
     (if \<exists>tx \<in> set list. tx_TxHash tx \<in> tx_TxHash ` set elements then Inl IndexOutOfRange else Inr [])"
proof (cases "\<exists>tx \<in> set list. tx_TxHash tx \<in> tx_TxHash ` set elements")
  case True
  then have "filter (\<lambda>tx. tx_TxHash tx \<in> tx_TxHash ` set elements) list \<noteq> []" by (simp add: filter_empty_conv)
  then show ?thesis using True by (simp add: DeleteElementsInList_def Let_def)
next
  case False
  then have "filter (\<lambda>tx. tx_TxHash tx \<in> tx_TxHash ` set elements) list = []" by (simp add: filter_empty_conv)
  then show ?thesis using False by (simp add: DeleteElementsInList_def Let_def)
qed

lemma tcl_word_sum: "tcl_word txs t = (\<Sum>tx \<leftarrow> txs. word_of_int (Milliseconds (go_sub t (tx_Time tx))))"
proof -
  have "foldl (\<lambda>ret tx. ret + f tx) a xs = a + sum_list (map f xs)" for f :: "transaction \<Rightarrow> u64" and a xs
    by (induction xs arbitrary: a) (simp_all add: add.assoc)
  from this [of "\<lambda>tx. word_of_int (Milliseconds (go_sub t (tx_Time tx)))" 0 txs] show ?thesis by (simp add: tcl_word_def)
qed

lemma tcl_word_split: "tcl_word txs t = tcl_word (filter P txs) t + tcl_word (filter (\<lambda>x. \<not> P x) txs) t"
  by (simp add: tcl_word_sum) (induction txs; simp add: add_ac)

lemma tcl_word_mark: "tcl_word (map mark txs) t = tcl_word txs t"
  by (simp add: tcl_word_sum comp_def mark_def)

lemma tcl_word_three:
  "tcl_word txs t = tcl_word (filter (\<lambda>x. Q x \<and> \<not> R x) txs) t + tcl_word (filter (\<lambda>x. \<not> Q x) txs) t + tcl_word (filter (\<lambda>x. Q x \<and> R x) txs) t"
  using tcl_word_split [of txs t Q] tcl_word_split [of "filter Q txs" t R] by (simp add: conj_commute add_ac)

lemma length_three: "length (filter (\<lambda>x. Q x \<and> \<not> R x) xs) + length (filter (\<lambda>x. \<not> Q x) xs) + length (filter (\<lambda>x. Q x \<and> R x) xs) = length xs"
  by (induction xs) auto

lemma computeTCL_mod: "word_of_int (computeTCL txs t) = tcl_word txs t"
  by (simp add: computeTCL_def)

definition row_consistent :: "transaction list \<Rightarrow> transaction list \<Rightarrow> int list \<Rightarrow> gotime \<Rightarrow> bool" where
  \<comment> \<open>columns 3, 4, 5 and 8, 9, 10 of a row against the transactions of the block and those inside the shard\<close>
  "row_consistent body inner row t \<longleftrightarrow>
     row ! 3 = int (length inner) + row ! 4 + row ! 5 \<and>
     (row ! 8 - (computeTCL inner t + row ! 9 + row ! 10)) mod 2 ^ 64 = 0"

lemma word_zero_mod:
  assumes "(word_of_int x :: u64) = 0"
  shows "x mod 2 ^ 64 = 0"
proof -
  have "uint (word_of_int x :: u64) = 0" by (simp only: assms unsigned_0)
  then show ?thesis by (simp add: unsigned_of_int take_bit_eq_mod)
qed

lemma row_consistentI:
  assumes "length body = length inner + length t1 + length t2" and "tcl_word body t = tcl_word inner t + tcl_word t1 t + tcl_word t2 t"
  shows "row_consistent body inner
    [h, e, q, int (length body), int (length t1), int (length t2), pt, ct, computeTCL body t, computeTCL t1 t, computeTCL t2 t] t"
proof -
  have "(word_of_int (computeTCL body t - (computeTCL inner t + computeTCL t1 t + computeTCL t2 t)) :: u64) = 0"
    using assms(2) by (simp add: computeTCL_mod)
  then have "(computeTCL body t - (computeTCL inner t + computeTCL t1 t + computeTCL t2 t)) mod 2 ^ 64 = 0"
    by (rule word_zero_mod)
  then show ?thesis using assms(1) by (simp add: row_consistent_def)
qed

text \<open>
  Rows add up. The row a leader writes for a committed block, relay or broker variant, agrees with the report it has just sent: the
  numbers of the three kinds of transactions add up to the size of the block, and, up to overflow of 64 bits, their latencies add
  up to that of all transactions.
\<close>

theorem leader_row_consistent:
  assumes "relay_leader_commit prove E now ep r b p = Inr p'" and "RelayWithMerkleProof E = 0"
  shows "(\<exists>bim ip. last (p_out p') = (ip, BlockInfoMsg bim) \<and> row_consistent (b_Body b) (bi_InnerShardTxs bim) (relay_metricVal b bim p') now) \<and>
    (\<exists>bim ip. last (p_out (broker_leader_commit now ep r b p)) = (ip, BlockInfoMsg bim) \<and>
       row_consistent (b_Body b) (bi_InnerShardTxs bim) (broker_metricVal b bim (broker_leader_commit now ep r b p)) now)"
proof
  let ?in = "goes_to E (p_CurChain p) (p_ShardID p)"
  have "length (b_Body b) = length (filter (\<lambda>tx. ?in tx \<and> \<not> tx_Relayed tx) (b_Body b)) +
      length (map mark (filter (\<lambda>tx. \<not> ?in tx) (b_Body b))) + length (filter (\<lambda>tx. ?in tx \<and> tx_Relayed tx) (b_Body b))"
    using length_three [of ?in tx_Relayed "b_Body b"] by simp
  moreover have "tcl_word (b_Body b) now = tcl_word (filter (\<lambda>tx. ?in tx \<and> \<not> tx_Relayed tx) (b_Body b)) now +
      tcl_word (map mark (filter (\<lambda>tx. \<not> ?in tx) (b_Body b))) now + tcl_word (filter (\<lambda>tx. ?in tx \<and> tx_Relayed tx) (b_Body b)) now"
    unfolding tcl_word_mark by (rule tcl_word_three)
  ultimately show "\<exists>bim ip. last (p_out p') = (ip, BlockInfoMsg bim) \<and>
      row_consistent (b_Body b) (bi_InnerShardTxs bim) (relay_metricVal b bim p') now"
    using leader_relays [OF assms] row_consistentI [of "b_Body b"] by (simp add: relay_metricVal_def del: length_map)
next
  let ?b1 = "\<lambda>tx. isBroker1Tx tx \<and> \<not> isBroker2Tx tx" and ?in = "\<lambda>tx. \<not> isBroker1Tx tx \<and> \<not> isBroker2Tx tx"
  have "length (b_Body b) = length (filter ?in (b_Body b)) + length (filter ?b1 (b_Body b)) + length (filter isBroker2Tx (b_Body b))"
    using length_three [of "\<lambda>tx. \<not> isBroker2Tx tx" isBroker1Tx "b_Body b"] by (simp add: conj_commute)
  moreover have "tcl_word (b_Body b) now =
      tcl_word (filter ?in (b_Body b)) now + tcl_word (filter ?b1 (b_Body b)) now + tcl_word (filter isBroker2Tx (b_Body b)) now"
    using tcl_word_three [of "b_Body b" now "\<lambda>tx. \<not> isBroker2Tx tx" isBroker1Tx] by (simp add: conj_commute add_ac)
  ultimately show "\<exists>bim ip. last (p_out (broker_leader_commit now ep r b p)) = (ip, BlockInfoMsg bim) \<and>
      row_consistent (b_Body b) (bi_InnerShardTxs bim) (broker_metricVal b bim (broker_leader_commit now ep r b p)) now"
    unfolding broker_leader_sends using row_consistentI [of "b_Body b"] by (simp add: broker_metricVal_def)
qed

definition csv_path :: "string \<Rightarrow> pbft_node \<Rightarrow> string" where
  "csv_path dir p = dir @ ''pbft_shardNum='' @ fmt_d (sint (cc_ShardNums (p_ChainConfig p))) @ ''/Shard'' @
     fmt_d (uint (p_ShardID p)) @ fmt_d (uint (cc_ShardNums (p_ChainConfig p))) @ ''.csv''"

text \<open>
  One header: rows that are written one after the other to a file that did not exist give the file with the header, then the
  rows in order; a file from an earlier run gets no second header.
\<close>

theorem csv_appends:
  assumes "vals \<noteq> []"
  shows "go_fold (\<lambda>v. writeCSVline True dir name v p) vals files =
    Inr (files(csv_path dir p \<mapsto> (if map_default [] files (csv_path dir p) = [] then [name] else map_default [] files (csv_path dir p)) @ vals))"
  using assms
proof (induction vals arbitrary: files)
  case (Cons v vals)
  let ?old = "map_default [] files (csv_path dir p)"
  define h where "h = (if ?old = [] then [name] else ?old)"
  let ?files = "files(csv_path dir p \<mapsto> h @ [v])"
  have 1: "writeCSVline True dir name v p files = Inr ?files" by (simp add: writeCSVline_def write_csv_def Let_def csv_path_def h_def)
  show ?case
  proof (cases "vals = []")
    case False
    have new: "map_default [] ?files (csv_path dir p) = h @ [v]" by (simp add: map_default_def)
    show ?thesis using Cons.IH [OF False, of ?files] unfolding new go_fold.simps 1 and_then_simps fun_upd_upd h_def [symmetric]
      by (simp del: fun_upd_apply)
  qed (use 1 in \<open>simp only: go_fold.simps and_then_simps h_def\<close>)
qed simp

section \<open>Witnesses\<close>

theorem leader_row_consistent_witness:
  "\<exists>p' bim ip. relay_leader_commit demo_prove demo_env 1 0 (demo_req (demo_next [1] [demo_poor_tx])) (demo_next [1] [demo_poor_tx])
       (demo_node (demo_root_chain []) 0) = Inr p' \<and> last (p_out p') = (ip, BlockInfoMsg bim) \<and>
     row_consistent [demo_poor_tx] (bi_InnerShardTxs bim) (relay_metricVal (demo_next [1] [demo_poor_tx]) bim p') 1"
proof -
  obtain p' where p': "relay_leader_commit demo_prove demo_env 1 0 (demo_req (demo_next [1] [demo_poor_tx]))
      (demo_next [1] [demo_poor_tx]) (demo_node (demo_root_chain []) 0) = Inr p'" using demo_leader_commits by blast
  have m: "RelayWithMerkleProof demo_env = 0" and b: "b_Body (demo_next [1] [demo_poor_tx]) = [demo_poor_tx]"
    by (simp_all add: demo_env_def demo_next_def)
  from conjunct1 [OF leader_row_consistent [OF p' m]] p' show ?thesis unfolding b by blast
qed

theorem csv_appends_witness:
  "go_fold (\<lambda>v. writeCSVline True ''r/'' relay_metricName v (demo_node (demo_root_chain []) 0)) [[''1''], [''2'']] Map.empty =
     Inr [csv_path ''r/'' (demo_node (demo_root_chain []) 0) \<mapsto> [relay_metricName, [''1''], [''2'']]]"
proof -
  have "[[''1''], [''2'']] \<noteq> []" by simp
  from csv_appends [OF this, of "''r/''" relay_metricName "demo_node (demo_root_chain []) 0" Map.empty] show ?thesis by simp
qed

end
