(* ===== verification/Measure_Files.thy ===== *)
theory Measure_Files
  imports Node_Metrics
begin

text \<open>
  The CSV files of the measures (\<open>writeToCSV\<close> of every file of \<open>supervisor/measure/\<close>) and the end of the supervisor
  (\<open>CloseSupervisor\<close>), which writes them. \<open>fmt\<close> is \<open>strconv.FormatFloat\<close>, \<open>ord\<close> the order in which the map of details is
  iterated. The zero time is 0, as in theory \<open>Measures\<close>.
\<close>

section \<open>Rows\<close>

definition epoch_rows :: "(int \<Rightarrow> 'a \<Rightarrow> string list go) \<Rightarrow> 'a list \<Rightarrow> string list list go" where
  \<comment> \<open>the loop that collects \<open>measureVals\<close>\<close>
  "epoch_rows f xs = go_foldi (\<lambda>eid x measureVals. and_then (f (int eid) x) (\<lambda>csvLine. Inr (measureVals @ [csvLine]))) 0 xs []"

definition tx_num_line :: "('f \<Rightarrow> string) \<Rightarrow> 'f tx_num \<Rightarrow> int \<Rightarrow> 'f \<Rightarrow> string list go" where
  "tx_num_line fmt m eid totTxInE =
     and_then (go_nth (tn_normal m) eid) (\<lambda>n. and_then (go_nth (tn_first m) eid) (\<lambda>n1. and_then (go_nth (tn_second m) eid) (\<lambda>n2.
       Inr [fmt_d eid, fmt totTxInE, fmt_d n, fmt_d n1, fmt_d n2])))"

definition cross_rate_line :: "'f f64 \<Rightarrow> ('f \<Rightarrow> string) \<Rightarrow> 'f cross_rate \<Rightarrow> int \<Rightarrow> 'f \<Rightarrow> string list go" where
  "cross_rate_line fl fmt m eid totTxInE =
     and_then (go_nth (cx_totCrossTxNum m) eid) (\<lambda>c.
     and_then (go_nth (cx_normal m) eid) (\<lambda>n. and_then (go_nth (cx_first m) eid) (\<lambda>n1. and_then (go_nth (cx_second m) eid) (\<lambda>n2.
       Inr [fmt_d eid, fmt totTxInE, fmt c, fmt_d n, fmt_d n1, fmt_d n2, fmt (f_div fl c totTxInE)]))))"

definition avg_tps_line :: "'f f64 \<Rightarrow> ('f \<Rightarrow> string) \<Rightarrow> 'f avg_tps \<Rightarrow> int \<Rightarrow> 'f \<Rightarrow> string list go" where
  "avg_tps_line fl fmt m eid exTxNum =
     and_then (go_nth (tps_endTime m) eid) (\<lambda>end'. and_then (go_nth (tps_startTime m) eid) (\<lambda>start.
     let timeGap = Seconds fl (go_sub end' start) in
     and_then (go_nth (tps_normal m) eid) (\<lambda>n. and_then (go_nth (tps_first m) eid) (\<lambda>n1. and_then (go_nth (tps_second m) eid) (\<lambda>n2.
       Inr [fmt_d eid, fmt exTxNum, fmt_d n, fmt_d n1, fmt_d n2, fmt_d (UnixMilli start), fmt_d (UnixMilli end'), fmt (f_div fl exTxNum timeGap)])))))"

definition tcl_line :: "('f \<Rightarrow> string) \<Rightarrow> 'f tcl \<Rightarrow> int \<Rightarrow> 'f \<Rightarrow> string list go" where
  "tcl_line fmt m eid totTxInE =
     and_then (go_nth (tcl_normal m) eid) (\<lambda>n. and_then (go_nth (tcl_first m) eid) (\<lambda>n1. and_then (go_nth (tcl_second m) eid) (\<lambda>n2.
     and_then (go_nth (tcl_firstLatency m) eid) (\<lambda>l1. and_then (go_nth (tcl_secondLatency m) eid) (\<lambda>l2.
     and_then (go_nth (tcl_normalLatency m) eid) (\<lambda>l. and_then (go_nth (tcl_ctxLatency m) eid) (\<lambda>lc.
     and_then (go_nth (tcl_totTxLatencyEpoch m) eid) (\<lambda>tot.
       Inr [fmt_d eid, fmt totTxInE, fmt_d n, fmt_d n1, fmt_d n2, fmt_d l1, fmt_d l2, fmt_d l, fmt_d lc, fmt tot]))))))))"

definition timestampToString :: "gotime \<Rightarrow> string" where
  "timestampToString thisTime = (if thisTime = 0 then '''' else fmt_d (UnixMilli thisTime))"

definition big_endian :: "bytes \<Rightarrow> nat" where
  \<comment> \<open>\<open>SetBytes\<close>\<close>
  "big_endian bs = foldl (\<lambda>n b. 256 * n + unat b) 0 bs"

definition tx_detail_line :: "bytes \<Rightarrow> tx_detail \<Rightarrow> string list" where
  "tx_detail_line key val =
     [decimal (big_endian key),
      timestampToString (td_TxPropose val), timestampToString (td_BlockPropose val), timestampToString (td_TxCommit val),
      timestampToString (td_Relay1Commit val), timestampToString (td_Relay2Commit val),
      timestampToString (td_Broker1Commit val), timestampToString (td_Broker2Commit val), fmt_d (confirmed_latency val)]"

section \<open>Tables\<close>

type_synonym table = "string \<times> string list \<times> string list list" \<comment> \<open>file name, header, rows\<close>

definition counts_header :: "string \<Rightarrow> string list" where
  "counts_header kind = [''Normal tx # in this epoch'', kind @ ''1 tx # in this epoch'', kind @ ''2 tx # in this epoch'']"

definition TxNum_csv :: "string \<Rightarrow> ('f \<Rightarrow> string) \<Rightarrow> 'f tx_num \<Rightarrow> table go" where
  \<comment> \<open>\<open>kind\<close> is \<open>Relay\<close> or \<open>Broker\<close>\<close>
  "TxNum_csv kind fmt m =
     and_then (epoch_rows (tx_num_line fmt m) (tn_txNum m)) (\<lambda>measureVals.
       Inr (''Tx_number'', [''EpochID'', ''Total tx # in this epoch''] @ counts_header kind, measureVals))"

definition CrossTxRate_csv :: "string \<Rightarrow> 'f f64 \<Rightarrow> ('f \<Rightarrow> string) \<Rightarrow> 'f cross_rate \<Rightarrow> table go" where
  "CrossTxRate_csv kind fl fmt m =
     and_then (epoch_rows (cross_rate_line fl fmt m) (cx_totTxNum m)) (\<lambda>measureVals.
       Inr (''CrossTransaction_ratio'', [''EpochID'', ''Total tx # in this epoch'', ''CTX # in this epoch''] @ counts_header kind @
            [''CTX ratio of this epoch''], measureVals))"

definition avgTPS_csv :: "string \<Rightarrow> 'f f64 \<Rightarrow> ('f \<Rightarrow> string) \<Rightarrow> 'f avg_tps \<Rightarrow> table go" where
  "avgTPS_csv kind fl fmt m =
     and_then (epoch_rows (avg_tps_line fl fmt m) (tps_excutedTxNum m)) (\<lambda>measureVals.
       Inr (''Average_TPS'', [''EpochID'', ''Total tx # in this epoch''] @ counts_header kind @
            [''Epoch start time'', ''Epoch end time'', ''Avg. TPS of this epoch''], measureVals))"

definition TCL_csv :: "string \<Rightarrow> ('f \<Rightarrow> string) \<Rightarrow> 'f tcl \<Rightarrow> table go" where
  "TCL_csv kind fmt m =
     and_then (epoch_rows (tcl_line fmt m) (tcl_txNum m)) (\<lambda>measureVals.
       Inr (''Transaction_Confirm_Latency'', [''EpochID'', ''Total tx # in this epoch''] @ counts_header kind @
            [''Sum of '' @ kind @ ''1 TCL (ms) (Duration: '' @ kind @ ''1 Tx Propose -> '' @ kind @ ''1 Tx Commit)'',
             ''Sum of '' @ kind @ ''2 TCL (ms) (Duration: '' @ kind @ ''2 Tx Propose -> '' @ kind @ ''2 Tx Commit)'',
             ''Sum of innerShardTx TCL (ms)'',
             ''Sum of CTX TCL (ms) (Duration: '' @ kind @ ''1 Tx Propose -> '' @ kind @ ''2 Tx Commit)'',
             ''Sum of All Tx TCL (sec.)''], measureVals))"

definition TxDetail_csv :: "bytes list \<Rightarrow> tx_details \<Rightarrow> table" where
  "TxDetail_csv ord m =
     (''Tx_Details'',
      [''TxHash (Byte -> Big Int)'', ''Tx propose timestamp'', ''Block propose timestamp'', ''Tx finally commit timestamp'',
       ''Relay1 Tx commit timestamp (not a relay tx -> nil)'', ''Relay2 Tx commit timestamp (not a relay tx -> nil)'',
       ''Broker1 Tx commit timestamp (not a broker tx -> nil)'', ''Broker2 Tx commit timestamp (not a broker tx -> nil)'',
       ''Confirmed latency of this tx (ms)''],
      map (\<lambda>key. tx_detail_line key (map_default no_detail m key)) ord)"

fun writeToCSV :: "'f f64 \<Rightarrow> ('f \<Rightarrow> string) \<Rightarrow> bytes list \<Rightarrow> 'f measure_module \<Rightarrow> table go" where
  "writeToCSV fl fmt ord (TPS_Relay m) = avgTPS_csv ''Relay'' fl fmt m"
| "writeToCSV fl fmt ord (TPS_Broker m) = avgTPS_csv ''Broker'' fl fmt m"
| "writeToCSV fl fmt ord (TCL_Relay m) = TCL_csv ''Relay'' fmt m"
| "writeToCSV fl fmt ord (TCL_Broker m) = TCL_csv ''Broker'' fmt m"
| "writeToCSV fl fmt ord (CrossTxRate_Relay m) = CrossTxRate_csv ''Relay'' fl fmt m"
| "writeToCSV fl fmt ord (CrossTxRate_Broker m) = CrossTxRate_csv ''Broker'' fl fmt m"
| "writeToCSV fl fmt ord (TxNumberCount_Relay m) = TxNum_csv ''Relay'' fmt m"
| "writeToCSV fl fmt ord (TxNumberCount_Broker m) = TxNum_csv ''Broker'' fmt m"
| "writeToCSV fl fmt ord (Tx_Details m) = Inr (TxDetail_csv ord m)"

fun OutputMetricName :: "'f measure_module \<Rightarrow> string" where
  "OutputMetricName (TPS_Relay m) = ''Average_TPS''"
| "OutputMetricName (TPS_Broker m) = ''Average_TPS''"
| "OutputMetricName (TCL_Relay m) = ''Transaction_Confirm_Latency''"
| "OutputMetricName (TCL_Broker m) = ''Transaction_Confirm_Latency''"
| "OutputMetricName (CrossTxRate_Relay m) = ''CrossTransaction_ratio''"
| "OutputMetricName (CrossTxRate_Broker m) = ''CrossTransaction_ratio''"
| "OutputMetricName (TxNumberCount_Relay m) = ''Tx_number''"
| "OutputMetricName (TxNumberCount_Broker m) = ''Tx_number''"
| "OutputMetricName (Tx_Details m) = ''Tx_Details''"

section \<open>The end of the supervisor\<close>

definition close_measure ::
  "'f f64 \<Rightarrow> ('f \<Rightarrow> string) \<Rightarrow> bytes list \<Rightarrow> gotime \<Rightarrow> bool \<Rightarrow> string \<Rightarrow> 'f measure_module \<Rightarrow> csv_files \<Rightarrow> csv_files go" where
  \<comment> \<open>\<open>OutputRecord\<close> writes the file first\<close>
  "close_measure fl fmt ord now ok dir measureMod files =
     and_then (writeToCSV fl fmt ord measureMod) (\<lambda>(fileName, measureName, measureVals).
     and_then (WriteMetricsToCSV ok dir fileName measureName measureVals files) (\<lambda>files.
     and_then (OutputRecord fl now measureMod) (\<lambda>_. Inr files)))"

definition CloseSupervisor ::
  "'f f64 \<Rightarrow> ('f \<Rightarrow> string) \<Rightarrow> bytes list \<Rightarrow> gotime \<Rightarrow> bool \<Rightarrow> string \<Rightarrow> 'f supervisor \<Rightarrow> 'c net \<times> csv_files \<Rightarrow> ('c net \<times> csv_files) go" where
  "CloseSupervisor fl fmt ord now ok dir d = (\<lambda>(net, files).
     and_then (go_fold (close_measure fl fmt ord now ok dir) (sv_testMeasureMods d) files) (\<lambda>files. Inr (CloseAllConnInPool net, files)))"

section \<open>All tables are written\<close>

lemma epoch_rows_total:
  assumes "\<And>j x. j < length xs \<Longrightarrow> \<exists>r. f (int j) x = Inr r \<and> length r = n"
  shows "\<exists>rows. epoch_rows f xs = Inr rows \<and> length rows = length xs \<and> (\<forall>r \<in> set rows. length r = n)"
proof -
  let ?g = "\<lambda>eid x measureVals. and_then (f (int eid) x) (\<lambda>csvLine. Inr (measureVals @ [csvLine]))"
  have "\<exists>rows. go_foldi ?g i ys acc = Inr (acc @ rows) \<and> length rows = length ys \<and> (\<forall>r \<in> set rows. length r = n)"
    if "i + length ys = length xs" for i ys acc
    using that
  proof (induction ys arbitrary: i acc)
    case (Cons y ys)
    obtain r where r: "f (int i) y = Inr r" "length r = n" using assms [of i y] Cons.prems by auto
    obtain rows where "go_foldi ?g (Suc i) ys (acc @ [r]) = Inr ((acc @ [r]) @ rows)" "length rows = length ys" "\<forall>r \<in> set rows. length r = n"
      using Cons.IH [of "Suc i" "acc @ [r]"] Cons.prems by auto
    then show ?case using r by (intro exI [of _ "r # rows"]) simp
  qed simp
  from this [of 0 xs "[]"] show ?thesis by (simp add: epoch_rows_def)
qed

fun epochs :: "bytes list \<Rightarrow> 'f measure_module \<Rightarrow> nat" where
  \<comment> \<open>how many rows the table of a module has\<close>
  "epochs ord (TPS_Relay m) = length (tps_excutedTxNum m)"
| "epochs ord (TPS_Broker m) = length (tps_excutedTxNum m)"
| "epochs ord (TCL_Relay m) = length (tcl_txNum m)"
| "epochs ord (TCL_Broker m) = length (tcl_txNum m)"
| "epochs ord (CrossTxRate_Relay m) = length (cx_totTxNum m)"
| "epochs ord (CrossTxRate_Broker m) = length (cx_totTxNum m)"
| "epochs ord (TxNumberCount_Relay m) = length (tn_txNum m)"
| "epochs ord (TxNumberCount_Broker m) = length (tn_txNum m)"
| "epochs ord (Tx_Details m) = length ord"

definition rectangular :: "nat \<Rightarrow> string \<Rightarrow> table go \<Rightarrow> bool" where
  \<comment> \<open>a table without a panic, under the given name, with this many rows, all as wide as the header\<close>
  "rectangular n name t \<longleftrightarrow> (\<exists>header rows. t = Inr (name, header, rows) \<and> length rows = n \<and> (\<forall>r \<in> set rows. length r = length header))"

lemma tables_rectangular:
  "tn_ok c \<Longrightarrow> rectangular (length (tn_txNum c)) ''Tx_number'' (TxNum_csv kind fmt c)"
  "cx_ok x \<Longrightarrow> rectangular (length (cx_totTxNum x)) ''CrossTransaction_ratio'' (CrossTxRate_csv kind fl fmt x)"
  "tps_ok a \<Longrightarrow> rectangular (length (tps_excutedTxNum a)) ''Average_TPS'' (avgTPS_csv kind fl fmt a)"
  "tcl_ok l \<Longrightarrow> rectangular (length (tcl_txNum l)) ''Transaction_Confirm_Latency'' (TCL_csv kind fmt l)"
proof -
  show "rectangular (length (tn_txNum c)) ''Tx_number'' (TxNum_csv kind fmt c)" if "tn_ok c"
  proof -
    have "\<exists>r. tx_num_line fmt c (int j) y = Inr r \<and> length r = 5" if "j < length (tn_txNum c)" for j y
      using that \<open>tn_ok c\<close> by (simp add: tx_num_line_def tn_ok_def slots_def go_nth_def)
    from epoch_rows_total [of "tn_txNum c" "tx_num_line fmt c", OF this] show ?thesis by (auto simp: TxNum_csv_def rectangular_def counts_header_def)
  qed
  show "rectangular (length (cx_totTxNum x)) ''CrossTransaction_ratio'' (CrossTxRate_csv kind fl fmt x)" if "cx_ok x"
  proof -
    have "\<exists>r. cross_rate_line fl fmt x (int j) y = Inr r \<and> length r = 7" if "j < length (cx_totTxNum x)" for j y
      using that \<open>cx_ok x\<close> by (simp add: cross_rate_line_def cx_ok_def slots_def go_nth_def)
    from epoch_rows_total [of "cx_totTxNum x" "cross_rate_line fl fmt x", OF this] show ?thesis by (auto simp: CrossTxRate_csv_def rectangular_def counts_header_def)
  qed
  show "rectangular (length (tps_excutedTxNum a)) ''Average_TPS'' (avgTPS_csv kind fl fmt a)" if "tps_ok a"
  proof -
    have "\<exists>r. avg_tps_line fl fmt a (int j) y = Inr r \<and> length r = 8" if "j < length (tps_excutedTxNum a)" for j y
      using that \<open>tps_ok a\<close> by (simp add: avg_tps_line_def tps_ok_def slots_def go_nth_def Let_def)
    from epoch_rows_total [of "tps_excutedTxNum a" "avg_tps_line fl fmt a", OF this] show ?thesis by (auto simp: avgTPS_csv_def rectangular_def counts_header_def)
  qed
  show "rectangular (length (tcl_txNum l)) ''Transaction_Confirm_Latency'' (TCL_csv kind fmt l)" if "tcl_ok l"
  proof -
    have "\<exists>r. tcl_line fmt l (int j) y = Inr r \<and> length r = 10" if "j < length (tcl_txNum l)" for j y
      using that \<open>tcl_ok l\<close> by (simp add: tcl_line_def tcl_ok_def slots_def go_nth_def)
    from epoch_rows_total [of "tcl_txNum l" "tcl_line fmt l", OF this] show ?thesis by (auto simp: TCL_csv_def rectangular_def counts_header_def)
  qed
qed

lemma writeToCSV_rectangular:
  assumes "module_ok m"
  shows "rectangular (epochs ord m) (OutputMetricName m) (writeToCSV fl fmt ord m)"
  using assms tables_rectangular by (cases m) (simp_all, auto simp: rectangular_def TxDetail_csv_def tx_detail_line_def)

definition measure_path :: "string \<Rightarrow> 'f measure_module \<Rightarrow> string" where
  "measure_path dir m = dir @ ''supervisor_measureOutput/'' @ OutputMetricName m @ ''.csv''"

lemma close_measure_writes:
  assumes "module_ok m" and "files (measure_path dir m) = None"
  shows "\<exists>header rows. writeToCSV fl fmt ord m = Inr (OutputMetricName m, header, rows) \<and>
    length rows = epochs ord m \<and> (\<forall>r \<in> set rows. length r = length header) \<and>
    close_measure fl fmt ord now True dir m files = Inr (files(measure_path dir m \<mapsto> header # rows))"
proof -
  obtain header rows where t: "writeToCSV fl fmt ord m = Inr (OutputMetricName m, header, rows)" "length rows = epochs ord m"
      "\<forall>r \<in> set rows. length r = length header"
    using writeToCSV_rectangular [OF assms(1), of ord fl fmt] by (auto simp: rectangular_def)
  moreover obtain rec where "OutputRecord fl now m = Inr rec" using OutputRecord_total [OF assms(1)] by blast
  ultimately show ?thesis using assms(2)
    by (auto simp: close_measure_def WriteMetricsToCSV_def write_csv_def measure_path_def map_default_def Let_def)
qed

lemma close_measures_write:
  assumes "list_all module_ok ms" and "distinct (map (measure_path dir) ms)" and "\<forall>m \<in> set ms. files (measure_path dir m) = None"
  shows "\<exists>files'. go_fold (close_measure fl fmt ord now True dir) ms files = Inr files' \<and>
    (\<forall>path. path \<notin> measure_path dir ` set ms \<longrightarrow> files' path = files path) \<and>
    (\<forall>m \<in> set ms. \<exists>header rows. writeToCSV fl fmt ord m = Inr (OutputMetricName m, header, rows) \<and>
       length rows = epochs ord m \<and> (\<forall>r \<in> set rows. length r = length header) \<and> files' (measure_path dir m) = Some (header # rows))"
  using assms
proof (induction ms arbitrary: files)
  case (Cons m ms)
  then obtain header rows where t: "writeToCSV fl fmt ord m = Inr (OutputMetricName m, header, rows)" "length rows = epochs ord m"
      "\<forall>r \<in> set rows. length r = length header"
      and c: "close_measure fl fmt ord now True dir m files = Inr (files(measure_path dir m \<mapsto> header # rows))"
    using close_measure_writes [of m files dir fl fmt ord now] by auto
  have "\<forall>m' \<in> set ms. (files(measure_path dir m \<mapsto> header # rows)) (measure_path dir m') = None"
    using Cons.prems(2,3) by (force simp: image_iff)
  moreover have "list_all module_ok ms" "distinct (map (measure_path dir) ms)" using Cons.prems(1,2) by simp_all
  ultimately obtain files' where
    r: "go_fold (close_measure fl fmt ord now True dir) ms (files(measure_path dir m \<mapsto> header # rows)) = Inr files'"
       "\<And>path. path \<notin> measure_path dir ` set ms \<Longrightarrow> files' path = (files(measure_path dir m \<mapsto> header # rows)) path"
       "\<forall>m \<in> set ms. \<exists>header rows. writeToCSV fl fmt ord m = Inr (OutputMetricName m, header, rows) \<and>
       length rows = epochs ord m \<and> (\<forall>r \<in> set rows. length r = length header) \<and> files' (measure_path dir m) = Some (header # rows)"
    using Cons.IH by blast
  have "files' (measure_path dir m) = Some (header # rows)" using r(2) [of "measure_path dir m"] Cons.prems(2) by simp
  then show ?case using r t c by auto
qed simp

lemma UpdateMeasureRecord_name: "UpdateMeasureRecord fl b m = Inr m' \<Longrightarrow> OutputMetricName m' = OutputMetricName m"
  by (cases m) (auto simp: and_then_Inr)

lemma update_measures_names: "update_measures fl b ms = Inr ms' \<Longrightarrow> map OutputMetricName ms' = map OutputMetricName ms"
  by (induction ms arbitrary: ms') (auto simp: and_then_Inr UpdateMeasureRecord_name)

lemma updates_names:
  assumes "go_fold (update_measures fl) bs ms = Inr ms'"
  shows "map OutputMetricName ms' = map OutputMetricName ms"
  by (rule go_fold_inv [OF assms, of "\<lambda>xs. map OutputMetricName xs = map OutputMetricName ms"]) (simp_all add: update_measures_names)

lemma build_names:
  assumes "names \<in> {MeasureBrokerMod @ [''Tx_Details''], MeasureRelayMod @ [''Tx_Details'']}"
  shows "map OutputMetricName (new_measures names) =
    [''Average_TPS'', ''Transaction_Confirm_Latency'', ''CrossTransaction_ratio'', ''Tx_number'', ''Tx_Details'']"
  using assms by (auto simp: new_measures_def new_measure_def List.map_filter_def MeasureBrokerMod_def MeasureRelayMod_def)



end
