(* ===== verification/Vrf_Account.thy ===== *)
theory Vrf_Account
  imports Go_Prelude
begin

text \<open>
  Accounts of nodes and their random values: \<open>shard/vrf/vrf.go\<close> and \<open>shard/vrf/vrf_account.go\<close>. The
  cryptography is a parameter: a record of the functions the code calls in \<open>go-ethereum/crypto\<close>, \<open>ecvrf\<close> and \<open>rlp\<close>,
  which give none for an error, and the documented laws as predicates. A slice that may be nil has type
  \<open>bytes option\<close>.
\<close>

section \<open>Accounts\<close>

record ('k, 'p) crypto =
  pub_of :: "'k \<Rightarrow> 'p"
  PubkeyToAddress :: "'p \<Rightarrow> bytes"
  Sign :: "bytes \<Rightarrow> 'k \<Rightarrow> bytes option"
  Ecrecover :: "bytes \<Rightarrow> bytes \<Rightarrow> bytes option"
  UnmarshalPubkey :: "bytes \<Rightarrow> 'p option"
  Prove :: "'k \<Rightarrow> bytes \<Rightarrow> (bytes \<times> bytes) option"
  Verify :: "'p \<Rightarrow> bytes \<Rightarrow> bytes option \<Rightarrow> bytes option"
  keccak :: "bytes \<Rightarrow> bytes"

definition sign_ok :: "('k, 'p) crypto \<Rightarrow> bool" where
  \<comment> \<open>signing takes digests of 32 bytes only; recovery gives the key of the signer; addresses have 20 bytes\<close>
  "sign_ok C \<longleftrightarrow>
     (\<forall>h k. Sign C h k = None \<longleftrightarrow> length h \<noteq> 32) \<and>
     (\<forall>h k sig. Sign C h k = Some sig \<longrightarrow> (\<exists>b. Ecrecover C h sig = Some b \<and> UnmarshalPubkey C b = Some (pub_of C k))) \<and>
     (\<forall>h. Ecrecover C h [] = None) \<and> UnmarshalPubkey C [] = None \<and> (\<forall>p. length (PubkeyToAddress C p) = 20) \<and>
     (\<forall>b. length (keccak C b) = 32)"

definition ecvrf_ok :: "('k, 'p) crypto \<Rightarrow> bool" where
  \<comment> \<open>a proof that was made verifies, and gives the same output\<close>
  "ecvrf_ok C \<longleftrightarrow> (\<forall>k a out pi. Prove C k a = Some (out, pi) \<longrightarrow> Verify C (pub_of C k) a (Some pi) = Some out)"

record VRFResult =
  Proof :: "bytes option"
  RandomValue :: "bytes option"

record ('k, 'p) vrf_account =
  privateKey :: 'k
  pubKey :: 'p
  accountAddr :: bytes
  keyDir :: string

definition join_path :: "string \<Rightarrow> string \<Rightarrow> string" where
  \<comment> \<open>\<open>filepath.Join\<close> of a path whose elements are clean, with or without a slash at its end\<close>
  "join_path dir elem =
     (if dir = '''' then elem else rev (dropWhile (\<lambda>c. c = CHR ''/'') (rev dir)) @ ''/'' @ elem)"

definition NewVrfAccount :: "('k, 'p) crypto \<Rightarrow> 'k \<Rightarrow> string \<Rightarrow> ('k, 'p) vrf_account" where
  \<comment> \<open>with the key that \<open>newPrivateKey\<close> has drawn\<close>
  "NewVrfAccount C k nodeDatadir =
     \<lparr>privateKey = k, pubKey = pub_of C k, accountAddr = PubkeyToAddress C (pub_of C k), keyDir = join_path nodeDatadir ''KeyStoreDir''\<rparr>"

definition SignHash :: "('k, 'p) crypto \<Rightarrow> bytes \<Rightarrow> ('k, 'p) vrf_account \<Rightarrow> bytes" where
  "SignHash C hash vrfAccount = (case Sign C hash (privateKey vrfAccount) of None \<Rightarrow> [] | Some sig \<Rightarrow> sig)"

definition VerifySignature :: "('k, 'p) crypto \<Rightarrow> bytes \<Rightarrow> bytes \<Rightarrow> bytes \<Rightarrow> bool go" where
  \<comment> \<open>errors are logged and the nil values used\<close>
  "VerifySignature C msgHash sig expected_addr =
     (let pubKeyBytes = (case Ecrecover C msgHash sig of None \<Rightarrow> [] | Some b \<Rightarrow> b)
      in case UnmarshalPubkey C pubKeyBytes of
           None \<Rightarrow> Inl NilDeref
         | Some pubkey \<Rightarrow> Inr (PubkeyToAddress C pubkey = expected_addr))"

definition BytesToAddress :: "bytes \<Rightarrow> bytes" where
  \<comment> \<open>the last 20 bytes, or the bytes with zeros before them\<close>
  "BytesToAddress b = (if length b > 20 then drop (length b - 20) b else replicate (20 - length b) 0 @ b)"

definition GenerateVRFOutput :: "('k, 'p) crypto \<Rightarrow> bytes \<Rightarrow> ('k, 'p) vrf_account \<Rightarrow> VRFResult" where
  "GenerateVRFOutput C randSeed vrfAccount =
     \<lparr>Proof = Some (accountAddr vrfAccount), RandomValue = Some (SignHash C randSeed vrfAccount)\<rparr>"

definition bytes_of :: "bytes option \<Rightarrow> bytes" where
  "bytes_of b = (case b of None \<Rightarrow> [] | Some b \<Rightarrow> b)"

definition VerifyVRFOutput :: "('k, 'p) crypto \<Rightarrow> VRFResult \<Rightarrow> bytes \<Rightarrow> ('k, 'p) vrf_account \<Rightarrow> bool go" where
  "VerifyVRFOutput C vrfResult randSeed vrfAccount =
     VerifySignature C randSeed (bytes_of (RandomValue vrfResult)) (BytesToAddress (bytes_of (Proof vrfResult)))"

definition rlpHash :: "('k, 'p) crypto \<Rightarrow> ('x \<Rightarrow> bytes option) \<Rightarrow> 'x \<Rightarrow> bytes \<times> bool" where
  \<comment> \<open>\<open>enc\<close> is \<open>rlp.Encode\<close>; the second component is true if there is no error\<close>
  "rlpHash C enc x = (case enc x of None \<Rightarrow> (replicate 32 0, False) | Some b \<Rightarrow> (keccak C b, True))"

section \<open>The verifiable random function of the library\<close>

definition GenerateVRF :: "('k, 'p) crypto \<Rightarrow> 'k \<Rightarrow> bytes \<Rightarrow> VRFResult" where
  "GenerateVRF C sk input = (case Prove C sk input of
     None \<Rightarrow> \<lparr>Proof = None, RandomValue = None\<rparr>
   | Some (output, proof) \<Rightarrow> \<lparr>Proof = Some proof, RandomValue = Some output\<rparr>)"

definition VerifyVRF :: "('k, 'p) crypto \<Rightarrow> 'p \<Rightarrow> bytes \<Rightarrow> VRFResult \<Rightarrow> bool" where
  \<comment> \<open>an error is logged; the output is nil then, and nil equals nil only\<close>
  "VerifyVRF C publicKey input vrfResult \<longleftrightarrow> Verify C publicKey input (Proof vrfResult) = RandomValue vrfResult"

section \<open>Honest values verify\<close>

text \<open>
  A random value that an account generates from an RLP hash verifies, whoever checks it, and so does a value of
  the library's function; a seed of another length than 32 bytes gives a value whose check panics.
\<close>

theorem vrf_honest:
  assumes "sign_ok C" and "ecvrf_ok C"
  shows "VerifyVRFOutput C (GenerateVRFOutput C (fst (rlpHash C enc x)) (NewVrfAccount C k dir)) (fst (rlpHash C enc x)) verifier = Inr True \<and>
    (Prove C k a \<noteq> None \<longrightarrow> VerifyVRF C (pub_of C k) a (GenerateVRF C k a)) \<and>
    (length seed \<noteq> 32 \<longrightarrow> VerifyVRFOutput C (GenerateVRFOutput C seed (NewVrfAccount C k dir)) seed verifier = Inl NilDeref)"
proof (intro conjI impI)
  let ?seed = "fst (rlpHash C enc x)"
  have "length ?seed = 32" using assms(1) by (simp add: rlpHash_def sign_ok_def split: option.splits)
  then obtain sig where sig: "Sign C ?seed k = Some sig" using assms(1) by (cases "Sign C ?seed k") (auto simp: sign_ok_def)
  then obtain b where b: "Ecrecover C ?seed sig = Some b" "UnmarshalPubkey C b = Some (pub_of C k)" using assms(1) unfolding sign_ok_def by blast
  have a: "BytesToAddress (PubkeyToAddress C p) = PubkeyToAddress C p" for p using assms(1) by (simp add: BytesToAddress_def sign_ok_def)
  show "VerifyVRFOutput C (GenerateVRFOutput C ?seed (NewVrfAccount C k dir)) ?seed verifier = Inr True"
    by (simp add: VerifyVRFOutput_def GenerateVRFOutput_def NewVrfAccount_def SignHash_def VerifySignature_def bytes_of_def sig b a)
next
  assume "Prove C k a \<noteq> None"
  then show "VerifyVRF C (pub_of C k) a (GenerateVRF C k a)"
    using assms(2) by (auto simp: VerifyVRF_def GenerateVRF_def ecvrf_ok_def)
next
  assume "length seed \<noteq> 32"
  then have "Sign C seed k = None" "Ecrecover C seed [] = None" "UnmarshalPubkey C [] = None"
    using assms(1) unfolding sign_ok_def by blast+
  then show "VerifyVRFOutput C (GenerateVRFOutput C seed (NewVrfAccount C k dir)) seed verifier = Inl NilDeref"
    by (simp add: VerifyVRFOutput_def GenerateVRFOutput_def NewVrfAccount_def SignHash_def VerifySignature_def bytes_of_def)
qed

text \<open>
  What the checks do not establish. \<open>VerifyVRFOutput\<close> does not look at the account it is called on: the value of any
  key passes as long as the proof names that key's own address. \<open>VerifyVRF\<close> accepts a result without a random value
  exactly if its proof is wrong.
\<close>

theorem vrf_not_bound:
  "VerifyVRFOutput C r seed v1 = VerifyVRFOutput C r seed v2 \<and>
   (VerifyVRF C p a \<lparr>Proof = pi, RandomValue = None\<rparr> \<longleftrightarrow> Verify C p a pi = None)"
  by (simp add: VerifyVRFOutput_def VerifyVRF_def)

text \<open>An instance: keys are numbers, a signature is the key followed by the digest.\<close>

definition demo_crypto :: "(8 word, 8 word) crypto" where
  "demo_crypto =
     \<lparr>pub_of = (\<lambda>k. k), PubkeyToAddress = (\<lambda>p. replicate 20 p), Sign = (\<lambda>h k. if length h = 32 then Some (k # h) else None),
      Ecrecover = (\<lambda>h sig. case sig of [] \<Rightarrow> None | k # h' \<Rightarrow> if h' = h then Some [k] else None),
      UnmarshalPubkey = (\<lambda>b. case b of [] \<Rightarrow> None | k # _ \<Rightarrow> Some k), Prove = (\<lambda>k a. Some (k # a, [k])),
      Verify = (\<lambda>p a pi. if pi = Some [p] then Some (p # a) else None), keccak = (\<lambda>b. replicate 32 7)\<rparr>"

theorem vrf_honest_witness:
  "VerifyVRFOutput demo_crypto (GenerateVRFOutput demo_crypto (replicate 32 7) (NewVrfAccount demo_crypto 5 ''d'')) (replicate 32 7)
     (NewVrfAccount demo_crypto 6 ''e'') = Inr True"
proof -
  have "sign_ok demo_crypto" "ecvrf_ok demo_crypto" by (simp_all add: sign_ok_def ecvrf_ok_def demo_crypto_def)
  from vrf_honest [OF this, of Some "[1]" 5 "''d''" "NewVrfAccount demo_crypto 6 ''e''"]
  show ?thesis by (simp add: rlpHash_def) (simp add: demo_crypto_def)
qed

end
