(* ===== verification/Codecs.thy ===== *)
theory Codecs
  imports Block_Store Messages
begin

text \<open>
  The encodings of \<open>core/block.go\<close>, \<open>core/transaction.go\<close>, \<open>core/account.go\<close> and
  \<open>message/message_CLPA.go\<close>, and the block database of \<open>storage/storage.go\<close> at the level of the bytes
  it keeps. The package \<open>encoding/gob\<close> is a parameter: an encoder and a decoder per struct, either of
  which may fail. \<open>gob_law\<close> is what the code relies on: on the values of a set the encoder succeeds, the
  decoder gives the value back, an empty slice as nil, and the bytes do not depend on that difference.

  \<open>byte_storage\<close> is the database with encoded values, \<open>bs_abs\<close> its decoded contents. The lemmas show
  that each operation on the bytes is the operation of \<open>Block_Store\<close> on the decoded contents, and that
  a read never meets bytes that do not decode.
\<close>

section \<open>Encoding and decoding\<close>

record 'a gob =
  gob_enc :: "'a \<Rightarrow> bytes option"
  gob_dec :: "bytes \<Rightarrow> 'a option"

record gob_env =
  gob_header :: "block_header gob"
  gob_block :: "block gob"
  gob_tx :: "transaction gob"
  gob_account :: "account_state gob"
  gob_transfer :: "account_transfer_msg gob"
  sha256 :: "bytes \<Rightarrow> bytes"

definition gob_encode :: "'a gob \<Rightarrow> 'a \<Rightarrow> bytes go" where
  \<comment> \<open>\<open>enc.Encode(x)\<close> into a fresh buffer; an error panics\<close>
  "gob_encode g x = (case gob_enc g x of None \<Rightarrow> Inl (LogPanic ''gob'') | Some bs \<Rightarrow> Inr bs)"

definition gob_decode :: "'a gob \<Rightarrow> bytes \<Rightarrow> 'a go" where
  "gob_decode g bs = (case gob_dec g bs of None \<Rightarrow> Inl (LogPanic ''gob'') | Some x \<Rightarrow> Inr x)"

definition BlockHeader_Encode :: "gob_env \<Rightarrow> block_header \<Rightarrow> bytes go" where
  "BlockHeader_Encode G bh = gob_encode (gob_header G) bh"

definition DecodeBH :: "gob_env \<Rightarrow> bytes \<Rightarrow> block_header go" where
  "DecodeBH G b = gob_decode (gob_header G) b"

definition BlockHeader_Hash :: "gob_env \<Rightarrow> block_header \<Rightarrow> bytes go" where
  "BlockHeader_Hash G bh = and_then (BlockHeader_Encode G bh) (\<lambda>bs. Inr (sha256 G bs))"

definition Block_Encode :: "gob_env \<Rightarrow> block \<Rightarrow> bytes go" where
  "Block_Encode G b = gob_encode (gob_block G) b"

definition DecodeB :: "gob_env \<Rightarrow> bytes \<Rightarrow> block go" where
  "DecodeB G b = gob_decode (gob_block G) b"

definition Transaction_Encode :: "gob_env \<Rightarrow> transaction \<Rightarrow> bytes go" where
  "Transaction_Encode G tx = gob_encode (gob_tx G) tx"

definition DecodeTx :: "gob_env \<Rightarrow> bytes \<Rightarrow> transaction go" where
  "DecodeTx G to_decode = gob_decode (gob_tx G) to_decode"

definition AccountState_Encode :: "gob_env \<Rightarrow> account_state \<Rightarrow> bytes go" where
  "AccountState_Encode G as = gob_encode (gob_account G) as"

definition DecodeAS :: "gob_env \<Rightarrow> bytes \<Rightarrow> account_state go" where
  "DecodeAS G b = gob_decode (gob_account G) b"

definition AccountState_Hash :: "gob_env \<Rightarrow> account_state \<Rightarrow> bytes go" where
  "AccountState_Hash G as = and_then (AccountState_Encode G as) (\<lambda>bs. Inr (sha256 G bs))"

definition AccountTransferMsg_Encode :: "gob_env \<Rightarrow> account_transfer_msg \<Rightarrow> bytes go" where
  "AccountTransferMsg_Encode G atm = gob_encode (gob_transfer G) atm"

definition DecodeAccountTransferMsg :: "gob_env \<Rightarrow> bytes \<Rightarrow> account_transfer_msg go" where
  "DecodeAccountTransferMsg G content = gob_decode (gob_transfer G) content"

section \<open>The laws of gob\<close>

definition gob_law :: "('a \<Rightarrow> 'a) \<Rightarrow> 'a set \<Rightarrow> 'a gob \<Rightarrow> bool" where
  "gob_law norm A g \<longleftrightarrow> (\<forall>x \<in> A. \<exists>bs. gob_enc g x = Some bs \<and> gob_dec g bs = Some (norm x) \<and>
     gob_enc g (norm x) = Some bs)"

definition norm_tx :: "transaction \<Rightarrow> transaction" where
  \<comment> \<open>\<open>RawTxHash\<close> is the one field in which the model tells nil from the empty slice\<close>
  "norm_tx tx = (if tx_RawTxHash tx = Some [] then tx\<lparr>tx_RawTxHash := None\<rparr> else tx)"

definition norm_block :: "block \<Rightarrow> block" where
  "norm_block b = b\<lparr>b_Body := map norm_tx (b_Body b)\<rparr>"

lemma gob_roundtrip:
  assumes "gob_law norm A g" and "x \<in> A"
  shows "and_then (gob_encode g x) (gob_decode g) = Inr (norm x) \<and> gob_encode g (norm x) = gob_encode g x"
  using assms by (fastforce simp: gob_law_def gob_encode_def gob_decode_def)

lemma gob_encode_Inr:
  assumes "gob_law norm A g" and "x \<in> A" and "gob_encode g x = Inr bs"
  shows "gob_dec g bs = Some (norm x)"
  using assms by (fastforce simp: gob_law_def gob_encode_def)

lemma norm_block_simps [simp]:
  "b_Hash (norm_block b) = b_Hash b" "b_Header (norm_block b) = b_Header b"
  by (simp_all add: norm_block_def)

lemma norm_tx_idem [simp]: "norm_tx (norm_tx tx) = norm_tx tx"
  by (simp add: norm_tx_def)

lemma norm_block_idem [simp]: "norm_block (norm_block b) = norm_block b"
  by (simp add: norm_block_def)

text \<open>
  The round trips of the structs that are stored or sent through gob; a header and an account state keep
  their hash.
\<close>

lemma header_roundtrip:
  assumes "gob_law id A (gob_header G)" and "bh \<in> A"
  shows "and_then (BlockHeader_Encode G bh) (DecodeBH G) = Inr bh"
  using gob_roundtrip [OF assms] by (simp add: BlockHeader_Encode_def DecodeBH_def [abs_def])

lemma tx_roundtrip:
  assumes "gob_law norm_tx A (gob_tx G)" and "tx \<in> A"
  shows "and_then (Transaction_Encode G tx) (DecodeTx G) = Inr (norm_tx tx) \<and>
    Transaction_Encode G (norm_tx tx) = Transaction_Encode G tx"
  using gob_roundtrip [OF assms] by (simp add: Transaction_Encode_def DecodeTx_def [abs_def])

lemma account_roundtrip:
  assumes "gob_law id A (gob_account G)" and "as \<in> A"
  shows "and_then (AccountState_Encode G as) (DecodeAS G) = Inr as \<and> \<not> is_panic (AccountState_Hash G as)"
  using gob_roundtrip [OF assms]
  by (auto simp: AccountState_Encode_def DecodeAS_def [abs_def] AccountState_Hash_def and_then_Inr not_panic_iff)

lemma transfer_roundtrip:
  assumes "gob_law id A (gob_transfer G)" and "atm \<in> A"
  shows "and_then (AccountTransferMsg_Encode G atm) (DecodeAccountTransferMsg G) = Inr atm"
  using gob_roundtrip [OF assms] by (simp add: AccountTransferMsg_Encode_def DecodeAccountTransferMsg_def [abs_def])

section \<open>The database of bytes\<close>

record byte_storage =
  bs_blockBucket :: "bytes \<rightharpoonup> bytes"
  bs_blockHeaderBucket :: "bytes \<rightharpoonup> bytes"
  bs_newestBlockHashBucket :: "bytes \<rightharpoonup> bytes"

definition bolt_put_bytes :: "bytes \<Rightarrow> bytes \<Rightarrow> (bytes \<rightharpoonup> bytes) \<Rightarrow> (bytes \<rightharpoonup> bytes) go" where
  \<comment> \<open>\<open>Bucket.Put\<close>: an empty key, a key of more than 32768 bytes and a value of more than
    \<open>(1 << 31) - 2\<close> bytes are errors; the code panics on them\<close>
  "bolt_put_bytes k v m =
     (if 2147483646 < length v then Inl (LogPanic ''bolt'') else bolt_put k v m)"

definition bs_NewStorage :: "byte_storage option \<Rightarrow> byte_storage" where
  \<comment> \<open>the argument is the contents of the database file, if there is one; a bucket that exists is kept\<close>
  "bs_NewStorage file_contents =
     (case file_contents of
        None \<Rightarrow> \<lparr>bs_blockBucket = Map.empty, bs_blockHeaderBucket = Map.empty,
                bs_newestBlockHashBucket = Map.empty\<rparr>
      | Some s \<Rightarrow> s)"

definition bs_UpdateNewestBlock :: "bytes \<Rightarrow> byte_storage \<Rightarrow> byte_storage go" where
  "bs_UpdateNewestBlock newestbhash s =
     and_then (bolt_put_bytes (to_bytes ''OnlyNewestBlock'') newestbhash (bs_newestBlockHashBucket s))
       (\<lambda>m. Inr (s\<lparr>bs_newestBlockHashBucket := m\<rparr>))"

definition bs_AddBlockHeader :: "gob_env \<Rightarrow> bytes \<Rightarrow> block_header \<Rightarrow> byte_storage \<Rightarrow> byte_storage go" where
  "bs_AddBlockHeader G blockhash bh s =
     and_then (BlockHeader_Encode G bh) (\<lambda>v.
     and_then (bolt_put_bytes blockhash v (bs_blockHeaderBucket s)) (\<lambda>m.
     Inr (s\<lparr>bs_blockHeaderBucket := m\<rparr>)))"

definition bs_AddBlock :: "gob_env \<Rightarrow> block \<Rightarrow> byte_storage \<Rightarrow> byte_storage go" where
  "bs_AddBlock G b s =
     and_then (Block_Encode G b) (\<lambda>v.
     and_then (bolt_put_bytes (b_Hash b) v (bs_blockBucket s)) (\<lambda>m.
     and_then (bs_AddBlockHeader G (b_Hash b) (b_Header b) (s\<lparr>bs_blockBucket := m\<rparr>)) (\<lambda>s'.
     bs_UpdateNewestBlock (b_Hash b) s')))"

definition bs_GetBlockHeader :: "gob_env \<Rightarrow> bytes \<Rightarrow> byte_storage \<Rightarrow> (string + block_header) go" where
  "bs_GetBlockHeader G bhash s =
     (case bs_blockHeaderBucket s bhash of
        None \<Rightarrow> Inr (Inl ''the block is not existed'')
      | Some bh_encoded \<Rightarrow> and_then (DecodeBH G bh_encoded) (\<lambda>h. Inr (Inr h)))"

definition bs_GetBlock :: "gob_env \<Rightarrow> bytes \<Rightarrow> byte_storage \<Rightarrow> (string + block) go" where
  "bs_GetBlock G bhash s =
     (case bs_blockBucket s bhash of
        None \<Rightarrow> Inr (Inl ''the block is not existed'')
      | Some b_encoded \<Rightarrow> and_then (DecodeB G b_encoded) (\<lambda>b. Inr (Inr b)))"

definition bs_GetNewestBlockHash :: "byte_storage \<Rightarrow> string + bytes" where
  "bs_GetNewestBlockHash s =
     (case bs_newestBlockHashBucket s (to_bytes ''OnlyNewestBlock'') of
        None \<Rightarrow> Inl ''cannot find the newest block hash'' | Some nhb \<Rightarrow> Inr nhb)"

section \<open>Abstraction and invariant\<close>

definition bs_abs :: "gob_env \<Rightarrow> byte_storage \<Rightarrow> storage" where
  "bs_abs G s =
     \<lparr>blockBucket = gob_dec (gob_block G) \<circ>\<^sub>m bs_blockBucket s,
      blockHeaderBucket = gob_dec (gob_header G) \<circ>\<^sub>m bs_blockHeaderBucket s,
      newestBlockHash = bs_newestBlockHashBucket s (to_bytes ''OnlyNewestBlock'')\<rparr>"

definition bs_inv :: "gob_env \<Rightarrow> byte_storage \<Rightarrow> bool" where
  \<comment> \<open>what is stored decodes\<close>
  "bs_inv G s \<longleftrightarrow> (\<forall>v \<in> ran (bs_blockBucket s). gob_dec (gob_block G) v \<noteq> None) \<and>
     (\<forall>v \<in> ran (bs_blockHeaderBucket s). gob_dec (gob_header G) v \<noteq> None)"

definition bs_fits :: "gob_env \<Rightarrow> block \<Rightarrow> bool" where
  \<comment> \<open>the hash is a key that bolt takes, and the encodings are values that it takes\<close>
  "bs_fits G b \<longleftrightarrow> b_Hash b \<noteq> [] \<and> length (b_Hash b) \<le> 32768 \<and>
     (\<forall>v. gob_enc (gob_block G) b = Some v \<longrightarrow> length v \<le> 2147483646) \<and>
     (\<forall>v. gob_enc (gob_header G) (b_Header b) = Some v \<longrightarrow> length v \<le> 2147483646)"

lemma bs_abs_new [simp]: "bs_abs G (bs_NewStorage None) = NewStorage"
  by (simp add: bs_abs_def bs_NewStorage_def NewStorage_def fun_eq_iff map_comp_def)

lemma bs_inv_new [simp]: "bs_inv G (bs_NewStorage None)"
  by (simp add: bs_inv_def bs_NewStorage_def)

lemma map_comp_upd: "d v = Some x \<Longrightarrow> d \<circ>\<^sub>m m(k \<mapsto> v) = (d \<circ>\<^sub>m m)(k \<mapsto> x)"
  by (auto simp: fun_eq_iff map_comp_def)

lemma ran_upd_imp: "v' \<in> ran (m(k \<mapsto> v)) \<Longrightarrow> v' = v \<or> v' \<in> ran m"
  by (auto simp: ran_def split: if_splits)

lemma bolt_put_bytes_Inr:
  "bolt_put_bytes k v m = Inr m' \<longleftrightarrow>
     k \<noteq> [] \<and> length k \<le> 32768 \<and> length v \<le> 2147483646 \<and> m' = m(k \<mapsto> v)"
  by (auto simp: bolt_put_bytes_def bolt_put_def)

lemma bs_AddBlock_Inr:
  "bs_AddBlock G b s = Inr s' \<longleftrightarrow> (\<exists>v w. gob_enc (gob_block G) b = Some v \<and>
     gob_enc (gob_header G) (b_Header b) = Some w \<and> bs_fits G b \<and>
     s' = \<lparr>bs_blockBucket = (bs_blockBucket s)(b_Hash b \<mapsto> v),
           bs_blockHeaderBucket = (bs_blockHeaderBucket s)(b_Hash b \<mapsto> w),
           bs_newestBlockHashBucket = (bs_newestBlockHashBucket s)(to_bytes ''OnlyNewestBlock'' \<mapsto> b_Hash b)\<rparr>)"
  by (auto simp: bs_AddBlock_def bs_AddBlockHeader_def bs_UpdateNewestBlock_def and_then_Inr
      bolt_put_bytes_Inr Block_Encode_def BlockHeader_Encode_def gob_encode_def bs_fits_def to_bytes_def
      split: option.splits)

section \<open>Refinement\<close>

text \<open>One step: storing on the bytes is storing the normalised block on the decoded contents.\<close>

lemma bs_AddBlock_step:
  assumes law: "gob_law norm_block A (gob_block G)" "gob_law id (b_Header ` A) (gob_header G)"
    and b: "b \<in> A" and inv: "bs_inv G s" and add: "bs_AddBlock G b s = Inr s'"
  shows "bs_inv G s' \<and> Storage_AddBlock (norm_block b) (bs_abs G s) = Inr (bs_abs G s')"
proof -
  from add obtain v w where v: "gob_enc (gob_block G) b = Some v"
    and w: "gob_enc (gob_header G) (b_Header b) = Some w" and fits: "bs_fits G b"
    and s': "s' = \<lparr>bs_blockBucket = (bs_blockBucket s)(b_Hash b \<mapsto> v),
      bs_blockHeaderBucket = (bs_blockHeaderBucket s)(b_Hash b \<mapsto> w),
      bs_newestBlockHashBucket = (bs_newestBlockHashBucket s)(to_bytes ''OnlyNewestBlock'' \<mapsto> b_Hash b)\<rparr>"
    unfolding bs_AddBlock_Inr by blast
  have dv: "gob_dec (gob_block G) v = Some (norm_block b)"
    using law(1) b v by (fastforce simp: gob_law_def)
  have dw: "gob_dec (gob_header G) w = Some (b_Header b)"
    using law(2) b w by (fastforce simp: gob_law_def)
  have "bs_inv G s'" using inv dv dw by (auto simp: bs_inv_def s' dest!: ran_upd_imp)
  moreover have "Storage_AddBlock (norm_block b) (bs_abs G s) = Inr (bs_abs G s')"
    using fits by (simp add: Storage_AddBlock_Inr bs_abs_def s' map_comp_upd [of "gob_dec (gob_block G)", OF dv]
        map_comp_upd [of "gob_dec (gob_header G)", OF dw] bs_fits_def)
  ultimately show ?thesis ..
qed

lemma bs_AddBlock_total:
  assumes "gob_law norm_block A (gob_block G)" "gob_law id (b_Header ` A) (gob_header G)"
    and "b \<in> A" and "bs_fits G b"
  shows "\<exists>s'. bs_AddBlock G b s = Inr s'"
  using assms by (fastforce simp: bs_AddBlock_Inr gob_law_def)

lemma bs_reads:
  assumes "bs_inv G s"
  shows "bs_GetBlock G h s = Inr (GetBlock h (bs_abs G s))"
    "bs_GetBlockHeader G h s = Inr (GetBlockHeader h (bs_abs G s))"
    "bs_GetNewestBlockHash s = GetNewestBlockHash (bs_abs G s)"
  using assms
  by (auto simp: bs_GetBlock_def bs_GetBlockHeader_def bs_GetNewestBlockHash_def GetBlock_def GetBlockHeader_def
      GetNewestBlockHash_def bs_abs_def DecodeB_def DecodeBH_def gob_decode_def bs_inv_def ran_def map_comp_def
      split: option.splits)

lemma bs_AddBlocks:
  assumes "gob_law norm_block A (gob_block G)" "gob_law id (b_Header ` A) (gob_header G)"
    and "set bs \<subseteq> A" and "bs_inv G s" and "\<forall>b \<in> set bs. bs_fits G b"
  shows "\<exists>s'. go_fold (bs_AddBlock G) bs s = Inr s' \<and> bs_inv G s' \<and>
    go_fold Storage_AddBlock (map norm_block bs) (bs_abs G s) = Inr (bs_abs G s')"
  using assms(3-5)
proof (induction bs arbitrary: s)
  case (Cons b bs)
  then obtain t where t: "bs_AddBlock G b s = Inr t"
    using bs_AddBlock_total [OF assms(1,2)] by fastforce
  have "b \<in> A" using Cons.prems(1) by simp
  from bs_AddBlock_step [OF assms(1,2) this Cons.prems(2) t]
  have "bs_inv G t" and a: "Storage_AddBlock (norm_block b) (bs_abs G s) = Inr (bs_abs G t)" by auto
  then obtain s' where "go_fold (bs_AddBlock G) bs t = Inr s'" "bs_inv G s'"
    "go_fold Storage_AddBlock (map norm_block bs) (bs_abs G t) = Inr (bs_abs G s')"
    using Cons.IH [of t] Cons.prems(1,3) by auto
  with t a show ?case by auto
qed simp

text \<open>
  C10. The block database on bytes implements the block database on blocks. When gob gives back what it
  encoded (an empty slice as nil) and the encodings fit into bolt, storing any list of blocks on a
  database in which everything decodes does not panic, keeps everything decodable, and its decoded
  contents are those the abstract database has after storing the same blocks; afterwards every read of
  a block, a header or the newest hash returns what the abstract database returns and no decoder panics.
\<close>

theorem byte_storage_refines:
  fixes G :: gob_env
  assumes "gob_law norm_block A (gob_block G)" and "gob_law id (b_Header ` A) (gob_header G)"
    and "set bs \<subseteq> A" and "bs_inv G s" and "\<forall>b \<in> set bs. bs_fits G b"
  shows "\<exists>s'. go_fold (bs_AddBlock G) bs s = Inr s' \<and> bs_inv G s' \<and>
    go_fold Storage_AddBlock (map norm_block bs) (bs_abs G s) = Inr (bs_abs G s') \<and>
    (\<forall>h. bs_GetBlock G h s' = Inr (GetBlock h (bs_abs G s')) \<and>
         bs_GetBlockHeader G h s' = Inr (GetBlockHeader h (bs_abs G s'))) \<and>
    bs_GetNewestBlockHash s' = GetNewestBlockHash (bs_abs G s')"
  using bs_AddBlocks [OF assms] bs_reads by blast

text \<open>
  The database is addressed by content: when every stored block carries the hash of its header, what is
  read under a hash is one of the stored blocks, and the header read with it hashes to that key.
\<close>

lemma go_fold_stored:
  assumes "go_fold Storage_AddBlock bs s = Inr s'" and "GetBlock h s' = Inr b"
  shows "(b \<in> set bs \<and> b_Hash b = h \<and> GetBlockHeader h s' = Inr (b_Header b)) \<or>
    (GetBlock h s = Inr b \<and> GetBlockHeader h s' = GetBlockHeader h s)"
  using assms
proof (induction bs arbitrary: s)
  case (Cons b' bs)
  then obtain t where t: "Storage_AddBlock b' s = Inr t" and rest: "go_fold Storage_AddBlock bs t = Inr s'"
    by (auto simp: and_then_Inr)
  from Cons.IH [OF rest Cons.prems(2)] db.get_put [OF t, of h] db.hdr_put [OF t, of h]
  show ?case by (cases "h = b_Hash b'") auto
qed simp

lemma bs_content_addressed:
  assumes "gob_law norm_block A (gob_block G)" and "gob_law id (b_Header ` A) (gob_header G)"
    and "set bs \<subseteq> A" and "go_fold (bs_AddBlock G) bs (bs_NewStorage None) = Inr s'"
    and "\<forall>b \<in> set bs. bs_fits G b \<and> BlockHeader_Hash G (b_Header b) = Inr (b_Hash b)"
    and "bs_GetBlock G h s' = Inr (Inr b)"
  shows "b \<in> norm_block ` set bs \<and> BlockHeader_Hash G (b_Header b) = Inr h \<and>
    bs_GetBlockHeader G h s' = Inr (Inr (b_Header b))"
proof -
  have inv: "bs_inv G s'" and a: "go_fold Storage_AddBlock (map norm_block bs) NewStorage = Inr (bs_abs G s')"
    using bs_AddBlocks [OF assms(1-3), of "bs_NewStorage None"] assms(4,5) by auto
  have "GetBlock h (bs_abs G s') = Inr b" using assms(6) by (simp add: bs_reads(1) [OF inv])
  from go_fold_stored [OF a this] have b: "b \<in> norm_block ` set bs" "b_Hash b = h"
    and hd: "GetBlockHeader h (bs_abs G s') = Inr (b_Header b)"
    by (auto simp: GetBlock_def NewStorage_def)
  moreover have "BlockHeader_Hash G (b_Header b) = Inr h" using b assms(5) by auto
  ultimately show ?thesis by (simp add: bs_reads(2) [OF inv])
qed

section \<open>Witness\<close>

definition demo_gob :: "('a \<Rightarrow> bytes) \<Rightarrow> 'a list \<Rightarrow> 'a gob" where
  \<comment> \<open>a codec on finitely many values that \<open>key\<close> tells apart\<close>
  "demo_gob key xs = \<lparr>gob_enc = (\<lambda>x. Some (key x)), gob_dec = (\<lambda>bs. find (\<lambda>x. key x = bs) xs)\<rparr>"

definition demo_raw_block :: block where
  \<comment> \<open>its transaction has an empty \<open>RawTxHash\<close> that is not nil\<close>
  "demo_raw_block = (demo_block 1)\<lparr>b_Body := [(raw_transaction ''a0'' ''b0'' 5 1 0 0 0 0)\<lparr>tx_RawTxHash := Some []\<rparr>]\<rparr>"

definition demo_codecs :: gob_env where
  "demo_codecs = \<lparr>gob_header = demo_gob (\<lambda>h. [ucast (bh_Number h)]) [demo_header 1, demo_header 2],
     gob_block = demo_gob b_Hash [norm_block demo_raw_block, demo_block 2],
     gob_tx = demo_gob tx_TxHash [], gob_account = demo_gob as_CodeHash [], gob_transfer = demo_gob (\<lambda>_. []) [],
     sha256 = (\<lambda>bs. bs)\<rparr>"

lemma demo_codecs_law:
  "gob_law norm_block {demo_raw_block, demo_block 2} (gob_block demo_codecs)"
  "gob_law id (b_Header ` {demo_raw_block, demo_block 2}) (gob_header demo_codecs)"
  "\<forall>b \<in> set [demo_raw_block, demo_block 2]. bs_fits demo_codecs b"
  by (simp_all add: gob_law_def demo_codecs_def demo_gob_def demo_raw_block_def demo_block_def demo_header_def
      norm_block_def bs_fits_def)

theorem byte_storage_refines_witness:
  "\<exists>s'. go_fold (bs_AddBlock demo_codecs) [demo_raw_block, demo_block 2] (bs_NewStorage None) = Inr s' \<and>
     bs_GetBlock demo_codecs [1] s' = Inr (Inr (norm_block demo_raw_block)) \<and>
     norm_block demo_raw_block \<noteq> demo_raw_block \<and> bs_GetNewestBlockHash s' = Inr [2]"
proof -
  let ?bs = "[demo_raw_block, demo_block 2]"
  have sub: "set ?bs \<subseteq> {demo_raw_block, demo_block 2}" by simp
  from byte_storage_refines [OF demo_codecs_law(1,2) sub bs_inv_new demo_codecs_law(3)] obtain s'
    where s': "go_fold (bs_AddBlock demo_codecs) ?bs (bs_NewStorage None) = Inr s'"
    and a: "go_fold Storage_AddBlock (map norm_block ?bs) NewStorage = Inr (bs_abs demo_codecs s')"
    and g: "bs_GetBlock demo_codecs [1] s' = Inr (GetBlock [1] (bs_abs demo_codecs s'))"
    and n: "bs_GetNewestBlockHash s' = GetNewestBlockHash (bs_abs demo_codecs s')"
    by auto
  have h: "b_Hash demo_raw_block = [1]" "b_Hash (demo_block 2) = [2]"
    by (simp_all add: demo_raw_block_def demo_block_def)
  have "norm_block demo_raw_block \<noteq> demo_raw_block"
    by (simp add: norm_block_def norm_tx_def demo_raw_block_def demo_block_def raw_transaction_def)
  moreover have "bs_abs demo_codecs s' = \<lparr>blockBucket = [[1] \<mapsto> norm_block demo_raw_block, [2] \<mapsto> norm_block (demo_block 2)],
      blockHeaderBucket = [[1] \<mapsto> b_Header demo_raw_block, [2] \<mapsto> b_Header (demo_block 2)],
      newestBlockHash = Some [2]\<rparr>"
    using a h by (simp add: and_then_Inr Storage_AddBlock_Inr NewStorage_def)
  ultimately show ?thesis using s' g n by (simp add: GetBlock_def GetNewestBlockHash_def)
qed

end
