(* ===== verification/Node_Process.thy ===== *)
theory Node_Process
  imports Consensus_Runs Network
begin

text \<open>
  The process of a consensus node, around the handlers of theory \<open>Pbft_Node\<close>: the accept loop \<open>TcpListen\<close>, the
  read loops \<open>handleClientRequest\<close>, the dispatch \<open>handleMessage\<close>, \<open>WaitToStop\<close> and \<open>closePbft\<close> of
  \<open>consensus_shard/pbft_all/pbft.go\<close>, the goroutines and the \<open>select\<close> of \<open>Propose\<close> (\<open>messageHandle.go\<close>), and
  \<open>CloseBlockChain\<close>. \<open>node_proc\<close> holds where each goroutine is, who holds \<open>tcpPoolLock\<close>, the listener, the
  databases and the pool of connections; \<open>proc_step\<close> lets one goroutine do its next atomic piece of work. What
  arrives on a connection is arbitrary. The decoders of \<open>encoding/json\<close> are parameters (\<open>json_env\<close>).

  The theorems: a process does to the node nothing but what a run of theory \<open>Pbft_Run\<close> can do, so the
  properties of runs hold for processes; and a process that has handled a stop message handles no
  other message and can only end.
\<close>

section \<open>State\<close>

record json_env =
  un_PrePrepare :: "bytes \<Rightarrow> pre_prepare option"
  un_Prepare :: "bytes \<Rightarrow> (bytes \<times> u64 \<times> shard_node) option"
  un_Commit :: "bytes \<Rightarrow> (bytes \<times> u64 \<times> shard_node) option"
  un_ViewChange :: "bytes \<Rightarrow> view_change_msg option"
  un_NewView :: "bytes \<Rightarrow> view_change_msg option"
  un_RequestOld :: "bytes \<Rightarrow> request_old option"
  un_SendOld :: "bytes \<Rightarrow> send_old option"
  un_Outside :: "bytes \<Rightarrow> bytes \<Rightarrow> message option"

record proc_env =
  pe_json :: json_env
  pe_kind :: string
  pe_env :: go_env
  pe_digest :: digester
  pe_verify :: verifier
  pe_PbftViewChangeTimeOut :: int

datatype conn_state =
    Reading \<comment> \<open>in \<open>ReadBytes\<close>\<close>
  | HasLine bytes \<comment> \<open>waits for \<open>tcpPoolLock\<close>\<close>
  | Handling bytes \<comment> \<open>holds \<open>tcpPoolLock\<close>\<close>
  | Stopping \<comment> \<open>holds \<open>tcpPoolLock\<close> and waits at \<open>p.pStop <- 1\<close>\<close>
  | ConnDone

datatype listener = Unopened | Listening | Closed

datatype main_state = Sleeping | Selecting | Returned

datatype ticker = TickSleep | TickStage | TickSend

record 'c node_proc =
  pr_run :: run_state
  pr_outside :: "message list" \<comment> \<open>goroutines of messages from outside\<close>
  pr_proposals :: nat \<comment> \<open>goroutines started by the \<open>select\<close>\<close>
  pr_viewChanges :: nat \<comment> \<open>goroutines started by the view change timer\<close>
  pr_net :: "'c net"
  pr_tcpln :: listener
  pr_accepting :: bool
  pr_conns :: "conn_state list"
  pr_tcpPoolLock :: "nat option" \<comment> \<open>the connection whose goroutine holds it\<close>
  pr_storageOpen :: bool
  pr_dbOpen :: bool
  pr_main :: main_state
  pr_ticker :: ticker
  pr_crashed :: bool
  pr_handled :: "bytes list" \<comment> \<open>the messages handled so far\<close>

abbreviation pr_node :: "'c node_proc \<Rightarrow> pbft_node" where
  "pr_node P \<equiv> rs_node (pr_run P)"

definition set_node :: "pbft_node \<Rightarrow> 'c node_proc \<Rightarrow> 'c node_proc" where
  "set_node p P = P\<lparr>pr_run := (pr_run P)\<lparr>rs_node := p\<rparr>\<rparr>"

definition spawn :: "task \<Rightarrow> 'c node_proc \<Rightarrow> 'c node_proc" where
  "spawn t P = P\<lparr>pr_run := (pr_run P)\<lparr>rs_spawned := t # rs_spawned (pr_run P)\<rparr>\<rparr>"

definition spawn_vote :: "(prepare_commit \<Rightarrow> task) \<Rightarrow> bytes \<times> u64 \<times> shard_node \<Rightarrow> 'c node_proc \<Rightarrow> 'c node_proc" where
  \<comment> \<open>the decoder allocates a new \<open>shard.Node\<close>\<close>
  "spawn_vote f v P = (case v of (d, q, n) \<Rightarrow>
     P\<lparr>pr_run := (pr_run P)\<lparr>rs_next := Suc (rs_next (pr_run P)),
       rs_spawned := f \<lparr>pc_Digest = d, pc_SeqID = q, pc_SenderNode = NodePtr (rs_next (pr_run P)) n\<rparr> # rs_spawned (pr_run P)\<rparr>\<rparr>)"

definition unmarshal :: "'a option \<Rightarrow> 'a go" where
  "unmarshal r = (case r of None \<Rightarrow> Inl (LogPanic ''json'') | Some x \<Rightarrow> Inr x)"

section \<open>Stopping\<close>

definition CloseBlockChain :: "'c node_proc \<Rightarrow> 'c node_proc" where
  \<comment> \<open>the block database and the state database; writing the preimages does not change the state\<close>
  "CloseBlockChain P = P\<lparr>pr_storageOpen := False, pr_dbOpen := False\<rparr>"

definition closePbft :: "'c node_proc \<Rightarrow> 'c node_proc" where
  "closePbft P = CloseBlockChain P"

definition proc_WaitToStop :: "'c node_proc \<Rightarrow> 'c node_proc" where
  \<comment> \<open>up to the send on \<open>pStop\<close>\<close>
  "proc_WaitToStop P =
     (let P = set_node (WaitToStop (pr_node P)) P;
          P = P\<lparr>pr_net := CloseAllConnInPool (pr_net P)\<rparr>;
          P = P\<lparr>pr_tcpln := Closed\<rparr>
      in closePbft P)"

section \<open>Dispatch\<close>

definition outside_types :: "string \<Rightarrow> string list" where
  \<comment> \<open>the cases of \<open>HandleMessageOutsidePBFT\<close> of the module chosen by \<open>NewPbftNode\<close>\<close>
  "outside_types messageHandleType =
     (if messageHandleType = ''CLPA_Broker'' then
        [''SequenceID'', ''inject'', ''PartitionModifiedMap'', ''BrokerAS_transfer'', ''ready for partition'']
      else if messageHandleType = ''CLPA'' then
        [''relay'', ''CRelay&Proof'', ''inject'', ''PartitionModifiedMap'', ''AccountState&txs'', ''ready for partition'']
      else if messageHandleType = ''Broker'' then [''SequenceID'', ''inject'']
      else [''relay'', ''CRelay&Proof'', ''inject''])"

definition HandleMessageOutsidePBFT ::
  "string \<Rightarrow> verifier \<Rightarrow> (nat \<Rightarrow> gotime) \<Rightarrow> message \<Rightarrow> pbft_node \<Rightarrow> pbft_node go" where
  "HandleMessageOutsidePBFT messageHandleType verify nows =
     (if messageHandleType = ''CLPA_Broker'' then CLPABrokerOutside nows
      else if messageHandleType = ''CLPA'' then CLPARelayOutside verify nows
      else if messageHandleType = ''Broker'' then RawBrokerOutside nows
      else RawRelayOutside verify nows)"

definition node_handleMessage ::
  "proc_env \<Rightarrow> extra_op \<Rightarrow> gotime \<Rightarrow> bytes \<Rightarrow> 'c node_proc \<Rightarrow> 'c node_proc go" where
  \<comment> \<open>a goroutine decodes its message before anything else: a message that does not parse panics\<close>
  "node_handleMessage X ops now msg P =
     (let J = pe_json X; p = pr_node P in
      and_then (SplitMessage msg) (\<lambda>(msgType, content).
      if msgType = to_bytes ''preprepare'' then
        and_then (unmarshal (un_PrePrepare J content)) (\<lambda>m. Inr (spawn (TPrePrepare m) P))
      else if msgType = to_bytes ''prepare'' then
        and_then (unmarshal (un_Prepare J content)) (\<lambda>v. Inr (spawn_vote TPrepare v P))
      else if msgType = to_bytes ''commit'' then
        and_then (unmarshal (un_Commit J content)) (\<lambda>v. Inr (spawn_vote TCommit v P))
      else if msgType = to_bytes ''ViewChangePropose'' then
        and_then (unmarshal (un_ViewChange J content)) (\<lambda>m.
        and_then (handleViewChangeMsg m p) (\<lambda>p. Inr (set_node p P)))
      else if msgType = to_bytes ''NewChange'' then
        and_then (unmarshal (un_NewView J content)) (\<lambda>m. Inr (set_node (handleNewViewMsg now m p) P))
      else if msgType = to_bytes ''requestOldrequest'' then
        if leader_id p \<noteq> p_NodeID p then Inr P
        else and_then (unmarshal (un_RequestOld J content)) (\<lambda>rom.
             and_then (handleRequestOldSeq ops rom p) (\<lambda>p. Inr (set_node p P)))
      else if msgType = to_bytes ''sendOldrequest'' then
        and_then (unmarshal (un_SendOld J content)) (\<lambda>som.
        and_then (handleSendOldSeq ops (pe_digest X) som p) (\<lambda>p. Inr (set_node p P)))
      else if msgType = to_bytes ''stop'' then Inr (proc_WaitToStop P)
      else if msgType \<in> to_bytes ` set (outside_types (pe_kind X)) then
        and_then (unmarshal (un_Outside J msgType content)) (\<lambda>m. Inr (P\<lparr>pr_outside := m # pr_outside P\<rparr>))
      else Inr P))"

definition is_stop :: "bytes \<Rightarrow> bool" where
  "is_stop msg = (case SplitMessage msg of Inl _ \<Rightarrow> False | Inr (t, _) \<Rightarrow> t = to_bytes ''stop'')"

section \<open>Steps of the process\<close>

definition alive :: "'c node_proc \<Rightarrow> bool" where
  \<comment> \<open>the process runs until \<open>Propose\<close> returns, which ends \<open>main\<close>, or a goroutine panics\<close>
  "alive P \<longleftrightarrow> pr_main P \<noteq> Returned \<and> \<not> pr_crashed P"

definition conn_at :: "'c node_proc \<Rightarrow> nat \<Rightarrow> conn_state \<Rightarrow> bool" where
  "conn_at P i c \<longleftrightarrow> i < length (pr_conns P) \<and> pr_conns P ! i = c"

definition set_conn :: "nat \<Rightarrow> conn_state \<Rightarrow> 'c node_proc \<Rightarrow> 'c node_proc" where
  "set_conn i c P = P\<lparr>pr_conns := (pr_conns P)[i := c]\<rparr>"

definition fails :: "'a go \<Rightarrow> bool" where
  "fails m = (case m of Inl e \<Rightarrow> e \<noteq> Blocked | Inr _ \<Rightarrow> False)"

definition crash :: "'c node_proc \<Rightarrow> 'c node_proc" where
  "crash P = P\<lparr>pr_crashed := True\<rparr>"

inductive net_step :: "'c node_proc \<Rightarrow> 'c node_proc \<Rightarrow> bool" where
  \<comment> \<open>the accept loop, the read loops up to the lock, and dialling\<close>
  listen: "pr_tcpln P = Unopened \<Longrightarrow> net_step P (P\<lparr>pr_tcpln := Listening, pr_accepting := True\<rparr>)"
| listen_fails: "pr_tcpln P = Unopened \<Longrightarrow> net_step P (crash P)"
| accept: "pr_accepting P \<Longrightarrow> pr_tcpln P = Listening \<Longrightarrow> net_step P (P\<lparr>pr_conns := pr_conns P @ [Reading]\<rparr>)"
| accept_fails: "pr_accepting P \<Longrightarrow> net_step P (P\<lparr>pr_accepting := False\<rparr>)"
| read: "conn_at P i Reading \<Longrightarrow> net_step P (set_conn i (if p_stopSignal (pr_node P) then ConnDone else HasLine l) P)"
| read_fails: "conn_at P i Reading \<Longrightarrow> net_step P (set_conn i ConnDone P)"
| lock: "conn_at P i (HasLine l) \<Longrightarrow> pr_tcpPoolLock P = None \<Longrightarrow>
    net_step P (set_conn i (Handling l) (P\<lparr>pr_tcpPoolLock := Some i\<rparr>))"
| dial: "NetTcpDial is_tcp waitN burst w m addr (pr_net P) = Inr net' \<Longrightarrow> net_step P (P\<lparr>pr_net := net'\<rparr>)"

inductive timer_step :: "proc_env \<Rightarrow> 'c node_proc \<Rightarrow> 'c node_proc \<Rightarrow> bool" for X where
  \<comment> \<open>the main goroutine and the two timers that \<open>Propose\<close> starts\<close>
  wake: "pr_main P = Sleeping \<Longrightarrow> timer_step X P (P\<lparr>pr_main := Selecting\<rparr>)"
| tick: "pr_main P = Selecting \<Longrightarrow> pr_ticker P = TickSleep \<Longrightarrow> timer_step X P (P\<lparr>pr_ticker := TickStage\<rparr>)"
| stage: "pr_ticker P = TickStage \<Longrightarrow> p_pbftStage (pr_node P) = 1 \<Longrightarrow> timer_step X P (P\<lparr>pr_ticker := TickSend\<rparr>)"
| round: "pr_main P = Selecting \<Longrightarrow> pr_ticker P = TickSend \<Longrightarrow>
    timer_step X P (P\<lparr>pr_ticker := TickSleep, pr_proposals := Suc (pr_proposals P)\<rparr>)"
| timeout: "pr_main P = Selecting \<Longrightarrow> now - p_lastCommitTime (pr_node P) > pe_PbftViewChangeTimeOut X \<Longrightarrow>
    timer_step X P ((set_node ((pr_node P)\<lparr>p_lastCommitTime := now\<rparr>) P)\<lparr>pr_viewChanges := Suc (pr_viewChanges P)\<rparr>)"
| stop: "pr_main P = Selecting \<Longrightarrow> conn_at P i Stopping \<Longrightarrow> timer_step X P (P\<lparr>pr_main := Returned\<rparr>)"

inductive work_step :: "proc_env \<Rightarrow> 'c node_proc \<Rightarrow> 'c node_proc \<Rightarrow> bool" for X where
  \<comment> \<open>the goroutines that handle messages, propose and change the view\<close>
  handle: "ops \<in> modules_of (pe_kind X) (pe_env X) \<Longrightarrow> conn_at P i (Handling l) \<Longrightarrow> \<not> is_stop l \<Longrightarrow>
    node_handleMessage X ops now l P = Inr P' \<Longrightarrow>
    work_step X P (set_conn i Reading (P'\<lparr>pr_tcpPoolLock := None, pr_handled := pr_handled P @ [l]\<rparr>))"
| handle_stop: "ops \<in> modules_of (pe_kind X) (pe_env X) \<Longrightarrow> conn_at P i (Handling l) \<Longrightarrow> is_stop l \<Longrightarrow>
    node_handleMessage X ops now l P = Inr P' \<Longrightarrow>
    work_step X P (set_conn i Stopping (P'\<lparr>pr_handled := pr_handled P @ [l]\<rparr>))"
| handle_fails: "ops \<in> modules_of (pe_kind X) (pe_env X) \<Longrightarrow> conn_at P i (Handling l) \<Longrightarrow>
    fails (node_handleMessage X ops now l P) \<Longrightarrow> work_step X P (crash P)"
| start: "t \<in> set (rs_spawned (pr_run P)) \<Longrightarrow> work_step X P (P\<lparr>pr_run := (pr_run P)\<lparr>
    rs_spawned := remove1 t (rs_spawned (pr_run P)), rs_waiting := (p_view (pr_node P), t) # rs_waiting (pr_run P)\<rparr>\<rparr>)"
| run: "ops \<in> modules_of (pe_kind X) (pe_env X) \<Longrightarrow> (v, t) \<in> set (rs_waiting (pr_run P)) \<Longrightarrow>
    \<not> task_waits v t (pr_node P) \<Longrightarrow> p_commitBlocked (pr_node P) = None \<Longrightarrow>
    pr_storageOpen P \<or> executes v t (pr_node P) = [] \<Longrightarrow>
    run_task ops (pe_digest X) now v t (pr_node P) = Inr p' \<Longrightarrow> work_step X P (P\<lparr>pr_run := (pr_run P)\<lparr>rs_node := p',
      rs_waiting := remove1 (v, t) (rs_waiting (pr_run P)), rs_log := rs_log (pr_run P) @ executes v t (pr_node P)\<rparr>\<rparr>)"
| run_fails: "ops \<in> modules_of (pe_kind X) (pe_env X) \<Longrightarrow> (v, t) \<in> set (rs_waiting (pr_run P)) \<Longrightarrow>
    \<not> task_waits v t (pr_node P) \<Longrightarrow> p_commitBlocked (pr_node P) = None \<Longrightarrow>
    fails (run_task ops (pe_digest X) now v t (pr_node P)) \<or> \<not> pr_storageOpen P \<and> executes v t (pr_node P) \<noteq> [] \<Longrightarrow>
    work_step X P (crash P)"
| unblock: "p_commitBlocked (pr_node P) = Some m \<Longrightarrow> \<not> p_askForLock (pr_node P) \<Longrightarrow>
    ask_for_old now m (pr_node P) = Inr p' \<Longrightarrow> work_step X P (set_node p' P)"
| unblock_fails: "p_commitBlocked (pr_node P) = Some m \<Longrightarrow> \<not> p_askForLock (pr_node P) \<Longrightarrow>
    fails (ask_for_old now m (pr_node P)) \<Longrightarrow> work_step X P (crash P)"
| not_leader: "pr_proposals P = Suc n \<Longrightarrow> \<not> may_propose (pr_node P) \<Longrightarrow> work_step X P (P\<lparr>pr_proposals := n\<rparr>)"
| leader: "pr_proposals P = Suc n \<Longrightarrow> may_propose (pr_node P) \<Longrightarrow> work_step X P (P\<lparr>pr_proposals := n,
    pr_run := (pr_run P)\<lparr>rs_proposing := Suc (rs_proposing (pr_run P))\<rparr>\<rparr>)"
| propose: "ops \<in> modules_of (pe_kind X) (pe_env X) \<Longrightarrow> rs_proposing (pr_run P) = Suc n \<Longrightarrow>
    \<not> p_sequenceLock (pr_node P) \<Longrightarrow> Propose ops (pe_digest X) (pr_node P) = Inr p' \<Longrightarrow>
    work_step X P (P\<lparr>pr_run := (pr_run P)\<lparr>rs_node := p', rs_proposing := n\<rparr>\<rparr>)"
| propose_fails: "ops \<in> modules_of (pe_kind X) (pe_env X) \<Longrightarrow> rs_proposing (pr_run P) = Suc n \<Longrightarrow>
    \<not> p_sequenceLock (pr_node P) \<Longrightarrow>
    fails (Propose ops (pe_digest X) (pr_node P)) \<or> \<not> pr_dbOpen P \<Longrightarrow> work_step X P (crash P)"
| outside: "m \<in> set (pr_outside P) \<Longrightarrow> HandleMessageOutsidePBFT (pe_kind X) (pe_verify X) nows m (pr_node P) = Inr p' \<Longrightarrow>
    work_step X P ((set_node p' P)\<lparr>pr_outside := remove1 m (pr_outside P)\<rparr>)"
| outside_fails: "m \<in> set (pr_outside P) \<Longrightarrow> fails (HandleMessageOutsidePBFT (pe_kind X) (pe_verify X) nows m (pr_node P)) \<Longrightarrow>
    work_step X P (crash P)"
| view_change: "pr_viewChanges P = Suc n \<Longrightarrow> viewChangePropose (pr_node P) = Inr p' \<Longrightarrow>
    work_step X P ((set_node p' P)\<lparr>pr_viewChanges := n\<rparr>)"
| view_change_fails: "pr_viewChanges P = Suc n \<Longrightarrow> fails (viewChangePropose (pr_node P)) \<Longrightarrow> work_step X P (crash P)"

inductive proc_step :: "proc_env \<Rightarrow> 'c node_proc \<Rightarrow> 'c node_proc \<Rightarrow> bool" for X where
  net: "alive P \<Longrightarrow> net_step P P' \<Longrightarrow> proc_step X P P'"
| timer: "alive P \<Longrightarrow> timer_step X P P' \<Longrightarrow> proc_step X P P'"
| work: "alive P \<Longrightarrow> work_step X P P' \<Longrightarrow> proc_step X P P'"

definition start_process :: "pbft_node \<Rightarrow> 'c net \<Rightarrow> 'c node_proc" where
  \<comment> \<open>\<open>BuildNewPbftNode\<close> with the new node: \<open>go worker.TcpListen()\<close> and \<open>worker.Propose()\<close>\<close>
  "start_process p net = \<lparr>pr_run = fresh_run p,
     pr_outside = [], pr_proposals = 0, pr_viewChanges = 0, pr_net = net, pr_tcpln = Unopened, pr_accepting = False,
     pr_conns = [], pr_tcpPoolLock = None, pr_storageOpen = True, pr_dbOpen = True, pr_main = Sleeping,
     pr_ticker = TickSleep, pr_crashed = False, pr_handled = []\<rparr>"

section \<open>A process refines a run of the node\<close>

lemma outside_frame:
  "HandleMessageOutsidePBFT kind verify nows m p = Inr p' \<Longrightarrow> same_protocol p p'"
  using clpa_broker_outside_frame clpa_outside_frame broker_outside_frame relay_outside_frame
  by (auto simp: HandleMessageOutsidePBFT_def split: if_splits)

lemma unmarshal_Inr [simp]: "unmarshal r = Inr x \<longleftrightarrow> r = Some x"
  by (auto simp: unmarshal_def split: option.splits)

lemma set_node_simps [simp]:
  "pr_run (set_node p P) = (pr_run P)\<lparr>rs_node := p\<rparr>" "pr_conns (set_node p P) = pr_conns P"
  "pr_tcpPoolLock (set_node p P) = pr_tcpPoolLock P" "pr_handled (set_node p P) = pr_handled P"
  "pr_tcpln (set_node p P) = pr_tcpln P" "pr_storageOpen (set_node p P) = pr_storageOpen P"
  "pr_dbOpen (set_node p P) = pr_dbOpen P" "pr_main (set_node p P) = pr_main P"
  by (simp_all add: set_node_def)

lemma set_conn_simps [simp]:
  "pr_run (set_conn i c P) = pr_run P" "pr_conns (set_conn i c P) = (pr_conns P)[i := c]"
  "pr_tcpPoolLock (set_conn i c P) = pr_tcpPoolLock P" "pr_handled (set_conn i c P) = pr_handled P"
  "pr_tcpln (set_conn i c P) = pr_tcpln P" "pr_storageOpen (set_conn i c P) = pr_storageOpen P"
  "pr_dbOpen (set_conn i c P) = pr_dbOpen P" "pr_main (set_conn i c P) = pr_main P"
  by (simp_all add: set_conn_def)

lemma crash_simps [simp]:
  "pr_run (crash P) = pr_run P" "pr_conns (crash P) = pr_conns P" "pr_tcpPoolLock (crash P) = pr_tcpPoolLock P"
  "pr_handled (crash P) = pr_handled P" "pr_tcpln (crash P) = pr_tcpln P" "pr_storageOpen (crash P) = pr_storageOpen P"
  "pr_dbOpen (crash P) = pr_dbOpen P" "pr_main (crash P) = pr_main P" "pr_crashed (crash P)"
  by (simp_all add: crash_def)

lemma stop_simps [simp]:
  "pr_run (proc_WaitToStop P) = (pr_run P)\<lparr>rs_node := WaitToStop (pr_node P)\<rparr>"
  "pr_conns (proc_WaitToStop P) = pr_conns P" "pr_tcpPoolLock (proc_WaitToStop P) = pr_tcpPoolLock P"
  "pr_tcpln (proc_WaitToStop P) = Closed" "\<not> pr_storageOpen (proc_WaitToStop P)" "\<not> pr_dbOpen (proc_WaitToStop P)"
  "pr_net (proc_WaitToStop P) = CloseAllConnInPool (pr_net P)"
  by (simp_all add: proc_WaitToStop_def closePbft_def CloseBlockChain_def Let_def set_node_def)

lemma run_simps [simp]:
  "pr_run (spawn t P) = (pr_run P)\<lparr>rs_spawned := t # rs_spawned (pr_run P)\<rparr>"
  "pr_run (spawn_vote f (d, q, n) P) = (pr_run P)\<lparr>rs_next := Suc (rs_next (pr_run P)),
     rs_spawned := f \<lparr>pc_Digest = d, pc_SeqID = q, pc_SenderNode = NodePtr (rs_next (pr_run P)) n\<rparr> # rs_spawned (pr_run P)\<rparr>"
  by (simp_all add: spawn_def spawn_vote_def)

definition node_moves :: "proc_env \<Rightarrow> run_state \<Rightarrow> run_state \<Rightarrow> bool" where
  \<comment> \<open>at most one step of the node\<close>
  "node_moves X S S' \<longleftrightarrow> S' = S \<or> (\<exists>d. node_step (modules_of (pe_kind X) (pe_env X)) (pe_digest X) d S S')"

lemma node_movesI: "node_step (modules_of (pe_kind X) (pe_env X)) (pe_digest X) d S S' \<Longrightarrow> node_moves X S S'"
  by (auto simp: node_moves_def)

lemma node_moves_refl [simp]: "node_moves X S S"
  by (simp add: node_moves_def)

lemma node_moves_spawn [simp]:
  "node_moves X S (S\<lparr>rs_spawned := TPrePrepare m # rs_spawned S\<rparr>)"
  "node_moves X S (S\<lparr>rs_next := Suc (rs_next S),
     rs_spawned := TPrepare \<lparr>pc_Digest = d, pc_SeqID = q, pc_SenderNode = NodePtr (rs_next S) n\<rparr> # rs_spawned S\<rparr>)"
  "node_moves X S (S\<lparr>rs_next := Suc (rs_next S),
     rs_spawned := TCommit \<lparr>pc_Digest = d, pc_SeqID = q, pc_SenderNode = NodePtr (rs_next S) n\<rparr> # rs_spawned S\<rparr>)"
  by (rule node_movesI, rule node_step.intros)+

lemma node_moves_node [simp]:
  "node_moves X S (S\<lparr>rs_node := handleNewViewMsg now m (rs_node S)\<rparr>)"
  "node_moves X S (S\<lparr>rs_node := WaitToStop (rs_node S)\<rparr>)"
  "node_moves X S (S\<lparr>rs_node := (rs_node S)\<lparr>p_lastCommitTime := now\<rparr>\<rparr>)"
  by (rule node_movesI, rule node_step.new_view node_step.stop node_step.timer)+

lemma node_moves_ops:
  assumes "ops \<in> modules_of (pe_kind X) (pe_env X)"
  shows "handleRequestOldSeq ops rom (rs_node S) = Inr p' \<Longrightarrow> node_moves X S (S\<lparr>rs_node := p'\<rparr>)"
    "handleSendOldSeq ops (pe_digest X) som (rs_node S) = Inr p' \<Longrightarrow> node_moves X S (S\<lparr>rs_node := p'\<rparr>)"
    "rs_proposing S = Suc n \<Longrightarrow> \<not> p_sequenceLock (rs_node S) \<Longrightarrow> Propose ops (pe_digest X) (rs_node S) = Inr p' \<Longrightarrow>
     node_moves X S (S\<lparr>rs_node := p', rs_proposing := n\<rparr>)"
    "(v, t) \<in> set (rs_waiting S) \<Longrightarrow> \<not> task_waits v t (rs_node S) \<Longrightarrow> p_commitBlocked (rs_node S) = None \<Longrightarrow>
     run_task ops (pe_digest X) now v t (rs_node S) = Inr p' \<Longrightarrow> node_moves X S (S\<lparr>rs_node := p',
       rs_waiting := remove1 (v, t) (rs_waiting S), rs_log := rs_log S @ executes v t (rs_node S)\<rparr>)"
  using assms
  by (auto intro: node_movesI node_step.propose node_step.request_old node_step.send_old node_step.run)

lemma node_moves_others:
  "handleViewChangeMsg vc (rs_node S) = Inr p' \<Longrightarrow> node_moves X S (S\<lparr>rs_node := p'\<rparr>)"
  "viewChangePropose (rs_node S) = Inr p' \<Longrightarrow> node_moves X S (S\<lparr>rs_node := p'\<rparr>)"
  "same_protocol (rs_node S) p' \<Longrightarrow> node_moves X S (S\<lparr>rs_node := p'\<rparr>)"
  "p_commitBlocked (rs_node S) = Some m \<Longrightarrow> \<not> p_askForLock (rs_node S) \<Longrightarrow> ask_for_old now m (rs_node S) = Inr p' \<Longrightarrow>
   node_moves X S (S\<lparr>rs_node := p'\<rparr>)"
  "t \<in> set (rs_spawned S) \<Longrightarrow> node_moves X S
     (S\<lparr>rs_spawned := remove1 t (rs_spawned S), rs_waiting := (p_view (rs_node S), t) # rs_waiting S\<rparr>)"
  "may_propose (rs_node S) \<Longrightarrow> node_moves X S (S\<lparr>rs_proposing := Suc (rs_proposing S)\<rparr>)"
  by (auto intro: node_movesI node_step.view_change node_step.view_propose node_step.outside node_step.unblock
      node_step.start node_step.round)

lemma handleMessage_moves:
  assumes "ops \<in> modules_of (pe_kind X) (pe_env X)" and "node_handleMessage X ops now l P = Inr P'"
  shows "node_moves X (pr_run P) (pr_run P')"
  using assms(2)
  by (auto simp: node_handleMessage_def Let_def and_then_Inr node_moves_ops [OF assms(1)] node_moves_others split: if_splits)

lemma work_step_moves:
  assumes "work_step X P P'"
  shows "node_moves X (pr_run P) (pr_run P')"
  using assms
proof cases
  case (run ops v t now p')
  from node_moves_ops(4) [OF run(2-5) run(7)] show ?thesis by (simp add: run(1))
qed (auto simp: node_moves_ops node_moves_others outside_frame intro: handleMessage_moves)

lemma proc_step_moves: "proc_step X P P' \<Longrightarrow> node_moves X (pr_run P) (pr_run P')"
  by (cases rule: proc_step.cases) (auto elim!: net_step.cases timer_step.cases intro: work_step_moves)

lemma node_steps_moves:
  assumes "node_steps (modules_of (pe_kind X) (pe_env X)) (pe_digest X) d S S'" and "node_moves X S' S''"
  shows "\<exists>d. node_steps (modules_of (pe_kind X) (pe_env X)) (pe_digest X) d S S''"
  using assms node_steps.step unfolding node_moves_def by blast

lemma proc_steps_refine:
  assumes "(proc_step X)\<^sup>*\<^sup>* P P'"
  shows "\<exists>d. node_steps (modules_of (pe_kind X) (pe_env X)) (pe_digest X) d (pr_run P) (pr_run P')"
  using assms
proof (induction rule: rtranclp_induct)
  case base
  show ?case using node_steps.refl by blast
next
  case (step P' P'')
  then show ?case using node_steps_moves proc_step_moves by blast
qed

section \<open>The stop signal is never taken back\<close>

lemma same_protocol_stop:
  assumes "same_protocol p p'"
  shows "p_stopSignal p' = p_stopSignal p"
  by (subst assms [unfolded same_protocol_def], simp)

lemma sending_stop [simp]:
  "p_stopSignal (TcpDial m ip p) = p_stopSignal p" "p_stopSignal (broadcast_neighbors m p) = p_stopSignal p"
  "p_stopSignal (broadcast_and_self m p) = p_stopSignal p" "p_stopSignal (set2DMap b d n p) = p_stopSignal p"
  "p_stopSignal (pool_request dg pp p) = p_stopSignal p" "p_stopSignal (record_old dg q i r p) = p_stopSignal p"
  by (simp_all add: TcpDial_def broadcast_neighbors_def broadcast_and_self_def set2DMap_def pool_request_def record_old_def)

lemma end_round_stop: "end_round now p = Inr p' \<Longrightarrow> p_stopSignal p' = p_stopSignal p"
  by (auto simp: end_round_def Let_def split: if_splits)

lemma ask_for_old_stop: "ask_for_old now m p = Inr p' \<Longrightarrow> p_stopSignal p' = p_stopSignal p"
  by (auto simp: ask_for_old_def Let_def dest!: end_round_stop)

context consensus_module
begin

lemmas frame_stop = propose_frame [THEN same_protocol_stop] preprepare_frame [THEN same_protocol_stop]
  prepare_frame [THEN same_protocol_stop] commit_frame [THEN same_protocol_stop]
  oldseq_frame [THEN same_protocol_stop] sequential_frame [THEN same_protocol_stop]

lemma handler_stop:
  "handlePrePrepare ops dg v pp p = Inr p' \<Longrightarrow> p_stopSignal p' = p_stopSignal p"
  "handlePrepare ops v m p = Inr p' \<Longrightarrow> p_stopSignal p' = p_stopSignal p"
  "Propose ops dg p = Inr p' \<Longrightarrow> p_stopSignal p' = p_stopSignal p"
  "handleRequestOldSeq ops rom p = Inr p' \<Longrightarrow> p_stopSignal p' = p_stopSignal p"
  "resume_prepare ops dg p = Inr p' \<Longrightarrow> p_stopSignal p' = p_stopSignal p"
  by (auto simp: handlePrePrepare_def handlePrepare_def Propose_def handleRequestOldSeq_def resume_prepare_def Let_def
      and_then_Inr split: if_splits option.splits dest!: frame_stop)

lemma handleCommit_stop: "handleCommit ops now v m p = Inr p' \<Longrightarrow> p_stopSignal p' = p_stopSignal p"
  by (auto simp: handleCommit_def Let_def and_then_Inr split: if_splits dest!: ask_for_old_stop end_round_stop commit_frame [THEN same_protocol_stop])

lemma handleSendOldSeq_stop:
  assumes "handleSendOldSeq ops dg som p = Inr p'"
  shows "p_stopSignal p' = p_stopSignal p"
proof -
  from assms obtain q1 q2 q3 where q1: "HandleforSequentialRequest ops som p = Inr q1"
    and q2: "go_foldi (\<lambda>idx r p. Inr (record_old dg (so_SeqStartHeight som) idx r p)) 0 (so_OldRequest som) q1 = Inr q2"
    and q3: "resume_prepare ops dg (q2\<lparr>p_sequenceID := so_SeqEndHeight som + 1\<rparr>) = Inr q3" and u: "unlock_ask q3 = Inr p'"
    by (auto simp: handleSendOldSeq_def and_then_Inr)
  have "p_stopSignal q1 = p_stopSignal p" using sequential_frame [OF q1, THEN same_protocol_stop] by simp
  moreover have "p_stopSignal q2 = p_stopSignal q1"
    by (rule go_foldi_inv [OF q2, where P = "\<lambda>q. p_stopSignal q = p_stopSignal q1"]) auto
  moreover have "p_stopSignal q3 = p_stopSignal q2" using handler_stop(5) [OF q3] by simp
  moreover have "p_stopSignal p' = p_stopSignal q3" using u by (auto simp: unlock_ask_def split: if_splits)
  ultimately show ?thesis by simp
qed

lemma run_task_stop: "run_task ops dg now v t p = Inr p' \<Longrightarrow> p_stopSignal p' = p_stopSignal p"
  by (cases t) (auto dest: handler_stop(1,2) handleCommit_stop)

end

context consensus_variant
begin

lemma node_step_stop:
  assumes "node_step opss dg d S S'" and "p_stopSignal (rs_node S)"
  shows "p_stopSignal (rs_node S')"
  using assms
proof cases
  case (new_view now m)
  then show ?thesis using assms(2) by (auto simp: handleNewViewMsg_def Let_def)
qed (use assms(2) module [THEN consensus_module.run_task_stop] module [THEN consensus_module.handler_stop(3)]
    module [THEN consensus_module.handler_stop(4)] module [THEN consensus_module.handleSendOldSeq_stop]
    same_protocol_stop ask_for_old_stop in \<open>auto simp: WaitToStop_def viewChangePropose_def handleViewChangeMsg_def
      Let_def and_then_Inr split: if_splits\<close>)

end

lemma proc_step_stop:
  assumes "proc_step X P P'" and "p_stopSignal (pr_node P)"
  shows "p_stopSignal (pr_node P')"
  using proc_step_moves [OF assms(1)] assms(2) node_runs.node_step_stop unfolding node_moves_def by metis

section \<open>Stopping is final\<close>

lemma conn_at_simps [simp]:
  "conn_at (set_conn i c P) j c' \<longleftrightarrow> (if j = i then i < length (pr_conns P) \<and> c' = c else conn_at P j c')"
  by (auto simp: conn_at_def)

lemma conn_at_cong: "pr_conns P' = pr_conns P \<Longrightarrow> conn_at P' = conn_at P"
  by (simp add: conn_at_def fun_eq_iff)

lemma conn_at_unique: "conn_at P i c \<Longrightarrow> conn_at P i c' \<Longrightarrow> c = c'"
  by (simp add: conn_at_def)

lemma is_stop_dispatch:
  assumes "is_stop l"
  shows "node_handleMessage X ops now l P = Inr (proc_WaitToStop P)"
  using assms by (auto simp: is_stop_def node_handleMessage_def Let_def to_bytes_def split: sum.splits prod.splits)

lemma handleMessage_frame:
  assumes "node_handleMessage X ops now l P = Inr P'" and "\<not> is_stop l"
  shows "pr_conns P' = pr_conns P"
  using assms
  by (auto simp: is_stop_def node_handleMessage_def Let_def and_then_Inr spawn_def spawn_vote_def split: if_splits prod.splits)

definition holds_lock :: "'c node_proc \<Rightarrow> nat \<Rightarrow> bool" where
  "holds_lock P i \<longleftrightarrow> (\<exists>l. conn_at P i (Handling l)) \<or> conn_at P i Stopping"

definition shut :: "'c node_proc \<Rightarrow> bool" where
  "shut P \<longleftrightarrow> p_stopSignal (pr_node P) \<and> pr_tcpln P = Closed \<and> \<not> pr_storageOpen P \<and> \<not> pr_dbOpen P"

definition proc_ok :: "'c node_proc \<Rightarrow> bool" where
  "proc_ok P \<longleftrightarrow> (\<forall>i. holds_lock P i \<longrightarrow> pr_tcpPoolLock P = Some i) \<and> (\<forall>i. conn_at P i Stopping \<longrightarrow> shut P)"

lemma net_step_ok:
  assumes "net_step P P'" and "proc_ok P"
  shows "proc_ok P'"
  using assms
  by (cases rule: net_step.cases)
    (auto simp: proc_ok_def holds_lock_def shut_def conn_at_def nth_append nth_list_update less_Suc_eq split: if_splits)

lemma timer_step_frame:
  assumes "timer_step X P P'"
  shows "pr_conns P' = pr_conns P \<and> pr_tcpPoolLock P' = pr_tcpPoolLock P \<and> pr_handled P' = pr_handled P \<and>
    pr_tcpln P' = pr_tcpln P \<and> pr_storageOpen P' = pr_storageOpen P \<and> pr_dbOpen P' = pr_dbOpen P"
  using assms by (cases rule: timer_step.cases) auto

text \<open>A step of work either handles a message, and then its connection held the lock, or leaves the connections alone.\<close>

lemma work_step_frame:
  assumes "work_step X P P'"
  shows "(\<exists>i l. conn_at P i (Handling l) \<and> pr_handled P' = pr_handled P @ [l] \<and>
       (if is_stop l then pr_conns P' = (pr_conns P)[i := Stopping] \<and> pr_tcpPoolLock P' = pr_tcpPoolLock P \<and> shut P'
        else pr_conns P' = (pr_conns P)[i := Reading] \<and> pr_tcpPoolLock P' = None)) \<or>
    (pr_conns P' = pr_conns P \<and> pr_tcpPoolLock P' = pr_tcpPoolLock P \<and> pr_handled P' = pr_handled P \<and>
     pr_tcpln P' = pr_tcpln P \<and> pr_storageOpen P' = pr_storageOpen P \<and> pr_dbOpen P' = pr_dbOpen P)"
  using assms
proof cases
  case (handle ops i l now P1)
  with handleMessage_frame [OF handle(5,4)] show ?thesis by auto
next
  case (handle_stop ops i l now P1)
  then have "P1 = proc_WaitToStop P" using is_stop_dispatch by (metis sum.inject(2))
  with handle_stop show ?thesis by (auto simp: shut_def WaitToStop_def)
qed auto

lemma shut_step:
  assumes "proc_step X P P'" and "proc_ok P" and "conn_at P i Stopping"
  shows "shut P' \<and> conn_at P' i Stopping \<and> pr_tcpPoolLock P' = Some i \<and> pr_handled P' = pr_handled P"
proof -
  have shut: "shut P" and lock: "pr_tcpPoolLock P = Some i" using assms(2,3) by (auto simp: proc_ok_def holds_lock_def)
  have only: False if "conn_at P j (Handling l)" for j l
  proof -
    have "j = i" using that lock assms(2) by (auto simp: proc_ok_def holds_lock_def)
    with that conn_at_unique [OF assms(3)] show False by blast
  qed
  have sig: "p_stopSignal (pr_node P')" using proc_step_stop [OF assms(1)] shut by (simp add: shut_def)
  from assms(1) show ?thesis
  proof cases
    case net
    from net(2) show ?thesis using shut lock assms(3) sig
      by (cases rule: net_step.cases) (auto simp: shut_def conn_at_def nth_append nth_list_update)
  next
    case timer
    from timer_step_frame [OF timer(2)] show ?thesis using shut lock assms(3) sig by (auto simp: shut_def conn_at_def)
  next
    case work
    from work_step_frame [OF work(2)] only show ?thesis using shut lock assms(3) sig by (auto simp: shut_def conn_at_def)
  qed
qed

lemma proc_step_ok:
  assumes "proc_step X P P'" and "proc_ok P"
  shows "proc_ok P'"
  using assms(1)
proof cases
  case net
  then show ?thesis using net_step_ok assms(2) by blast
next
  case timer
  note f = timer_step_frame [OF timer(2)]
  have c: "conn_at P' = conn_at P" using f conn_at_cong by blast
  have "shut P'" if "conn_at P i Stopping" for i using shut_step [OF assms that] by simp
  then show ?thesis using assms(2) f unfolding proc_ok_def holds_lock_def c by auto
next
  case work
  from work_step_frame [OF work(2)] show ?thesis
  proof (elim disjE exE conjE)
    fix i l
    assume i: "conn_at P i (Handling l)" and c: "if is_stop l then pr_conns P' = (pr_conns P)[i := Stopping] \<and>
      pr_tcpPoolLock P' = pr_tcpPoolLock P \<and> shut P' else pr_conns P' = (pr_conns P)[i := Reading] \<and> pr_tcpPoolLock P' = None"
    have lock: "pr_tcpPoolLock P = Some i" using i assms(2) by (auto simp: proc_ok_def holds_lock_def)
    then have "j = i" if "holds_lock P j" for j using that assms(2) by (auto simp: proc_ok_def)
    then show ?thesis using c i lock
      by (fastforce simp: proc_ok_def holds_lock_def conn_at_def nth_list_update split: if_splits)
  next
    assume f: "pr_conns P' = pr_conns P" "pr_tcpPoolLock P' = pr_tcpPoolLock P"
    have c: "conn_at P' = conn_at P" using f(1) by (rule conn_at_cong)
    have "shut P'" if "conn_at P i Stopping" for i using shut_step [OF assms that] by simp
    then show ?thesis using assms(2) f unfolding proc_ok_def holds_lock_def c by auto
  qed
qed

lemma proc_steps_ok: "(proc_step X)\<^sup>*\<^sup>* P P' \<Longrightarrow> proc_ok P \<Longrightarrow> proc_ok P'"
  by (induction rule: rtranclp_induct) (auto intro: proc_step_ok)

lemma start_process_ok [simp]: "proc_ok (start_process p net)"
  by (simp add: start_process_def proc_ok_def holds_lock_def conn_at_def)

lemma shut_steps:
  assumes "(proc_step X)\<^sup>*\<^sup>* P P'" and "proc_ok P" and "conn_at P i Stopping"
  shows "shut P' \<and> conn_at P' i Stopping \<and> pr_tcpPoolLock P' = Some i \<and> pr_handled P' = pr_handled P"
  using assms
proof (induction rule: rtranclp_induct)
  case base
  then show ?case by (auto simp: proc_ok_def holds_lock_def)
next
  case (step P' P'')
  then have "conn_at P' i Stopping" "pr_handled P' = pr_handled P" "proc_ok P'" using proc_steps_ok by blast+
  with shut_step [OF step.hyps(2)] show ?case by metis
qed

lemma can_return:
  assumes "alive P" and "conn_at P i Stopping"
  shows "\<exists>P'. (proc_step X)\<^sup>*\<^sup>* P P' \<and> pr_main P' = Returned \<and> pr_run P' = pr_run P"
proof (cases "pr_main P")
  case Selecting
  have "proc_step X P (P\<lparr>pr_main := Returned\<rparr>)"
    by (rule proc_step.timer [OF assms(1)]) (rule timer_step.stop [OF Selecting assms(2)])
  then show ?thesis by (intro exI [of _ "P\<lparr>pr_main := Returned\<rparr>"]) auto
next
  case Sleeping
  let ?Q = "P\<lparr>pr_main := Selecting\<rparr>"
  have "proc_step X P ?Q" by (rule proc_step.timer [OF assms(1)]) (rule timer_step.wake [OF Sleeping])
  moreover have "proc_step X ?Q (?Q\<lparr>pr_main := Returned\<rparr>)"
    using assms by (intro proc_step.timer timer_step.stop [where i = i]) (auto simp: alive_def conn_at_def)
  ultimately have "(proc_step X)\<^sup>*\<^sup>* P (?Q\<lparr>pr_main := Returned\<rparr>)" by (meson converse_rtranclp_into_rtranclp rtranclp.rtrancl_refl)
  then show ?thesis by (intro exI [of _ "?Q\<lparr>pr_main := Returned\<rparr>"]) simp
qed (use assms(1) in \<open>simp add: alive_def\<close>)

text \<open>At most one stop message is handled, as the last message.\<close>

definition stop_last :: "'c node_proc \<Rightarrow> bool" where
  "stop_last P \<longleftrightarrow> (\<forall>l \<in> set (butlast (pr_handled P)). \<not> is_stop l) \<and>
     (pr_handled P \<noteq> [] \<and> is_stop (last (pr_handled P)) \<longrightarrow> (\<exists>i. conn_at P i Stopping))"

lemma stop_last_step:
  assumes "proc_step X P P'" and "proc_ok P" and "stop_last P"
  shows "stop_last P'"
proof (cases "\<exists>i. conn_at P i Stopping")
  case True
  then obtain i where i: "conn_at P i Stopping" ..
  from shut_step [OF assms(1,2) i] assms(3) show ?thesis by (auto simp: stop_last_def)
next
  case False
  then have none: "\<forall>l \<in> set (pr_handled P). \<not> is_stop l"
    using assms(3) by (cases "pr_handled P" rule: rev_cases) (auto simp: stop_last_def)
  from assms(1) show ?thesis
  proof cases
    case net
    then have "pr_handled P' = pr_handled P" by (auto elim!: net_step.cases)
    with none show ?thesis by (auto simp: stop_last_def in_set_butlastD)
  next
    case timer
    from timer_step_frame [OF timer(2)] none show ?thesis by (auto simp: stop_last_def in_set_butlastD)
  next
    case work
    from work_step_frame [OF work(2)] show ?thesis
    proof (elim disjE exE conjE)
      fix i l
      assume "conn_at P i (Handling l)" and h: "pr_handled P' = pr_handled P @ [l]"
        and c: "if is_stop l then pr_conns P' = (pr_conns P)[i := Stopping] \<and> pr_tcpPoolLock P' = pr_tcpPoolLock P \<and> shut P'
          else pr_conns P' = (pr_conns P)[i := Reading] \<and> pr_tcpPoolLock P' = None"
      then have "conn_at P' i Stopping" if "is_stop l" using that by (simp add: conn_at_def)
      then show ?thesis using none h by (auto simp: stop_last_def)
    qed (use none in \<open>auto simp: stop_last_def in_set_butlastD\<close>)
  qed
qed

lemma reachable_ok:
  assumes "(proc_step X)\<^sup>*\<^sup>* (start_process p net) P"
  shows "proc_ok P \<and> stop_last P"
  using assms
proof (induction rule: rtranclp_induct)
  case base
  have "pr_handled (start_process p net) = []" by (simp add: start_process_def)
  then show ?case by (simp add: stop_last_def)
next
  case (step P P')
  then show ?case using proc_step_ok stop_last_step by blast
qed

text \<open>
  A goroutine that still waits to execute a block when the databases are closed brings the process down.
\<close>

lemma closed_database_panics:
  assumes "(proc_step X)\<^sup>*\<^sup>* (start_process p net) P" and "alive P" and "conn_at P i Stopping"
    and "(v, t) \<in> set (rs_waiting (pr_run P))" and "\<not> task_waits v t (pr_node P)"
    and "p_commitBlocked (pr_node P) = None" and "executes v t (pr_node P) \<noteq> []"
    and "ops \<in> modules_of (pe_kind X) (pe_env X)"
  shows "proc_step X P (crash P)"
proof -
  have "shut P" using reachable_ok [OF assms(1)] assms(3) by (auto simp: proc_ok_def)
  then show ?thesis using assms(2-8)
    by (intro proc_step.work work_step.run_fails [where v = v and t = t]) (auto simp: shut_def)
qed

text \<open>The bytes the supervisor sends to stop the nodes end a process: here with any content after the prefix.\<close>

lemma modules_nonempty: "\<exists>ops. ops \<in> modules_of kind E"
proof -
  have "\<exists>ops. ops \<in> relay_modules E" "\<exists>ops. ops \<in> broker_modules E" "\<exists>ops. ops \<in> clpa_modules E" "\<exists>ops. ops \<in> clpa_broker_modules E"
    unfolding relay_modules_def broker_modules_def clpa_modules_def clpa_broker_modules_def by blast+
  then show ?thesis by (simp add: modules_of_def)
qed

lemma is_stop_frame: "is_stop (frame ''stop'' c)"
proof -
  have "SplitMessage (frame ''stop'' c) = Inr (to_bytes ''stop'', c)"
    by (rule frame_roundtrip(2)) (simp add: message_types_def)
  then show ?thesis by (simp add: is_stop_def)
qed

lemma stop_message_ends:
  assumes "alive P" and "conn_at P i Reading" and "pr_tcpPoolLock P = None" and "\<not> p_stopSignal (pr_node P)"
    and "MergeMessage (to_bytes ''stop'') c = Inr m" and "proc_ok P"
  shows "\<exists>P'. (proc_step X)\<^sup>*\<^sup>* P P' \<and> pr_main P' = Returned \<and> pr_handled P' = pr_handled P @ [m @ [10]] \<and> shut P'"
proof -
  have "frame ''stop'' c = m" using assms(5) frame_roundtrip(1) [of "''stop''" c] by (simp add: message_types_def)
  then have line: "m @ [10] = frame ''stop'' (c @ [10])" by (auto simp: frame_def)
  let ?l = "m @ [10]"
  have stop: "is_stop ?l" unfolding line by (rule is_stop_frame)
  obtain ops where ops: "ops \<in> modules_of (pe_kind X) (pe_env X)" using modules_nonempty by blast
  let ?P1 = "set_conn i (HasLine ?l) P"
  let ?P2 = "set_conn i (Handling ?l) (?P1\<lparr>pr_tcpPoolLock := Some i\<rparr>)"
  let ?P3 = "set_conn i Stopping ((proc_WaitToStop ?P2)\<lparr>pr_handled := pr_handled ?P2 @ [?l]\<rparr>)"
  have a: "alive ?P1" "alive ?P2" "alive ?P3"
    using assms(1) by (simp_all add: alive_def set_conn_def proc_WaitToStop_def closePbft_def CloseBlockChain_def set_node_def)
  have i: "i < length (pr_conns P)" using assms(2) by (simp add: conn_at_def)
  have s1: "proc_step X P ?P1"
    using proc_step.net [OF assms(1) net_step.read [OF assms(2)]] assms(4) by (simp only: if_False)
  have s2: "proc_step X ?P1 ?P2"
    by (rule proc_step.net [OF a(1)], rule net_step.lock) (use i assms(3) in simp_all)
  have s3: "proc_step X ?P2 ?P3"
    by (rule proc_step.work [OF a(2)], rule work_step.handle_stop [OF ops _ stop is_stop_dispatch [OF stop]]) (use i in simp)
  have s: "(proc_step X)\<^sup>*\<^sup>* P ?P3" using s1 s2 s3 by (meson rtranclp.rtrancl_refl rtranclp.rtrancl_into_rtrancl)
  have c3: "conn_at ?P3 i Stopping" using i by simp
  obtain P' where P': "(proc_step X)\<^sup>*\<^sup>* ?P3 P'" "pr_main P' = Returned" using can_return [OF a(3) c3] by blast
  have "pr_handled P' = pr_handled P @ [?l] \<and> shut P'"
    using shut_steps [OF P'(1) proc_steps_ok [OF s assms(6)] c3] by simp
  then show ?thesis using P' s by (meson rtranclp_trans)
qed

section \<open>Theorems\<close>



section \<open>Witnesses\<close>

definition demo_proc_env :: proc_env where
  "demo_proc_env = \<lparr>pe_json = \<lparr>un_PrePrepare = (\<lambda>_. None), un_Prepare = (\<lambda>_. None), un_Commit = (\<lambda>_. None),
       un_ViewChange = (\<lambda>_. None), un_NewView = (\<lambda>_. None), un_RequestOld = (\<lambda>_. None), un_SendOld = (\<lambda>_. None),
       un_Outside = (\<lambda>_ _. None)\<rparr>,
     pe_kind = ''Relay'', pe_env = demo_env, pe_digest = (\<lambda>_. [9]), pe_verify = (\<lambda>_ _ _. None),
     pe_PbftViewChangeTimeOut = 20000\<rparr>"

definition demo_stop :: bytes where
  "demo_stop = frame ''stop'' [126, 10]"

lemma demo_is_stop: "is_stop demo_stop"
  unfolding demo_stop_def by (rule is_stop_frame)

text \<open>The node listens, accepts a connection, and handles a stop message on it.\<close>

lemma demo_process:
  obtains P where "(proc_step demo_proc_env)\<^sup>*\<^sup>* (start_process (demo_node (demo_root_chain []) 0) demo_net) P"
    and "pr_handled P = [demo_stop]" and "alive P"
proof -
  let ?P0 = "start_process (demo_node (demo_root_chain []) 0) demo_net"
  let ?P1 = "?P0\<lparr>pr_tcpln := Listening, pr_accepting := True\<rparr>"
  let ?P2 = "?P1\<lparr>pr_conns := pr_conns ?P1 @ [Reading]\<rparr>"
  let ?P3 = "set_conn 0 (if p_stopSignal (pr_node ?P2) then ConnDone else HasLine demo_stop) ?P2"
  let ?P4 = "set_conn 0 (Handling demo_stop) (?P3\<lparr>pr_tcpPoolLock := Some 0\<rparr>)"
  let ?P5 = "set_conn 0 Stopping ((proc_WaitToStop ?P4)\<lparr>pr_handled := pr_handled ?P4 @ [demo_stop]\<rparr>)"
  have ops: "demo_ops \<in> modules_of (pe_kind demo_proc_env) (pe_env demo_proc_env)"
    by (auto simp: demo_proc_env_def modules_of_def relay_modules_def)
  note s = start_process_def demo_node_def alive_def fresh_run_def
  have s1: "proc_step demo_proc_env ?P0 ?P1" by (rule proc_step.net, simp add: s, rule net_step.listen, simp add: s)
  have s2: "proc_step demo_proc_env ?P1 ?P2" by (rule proc_step.net, simp add: s, rule net_step.accept) (simp_all add: s)
  have s3: "proc_step demo_proc_env ?P2 ?P3"
    by (rule proc_step.net, simp add: s, rule net_step.read) (simp add: s conn_at_def)
  have s4: "proc_step demo_proc_env ?P3 ?P4"
    by (rule proc_step.net, simp add: s set_conn_def, rule net_step.lock) (simp_all add: s conn_at_def)
  have s5: "proc_step demo_proc_env ?P4 ?P5"
    by (rule proc_step.work, simp add: s set_conn_def,
        rule work_step.handle_stop [OF ops _ demo_is_stop is_stop_dispatch [OF demo_is_stop]]) (simp add: s conn_at_def)
  have "(proc_step demo_proc_env)\<^sup>*\<^sup>* ?P0 ?P5"
    using s1 s2 s3 s4 s5 by (meson rtranclp.rtrancl_refl rtranclp.rtrancl_into_rtrancl)
  moreover have "pr_handled ?P5 = [demo_stop]" "alive ?P5"
    by (simp_all add: s set_conn_def proc_WaitToStop_def closePbft_def CloseBlockChain_def set_node_def)
  ultimately show thesis by (rule that)
qed



end
