(* ===== verification/Spec2Isabelle.thy ===== *)
theory Spec2Isabelle
  imports Measure_Files Vrf_Account Codecs Node_Process
begin

text \<open>
  BlockEmulator with Game2Earn: a verification development of the sharded blockchain emulator under
  \<open>src/\<close> (Go).

  \<^bold>\<open>The program.\<close> A supervisor reads transactions from a data set and injects them into shards. The
  nodes of a shard run PBFT; the leader packs transactions from its pool into blocks, and a committed
  block is executed against the account state, places bets into the Game2Earn book and settles the
  bets of the height. Transactions between shards are relayed with a proof (Relay), or split by a broker
  into two halves (Broker). With CLPA the supervisor collects the graph of transactions, partitions it,
  and announces which accounts move; the shards then exchange accounts and pending transactions and
  agree on the migration by a PBFT request. CLPA_Broker combines the last two.

  \<^bold>\<open>Conventions.\<close> A Go function is a HOL function on explicit state; structs are records, \<open>uint64\<close> is
  \<open>64 word\<close>, \<open>int\<close> and \<open>big.Int\<close> are \<open>int\<close> with truncating division. A panic is \<open>Inl\<close> of the sum type \<open>go\<close>, an
  error value is a result. Messages are values appended to an output list; goroutines that send are
  these outputs. Iteration over a Go map takes its order as an argument, and the theorems hold for every
  order. Parameters stand for code that is not under \<open>src/\<close>: gob and JSON, SHA-256, the roots
  and proofs of the go-ethereum trie, the bloom filter, \<open>float64\<close> (\<open>float_ops\<close>), the parser of \<open>big.Float\<close>; what
  is assumed of them are named hypotheses, and a witness instantiates them. The record \<open>go_env\<close> holds
  configuration and hash functions. Loops are structural recursions or folds: no fuel is used, and
  functions terminate by construction; loops that wait for messages are step relations. The three
  loops that may run forever (\<open>pay\<close>, \<open>pay_read\<close>, \<open>handle_full\<close> of the network layer) have the value None when they do.

  \<^bold>\<open>Theories.\<close>

  \<^item> \<open>Go_Prelude\<close>: the \<open>go\<close> type with its sequencing, loops that may panic, indexing, conversions, maps with
    defaults, and the lemmas about them the components share.
  \<^item> \<open>Core_Types\<close>: accounts, transactions, blocks, configuration (\<open>core/account.go\<close>, \<open>transaction.go\<close>,
    \<open>block.go\<close>, \<open>params/static_config.go\<close>) and the placement of addresses (\<open>utils/utils_partition.go\<close>).
  \<^item> \<open>Tx_Pool\<close>: the pool (\<open>core/txpool.go\<close>), with a queue interface as a locale. Packing is in order, loses
    nothing and drains the queue; transferring an address partitions it.
  \<^item> \<open>G2E_Book\<close>: the betting book (\<open>chain/g2e_book.go\<close>): it refines the multiset of bets; the winning pair
    is agreed.
  \<^item> \<open>Block_Store\<close>: the block database and the queries on it (\<open>storage/storage.go\<close>, \<open>query/\<close>), on decoded blocks.
  \<^item> \<open>Codecs\<close>: the encodings of headers, blocks, transactions, accounts and transfer messages over gob
    (\<open>core/\<close>, \<open>message/message_CLPA.go\<close>), and the block database on bytes, which implements that of \<open>Block_Store\<close>.
  \<^item> \<open>Block_Chain\<close>: execution and settlement (\<open>GetUpdateStatusTrie\<close> of \<open>chain/blockchain.go\<close>): conservation of
    money, solvency, determinism, exact settlement.
  \<^item> \<open>Chain_Blocks\<close>: producing and accepting blocks, migrating accounts (the rest of \<open>chain/blockchain.go\<close>):
    leader and follower agree, chains are linked, migrated accounts are read back; queries of accounts
    (\<open>query/query_accountstate.go\<close>) read the state of the current block.
  \<^item> \<open>Merkle_Proof\<close>: \<open>chain/merkleproof.go\<close>: generated proofs verify.
  \<^item> \<open>Messages\<close>: framing and message types (\<open>message/\<close>, \<open>shard/nodes.go\<close>).
  \<^item> \<open>Pbft_Node\<close>, \<open>Pbft_Run\<close>: the PBFT node, its handlers, view change and catching up (\<open>pbft.go\<close>,
    \<open>messageHandle.go\<close>, \<open>view_change.go\<close>), over a record of the functions a variant supplies, and the runs of
    a node as a step relation in which handlers interleave and wait.
  \<^item> \<open>Node_Process\<close>: the process of a node: connections, the lock under which bytes are dispatched to the
    handlers, the timers and the \<open>select\<close> of \<open>Propose\<close>, stopping (\<open>TcpListen\<close>, \<open>handleMessage\<close>, \<open>WaitToStop\<close>). It
    refines the runs of \<open>Pbft_Run\<close>, and stopping is final.
  \<^item> \<open>Relay_Module\<close>, \<open>Broker_Module\<close>, \<open>Clpa_Module\<close>, \<open>Clpa_Broker\<close>: the four variants (\<open>pbftInside_*\<close>, \<open>pbftOutside_*\<close>,
    \<open>accountTransfer*\<close>, \<open>toolFuncs.go\<close>).
  \<^item> \<open>Consensus_Props\<close>, \<open>Consensus_Runs\<close>, \<open>Clpa_Props\<close>: properties of the shards: agreement of followers,
    execution at most once with a quorum, sequence numbers, quorum intersection, and the arrival of
    migrated accounts. They also hold the lemmas that show where the protocol deviates from its
    intention (\<open>single_sender_quorum\<close>, \<open>new_view_replay\<close>, \<open>catch_up_skips_block\<close>, \<open>commit_without_block\<close>,
    \<open>pending_map_lost\<close>).
  \<^item> \<open>Clpa_Graph\<close>, \<open>Clpa_Partition\<close>: the transaction graph and the label propagation algorithm (\<open>partition/\<close>):
    well-formedness, the incremental edge counts equal the full count, the algorithm returns and
    reports exactly its moves.
  \<^item> \<open>Committee\<close>: the relay committee and the stop signal (\<open>committee_relay.go\<close>,
    \<open>supervisorStopModule.go\<close>); the locale \<open>tx_router\<close> states what a committee needs of its routing, and gives
    that a batch reaches the right leaders; each committee interprets it.
  \<^item> \<open>Committee_Clpa\<close>: the CLPA committee as a step relation (\<open>committee_clpa.go\<close>): routing, graph and
    announced maps agree in every reachable state, and an epoch completes.
  \<^item> \<open>Committee_Broker\<close>: brokers and the two broker committees (\<open>broker/broker.go\<close>, \<open>committee_broker.go\<close>,
    \<open>committee_clpa_broker.go\<close>): a cross-shard transfer becomes two halves that together move its amount.
  \<^item> \<open>Measures\<close>: the nine measure modules (\<open>supervisor/measure/\<close>); the locale \<open>epoch_measure\<close> states that a module
    is a fold per epoch, and each module with per-epoch figures interprets it. The counts are exact,
    the window of an epoch and the time stamps of a transaction are those of the reports.
  \<^item> \<open>Supervisor\<close>: the supervisor (\<open>supervisor/supervisor.go\<close>) over its committee and its measures: it stops
    the nodes exactly when enough empty blocks were reported in a row.
  \<^item> \<open>Network\<close>: the pool of connections, the rate limits and the loops that read messages (\<open>networks/\<close>,
    \<open>handleClientRequest\<close>): messages arrive in order and whole; waiting for bandwidth ends unless it is zero.
  \<^item> \<open>Launch\<close>: configuration, start scripts and the main program (\<open>params/\<close>, \<open>build/\<close>, \<open>main.go\<close>): when a node starts,
    what the scripts contain, and that the cluster they describe starts.
  \<^item> \<open>Node_Metrics\<close>: the rows of metrics a leader writes and the CSV files (\<open>toolFuncs.go\<close>, \<open>measureTool.go\<close>): a row
    agrees with the report to the supervisor.
  \<^item> \<open>Measure_Files\<close>: the tables of the measures and the end of the supervisor (\<open>writeToCSV\<close> in
    \<open>supervisor/measure/\<close>, \<open>CloseSupervisor\<close>): every measure writes its complete table.
  \<^item> \<open>Vrf_Account\<close>: accounts of nodes and their random values (\<open>shard/vrf/\<close>): honest values verify, and what the
    checks leave open.
  \<^item> this theory: the property that joins shards and committee.

  \<^bold>\<open>Bounds.\<close> \<open>shards_ok\<close> asks for at least one and fewer than \<open>2 ^ 63\<close> shards, so that \<open>int\<close> and \<open>uint64\<close> agree on
  shard numbers; \<open>separate\<close> that leaders have different addresses; counters of Go type \<open>int\<close> are unbounded.

  \<^bold>\<open>Not modelled.\<close> The sockets themselves, the length of sleeps, logging (\<open>pbft_log\<close>, \<open>supervisor_log\<close>) and the
  functions that only print; the gob, JSON and CSV encodings and \<open>pflag\<close>, which are libraries: they are parameters in
  \<open>Codecs\<close> and \<open>Node_Process\<close>, and elsewhere files, flags and messages enter the model decoded. \<open>tcpLock\<close> and the pool
  and partition locks make handlers atomic in the model; a broker committee handles a message between two
  steps of its control loop. Functions that two files hold twice (the broker functions of the CLPA committee with
  brokers, the handlers of the CLPA variants, the broker versions of the measures) have a definition each, and the
  copies are proved equal. The records of the relay and broker measures are shared.
\<close>

section \<open>From the shard to the committee and on\<close>

lemma confirms_hit: "tx \<in> set txs \<Longrightarrow> pool (tx_TxHash tx) = Some c \<Longrightarrow> c \<in> set (confirms pool txs)"
  by (force simp: confirms_def List.map_filter_def image_iff)

lemma halves2_hit:
  assumes "r \<in> set raws"
  obtains t where "t \<in> set (halves2 E tm b raws)" and "tx_Sender t = b" and "tx_Recipient t = tx_Recipient (rm_Tx r)" and "tx_Value t = tx_Value (rm_Tx r)"
proof -
  obtain i where i: "i < length raws" "raws ! i = r" using assms by (auto simp: in_set_conv_nth)
  then have "(i, r) \<in> set (enumerate 0 raws)" by (auto simp: in_set_enumerate_eq)
  then have "make_tx2 E (tm i) \<lparr>t2_RawMeg = r, t2_Broker = b\<rparr> \<in> set (halves2 E tm b raws)" by (force simp: halves2_def)
  then show ?thesis by (rule that) simp_all
qed

text \<open>
  C12. A brokered transfer through the shard. The leader of the sender's shard commits a block with the
  first half of a brokered transfer for which the broker committee waits. The report it sends to the
  supervisor makes the committee send the second half to the leader of the recipient's shard: the
  broker pays the recipient the amount of the original transfer.
\<close>

theorem committed_half_is_paid_on:
  assumes "shards_ok E" and "separate E (bcm_IpNodeTable bcm)" and "0 < InjectSpeed E" and "broker_inv dg (bcm_part bcm)"
    and "first_broker (bcm_part bcm) = Inr br" and "\<not> is_panic (Addr2Shard64 E br)"
    and "\<forall>m \<in> ran (bp_Confirm1Pool (bcm_part bcm)). \<not> is_panic (Addr2Shard64 E (tx_Recipient (rm_Tx (m1_RawMeg m))))"
    and "half = make_tx1 E t \<lparr>t1_RawMeg = raw_of br tx, t1_Broker = br\<rparr>" and "br \<noteq> tx_Recipient tx"
    and "bp_Confirm1Pool (bcm_part bcm) (tx_TxHash half) = Some \<lparr>m1_Tx1Hash = tx_TxHash half, m1_RawMeg = raw_of br tx\<rparr>"
    and "half \<in> set (b_Body b)"
    and "Addr2Shard64 E (tx_Recipient tx) = Inr r"
  shows "\<exists>bim bcm' o' tx2. (ip_of p SupervisorShard 0, BlockInfoMsg bim) \<in> set (p_out (broker_leader_commit now ep req b p)) \<and>
    bcm_HandleBlockInfo E dg tm bim bcm = Inr bcm' \<and> bcm_out bcm' = bcm_out bcm @ o' \<and>
    tx2 \<in> set (injected (bcm_IpNodeTable bcm r 0) o') \<and>
    tx_Sender tx2 = br \<and> tx_Recipient tx2 = tx_Recipient tx \<and> tx_Value tx2 = tx_Value tx"
proof -
  define bim where "bim = \<lparr>bi_BlockBodyLength = length (b_Body b),
     bi_InnerShardTxs = filter (\<lambda>tx. \<not> isBroker1Tx tx \<and> \<not> isBroker2Tx tx) (b_Body b),
     bi_Epoch = ep, bi_ProposeTime = r_ReqTime req, bi_CommitTime = now, bi_SenderShardID = p_ShardID p,
     bi_Relay1Txs = [], bi_Relay2Txs = [], bi_Broker1Txs = filter (\<lambda>tx. isBroker1Tx tx \<and> \<not> isBroker2Tx tx) (b_Body b),
     bi_Broker2Txs = filter isBroker2Tx (b_Body b)\<rparr>"
  let ?txs = "bi_Broker1Txs bim @ bi_Broker2Txs bim" and ?pool = "bp_Confirm1Pool (bcm_part bcm)"
  have sent: "(ip_of p SupervisorShard 0, BlockInfoMsg bim) \<in> set (p_out (broker_leader_commit now ep req b p))"
    by (simp add: broker_leader_sends bim_def)
  have "isBroker1Tx half" "\<not> isBroker2Tx half" using assms(8,9) by (simp_all add: isBroker1Tx_def isBroker2Tx_def)
  then have "half \<in> set ?txs" using assms(11) by (simp add: bim_def)
  then have hit: "raw_of br tx \<in> set (map m1_RawMeg (confirms ?pool ?txs))"
    using confirms_hit [of half ?txs ?pool, OF _ assms(10)] by (force simp: image_iff)
  have ok: "clpa_router_ok E Map.empty" using assms(1) by (simp add: clpa_router_ok_def)
  have pan: "\<not> is_panic (fetchModifiedMap E Map.empty (tx_Recipient (rm_Tx (m1_RawMeg c))))" if "c \<in> set (confirms ?pool ?txs)" for c
    using confirms_in [OF that] assms(7) by (auto simp: fetch_no_moves intro: ranI)
  obtain o' bp' where k: "createConfirm E (bcm_IpNodeTable bcm) (Addr2Shard64 E) dg tm ?txs (bcm_part bcm) = Inr (o', bp')"
      "\<forall>sid. uint sid < ShardNum E \<longrightarrow> injected (bcm_IpNodeTable bcm sid 0) o' =
         filter (\<lambda>t. Addr2Shard64 E (tx_Recipient t) = Inr sid) (halves2 E tm br (map m1_RawMeg (confirms ?pool ?txs)))"
    by (rule createConfirm_ok [where mm = Map.empty and txs = ?txs and tm = tm, unfolded fetch_no_moves,
          OF ok assms(2-6) pan [unfolded fetch_no_moves]])
  obtain tx2 where tx2: "tx2 \<in> set (halves2 E tm br (map m1_RawMeg (confirms ?pool ?txs)))" "tx_Sender tx2 = br"
      "tx_Recipient tx2 = tx_Recipient tx" "tx_Value tx2 = tx_Value tx"
    using halves2_hit [OF hit, of E tm br] by auto
  have "uint r < ShardNum E" by (rule Addr2Shard64_range(1) [OF assms(1,12)])
  then have "tx2 \<in> set (injected (bcm_IpNodeTable bcm r 0) o')" using k(2) tx2 assms(12) by simp
  moreover have "bi_BlockBodyLength bim \<noteq> 0" using assms(11) by (auto simp: bim_def)
  then have "bcm_HandleBlockInfo E dg tm bim bcm = Inr (bcm\<lparr>bcm_part := bp', bcm_out := bcm_out bcm @ o'\<rparr>)"
    using k(1) by (simp add: bcm_HandleBlockInfo_def)
  ultimately show ?thesis using sent tx2
    by (intro exI [of _ bim] exI [of _ "bcm\<lparr>bcm_part := bp', bcm_out := bcm_out bcm @ o'\<rparr>"] exI [of _ o'] exI [of _ tx2]) simp
qed

theorem committed_half_is_paid_on_witness:
  "\<exists>tx1 bim bcm bcm' (tx2 :: transaction).
     (ip_of (demo_node (demo_root_chain []) 0) SupervisorShard 0, BlockInfoMsg bim) \<in>
       set (p_out (broker_leader_commit 7 0 (demo_req (demo_next [] [tx1])) (demo_next [] [tx1]) (demo_node (demo_root_chain []) 0))) \<and>
     bcm_HandleBlockInfo demo_env demo_dg (\<lambda>i. 8) bim bcm = Inr bcm' \<and> tx_Recipient tx2 = ''b1'' \<and> tx_Value tx2 = 5"
proof -
  let ?tx1 = "make_tx1 demo_env 3 \<lparr>t1_RawMeg = raw_of ''c0'' demo_payment, t1_Broker = ''c0''\<rparr>"
  let ?c = "\<lparr>m1_Tx1Hash = tx_TxHash ?tx1, m1_RawMeg = raw_of ''c0'' demo_payment\<rparr>"
  let ?bp = "demo_part\<lparr>bp_broker := (bp_broker demo_part)\<lparr>br_BrokerRawMegs := [tx_TxHash demo_payment \<mapsto> raw_of ''c0'' demo_payment]\<rparr>,
     bp_Confirm1Pool := [tx_TxHash ?tx1 \<mapsto> ?c]\<rparr>"
  let ?bcm = "(NewBrokerCommitteeMod 1 [''c0''] demo_ips (NewStopSignal 6) 10 2)\<lparr>bcm_part := ?bp\<rparr>"
  have p: "bcm_part ?bcm = ?bp" "bcm_IpNodeTable ?bcm = demo_ips" by (simp_all add: NewBrokerCommitteeMod_def)
  have v: "tx_Value demo_payment = 5" by (simp add: demo_payment_def)
  note f = demo_broker(4-6) [unfolded fetch_no_moves]
  have inv: "broker_inv demo_dg (bcm_part ?bcm)" unfolding p by (simp add: broker_inv_def demo_part_def new_broker_part_def demo_dg_def)
  have fb: "first_broker (bcm_part ?bcm) = Inr ''c0''" unfolding p using demo_broker(3) by (simp add: first_broker_def)
  have np: "\<not> is_panic (Addr2Shard64 demo_env ''c0'')" "''c0'' \<noteq> tx_Recipient demo_payment" using f demo_broker(8) by simp_all
  have ran: "\<forall>m \<in> ran (bp_Confirm1Pool (bcm_part ?bcm)). \<not> is_panic (Addr2Shard64 demo_env (tx_Recipient (rm_Tx (m1_RawMeg m))))"
    unfolding p using f demo_broker(8) by simp
  have c: "bp_Confirm1Pool (bcm_part ?bcm) (tx_TxHash ?tx1) = Some ?c" unfolding p by simp
  have e: "?tx1 = make_tx1 demo_env 3 \<lparr>t1_RawMeg = raw_of ''c0'' demo_payment, t1_Broker = ''c0''\<rparr>" by simp
  have sep: "separate demo_env (bcm_IpNodeTable ?bcm)" unfolding p by (rule demo_committee_env(2))
  have b: "?tx1 \<in> set (b_Body (demo_next [] [?tx1]))" by (simp add: demo_next_def)
  have r: "Addr2Shard64 demo_env (tx_Recipient demo_payment) = Inr 1" using f demo_broker(8) by simp
  from committed_half_is_paid_on [where E = demo_env and bcm = ?bcm and dg = demo_dg and br = "''c0''" and tx = demo_payment and r = 1
      and b = "demo_next [] [?tx1]" and half = ?tx1 and t = 3 and p = "demo_node (demo_root_chain []) 0" and now = 7 and ep = 0
      and req = "demo_req (demo_next [] [?tx1])" and tm = "\<lambda>i. 8",
      OF demo_committee_env(1) sep demo_committee_env(3) inv fb np(1) ran e np(2) c b r]
  show ?thesis unfolding v demo_broker(8) by (elim exE conjE) (intro exI conjI; assumption)
qed

end
